(* ===== verification/Prelude.thy ===== *)
theory Prelude
  imports Complex_Main "HOL-Library.List_Lexorder" "HOL-Library.Char_ord" "HOL-Library.AList"
begin

text \<open>
  What every component of the development shares: the exceptions of the platform as one sum
  type, the \<open>__post_init__\<close> idiom (an ordered list of guards of which the first violated one
  raises), Python's ordered dictionaries as association lists, the closed regular expressions
  as predicates on character lists, and the collections of rewrite rules the component
  theories add to.
\<close>

section \<open>Rule collections\<close>

named_theorems guard_simps
  "turn a successful validation into the facts its guards establish"
named_theorems dec_simps
  "read a decimal operation as an operation on rationals"
named_theorems state_simps
  "effect of an operation on the fields of a component's state"

section \<open>Exceptions as values\<close>

text \<open>
  One constructor per exception class of the modelled modules (\<open>platform/errors.py\<close> and the
  subclasses the components declare); the argument is the message of the \<open>raise\<close>.
  \<open>DecimalException\<close> stands for the trapped conditions of the \<open>decimal\<close> module.
\<close>

datatype error =
    DomainValidationError string
  | CanonicalizationError string
  | ExecutionValidationError string
  | RiskLatchError string
  | RiskStatisticsError string
  | SignedRiskValidationError string
  | SignedRiskPolicyError string
  | DecimalException string
  | AuditValidationError string
  | AuditIntegrityError string
  | SignalValidationError string
  | SlotValidationError string
  | SlotPersistenceError string
  | SlotTransitionError string
  | BrokerSubmissionUncertain string bool
  | DuplicateClientOrderId string
  | KeyError string
  | ValueError string
  | StopIteration

type_synonym 'a res = "error + 'a"

text \<open>Sequencing: the rest runs only if the first computation did not raise.\<close>

fun bindE :: "'a res \<Rightarrow> ('a \<Rightarrow> 'b res) \<Rightarrow> 'b res" where
  "bindE (Inl e) f = Inl e"
| "bindE (Inr x) f = f x"

lemma bindE_Inr_iff [simp, guard_simps]:
  "bindE m f = Inr y \<longleftrightarrow> (\<exists>x. m = Inr x \<and> f x = Inr y)"
  by (cases m) auto

lemma bindE_Inl_iff: "bindE m f = Inl e \<longleftrightarrow> m = Inl e \<or> (\<exists>x. m = Inr x \<and> f x = Inl e)"
  by (cases m) auto

lemma bindE_assoc: "bindE (bindE m f) g = bindE m (\<lambda>x. bindE (f x) g)"
  by (cases m) simp_all

text \<open>An evaluated test on a result says that the computation did not raise.\<close>

lemma res_evaluates: "(case m of Inr x \<Rightarrow> P x | Inl e \<Rightarrow> False) \<Longrightarrow> \<exists>x. m = Inr x \<and> P x"
  by (cases m) auto

text \<open>\<open>except DomainValidationError: raise X(...)\<close>: rename every error of a computation.\<close>

fun rethrow :: "error \<Rightarrow> 'a res \<Rightarrow> 'a res" where
  "rethrow e (Inl _) = Inl e"
| "rethrow e (Inr x) = Inr x"

lemma rethrow_Inr_iff [simp, guard_simps]: "rethrow e m = Inr y \<longleftrightarrow> m = Inr y"
  by (cases m) auto

text \<open>A block of guards: the first violated one is raised, in source order.\<close>

fun first_error :: "(bool \<times> error) list \<Rightarrow> error option" where
  "first_error [] = None"
| "first_error ((bad, e) # gs) = (if bad then Some e else first_error gs)"

lemma first_error_None_iff: "first_error gs = None \<longleftrightarrow> (\<forall>(bad, e) \<in> set gs. \<not> bad)"
  by (induction gs rule: first_error.induct) auto

lemma first_error_append:
  "first_error (gs @ hs) = (case first_error gs of None \<Rightarrow> first_error hs | Some e \<Rightarrow> Some e)"
  by (induction gs rule: first_error.induct) auto

lemma first_error_Some_bad: "first_error gs = Some e \<Longrightarrow> \<exists>(bad, e') \<in> set gs. bad \<and> e' = e"
  by (induction gs rule: first_error.induct) (auto split: if_splits)

text \<open>Run the guards, then continue.\<close>

definition guarded :: "(bool \<times> error) list \<Rightarrow> 'a res \<Rightarrow> 'a res" where
  "guarded gs k = (case first_error gs of Some e \<Rightarrow> Inl e | None \<Rightarrow> k)"

text \<open>No guard is violated.\<close>

definition guards_ok :: "(bool \<times> error) list \<Rightarrow> bool" where
  "guards_ok gs \<longleftrightarrow> (\<forall>(bad, e) \<in> set gs. \<not> bad)"

lemma guards_ok_simps [simp]:
  "guards_ok []" "guards_ok (g # gs) \<longleftrightarrow> \<not> fst g \<and> guards_ok gs"
  "guards_ok (gs @ hs) \<longleftrightarrow> guards_ok gs \<and> guards_ok hs"
  "guards_ok (concat gss) \<longleftrightarrow> (\<forall>gs \<in> set gss. guards_ok gs)"
  by (auto simp: guards_ok_def)

lemma guarded_eval: "guarded [] k = k" "guarded ((b, e) # gs) k = (if b then Inl e else guarded gs k)"
  by (simp_all add: guarded_def)

lemma guarded_ok [simp]: "guards_ok gs \<Longrightarrow> guarded gs k = k"
  by (simp add: guarded_def guards_ok_def first_error_None_iff [symmetric])

lemma guarded_Inr_iff [simp, guard_simps]: "guarded gs k = Inr y \<longleftrightarrow> guards_ok gs \<and> k = Inr y"
  by (auto simp: guarded_def guards_ok_def first_error_None_iff split: option.splits
      dest: first_error_Some_bad)

text \<open>An error of a guarded computation is one of the guards' errors or comes from the rest.\<close>

lemma guarded_Inl_dest: "guarded gs k = Inl e \<Longrightarrow> e \<in> snd ` set gs \<or> (guards_ok gs \<and> k = Inl e)"
  by (force simp: guarded_def guards_ok_def first_error_None_iff split: option.splits
      dest: first_error_Some_bad)

lemma guarded_Inl_iff:
  "guarded [] k = Inl e \<longleftrightarrow> k = Inl e"
  "guarded (g # gs) k = Inl e \<longleftrightarrow> (fst g \<and> snd g = e \<or> \<not> fst g \<and> guarded gs k = Inl e)"
  by (simp add: guarded_def) (cases g, auto simp: guarded_def)

text \<open>Map a fallible function over a list, left to right, stopping at the first error.\<close>

fun mapE :: "('a \<Rightarrow> 'b res) \<Rightarrow> 'a list \<Rightarrow> 'b list res" where
  "mapE f [] = Inr []"
| "mapE f (x # xs) = bindE (f x) (\<lambda>y. bindE (mapE f xs) (\<lambda>ys. Inr (y # ys)))"

lemma mapE_length: "mapE f xs = Inr ys \<Longrightarrow> length ys = length xs"
  by (induction xs arbitrary: ys) auto

lemma mapE_Inr_list_all2: "mapE f xs = Inr ys \<longleftrightarrow> list_all2 (\<lambda>x y. f x = Inr y) xs ys"
proof (induction xs arbitrary: ys)
  case Nil
  show ?case by (cases ys) auto
next
  case (Cons x xs)
  then show ?case by (cases ys) auto
qed

lemma mapE_map:
  assumes "\<And>x y. x \<in> set xs \<Longrightarrow> f x = Inr y \<longleftrightarrow> P x \<and> y = g x"
  shows "mapE f xs = Inr ys \<longleftrightarrow> (\<forall>x \<in> set xs. P x) \<and> ys = map g xs"
  using assms
proof (induction xs arbitrary: ys)
  case Nil
  show ?case by auto
next
  case (Cons x xs)
  have "f x = Inr y \<longleftrightarrow> P x \<and> y = g x" for y by (rule Cons.prems) simp
  moreover have "mapE f xs = Inr zs \<longleftrightarrow> (\<forall>x \<in> set xs. P x) \<and> zs = map g xs" for zs
    by (rule Cons.IH) (rule Cons.prems, simp)
  ultimately show ?case by auto
qed

lemma mapE_nth: "mapE f xs = Inr ys \<Longrightarrow> i < length xs \<Longrightarrow> f (xs ! i) = Inr (ys ! i)"
  by (simp add: mapE_Inr_list_all2 list_all2_conv_all_nth)

lemma mapE_in_set:
  assumes "mapE f xs = Inr ys" and "y \<in> set ys"
  obtains x where "x \<in> set xs" and "f x = Inr y"
  using assms by (metis mapE_length mapE_nth in_set_conv_nth nth_mem)

lemma mapE_in_dom:
  assumes "mapE f xs = Inr ys" and "x \<in> set xs"
  obtains y where "y \<in> set ys" and "f x = Inr y"
  using assms by (metis mapE_length mapE_nth in_set_conv_nth nth_mem)

text \<open>A loop whose body may raise.\<close>

fun foldE :: "('a \<Rightarrow> 's \<Rightarrow> 's res) \<Rightarrow> 'a list \<Rightarrow> 's \<Rightarrow> 's res" where
  "foldE f [] s = Inr s"
| "foldE f (x # xs) s = bindE (f x s) (foldE f xs)"

lemma foldE_invariant:
  "foldE f xs s = Inr s' \<Longrightarrow> I s \<Longrightarrow> (\<And>x s s'. x \<in> set xs \<Longrightarrow> I s \<Longrightarrow> f x s = Inr s' \<Longrightarrow> I s') \<Longrightarrow> I s'"
proof (induction xs arbitrary: s)
  case Nil
  then show ?case by simp
next
  case (Cons x xs)
  then obtain t where t: "f x s = Inr t" "foldE f xs t = Inr s'" by auto
  have "I t" by (rule Cons.prems(3) [OF _ Cons.prems(2) t(1)]) simp
  with t(2) show ?case by (rule Cons.IH) (rule Cons.prems(3), simp_all)
qed

text \<open>A loop that only appends to its two accumulators collects what the elements contribute.\<close>

lemma foldE_appends:
  assumes "\<And>t a b. f t (a, b) = bindE (f t ([], [])) (\<lambda>(x, y). Inr (a @ x, b @ y))"
    and "foldE f ts (a, b) = Inr (ds, rs)"
  shows "\<exists>xs. mapE (\<lambda>t. f t ([], [])) ts = Inr xs \<and> ds = a @ concat (map fst xs) \<and> rs = b @ concat (map snd xs)"
  using assms(2)
proof (induction ts arbitrary: a b)
  case Nil
  then show ?case by simp
next
  case (Cons t ts)
  obtain x y where xy: "f t ([], []) = Inr (x, y)" "foldE f ts (a @ x, b @ y) = Inr (ds, rs)"
    using Cons.prems assms(1) [of t a b] by (auto split: prod.splits)
  from Cons.IH [OF xy(2)] xy(1) show ?case by auto
qed

text \<open>Selecting by key from the concatenation of lists with distinct keys.\<close>

lemma filter_concat_keyed:
  assumes "list_all2 (\<lambda>t ys. \<forall>y \<in> set ys. key y = k t) ts yss" and "distinct (map k ts)" and "(t, ys) \<in> set (zip ts yss)"
  shows "filter (\<lambda>y. key y = k t) (concat yss) = ys"
  using assms
proof (induction arbitrary: t ys rule: list_all2_induct)
  case Nil
  then show ?case by simp
next
  case (Cons u us zs zss)
  show ?case
  proof (cases "(t, ys) = (u, zs)")
    case True
    have "\<exists>v \<in> set us. key y = k v" if "y \<in> set (concat zss)" for y
      using Cons.hyps(2) that by (fastforce simp: list_all2_conv_all_nth in_set_conv_nth)
    moreover have "k v \<noteq> k u" if "v \<in> set us" for v using Cons.prems(1) that by (metis distinct.simps(2) image_eqI list.set_map list.simps(9))
    ultimately have "filter (\<lambda>y. key y = k t) (concat zss) = []" using True by (fastforce simp: filter_empty_conv)
    moreover have "filter (\<lambda>y. key y = k t) zs = zs" using True Cons.hyps(1) by (simp add: filter_id_conv)
    ultimately show ?thesis using True by simp
  next
    case False
    then have t: "(t, ys) \<in> set (zip us zss)" using Cons.prems(2) by auto
    then have "t \<in> set us" by (rule set_zip_leftD)
    then have "k t \<noteq> k u" using Cons.prems(1) by (metis distinct.simps(2) image_eqI list.set_map list.simps(9))
    then have "filter (\<lambda>y. key y = k t) zs = []" using Cons.hyps(1) by (auto simp: filter_empty_conv)
    then show ?thesis using Cons.IH [OF _ t] Cons.prems(1) by simp
  qed
qed

section \<open>Ordered, duplicate-free tuples\<close>

text \<open>\<open>tuple(sorted(set(xs)))\<close>.\<close>

definition sorted_set :: "'a::linorder list \<Rightarrow> 'a list" where
  "sorted_set xs = sort (remdups xs)"

lemma set_sorted_set [simp]: "set (sorted_set xs) = set xs"
  by (simp add: sorted_set_def)

lemma sorted_sorted_set [simp]: "sorted (sorted_set xs)"
  by (simp add: sorted_set_def)

lemma distinct_sorted_set [simp]: "distinct (sorted_set xs)"
  by (simp add: sorted_set_def)

lemma sorted_set_fixpoint: "sorted_set xs = xs \<longleftrightarrow> sorted xs \<and> distinct xs"
  by (metis distinct_sorted_set sorted_sorted_set sorted_set_def distinct_remdups_id
      sorted_sort_id)

section \<open>Python dictionaries\<close>

text \<open>
  A dictionary keeps its insertion order: \<open>d[k] = v\<close> replaces the value of a key in place and
  appends a new key at the end, which is what \<^term>\<open>AList.update\<close> does.
\<close>

type_synonym ('k, 'v) dict = "('k \<times> 'v) list"

definition dict_keys :: "('k, 'v) dict \<Rightarrow> 'k list" where
  "dict_keys d = map fst d"

definition dict_get :: "('k, 'v) dict \<Rightarrow> 'k \<Rightarrow> 'v \<Rightarrow> 'v" where
  "dict_get d k x = (case map_of d k of None \<Rightarrow> x | Some v \<Rightarrow> v)"

definition dict_setdefault :: "'k \<Rightarrow> 'v \<Rightarrow> ('k, 'v) dict \<Rightarrow> ('k, 'v) dict" where
  "dict_setdefault k v d = (case map_of d k of None \<Rightarrow> d @ [(k, v)] | Some _ \<Rightarrow> d)"

text \<open>\<open>{key(x): x for x in xs}\<close>: a later entry of the same key replaces the value in place.\<close>

definition dict_by :: "('a \<Rightarrow> 'k) \<Rightarrow> 'a list \<Rightarrow> ('k, 'a) dict" where
  "dict_by key xs = fold (\<lambda>x d. AList.update (key x) x d) xs []"

definition dict_values :: "('k, 'v) dict \<Rightarrow> 'v list" where
  "dict_values d = map snd d"

lemma map_of_update_alist [simp]: "map_of (AList.update k v d) = (map_of d)(k \<mapsto> v)"
  by (rule update_conv')

lemma distinct_keys_update: "distinct (map fst d) \<Longrightarrow> distinct (map fst (AList.update k v d))"
  by (rule distinct_update)

lemma map_of_fold_update:
  "map_of (fold (\<lambda>x d. AList.update (key x) x d) xs d) =
    map_of d ++ map_of (rev (map (\<lambda>x. (key x, x)) xs))"
  by (induction xs arbitrary: d) (auto simp: fun_eq_iff map_add_def split: option.splits)

lemma map_of_dict_by: "map_of (dict_by key xs) = map_of (rev (map (\<lambda>x. (key x, x)) xs))"
  by (simp add: dict_by_def map_of_fold_update)

lemma distinct_keys_dict_by: "distinct (map fst (dict_by key xs))"
proof -
  have "distinct (map fst d) \<Longrightarrow>
    distinct (map fst (fold (\<lambda>x d. AList.update (key x) x d) xs d))" for d
    by (induction xs arbitrary: d) (auto intro: distinct_update)
  from this [of "[]"] show ?thesis by (simp add: dict_by_def)
qed

lemma update_nonkey: "k \<notin> fst ` set d \<Longrightarrow> AList.update k v d = d @ [(k, v)]"
  by (induction d) auto

lemma dict_by_distinct:
  "distinct (map key xs) \<Longrightarrow> dict_by key xs = map (\<lambda>x. (key x, x)) xs"
proof -
  have "distinct (map key (ys @ xs)) \<Longrightarrow>
    fold (\<lambda>x d. AList.update (key x) x d) xs (map (\<lambda>x. (key x, x)) ys) =
      map (\<lambda>x. (key x, x)) (ys @ xs)" for ys
  proof (induction xs arbitrary: ys)
    case Nil
    show ?case by simp
  next
    case (Cons x xs)
    then have "key x \<notin> fst ` set (map (\<lambda>x. (key x, x)) ys)" by auto
    then have "AList.update (key x) x (map (\<lambda>x. (key x, x)) ys) =
        map (\<lambda>x. (key x, x)) (ys @ [x])"
      by (simp add: update_nonkey)
    with Cons.IH [of "ys @ [x]"] Cons.prems show ?case by simp
  qed
  from this [of "[]"] show "distinct (map key xs) \<Longrightarrow> dict_by key xs = map (\<lambda>x. (key x, x)) xs"
    by (simp add: dict_by_def)
qed

text \<open>\<open>d.setdefault(k, []).append(x)\<close>, and the dictionary of lists a loop of it builds.\<close>

definition dict_append :: "'k \<Rightarrow> 'a \<Rightarrow> ('k, 'a list) dict \<Rightarrow> ('k, 'a list) dict" where
  "dict_append k x d = AList.update k (dict_get d k [] @ [x]) d"

lemma dict_get_dict_append [simp]:
  "dict_get (dict_append j x d) k [] = dict_get d k [] @ (if j = k then [x] else [])"
  by (simp add: dict_append_def dict_get_def)

lemma dict_get_grouped:
  "dict_get (fold (\<lambda>x. dict_append (key x) x) xs d) k [] = dict_get d k [] @ filter (\<lambda>x. key x = k) xs"
  by (induction xs arbitrary: d) simp_all

lemma keys_grouped:
  "set (map fst (fold (\<lambda>x. dict_append (key x) x) xs d)) = set (map fst d) \<union> key ` set xs"
  by (induction xs arbitrary: d) (auto simp: dict_append_def dom_update image_iff)

lemma distinct_grouped:
  "distinct (map fst d) \<Longrightarrow> distinct (map fst (fold (\<lambda>x. dict_append (key x) x) xs d))"
  by (induction xs arbitrary: d) (auto simp: dict_append_def distinct_update)

lemma dict_get_entry: "distinct (map fst d) \<Longrightarrow> (k, v) \<in> set d \<Longrightarrow> dict_get d k x = v"
  by (simp add: dict_get_def)

lemma set_concat_dict_append:
  "distinct (map fst d) \<Longrightarrow> set (concat (map snd (dict_append k x d))) = insert x (set (concat (map snd d)))"
  by (induction d) (auto simp: dict_append_def dict_get_def split: if_splits option.splits)

text \<open>\<open>dict(pairs)\<close> and \<open>d[k]\<close>.\<close>

definition dict_of_pairs :: "('k \<times> 'v) list \<Rightarrow> ('k, 'v) dict" where
  "dict_of_pairs ps = fold (\<lambda>(k, v). AList.update k v) ps []"

definition dict_item :: "(string, 'v) dict \<Rightarrow> string \<Rightarrow> 'v res" where
  "dict_item d k = (case map_of d k of None \<Rightarrow> Inl (KeyError k) | Some v \<Rightarrow> Inr v)"

lemma dict_of_pairs_distinct: "distinct (map fst ps) \<Longrightarrow> dict_of_pairs ps = ps"
proof -
  have "distinct (map fst (d @ ps)) \<Longrightarrow> fold (\<lambda>(k, v). AList.update k v) ps d = d @ ps" for d
  proof (induction ps arbitrary: d)
    case (Cons p ps)
    obtain k v where p: "p = (k, v)" by (cases p)
    have "AList.update k v d = d @ [(k, v)]" using Cons.prems by (intro update_nonkey) (auto simp: p)
    then show ?case using Cons.IH [of "d @ [(k, v)]"] Cons.prems by (simp add: p)
  qed simp
  from this [of "[]"] show "distinct (map fst ps) \<Longrightarrow> dict_of_pairs ps = ps" by (simp add: dict_of_pairs_def)
qed

text \<open>\<open>_duplicates\<close>-style scans: the elements seen before, in first-repeat order.\<close>

fun repeated :: "'a list \<Rightarrow> 'a list \<Rightarrow> 'a list" where
  "repeated seen [] = []"
| "repeated seen (x # xs) = (if x \<in> set seen then x # repeated seen xs else repeated (x # seen) xs)"

lemma set_repeated:
  "distinct seen \<Longrightarrow> x \<in> set (repeated seen xs) \<longleftrightarrow>
    count_list xs x + (if x \<in> set seen then 1 else 0) \<ge> 2"
  by (induction seen xs rule: repeated.induct) (auto simp: count_list_0_iff)

lemma repeated_empty_iff_distinct: "repeated [] xs = [] \<longleftrightarrow> distinct xs"
proof -
  have "repeated seen xs = [] \<longleftrightarrow> distinct xs \<and> set seen \<inter> set xs = {}" for seen :: "'a list"
    by (induction seen xs rule: repeated.induct) auto
  then show ?thesis by simp
qed

section \<open>Closed identifier patterns\<close>

text \<open>The character classes and anchored patterns of \<open>execution/models.py\<close> and \<open>domain.py\<close>.\<close>

definition is_upper :: "char \<Rightarrow> bool" where
  "is_upper c \<longleftrightarrow> CHR ''A'' \<le> c \<and> c \<le> CHR ''Z''"

definition is_lower :: "char \<Rightarrow> bool" where
  "is_lower c \<longleftrightarrow> CHR ''a'' \<le> c \<and> c \<le> CHR ''z''"

text \<open>\<open>str.lower()\<close> and \<open>str.upper()\<close> of an ASCII character.\<close>

definition lower_char :: "char \<Rightarrow> char" where
  "lower_char c = (if is_upper c then char_of (of_char c + 32 :: nat) else c)"

definition upper_char :: "char \<Rightarrow> char" where
  "upper_char c = (if is_lower c then char_of ((of_char c :: nat) - 32) else c)"

definition is_digit :: "char \<Rightarrow> bool" where
  "is_digit c \<longleftrightarrow> CHR ''0'' \<le> c \<and> c \<le> CHR ''9''"

definition is_hex :: "char \<Rightarrow> bool" where
  "is_hex c \<longleftrightarrow> is_digit c \<or> (CHR ''a'' \<le> c \<and> c \<le> CHR ''f'')"

text \<open>\<open>^H T{0,n}$\<close>: one head character and at most \<open>n\<close> tail characters.\<close>

definition head_tail :: "(char \<Rightarrow> bool) \<Rightarrow> (char \<Rightarrow> bool) \<Rightarrow> nat \<Rightarrow> string \<Rightarrow> bool" where
  "head_tail H T n s =
    (case s of [] \<Rightarrow> False | c # cs \<Rightarrow> H c \<and> list_all T cs \<and> length cs \<le> n)"

definition is_symbol :: "string \<Rightarrow> bool" where
  "is_symbol = head_tail is_upper (\<lambda>c. is_upper c \<or> is_digit c \<or> c = CHR ''.'') 9"

definition is_hash :: "string \<Rightarrow> bool" where
  "is_hash s \<longleftrightarrow> length s = 64 \<and> list_all is_hex s"

definition is_safe_code :: "string \<Rightarrow> bool" where
  "is_safe_code = head_tail is_lower (\<lambda>c. is_lower c \<or> is_digit c \<or> c = CHR ''_'') 63"

definition is_identifier :: "string \<Rightarrow> bool" where
  "is_identifier = head_tail (\<lambda>c. is_upper c \<or> is_lower c \<or> is_digit c)
     (\<lambda>c. is_upper c \<or> is_lower c \<or> is_digit c \<or> c \<in> set ''_.:-'') 127"

definition is_account_id :: "string \<Rightarrow> bool" where
  "is_account_id = head_tail (\<lambda>c. is_upper c \<or> is_lower c \<or> is_digit c)
     (\<lambda>c. is_upper c \<or> is_lower c \<or> is_digit c \<or> c \<in> set ''_.-'') 63"

definition is_id_prefix :: "string \<Rightarrow> bool" where
  "is_id_prefix = head_tail is_lower (\<lambda>c. is_lower c \<or> is_digit c \<or> c = CHR ''_'') 31"

text \<open>
  \<open>^[a-z][a-z0-9_]{0,31}_[0-9a-f]{64}$\<close>: the hash is the last 64 characters, the separator the
  one before, so the match is decided by the length.
\<close>

definition is_content_id :: "string \<Rightarrow> bool" where
  "is_content_id s \<longleftrightarrow> 65 < length s \<and>
     is_id_prefix (take (length s - 65) s) \<and>
     s ! (length s - 65) = CHR ''_'' \<and> is_hash (drop (length s - 64) s)"

definition starts_with :: "string \<Rightarrow> string \<Rightarrow> bool" where
  "starts_with p s \<longleftrightarrow> take (length p) s = p"

text \<open>\<open>^tag_[0-9a-f]{64}$\<close>.\<close>

definition is_tagged_hash :: "string \<Rightarrow> string \<Rightarrow> bool" where
  "is_tagged_hash tag s \<longleftrightarrow> starts_with (tag @ ''_'') s \<and> is_hash (drop (length tag + 1) s)"

lemma is_tagged_hash_append [simp]: "is_tagged_hash tag (tag @ CHR ''_'' # h) \<longleftrightarrow> is_hash h"
  by (simp add: is_tagged_hash_def starts_with_def)

lemma is_content_id_prefix_hash:
  assumes "is_id_prefix p" and "is_hash h"
  shows "is_content_id (p @ ''_'' @ h)"
proof -
  have "p \<noteq> []" using assms(1) by (auto simp: is_id_prefix_def head_tail_def)
  with assms show ?thesis
    by (simp add: is_content_id_def is_hash_def nth_append)
qed

lemma starts_with_append [simp]: "starts_with p (p @ s)"
  by (simp add: starts_with_def)

text \<open>\<open>','.join(xs)\<close> and the fields of a string between separators.\<close>

fun join :: "string \<Rightarrow> string list \<Rightarrow> string" where
  "join sep [] = []"
| "join sep [x] = x"
| "join sep (x # y # xs) = x @ sep @ join sep (y # xs)"

fun split_on :: "char \<Rightarrow> string \<Rightarrow> string list" where
  "split_on c [] = [[]]"
| "split_on c (x # xs) =
     (if x = c then [] # split_on c xs
      else (case split_on c xs of [] \<Rightarrow> [[x]] | f # fs \<Rightarrow> (x # f) # fs))"

lemma split_on_not_Nil [simp]: "split_on c s \<noteq> []"
  by (induction s) (auto split: list.splits)

lemma split_on_none: "c \<notin> set s \<Longrightarrow> split_on c s = [s]"
  by (induction s) auto

lemma split_on_append:
  "c \<notin> set s \<Longrightarrow> split_on c (s @ c # t) = s # split_on c t"
  by (induction s) auto

end
