(* ===== verification/Decimals.thy ===== *)
theory Decimals
  imports Prelude
begin

text \<open>
  Finite values of Python's \<open>decimal.Decimal\<close> as the code sees them: an integer coefficient
  and an exponent, so that the bounds on digits and exponents that
  \<open>domain.require_finite_decimal\<close> checks are checks of the model too, and the arithmetic of a
  context of precision \<open>p\<close>: every operation computes exactly and then rounds half-even to
  \<open>p\<close> significant digits. The platform uses the default context (28), \<open>Context(prec=50)\<close> in the
  risk modules and \<open>Context(prec=260)\<close> in \<open>domain.quantize_decimal\<close>.
  The results that carry the components: rounding is monotone, idempotent and exact on values of
  at most \<open>p\<close> digits (the locale \<open>decimal_context\<close>, interpreted at 28 and 50 digits), quotients obey the
  same order law, and quantizing down is the floor on the grid.
  Not-a-number and the infinities never pass the \<open>is_finite\<close> tests of the code, and the default
  traps keep finite operands finite, so the type has no constructor for them; a negative zero is
  the zero it is equal to.
\<close>

section \<open>Values\<close>

datatype decimal = Dec (coeff: int) (expo: int)

definition dval :: "decimal \<Rightarrow> rat" where
  "dval d = of_int (coeff d) * 10 powi expo d"

text \<open>\<open>len(value.as_tuple().digits)\<close>; zero has one digit.\<close>

fun ndigits :: "int \<Rightarrow> int" where
  "ndigits n = (if n < 10 then 1 else 1 + ndigits (n div 10))"

declare ndigits.simps [simp del]

definition p10 :: "int \<Rightarrow> int" where
  "p10 k = 10 ^ nat k"

text \<open>Comparison is exact: both coefficients are brought to the smaller exponent.\<close>

definition dalign :: "decimal \<Rightarrow> decimal \<Rightarrow> int \<times> int" where
  "dalign a b = (let m = min (expo a) (expo b)
     in (coeff a * p10 (expo a - m), coeff b * p10 (expo b - m)))"

definition dle :: "decimal \<Rightarrow> decimal \<Rightarrow> bool" where
  "dle a b = (case dalign a b of (x, y) \<Rightarrow> x \<le> y)"

definition dlt :: "decimal \<Rightarrow> decimal \<Rightarrow> bool" where
  "dlt a b = (case dalign a b of (x, y) \<Rightarrow> x < y)"

definition deq :: "decimal \<Rightarrow> decimal \<Rightarrow> bool" where
  "deq a b = (case dalign a b of (x, y) \<Rightarrow> x = y)"

abbreviation dzero :: decimal where
  "dzero \<equiv> Dec 0 0"

abbreviation dunit :: decimal where
  "dunit \<equiv> Dec 1 0"

text \<open>The built-in \<open>min\<close> and \<open>max\<close> return the first of two equal arguments.\<close>

definition dmin :: "decimal \<Rightarrow> decimal \<Rightarrow> decimal" where
  "dmin a b = (if dlt b a then b else a)"

definition dmax :: "decimal \<Rightarrow> decimal \<Rightarrow> decimal" where
  "dmax a b = (if dlt a b then b else a)"

section \<open>Context arithmetic\<close>

text \<open>Divide a coefficient by \<open>m\<close>, rounding half to even, symmetrically in the sign.\<close>

definition rhe :: "int \<Rightarrow> int \<Rightarrow> int" where
  "rhe c m = (let q = \<bar>c\<bar> div m; r = \<bar>c\<bar> mod m;
     q' = (if 2 * r > m \<or> (2 * r = m \<and> odd q) then q + 1 else q) in sgn c * q')"

fun dfix :: "int \<Rightarrow> decimal \<Rightarrow> decimal" where
  "dfix p (Dec c e) =
     (let n = ndigits \<bar>c\<bar> in
      if n \<le> p then Dec c e
      else (let k = n - p; c' = rhe c (p10 k)
        in if \<bar>c'\<bar> = p10 p then Dec (c' div 10) (e + k + 1) else Dec c' (e + k)))"

fun dadd :: "int \<Rightarrow> decimal \<Rightarrow> decimal \<Rightarrow> decimal" where
  "dadd p (Dec a d) (Dec b e) =
     (let m = min d e in dfix p (Dec (a * p10 (d - m) + b * p10 (e - m)) m))"

definition dneg :: "int \<Rightarrow> decimal \<Rightarrow> decimal" where
  "dneg p a = dfix p (Dec (- coeff a) (expo a))"

definition dabs :: "int \<Rightarrow> decimal \<Rightarrow> decimal" where
  "dabs p a = dfix p (Dec \<bar>coeff a\<bar> (expo a))"

definition dsub :: "int \<Rightarrow> decimal \<Rightarrow> decimal \<Rightarrow> decimal" where
  "dsub p a b = dadd p a (Dec (- coeff b) (expo b))"

fun dmul :: "int \<Rightarrow> decimal \<Rightarrow> decimal \<Rightarrow> decimal" where
  "dmul p (Dec a d) (Dec b e) = dfix p (Dec (a * b) (d + e))"

text \<open>
  Division: \<open>p + 1\<close> or \<open>p + 2\<close> quotient digits, the last one made sticky when the division is
  inexact; an exact quotient drops trailing zeros down to the ideal exponent. \<open>None\<close> is the
  trapped division by zero.
\<close>

fun dstrip :: "nat \<Rightarrow> int \<Rightarrow> int \<Rightarrow> decimal" where
  "dstrip 0 c e = Dec c e"
| "dstrip (Suc k) c e = (if c mod 10 = 0 then dstrip k (c div 10) (e + 1) else Dec c e)"

definition ddiv_mag :: "int \<Rightarrow> int \<Rightarrow> int \<Rightarrow> int \<Rightarrow> int \<Rightarrow> decimal" where
  "ddiv_mag p a d b e =
     (let shift = ndigits b - ndigits a + p + 1; x = d - e - shift;
          num = a * p10 shift; den = b * p10 (- shift);
          q = num div den; r = num mod den
      in if r \<noteq> 0 then Dec (if q mod 5 = 0 then q + 1 else q) x
         else dstrip (nat shift) q x)"

fun ddiv :: "int \<Rightarrow> decimal \<Rightarrow> decimal \<Rightarrow> decimal option" where
  "ddiv p (Dec a d) (Dec b e) =
     (if b = 0 then None
      else if a = 0 then Some (Dec 0 (d - e))
      else (case ddiv_mag p \<bar>a\<bar> d \<bar>b\<bar> e of
              Dec q x \<Rightarrow> Some (dfix p (Dec (sgn a * sgn b * q) x))))"

definition dsum :: "int \<Rightarrow> decimal list \<Rightarrow> decimal" where
  "dsum p xs = foldl (dadd p) dzero xs"

section \<open>The platform's decimal boundary (\<open>domain.py\<close>)\<close>

definition MAX_DOMAIN_DECIMAL_DIGITS :: int where
  "MAX_DOMAIN_DECIMAL_DIGITS = 64"

definition MIN_DOMAIN_DECIMAL_EXPONENT :: int where
  "MIN_DOMAIN_DECIMAL_EXPONENT = - 64"

definition MAX_DOMAIN_DECIMAL_EXPONENT :: int where
  "MAX_DOMAIN_DECIMAL_EXPONENT = 64"

definition domain_decimal :: "decimal \<Rightarrow> bool" where
  "domain_decimal d \<longleftrightarrow>
     ndigits \<bar>coeff d\<bar> \<le> MAX_DOMAIN_DECIMAL_DIGITS \<and>
     MIN_DOMAIN_DECIMAL_EXPONENT \<le> expo d \<and> expo d \<le> MAX_DOMAIN_DECIMAL_EXPONENT"

definition require_finite_decimal :: "decimal \<Rightarrow> decimal res" where
  "require_finite_decimal d =
     (if domain_decimal d then Inr d
      else Inl (DomainValidationError ''exceeds the decimal representation limit''))"

datatype DecimalRounding =
  CEILING | DOWN | FLOOR | HALF_DOWN | HALF_EVEN | HALF_UP | UP | ZERO_FIVE_UP

text \<open>
  Round the magnitude \<open>c / m\<close> of a value of sign \<open>s\<close> to an integer under a rounding mode
  (\<open>decimal\<close>'s \<open>_round_*\<close> rules on the kept digits and the discarded tail).
\<close>

definition round_mag :: "DecimalRounding \<Rightarrow> bool \<Rightarrow> int \<Rightarrow> int \<Rightarrow> int" where
  "round_mag mode neg c m =
     (let q = c div m; r = c mod m;
          up = (case mode of
              DOWN \<Rightarrow> False
            | UP \<Rightarrow> r \<noteq> 0
            | CEILING \<Rightarrow> r \<noteq> 0 \<and> \<not> neg
            | FLOOR \<Rightarrow> r \<noteq> 0 \<and> neg
            | HALF_UP \<Rightarrow> 2 * r \<ge> m
            | HALF_DOWN \<Rightarrow> 2 * r > m
            | HALF_EVEN \<Rightarrow> 2 * r > m \<or> (2 * r = m \<and> odd q)
            | ZERO_FIVE_UP \<Rightarrow> r \<noteq> 0 \<and> q mod 5 = 0)
      in if up then q + 1 else q)"

text \<open>\<open>x.quantize(Decimal(1), rounding)\<close> in a context of precision \<open>p\<close>.\<close>

fun dquantize1 :: "int \<Rightarrow> DecimalRounding \<Rightarrow> decimal \<Rightarrow> decimal res" where
  "dquantize1 p mode (Dec c e) =
     (let c' = (if 0 \<le> e then c * p10 e
                else sgn c * round_mag mode (c < 0) \<bar>c\<bar> (p10 (- e)))
      in if ndigits \<bar>c'\<bar> > p then Inl (DecimalException ''InvalidOperation'') else Inr (Dec c' 0))"

definition QUANTIZE_PRECISION :: int where
  "QUANTIZE_PRECISION = MAX_DOMAIN_DECIMAL_DIGITS * 4 + 4"

definition quantize_decimal ::
  "decimal \<Rightarrow> decimal \<Rightarrow> DecimalRounding \<Rightarrow> decimal res" where
  "quantize_decimal value quantum rounding =
     bindE (require_finite_decimal value) (\<lambda>number.
     bindE (require_finite_decimal quantum) (\<lambda>unit.
     if dle unit dzero then Inl (DomainValidationError ''quantum must be positive'')
     else
       bindE (rethrow (DomainValidationError ''could not be quantized'')
         (case ddiv QUANTIZE_PRECISION number unit of
            None \<Rightarrow> Inl (DecimalException ''DivisionByZero'')
          | Some ratio \<Rightarrow>
              bindE (dquantize1 QUANTIZE_PRECISION rounding ratio) (\<lambda>unit_count.
                Inr (dmul QUANTIZE_PRECISION unit_count unit))))
       require_finite_decimal))"

section \<open>Digits and powers of ten\<close>


lemma p10_pos [simp]: "0 < p10 k" by (simp add: p10_def)

lemma p10_nonzero [simp]: "p10 k \<noteq> 0" by (simp add: p10_def)
lemma abs_p10 [simp]: "\<bar>p10 k\<bar> = p10 k" by (simp add: p10_def)

lemma p10_0 [simp]: "p10 0 = 1" by (simp add: p10_def)
lemma p10_nonpos: "k \<le> 0 \<Longrightarrow> p10 k = 1" by (simp add: p10_def)

lemma p10_add: "0 \<le> j \<Longrightarrow> 0 \<le> k \<Longrightarrow> p10 (j + k) = p10 j * p10 k"
  by (simp add: p10_def nat_add_distrib power_add)

lemma p10_Suc: "0 \<le> k \<Longrightarrow> p10 (k + 1) = p10 k * 10"
  by (simp add: p10_def nat_add_distrib)

lemma p10_mono: "j \<le> k \<Longrightarrow> p10 j \<le> p10 k"
  by (simp add: p10_def power_increasing nat_mono)

lemma of_int_p10: "0 \<le> k \<Longrightarrow> (of_int (p10 k) :: rat) = 10 powi k"
  by (simp add: p10_def power_int_def)

lemma powi_add: "(10 :: rat) powi (a + b) = 10 powi a * 10 powi b"
  by (simp add: power_int_add)

lemma powi_pos [simp]: "(0 :: rat) < 10 powi k"
  by (simp add: zero_less_power_int)

lemma ndigits_pos [simp]: "0 < ndigits n"
proof (induction n rule: ndigits.induct)
  case (1 n) then show ?case by (subst ndigits.simps) auto
qed

lemma ndigits_bounds: "0 < n \<Longrightarrow> p10 (ndigits n - 1) \<le> n \<and> n < p10 (ndigits n)"
proof (induction n rule: ndigits.induct)
  case (1 n)
  show ?case
  proof (cases "n < 10")
    case True with 1 show ?thesis by (simp add: ndigits.simps [of n] p10_def)
  next
    case False
    let ?k = "ndigits (n div 10)"
    have "0 < n div 10" using False by auto
    with 1 False have IH: "p10 (?k - 1) \<le> n div 10" "n div 10 < p10 ?k" by auto
    have k: "ndigits n = ?k + 1" using False by (simp add: ndigits.simps [of n])
    have "0 < ?k" by simp
    then have e: "p10 ?k = p10 (?k - 1) * 10" "p10 (?k + 1) = p10 ?k * 10"
      using p10_Suc [of "?k - 1"] p10_Suc [OF less_imp_le, of ?k] by simp_all
    show ?thesis unfolding k using IH e by auto
  qed
qed

lemma ndigits_le_iff: "0 \<le> n \<Longrightarrow> 1 \<le> k \<Longrightarrow> ndigits n \<le> k \<longleftrightarrow> n < p10 k"
proof (cases "n = 0")
  case True assume "1 \<le> k" with True show ?thesis by (simp add: ndigits.simps)
next
  case False
  assume n: "0 \<le> n" and k: "1 \<le> k"
  with False have b: "p10 (ndigits n - 1) \<le> n" "n < p10 (ndigits n)" using ndigits_bounds [of n] by auto
  show ?thesis
  proof
    assume "ndigits n \<le> k" then show "n < p10 k" using b(2) p10_mono by force
  next
    assume "n < p10 k"
    show "ndigits n \<le> k"
    proof (rule ccontr)
      assume "\<not> ndigits n \<le> k" then have "p10 k \<le> p10 (ndigits n - 1)" by (intro p10_mono) simp
      with b(1) \<open>n < p10 k\<close> show False by simp
    qed
  qed
qed

lemma ndigits_eqI: "p10 (k - 1) \<le> n \<Longrightarrow> n < p10 k \<Longrightarrow> 1 \<le> k \<Longrightarrow> ndigits n = k"
proof -
  assume a: "p10 (k - 1) \<le> n" "n < p10 k" "1 \<le> k"
  have n: "0 < n" using a(1) p10_pos [of "k - 1"] by linarith
  have "ndigits n \<le> k" using a n by (simp add: ndigits_le_iff)
  moreover have "\<not> ndigits n \<le> k - 1"
  proof (cases "k = 1")
    case True show ?thesis using ndigits_pos [of n] True by linarith
  next
    case False with a n show ?thesis using ndigits_le_iff [of n "k - 1"] by simp
  qed
  ultimately show ?thesis by simp
qed

lemma ndigits_shift: "0 < n \<Longrightarrow> 0 \<le> j \<Longrightarrow> ndigits (n * p10 j) = ndigits n + j"
proof -
  assume n: "0 < n" and j: "0 \<le> j"
  note b = ndigits_bounds [OF n]
  have k: "1 \<le> ndigits n" using ndigits_pos [of n] by linarith
  have e: "p10 (ndigits n + j - 1) = p10 (ndigits n - 1) * p10 j"
    using p10_add [of "ndigits n - 1" j] k j by (simp add: algebra_simps)
  have e2: "p10 (ndigits n + j) = p10 (ndigits n) * p10 j"
    using p10_add [of "ndigits n" j] k j by simp
  show ?thesis
    by (rule ndigits_eqI) (use b e e2 k j in auto)
qed

lemma ndigits_mono: "0 \<le> m \<Longrightarrow> m \<le> n \<Longrightarrow> ndigits m \<le> ndigits n"
proof -
  assume "0 \<le> m" "m \<le> n"
  moreover have "n < p10 (ndigits n)" if "0 < n" using ndigits_bounds [OF that] by simp
  moreover have "1 \<le> ndigits n" using ndigits_pos [of n] by linarith
  ultimately show ?thesis by (cases "n = 0") (auto simp: ndigits_le_iff)
qed

subsection \<open>Order\<close>

lemma dval_align:
  assumes "m \<le> expo a"
  shows "dval a = of_int (coeff a * p10 (expo a - m)) * 10 powi m"
  using assms powi_add [of m "expo a - m"] of_int_p10 [of "expo a - m"] by (simp add: dval_def mult_ac)

lemma powi_cancel:
  "(of_int x * 10 powi m \<le> (of_int y * 10 powi m :: rat)) = (x \<le> y)"
  "(of_int x * 10 powi m < (of_int y * 10 powi m :: rat)) = (x < y)"
  "(of_int x * 10 powi m = (of_int y * 10 powi m :: rat)) = (x = y)"
  by (simp_all add: mult_le_cancel_right_pos mult_less_cancel_right_pos)

lemma dle_iff [dec_simps]: "dle a b \<longleftrightarrow> dval a \<le> dval b"
  using dval_align [of "min (expo a) (expo b)" a] dval_align [of "min (expo a) (expo b)" b]
  by (simp only: dle_def dalign_def Let_def split powi_cancel)

lemma dlt_iff [dec_simps]: "dlt a b \<longleftrightarrow> dval a < dval b"
  using dval_align [of "min (expo a) (expo b)" a] dval_align [of "min (expo a) (expo b)" b]
  by (simp only: dlt_def dalign_def Let_def split powi_cancel)

lemma deq_iff [dec_simps]: "deq a b \<longleftrightarrow> dval a = dval b"
  using dval_align [of "min (expo a) (expo b)" a] dval_align [of "min (expo a) (expo b)" b]
  by (simp only: deq_def dalign_def Let_def split powi_cancel)

lemma dval_dmin [dec_simps]: "dval (dmin a b) = min (dval a) (dval b)"
  by (auto simp: dmin_def dec_simps)

lemma dval_dmax [dec_simps]: "dval (dmax a b) = max (dval a) (dval b)"
  by (auto simp: dmax_def dec_simps)

lemma dval_dzero [simp]: "dval (Dec 0 e) = 0" by (simp add: dval_def)

lemma dval_dunit [simp]: "dval (Dec 1 0) = 1" by (simp add: dval_def)
lemma powi_not_neg [simp]: "\<not> (10 :: rat) powi k < 0" "\<not> (10 :: rat) powi k \<le> 0"
  using powi_pos [of k] by (simp_all only: not_less not_le order.strict_implies_order)

lemma dval_sign:
  "0 < dval d \<longleftrightarrow> 0 < coeff d" "dval d < 0 \<longleftrightarrow> coeff d < 0" "dval d = 0 \<longleftrightarrow> coeff d = 0"
  by (auto simp: dval_def zero_less_mult_iff mult_less_0_iff)

lemma dval_int [simp]: "dval (Dec c 0) = of_int c" by (simp add: dval_def)

section \<open>Rounding to a precision\<close>


declare dfix.simps [simp del]

lemma rhe_minus: "rhe (- c) m = - rhe c m"
  by (simp add: rhe_def Let_def sgn_minus)

lemma rhe_nonneg: "0 \<le> c \<Longrightarrow> 0 < m \<Longrightarrow> 0 \<le> rhe c m"
  by (auto simp: rhe_def Let_def pos_imp_zdiv_nonneg_iff sgn_if)

lemma rhe_nearest_nonneg:
  assumes "0 \<le> c" and m: "0 < m"
  shows "\<bar>rhe c m * m - c\<bar> \<le> \<bar>j * m - c\<bar>"
proof (cases "c = 0")
  case True then show ?thesis by (simp add: rhe_def)
next
  case False
  define q r where "q = c div m" and "r = c mod m"
  have c: "c = q * m + r" by (simp add: q_def r_def)
  have r: "0 \<le> r" "r < m" using m by (simp_all add: r_def)
  have far: "min r (m - r) \<le> \<bar>j * m - c\<bar>"
  proof (cases "j \<le> q")
    case True
    then have "j * m \<le> q * m" using m by (simp add: mult_right_mono)
    then show ?thesis using c r by linarith
  next
    case False
    then have "(q + 1) * m \<le> j * m" using m by (intro mult_right_mono) auto
    then show ?thesis using c r by (simp add: algebra_simps)
  qed
  have "\<bar>rhe c m * m - c\<bar> = (if 2 * r > m \<or> (2 * r = m \<and> odd q) then m - r else r)"
    using assms False r by (auto simp: rhe_def Let_def q_def [symmetric] r_def [symmetric] c algebra_simps)
  with far r show ?thesis by (auto split: if_splits)
qed

lemma rhe_nearest:
  assumes "0 < m"
  shows "\<bar>rhe c m * m - c\<bar> \<le> \<bar>j * m - c\<bar>"
proof (cases "0 \<le> c")
  case True with assms show ?thesis by (rule rhe_nearest_nonneg [rotated])
next
  case False
  then have "\<bar>rhe (- c) m * m - (- c)\<bar> \<le> \<bar>(- j) * m - (- c)\<bar>"
    using assms by (intro rhe_nearest_nonneg) auto
  then show ?thesis by (simp add: rhe_minus abs_minus_commute algebra_simps)
qed

lemma abs_rhe_le:
  assumes "0 < m"
  shows "\<bar>rhe c m\<bar> \<le> \<bar>c\<bar> div m + 1"
proof -
  have "0 \<le> \<bar>c\<bar> div m" using assms by (simp add: pos_imp_zdiv_nonneg_iff)
  then show ?thesis by (simp add: rhe_def Let_def abs_mult abs_sgn_eq)
qed

lemma rhe_exact: "0 < m \<Longrightarrow> rhe (c * m) m = c"
  using rhe_nearest [of m "c * m" c] by simp

lemma rhe_scale: "0 < m \<Longrightarrow> 0 < s \<Longrightarrow> rhe (c * s) (m * s) = rhe c m"
proof -
  assume m: "0 < m" and s: "0 < s"
  have "\<bar>c * s\<bar> div (m * s) = \<bar>c\<bar> div m" using s by (simp add: abs_mult)
  moreover have "\<bar>c * s\<bar> mod (m * s) = (\<bar>c\<bar> mod m) * s" using s by (simp add: abs_mult)
  moreover have "sgn (c * s) = sgn c" using s by (simp add: sgn_mult)
  moreover have "(2 * (\<bar>c\<bar> mod m * s) > m * s) = (2 * (\<bar>c\<bar> mod m) > m)"
      "(2 * (\<bar>c\<bar> mod m * s) = m * s) = (2 * (\<bar>c\<bar> mod m) = m)"
    using s mult_less_cancel_right_pos [of s m "2 * (\<bar>c\<bar> mod m)"] by (simp_all flip: mult.assoc)
  ultimately show ?thesis by (simp add: rhe_def Let_def)
qed

lemma dval_dfix:
  assumes "1 \<le> p"
  shows "dval (dfix p (Dec c e)) =
    (if ndigits \<bar>c\<bar> \<le> p then dval (Dec c e)
     else of_int (rhe c (p10 (ndigits \<bar>c\<bar> - p))) * 10 powi (e + (ndigits \<bar>c\<bar> - p)))"
proof (cases "ndigits \<bar>c\<bar> \<le> p")
  case True then show ?thesis by (simp add: dfix.simps)
next
  case False
  define k c' where "k = ndigits \<bar>c\<bar> - p" and "c' = rhe c (p10 k)"
  show ?thesis
  proof (cases "\<bar>c'\<bar> = p10 p")
    case True
    have "p10 p = p10 (p - 1) * 10" using p10_Suc [of "p - 1"] assms by simp
    with True have "10 dvd c'" by (metis dvd_abs_iff dvd_triv_right)
    then have "c' = (c' div 10) * 10" by simp
    then have "(of_int c' :: rat) = of_int (c' div 10) * 10" by (metis of_int_mult of_int_numeral)
    with True False show ?thesis
      by (simp add: dfix.simps Let_def k_def [symmetric] c'_def [symmetric] dval_def powi_add)
  next
    case neq: False
    with False show ?thesis by (simp add: dfix.simps Let_def k_def [symmetric] c'_def [symmetric] dval_def)
  qed
qed

text \<open>A value of at most \<open>p\<close> digits.\<close>

definition drepr :: "int \<Rightarrow> decimal \<Rightarrow> bool" where
  "drepr p d \<longleftrightarrow> ndigits \<bar>coeff d\<bar> \<le> p"

lemma rhe_carry: 
  assumes "1 \<le> p" "p < ndigits \<bar>c\<bar>"
  shows "\<bar>rhe c (p10 (ndigits \<bar>c\<bar> - p))\<bar> \<le> p10 p"
proof -
  let ?m = "p10 (ndigits \<bar>c\<bar> - p)"
  have "c \<noteq> 0" using assms by (auto simp: ndigits.simps)
  then have "\<bar>c\<bar> < p10 (ndigits \<bar>c\<bar>)" using ndigits_bounds [of "\<bar>c\<bar>"] by simp
  also have "\<dots> = p10 p * ?m" using p10_add [of p "ndigits \<bar>c\<bar> - p"] assms by simp
  finally have b: "\<bar>c\<bar> < p10 p * ?m" .
  have "\<bar>c\<bar> div ?m * ?m \<le> \<bar>c\<bar>" by (simp add: minus_mod_eq_div_mult [symmetric])
  with b have "\<bar>c\<bar> div ?m < p10 p"
    by (meson le_less_trans mult_less_cancel_right_pos p10_pos)
  then show ?thesis using abs_rhe_le [of ?m c] by simp
qed

lemma drepr_dfix: "1 \<le> p \<Longrightarrow> drepr p (dfix p d)"
proof (cases d)
  case (Dec c e)
  assume p: "1 \<le> p"
  show ?thesis
  proof (cases "ndigits \<bar>c\<bar> \<le> p")
    case True with Dec show ?thesis by (simp add: drepr_def dfix.simps)
  next
    case False
    define c' where "c' = rhe c (p10 (ndigits \<bar>c\<bar> - p))"
    have le: "\<bar>c'\<bar> \<le> p10 p" using rhe_carry [of p c] p False by (simp add: c'_def)
    show ?thesis
    proof (cases "\<bar>c'\<bar> = p10 p")
      case True
      have e: "p10 p = p10 (p - 1) * 10" using p10_Suc [of "p - 1"] p by simp
      with True have "\<bar>c' div 10\<bar> = p10 (p - 1)" by (auto simp: abs_if split: if_splits)
      then have "\<bar>c' div 10\<bar> < p10 p" using e p10_pos [of "p - 1"] by linarith
      then show ?thesis using True False Dec p
        by (simp add: drepr_def dfix.simps Let_def c'_def [symmetric] ndigits_le_iff)
    next
      case neq: False
      with le have "\<bar>c'\<bar> < p10 p" by simp
      then show ?thesis using neq False Dec p
        by (simp add: drepr_def dfix.simps Let_def c'_def [symmetric] ndigits_le_iff)
    qed
  qed
qed

lemma dfix_id: "drepr p d \<Longrightarrow> dfix p d = d"
  by (cases d) (simp add: drepr_def dfix.simps)

lemma abs_dval_lt: "drepr p d \<Longrightarrow> 1 \<le> p \<Longrightarrow> \<bar>dval d\<bar> < 10 powi (p + expo d)"
proof -
  assume "drepr p d" "1 \<le> p"
  then have "\<bar>coeff d\<bar> < p10 p" by (simp add: drepr_def ndigits_le_iff)
  then have "(of_int \<bar>coeff d\<bar> :: rat) < of_int (p10 p)" by (simp only: of_int_less_iff)
  then have "\<bar>of_int (coeff d)\<bar> < (10 powi p :: rat)" using of_int_p10 [of p] \<open>1 \<le> p\<close> by simp
  then show ?thesis by (simp add: dval_def abs_mult powi_add mult_less_cancel_right_pos)
qed

text \<open>No value of \<open>p\<close> digits is nearer than the rounded one.\<close>

lemma dfix_nearest:
  assumes p: "1 \<le> p" and r: "drepr p r"
  shows "\<bar>dval (dfix p d) - dval d\<bar> \<le> \<bar>dval r - dval d\<bar>"
proof (cases "drepr p d")
  case True then show ?thesis by (simp add: dfix_id)
next
  case False
  obtain c e where d: "d = Dec c e" by (cases d)
  define n k m where "n = ndigits \<bar>c\<bar>" and "k = n - p" and "m = p10 k"
  have k: "1 \<le> k" using False by (simp add: d drepr_def n_def k_def)
  have c0: "c \<noteq> 0" using False p by (auto simp: d drepr_def ndigits.simps)
  then have c_ge: "p10 (n - 1) \<le> \<bar>c\<bar>" using ndigits_bounds [of "\<bar>c\<bar>"] by (simp add: n_def)
  have m_eq: "10 powi k = (of_int m :: rat)" using k by (simp add: m_def of_int_p10)
  have dist: "\<bar>of_int j * 10 powi (e + k) - dval d\<bar> = of_int \<bar>j * m - c\<bar> * 10 powi e" for j
  proof -
    have "of_int j * 10 powi (e + k) - dval d = of_int (j * m - c) * 10 powi e"
      by (simp add: d dval_def powi_add m_eq algebra_simps)
    then show ?thesis by (simp add: abs_mult)
  qed
  have F: "\<bar>dval (dfix p d) - dval d\<bar> = of_int \<bar>rhe c m * m - c\<bar> * 10 powi e"
    using False p dist [of "rhe c m"] by (simp add: d drepr_def dval_dfix n_def k_def m_def)
  have mult: "\<bar>dval (dfix p d) - dval d\<bar> \<le> \<bar>of_int j * 10 powi (e + k) - dval d\<bar>" for j
    using rhe_nearest [of m c j] by (simp only: F dist powi_cancel) (simp add: m_def)
  show ?thesis
  proof (cases "e + k \<le> expo r")
    case True
    then have "dval r = of_int (coeff r * p10 (expo r - (e + k))) * 10 powi (e + k)"
      by (rule dval_align)
    then show ?thesis using mult by metis
  next
    case False
    have "\<bar>dval r\<bar> < 10 powi (p + expo r)" using r p by (rule abs_dval_lt)
    also have "\<dots> \<le> 10 powi (n - 1 + e)" using False by (intro power_int_increasing) (auto simp: k_def)
    finally have rlt: "\<bar>dval r\<bar> < 10 powi (n - 1 + e)" .
    define B where "B = sgn c * p10 (p - 1)"
    have nk: "p10 (n - 1) = p10 (p - 1) * m" using p10_add [of "p - 1" k] p k by (simp add: m_def k_def)
    have B: "of_int B * 10 powi (e + k) = of_int (sgn c) * (10 powi (n - 1 + e) :: rat)"
      using p by (simp add: B_def of_int_p10 k_def flip: powi_add) (simp add: algebra_simps)
    have ge: "10 powi (n - 1 + e) \<le> \<bar>dval d\<bar>"
    proof -
      have "(of_int (p10 (n - 1)) :: rat) * 10 powi e \<le> of_int \<bar>c\<bar> * 10 powi e"
        using c_ge by (simp only: powi_cancel)
      then show ?thesis using p k by (simp add: of_int_p10 k_def powi_add d dval_def abs_mult)
    qed
    have "\<bar>of_int B * 10 powi (e + k) - dval d\<bar> \<le> \<bar>dval r - dval d\<bar>"
    proof (cases "0 < c")
      case True then have "0 < dval d" by (simp add: d dval_def)
      with True B rlt ge show ?thesis by (simp add: abs_if split: if_splits)
    next
      case neg: False with c0 have "dval d < 0" by (simp add: d dval_def mult_neg_pos)
      with neg c0 B rlt ge show ?thesis by (simp add: abs_if split: if_splits)
    qed
    with mult [of B] show ?thesis by linarith
  qed
qed


lemma dval_dfix_cong_shift:
  assumes p: "1 \<le> p" and j: "0 \<le> j"
  shows "dval (dfix p (Dec (c * p10 j) (e - j))) = dval (dfix p (Dec c e))"
proof (cases "c = 0")
  case True then show ?thesis using p by (simp add: dval_dfix ndigits.simps)
next
  case False
  let ?n = "ndigits \<bar>c\<bar>"
  have n: "ndigits \<bar>c * p10 j\<bar> = ?n + j" using False j by (simp add: abs_mult ndigits_shift)
  have same: "dval (Dec (c * p10 j) (e - j)) = dval (Dec c e)"
    using j by (simp add: dval_def of_int_p10 mult.assoc flip: powi_add)
  consider "?n + j \<le> p" | "?n \<le> p" "p < ?n + j" | "p < ?n" by linarith
  then show ?thesis
  proof cases
    case 1 then show ?thesis using p j n same by (simp add: dval_dfix)
  next
    case 2
    define k where "k = ?n + j - p"
    have k: "0 \<le> k" "k \<le> j" using 2 by (simp_all add: k_def)
    have split: "c * p10 j = (c * p10 (j - k)) * p10 k" using p10_add [of "j - k" k] k by simp
    have r: "rhe (c * p10 j) (p10 k) = c * p10 (j - k)" unfolding split by (rule rhe_exact) simp
    have "dval (dfix p (Dec (c * p10 j) (e - j))) = of_int (c * p10 (j - k)) * 10 powi (e - j + k)"
      using p 2 n r by (simp add: dval_dfix k_def)
    also have "\<dots> = dval (Dec c e)"
      using k by (simp add: dval_def of_int_p10 mult.assoc flip: powi_add)
    finally show ?thesis using p 2 by (simp add: dval_dfix)
  next
    case 3
    have "p10 (?n + j - p) = p10 (?n - p) * p10 j" using p10_add [of "?n - p" j] 3 j
      by (simp add: algebra_simps)
    then have "rhe (c * p10 j) (p10 (?n + j - p)) = rhe c (p10 (?n - p))" by (simp add: rhe_scale)
    then show ?thesis using p 3 j n by (simp add: dval_dfix)
  qed
qed

lemma dval_dfix_cong:
  assumes p: "1 \<le> p" and eq: "dval a = dval b"
  shows "dval (dfix p a) = dval (dfix p b)"
proof -
  define m where "m = min (expo a) (expo b)"
  have shift: "dval (dfix p (Dec (coeff d * p10 (expo d - m)) m)) = dval (dfix p d)" if "m \<le> expo d" for d
    using dval_dfix_cong_shift [OF p, of "expo d - m" "coeff d" "expo d"] that by simp
  have "coeff a * p10 (expo a - m) = coeff b * p10 (expo b - m)"
    using eq deq_iff [of a b] by (simp add: deq_def dalign_def Let_def m_def)
  then show ?thesis using shift [of a] shift [of b] by (simp add: m_def)
qed

lemma dfix_le_repr:
  assumes p: "1 \<le> p" and r: "drepr p r" and le: "dval d \<le> dval r"
  shows "dval (dfix p d) \<le> dval r"
proof (cases "dval d = dval r")
  case True
  with dval_dfix_cong [OF p True] r show ?thesis by (simp add: dfix_id)
next
  case False
  with dfix_nearest [OF p r, of d] le show ?thesis by linarith
qed

lemma dfix_ge_repr:
  assumes p: "1 \<le> p" and r: "drepr p r" and ge: "dval r \<le> dval d"
  shows "dval r \<le> dval (dfix p d)"
proof (cases "dval d = dval r")
  case True
  with dval_dfix_cong [OF p True] r show ?thesis by (simp add: dfix_id)
next
  case False
  with dfix_nearest [OF p r, of d] ge show ?thesis by linarith
qed

lemma dfix_mono:
  assumes p: "1 \<le> p" and le: "dval a \<le> dval b"
  shows "dval (dfix p a) \<le> dval (dfix p b)"
proof -
  have ra: "drepr p (dfix p a)" and rb: "drepr p (dfix p b)" using p by (simp_all add: drepr_dfix)
  show ?thesis
  proof (rule ccontr)
    assume gt: "\<not> dval (dfix p a) \<le> dval (dfix p b)"
    then have ne: "dval a < dval b" using le dval_dfix_cong [OF p, of a b] by (cases "dval a = dval b") auto
    have 1: "dval (dfix p b) < dval a" using gt dfix_le_repr [OF p rb, of a] by linarith
    have 2: "dval b < dval (dfix p a)" using gt dfix_ge_repr [OF p ra, of b] by linarith
    have "dval (dfix p a) - dval a \<le> dval a - dval (dfix p b)"
      using dfix_nearest [OF p rb, of a] 1 2 ne by simp
    moreover have "dval b - dval (dfix p b) \<le> dval (dfix p a) - dval b"
      using dfix_nearest [OF p ra, of b] 1 2 ne by simp
    ultimately show False using ne by linarith
  qed
qed

text \<open>Every operation is the exact one followed by one rounding.\<close>

lemma dadd_val: "\<exists>s. dadd p a b = dfix p s \<and> dval s = dval a + dval b"
proof (cases a; cases b)
  fix c d c' d' assume ab: "a = Dec c d" "b = Dec c' d'"
  define m where "m = min d d'"
  have "dval a = of_int (c * p10 (d - m)) * 10 powi m" "dval b = of_int (c' * p10 (d' - m)) * 10 powi m"
    using dval_align [of m a] dval_align [of m b] by (simp_all add: ab m_def)
  then have "dval (Dec (c * p10 (d - m) + c' * p10 (d' - m)) m) = dval a + dval b"
    by (simp add: dval_def distrib_right)
  then show ?thesis using ab by (auto simp: Let_def m_def)
qed

lemma dmul_val: "\<exists>s. dmul p a b = dfix p s \<and> dval s = dval a * dval b"
  by (cases a; cases b) (auto simp: dval_def powi_add mult_ac)

lemma dsub_val: "\<exists>s. dsub p a b = dfix p s \<and> dval s = dval a - dval b"
  using dadd_val [of p a "Dec (- coeff b) (expo b)"] by (auto simp: dsub_def dval_def)

lemma dneg_val: "\<exists>s. dneg p a = dfix p s \<and> dval s = - dval a"
  by (auto simp: dneg_def dval_def)

lemma dabs_val: "\<exists>s. dabs p a = dfix p s \<and> dval s = \<bar>dval a\<bar>"
  by (auto simp: dabs_def dval_def abs_mult)

section \<open>Division\<close>


lemma dval_dstrip: "dval (dstrip k c e) = dval (Dec c e)"
proof (induction k arbitrary: c e)
  case 0 show ?case by simp
next
  case (Suc k)
  show ?case
  proof (cases "c mod 10 = 0")
    case True
    then have "c = c div 10 * 10" by auto
    then have "(of_int c :: rat) = of_int (c div 10) * 10" by (metis of_int_mult of_int_numeral)
    with True Suc show ?thesis by (simp add: dval_def powi_add)
  next
    case False then show ?thesis by simp
  qed
qed

lemma ddiv_mag_quotient_large:
  assumes p: "1 \<le> p" and a: "0 < a" and b: "0 < b"
    and s: "s = ndigits b - ndigits a + p + 1"
  shows "p10 p * (b * p10 (- s)) \<le> a * p10 s"
proof -
  note A = ndigits_bounds [OF a] and B = ndigits_bounds [OF b]
  have la: "0 < ndigits a" "0 < ndigits b" by simp_all
  show ?thesis
  proof (cases "0 \<le> s")
    case True
    have "p10 p * b \<le> p10 p * p10 (ndigits b)" using B by simp
    also have "\<dots> = p10 (ndigits a - 1) * p10 s"
      using p10_add [of p "ndigits b"] p10_add [of "ndigits a - 1" s] p la True
      by (simp add: s add.commute)
    also have "\<dots> \<le> a * p10 s" using A by (simp add: mult_right_mono)
    finally show ?thesis using True by (simp add: p10_nonpos)
  next
    case False
    have "p < ndigits a" using False la unfolding s by linarith
    have "p10 p * (b * p10 (- s)) \<le> p10 p * (p10 (ndigits b) * p10 (- s))"
      using B by (simp add: mult_left_mono mult_right_mono)
    also have "\<dots> = p10 (ndigits a - 1)"
      using p10_add [of p "ndigits a - 1 - p"] p10_add [of "ndigits b" "- s"] p la False \<open>p < ndigits a\<close>
      by (simp add: s algebra_simps)
    also have "\<dots> \<le> a" using A by simp
    finally show ?thesis using False by (simp add: p10_nonpos)
  qed
qed

text \<open>The quotient before the final rounding: exact, or between two neighbours beyond \<open>p\<close> digits.\<close>

lemma ddiv_mag_cases:
  assumes p: "1 \<le> p" and a: "0 < a" and b: "0 < b"
  obtains (exact) "dval (ddiv_mag p a d b e) = dval (Dec a d) / dval (Dec b e)"
    | (inexact) q x where "p10 p \<le> q" and "ddiv_mag p a d b e = Dec q x \<or> ddiv_mag p a d b e = Dec (q + 1) x"
      and "of_int q * 10 powi x < dval (Dec a d) / dval (Dec b e)"
      and "dval (Dec a d) / dval (Dec b e) < of_int (q + 1) * 10 powi x"
proof -
  define s x num den q r where "s = ndigits b - ndigits a + p + 1" and "x = d - e - s"
    and "num = a * p10 s" and "den = b * p10 (- s)" and "q = num div den" and "r = num mod den"
  have den: "0 < den" using b by (simp add: den_def)
  have nq: "num = q * den + r" "0 \<le> r" "r < den" using den by (simp_all add: q_def r_def)
  have T: "dval (Dec a d) / dval (Dec b e) = of_int num / of_int den * 10 powi x"
  proof (cases "0 \<le> s")
    case True
    then show ?thesis using b
      by (simp add: dval_def num_def den_def x_def p10_nonpos of_int_p10 power_int_diff powi_add field_simps)
  next
    case False
    then show ?thesis using b
      by (simp add: dval_def num_def den_def x_def p10_nonpos of_int_p10 power_int_diff power_int_minus powi_add field_simps)
  qed
  have mag: "ddiv_mag p a d b e =
      (if r \<noteq> 0 then Dec (if q mod 5 = 0 then q + 1 else q) x else dstrip (nat s) q x)"
    by (simp add: ddiv_mag_def Let_def s_def x_def num_def den_def q_def r_def)
  show thesis
  proof (cases "r = 0")
    case True
    with nq den have "of_int num / (of_int den :: rat) = of_int q" by simp
    with mag True T have "dval (ddiv_mag p a d b e) = dval (Dec a d) / dval (Dec b e)"
      by (simp add: dval_dstrip dval_def [of "Dec q x"])
    then show thesis by (rule exact)
  next
    case False
    with nq have r: "0 < r" "r < den" by simp_all
    have lo: "of_int q < (of_int num / of_int den :: rat)" and hi: "of_int num / of_int den < (of_int (q + 1) :: rat)"
      using den r nq(1) by (simp_all add: field_simps flip: of_int_mult of_int_add)
    have "p10 p * den \<le> num" using ddiv_mag_quotient_large [OF p a b s_def] by (simp add: num_def den_def)
    then have "p10 p \<le> q" using den zdiv_mono1 [of "p10 p * den" num den] by (simp add: q_def)
    moreover have "ddiv_mag p a d b e = Dec q x \<or> ddiv_mag p a d b e = Dec (q + 1) x"
      using mag False by simp
    ultimately show thesis unfolding T
      using mult_strict_right_mono [OF lo powi_pos [of x]] mult_strict_right_mono [OF hi powi_pos [of x]]
      by (rule inexact [unfolded T])
  qed
qed

lemma ddiv_mag_le_repr:
  assumes p: "1 \<le> p" and a: "0 < a" and b: "0 < b" and r: "drepr p r"
    and le: "dval (Dec a d) / dval (Dec b e) \<le> dval r"
  shows "dval (ddiv_mag p a d b e) \<le> dval r"
  using p a b
proof (cases rule: ddiv_mag_cases [of p a b d e])
  case exact with le show ?thesis by simp
next
  case (inexact q x)
  have "of_int (q + 1) * 10 powi x \<le> dval r"
  proof (cases "x \<le> expo r")
    case True
    define R where "R = coeff r * p10 (expo r - x)"
    have R: "dval r = of_int R * 10 powi x" using dval_align [OF True] by (simp add: R_def)
    with inexact(3) le have "of_int q * 10 powi x < of_int R * (10 powi x :: rat)" by linarith
    then have "q + 1 \<le> R" by (simp only: powi_cancel)
    then show ?thesis by (simp only: R powi_cancel)
  next
    case False
    have "dval r < 10 powi (p + expo r)" using abs_dval_lt [OF r p] by linarith
    also have "\<dots> \<le> 10 powi (p + x)" using False by (intro power_int_increasing) auto
    also have "\<dots> = of_int (p10 p) * 10 powi x" using p by (simp add: of_int_p10 powi_add)
    also have "\<dots> \<le> of_int q * 10 powi x" using inexact(1) by (simp only: powi_cancel)
    finally show ?thesis using inexact(3) le by linarith
  qed
  moreover have "of_int q * 10 powi x \<le> of_int (q + 1) * (10 powi x :: rat)" by (simp only: powi_cancel)
  moreover have "dval (ddiv_mag p a d b e) = of_int q * 10 powi x \<or>
      dval (ddiv_mag p a d b e) = of_int (q + 1) * 10 powi x"
    using inexact(2) by (auto simp: dval_def)
  ultimately show ?thesis by (elim disjE) linarith+
qed

lemma ddiv_mag_ge_repr:
  assumes p: "1 \<le> p" and a: "0 < a" and b: "0 < b" and r: "drepr p r"
    and ge: "dval r \<le> dval (Dec a d) / dval (Dec b e)"
  shows "dval r \<le> dval (ddiv_mag p a d b e)"
  using p a b
proof (cases rule: ddiv_mag_cases [of p a b d e])
  case exact with ge show ?thesis by simp
next
  case (inexact q x)
  have "dval r \<le> of_int q * 10 powi x"
  proof (cases "x \<le> expo r")
    case True
    define R where "R = coeff r * p10 (expo r - x)"
    have R: "dval r = of_int R * 10 powi x" using dval_align [OF True] by (simp add: R_def)
    with inexact(4) ge have "of_int R * 10 powi x < of_int (q + 1) * (10 powi x :: rat)" by linarith
    then have "R \<le> q" by (simp only: powi_cancel)
    then show ?thesis by (simp only: R powi_cancel)
  next
    case False
    have "dval r < 10 powi (p + expo r)" using abs_dval_lt [OF r p] by linarith
    also have "\<dots> \<le> 10 powi (p + x)" using False by (intro power_int_increasing) auto
    also have "\<dots> = of_int (p10 p) * 10 powi x" using p by (simp add: of_int_p10 powi_add)
    also have "\<dots> \<le> of_int q * 10 powi x" using inexact(1) by (simp only: powi_cancel)
    finally show ?thesis by simp
  qed
  moreover have "of_int q * 10 powi x \<le> of_int (q + 1) * (10 powi x :: rat)" by (simp only: powi_cancel)
  moreover have "dval (ddiv_mag p a d b e) = of_int q * 10 powi x \<or>
      dval (ddiv_mag p a d b e) = of_int (q + 1) * 10 powi x"
    using inexact(2) by (auto simp: dval_def)
  ultimately show ?thesis by (elim disjE) linarith+
qed

lemma dfix_neg: "1 \<le> p \<Longrightarrow> dval (dfix p (Dec (- c) e)) = - dval (dfix p (Dec c e))"
  by (simp add: dval_dfix rhe_minus dval_def [of "Dec _ _"])

text \<open>Division rounds to the right side of every representable bound.\<close>

lemma ddiv_zero_iff: "ddiv p a b = None \<longleftrightarrow> dval b = 0"
  by (cases a; cases b) (auto simp: dval_def split: decimal.splits)

lemma ddiv_pos:
  assumes "0 < dval a" and "0 < dval b"
  shows "ddiv p a b = Some (dfix p (ddiv_mag p (coeff a) (expo a) (coeff b) (expo b)))"
    and "0 < coeff a" and "0 < coeff b"
proof -
  show a: "0 < coeff a" and b: "0 < coeff b"
    using assms by (simp_all add: dval_sign)
  then show "ddiv p a b = Some (dfix p (ddiv_mag p (coeff a) (expo a) (coeff b) (expo b)))"
    by (cases a; cases b) (simp split: decimal.splits)
qed

lemma ddiv_pos_bounds:
  assumes p: "1 \<le> p" and a: "0 < dval a" and b: "0 < dval b" and q: "ddiv p a b = Some q" and r: "drepr p r"
  shows "dval a / dval b \<le> dval r \<Longrightarrow> dval q \<le> dval r"
    and "dval r \<le> dval a / dval b \<Longrightarrow> dval r \<le> dval q"
proof -
  let ?m = "ddiv_mag p (coeff a) (expo a) (coeff b) (expo b)"
  have qq: "q = dfix p ?m" and pos: "0 < coeff a" "0 < coeff b"
    using ddiv_pos(1) [OF a b, of p] ddiv_pos(2,3) [OF a b] q by simp_all
  show "dval q \<le> dval r" if "dval a / dval b \<le> dval r"
    unfolding qq using ddiv_mag_le_repr [OF p pos r] that by (intro dfix_le_repr [OF p r]) simp
  show "dval r \<le> dval q" if "dval r \<le> dval a / dval b"
    unfolding qq using ddiv_mag_ge_repr [OF p pos r] that by (intro dfix_ge_repr [OF p r]) simp
qed

lemma ddiv_minus:
  assumes "1 \<le> p" and "ddiv p a b = Some q"
  shows "\<exists>q'. ddiv p (Dec (- coeff a) (expo a)) b = Some q' \<and> dval q' = - dval q"
  using assms by (cases a; cases b) (auto simp: dfix_neg split: if_splits decimal.splits)

text \<open>The same law for a dividend of either sign.\<close>

lemma ddiv_bounds:
  assumes p: "1 \<le> p" and b: "0 < dval b" and q: "ddiv p a b = Some q" and r: "drepr p r"
  shows "dval a / dval b \<le> dval r \<Longrightarrow> dval q \<le> dval r"
    and "dval r \<le> dval a / dval b \<Longrightarrow> dval r \<le> dval q"
proof -
  let ?n = "\<lambda>d. Dec (- coeff d) (expo d)"
  have n: "dval (?n d) = - dval d" for d by (simp add: dval_def)
  have rn: "drepr p (?n r)" using r by (simp add: drepr_def)
  consider "0 < dval a" | "dval a = 0" | "0 < dval (?n a)" unfolding n by linarith
  then have "(dval a / dval b \<le> dval r \<longrightarrow> dval q \<le> dval r) \<and> (dval r \<le> dval a / dval b \<longrightarrow> dval r \<le> dval q)"
  proof cases
    case 1
    then show ?thesis using ddiv_pos_bounds [OF p _ b q r] by blast
  next
    case 2
    then have "dval q = 0" using q b by (cases a; cases b) (auto simp: dval_def split: if_splits)
    with 2 show ?thesis by simp
  next
    case 3
    obtain q' where "ddiv p (?n a) b = Some q'" "dval q' = - dval q" using ddiv_minus [OF p q] by blast
    then show ?thesis using ddiv_pos_bounds [OF p 3 b _ rn] by (fastforce simp: n)
  qed
  then show "dval a / dval b \<le> dval r \<Longrightarrow> dval q \<le> dval r" "dval r \<le> dval a / dval b \<Longrightarrow> dval r \<le> dval q"
    by auto
qed

lemma drepr_ddiv: "1 \<le> p \<Longrightarrow> ddiv p a b = Some q \<Longrightarrow> drepr p q"
  by (cases a; cases b) (auto simp: drepr_dfix drepr_def [of p "Dec 0 _"] ndigits.simps split: if_splits decimal.splits)


section \<open>The contract of a context\<close>

text \<open>
  What the components rely on: rounding is monotone, leaves values that fit alone and produces
  such values; addition, subtraction, multiplication, negation and absolute value are the exact
  operation followed by one rounding.
\<close>

locale decimal_context =
  fixes rnd :: "decimal \<Rightarrow> decimal" and fits :: "decimal \<Rightarrow> bool"
    and add sub mul :: "decimal \<Rightarrow> decimal \<Rightarrow> decimal"
    and neg mag :: "decimal \<Rightarrow> decimal"
  assumes rnd_mono: "dval a \<le> dval b \<Longrightarrow> dval (rnd a) \<le> dval (rnd b)"
    and fits_rnd: "fits (rnd a)"
    and rnd_fits: "fits a \<Longrightarrow> rnd a = a"
    and fits_zero: "fits dzero"
    and fits_neg: "fits a \<longleftrightarrow> fits (Dec (- coeff a) (expo a))"
    and add_spec: "\<exists>s. add a b = rnd s \<and> dval s = dval a + dval b"
    and sub_spec: "\<exists>s. sub a b = rnd s \<and> dval s = dval a - dval b"
    and mul_spec: "\<exists>s. mul a b = rnd s \<and> dval s = dval a * dval b"
    and neg_spec: "\<exists>s. neg a = rnd s \<and> dval s = - dval a"
    and mag_spec: "\<exists>s. mag a = rnd s \<and> dval s = \<bar>dval a\<bar>"
begin

lemma rnd_cong: "dval a = dval b \<Longrightarrow> dval (rnd a) = dval (rnd b)"
  using rnd_mono [of a b] rnd_mono [of b a] by simp

lemma rnd_le_fits: "fits r \<Longrightarrow> dval a \<le> dval r \<Longrightarrow> dval (rnd a) \<le> dval r"
  using rnd_mono [of a r] by (simp add: rnd_fits)

lemma rnd_ge_fits: "fits r \<Longrightarrow> dval r \<le> dval a \<Longrightarrow> dval r \<le> dval (rnd a)"
  using rnd_mono [of r a] by (simp add: rnd_fits)

lemma rnd_exact: "fits r \<Longrightarrow> dval a = dval r \<Longrightarrow> dval (rnd a) = dval r"
  using rnd_cong [of a r] by (simp add: rnd_fits)

lemma rnd_nonneg: "0 \<le> dval a \<Longrightarrow> 0 \<le> dval (rnd a)"
  using rnd_ge_fits [OF fits_zero, of a] by simp

lemma rnd_nonpos: "dval a \<le> 0 \<Longrightarrow> dval (rnd a) \<le> 0"
  using rnd_le_fits [OF fits_zero, of a] by simp

lemma fits_ops [simp]: "fits (add a b)" "fits (sub a b)" "fits (mul a b)" "fits (neg a)" "fits (mag a)"
  by (metis add_spec fits_rnd, metis sub_spec fits_rnd, metis mul_spec fits_rnd,
      metis neg_spec fits_rnd, metis mag_spec fits_rnd)

lemma add_nonneg: "0 \<le> dval a \<Longrightarrow> 0 \<le> dval b \<Longrightarrow> 0 \<le> dval (add a b)"
  using add_spec [of a b] by (auto intro!: rnd_nonneg)

lemma add_ge_left: "fits a \<Longrightarrow> 0 \<le> dval b \<Longrightarrow> dval a \<le> dval (add a b)"
  using add_spec [of a b] by (auto intro!: rnd_ge_fits)

lemma add_ge_right: "fits b \<Longrightarrow> 0 \<le> dval a \<Longrightarrow> dval b \<le> dval (add a b)"
  using add_spec [of a b] by (auto intro!: rnd_ge_fits)

lemma sub_nonneg_iff_le: "fits a \<Longrightarrow> fits b \<Longrightarrow> dval b \<le> dval a \<Longrightarrow> 0 \<le> dval (sub a b)"
  using sub_spec [of a b] by (auto intro!: rnd_nonneg)

lemma sub_le_left: "fits a \<Longrightarrow> 0 \<le> dval b \<Longrightarrow> dval (sub a b) \<le> dval a"
  using sub_spec [of a b] by (auto intro!: rnd_le_fits)

lemma mag_fits: "fits a \<Longrightarrow> dval (mag a) = \<bar>dval a\<bar>"
proof -
  assume a: "fits a"
  let ?n = "Dec (- coeff a) (expo a)"
  have n: "fits ?n" using a fits_neg by simp
  have dn: "dval ?n = - dval a" by (simp add: dval_def)
  obtain s where s: "mag a = rnd s" "dval s = \<bar>dval a\<bar>" using mag_spec by blast
  show ?thesis
  proof (cases "0 \<le> dval a")
    case True with s rnd_exact [OF a, of s] show ?thesis by simp
  next
    case False with s dn rnd_exact [OF n, of s] show ?thesis by simp
  qed
qed

lemma neg_fits: "fits a \<Longrightarrow> dval (neg a) = - dval a"
proof -
  assume a: "fits a"
  let ?n = "Dec (- coeff a) (expo a)"
  have n: "fits ?n" using a fits_neg by simp
  have dn: "dval ?n = - dval a" by (simp add: dval_def)
  obtain s where "neg a = rnd s" "dval s = - dval a" using neg_spec by blast
  then show ?thesis using rnd_exact [OF n, of s] dn by simp
qed

text \<open>Scaling by a factor of the unit interval never grows a value that fits, nor flips its sign.\<close>

lemma mul_shrink:
  assumes a: "fits a" and f: "0 \<le> dval f" "dval f \<le> 1"
  shows "0 \<le> dval a \<Longrightarrow> 0 \<le> dval (mul a f) \<and> dval (mul a f) \<le> dval a"
    and "dval a \<le> 0 \<Longrightarrow> dval a \<le> dval (mul a f) \<and> dval (mul a f) \<le> 0"
proof -
  obtain s where s: "mul a f = rnd s" "dval s = dval a * dval f" using mul_spec by blast
  show "0 \<le> dval (mul a f) \<and> dval (mul a f) \<le> dval a" if "0 \<le> dval a"
    using s that f mult_left_le [of "dval f" "dval a"] rnd_nonneg [of s] rnd_le_fits [OF a, of s] by simp
  show "dval a \<le> dval (mul a f) \<and> dval (mul a f) \<le> 0" if "dval a \<le> 0"
    using s that f mult_left_le [of "dval f" "- dval a"] rnd_nonpos [of s] rnd_ge_fits [OF a, of s]
    by (simp add: mult_nonpos_nonneg)
qed

lemma foldl_add_ge:
  assumes "\<forall>x \<in> set xs. 0 \<le> dval x" and "fits a"
  shows "dval a \<le> dval (foldl add a xs) \<and> fits (foldl add a xs)"
  using assms
proof (induction xs arbitrary: a)
  case Nil then show ?case by simp
next
  case (Cons x xs)
  then have "dval a \<le> dval (add a x)" by (auto intro: add_ge_left)
  moreover have "dval (add a x) \<le> dval (foldl add (add a x) xs) \<and> fits (foldl add (add a x) xs)"
    using Cons by (intro Cons.IH) auto
  ultimately show ?case by simp
qed

text \<open>A rounded sum of nonnegative terms bounds each of them.\<close>

lemma foldl_add_member:
  assumes "\<forall>x \<in> set xs. 0 \<le> dval x \<and> fits x" and "fits a" and "0 \<le> dval a" and "x \<in> set xs"
  shows "dval x \<le> dval (foldl add a xs)"
  using assms
proof (induction xs arbitrary: a)
  case Nil then show ?case by simp
next
  case (Cons y ys)
  show ?case
  proof (cases "x = y")
    case True
    then have "dval x \<le> dval (add a y)" using Cons.prems by (auto intro: add_ge_right)
    moreover have "dval (add a y) \<le> dval (foldl add (add a y) ys)"
      using Cons.prems foldl_add_ge [of ys "add a y"] by auto
    ultimately show ?thesis by simp
  next
    case False
    with Cons.prems have "dval x \<le> dval (foldl add (add a y) ys)"
      by (intro Cons.IH) (auto intro: add_nonneg)
    then show ?thesis by simp
  qed
qed

end

lemma drepr_neg: "drepr p a \<longleftrightarrow> drepr p (Dec (- coeff a) (expo a))"
  by (simp add: drepr_def)

lemma context_of_precision:
  assumes "1 \<le> p"
  shows "decimal_context (dfix p) (drepr p) (dadd p) (dsub p) (dmul p) (dneg p) (dabs p)"
proof (standard, goal_cases)
  case 1 with assms show ?case by (simp add: dfix_mono)
next
  case 2 from assms show ?case by (rule drepr_dfix)
next
  case 3 then show ?case by (rule dfix_id)
next
  case 4 with assms show ?case by (simp add: drepr_def ndigits.simps)
next
  case 5 show ?case by (rule drepr_neg)
qed (rule dadd_val dsub_val dmul_val dneg_val dabs_val)+

interpretation c28: decimal_context "dfix 28" "drepr 28" "dadd 28" "dsub 28" "dmul 28" "dneg 28" "dabs 28"
  by (rule context_of_precision) simp

interpretation c50: decimal_context "dfix 50" "drepr 50" "dadd 50" "dsub 50" "dmul 50" "dneg 50" "dabs 50"
  by (rule context_of_precision) simp

text \<open>Rounding moves a value by at most one unit in the last of \<open>p\<close> digits.\<close>

lemma dfix_relative:
  assumes p: "1 \<le> p" and d: "0 \<le> dval d"
  shows "\<bar>dval (dfix p d) - dval d\<bar> \<le> 10 powi (1 - p) * dval d"
proof (cases "drepr p d")
  case True
  then show ?thesis using d by (simp add: dfix_id)
next
  case False
  obtain c e where ce: "d = Dec c e" by (cases d)
  define k where "k = ndigits c - p"
  have c: "0 \<le> c" using d dval_sign(2) [of d] by (simp add: ce) 
  have k: "1 \<le> k" using False c by (simp add: ce drepr_def k_def)
  then have c0: "0 < c" using c p by (cases "c = 0") (auto simp: k_def ndigits.simps)
  define m where "m = p10 k"
  have m: "0 < m" by (simp add: m_def)
  let ?r = "Dec (c div m) (e + k)"
  have nb: "p10 (p + k - 1) \<le> c" "c < p10 (p + k)" using ndigits_bounds [OF c0] by (simp_all add: k_def)
  have pk: "p10 (p + k) = p10 p * m" "p10 (p + k - 1) = p10 (p - 1) * m"
    using p10_add [of p k] p10_add [of "p - 1" k] p k by (simp_all add: m_def algebra_simps)
  have cd: "c div m * m \<le> c" "c - m \<le> c div m * m"
    using m by (simp_all add: minus_mod_eq_div_mult [symmetric] pos_mod_bound less_imp_le)
  have "c div m * m < p10 p * m" using cd(1) nb(2) by (simp add: pk)
  then have "c div m < p10 p" using m by (simp add: mult_less_cancel_right_pos)
  moreover have "0 \<le> c div m" using m c by (simp add: pos_imp_zdiv_nonneg_iff)
  ultimately have r: "drepr p ?r" using p by (simp add: drepr_def ndigits_le_iff)
  have mm: "10 powi (e + k) = (of_int m * 10 powi e :: rat)" using k by (simp add: m_def of_int_p10 powi_add mult.commute)
  have rv: "dval ?r = of_int (c div m * m) * 10 powi e" by (simp add: dval_def mm)
  have dv: "dval d = of_int c * 10 powi e" by (simp add: dval_def ce)
  have "dval ?r \<le> dval d" using cd(1) by (simp only: rv dv powi_cancel)
  moreover have "dval d - of_int m * 10 powi e \<le> dval ?r"
  proof -
    have "(of_int (c - m) * 10 powi e :: rat) \<le> of_int (c div m * m) * 10 powi e" using cd(2) by (simp only: powi_cancel)
    then show ?thesis by (simp add: rv dv algebra_simps)
  qed
  moreover have "of_int m * 10 powi e \<le> 10 powi (1 - p) * dval d"
  proof -
    have "(of_int (p10 (p - 1) * m) * 10 powi e :: rat) \<le> of_int c * 10 powi e" using nb(1) by (simp only: powi_cancel pk)
    then have "10 powi (1 - p) * (10 powi (p - 1) * (of_int m * 10 powi e)) \<le> 10 powi (1 - p) * dval d"
      using p by (intro mult_left_mono) (simp_all add: of_int_p10 dv mult.assoc less_imp_le)
    then show ?thesis by (simp add: mult.assoc [symmetric] powi_add [symmetric])
  qed
  ultimately have "\<bar>dval ?r - dval d\<bar> \<le> 10 powi (1 - p) * dval d" by linarith
  then show ?thesis using dfix_nearest [OF p r, of d] by linarith
qed

lemma dfix_close:
  assumes p: "1 \<le> p"
  shows "\<bar>dval (dfix p d) - dval d\<bar> \<le> 10 powi (1 - p) * \<bar>dval d\<bar>"
proof (cases "0 \<le> dval d")
  case True
  then show ?thesis using dfix_relative [OF p] by simp
next
  case False
  obtain c e where d: "d = Dec c e" by (cases d)
  have "dval (Dec (- c) e) = - dval d" by (simp add: d dval_def)
  then show ?thesis using dfix_relative [OF p, of "Dec (- c) e"] False dfix_neg [OF p, of c e] by (simp add: d abs_if split: if_splits)
qed

locale accurate_context = decimal_context +
  fixes eps :: rat
  assumes eps_bounds: "0 \<le> eps" "eps \<le> 1"
    and rnd_close: "\<bar>dval (rnd a) - dval a\<bar> \<le> eps * \<bar>dval a\<bar>"
begin

lemma rnd_relative: "0 \<le> dval a \<Longrightarrow> (1 - eps) * dval a \<le> dval (rnd a)"
  using rnd_close [of a] by (simp add: algebra_simps abs_le_iff)

lemma rnd_below: "dval a \<le> 0 \<Longrightarrow> dval (rnd a) \<le> (1 - eps) * dval a"
  using rnd_close [of a] by (simp add: algebra_simps abs_le_iff)

text \<open>A rounded sum of \<open>n\<close> nonnegative terms falls short of the exact one by \<open>n\<close> roundings at most.\<close>

lemma foldl_add_lower:
  assumes "\<forall>x \<in> set xs. 0 \<le> dval x" and "0 \<le> dval a"
  shows "(1 - eps) ^ length xs * (dval a + sum_list (map dval xs)) \<le> dval (foldl add a xs)"
  using assms
proof (induction xs arbitrary: a)
  case Nil
  then show ?case by simp
next
  case (Cons x xs)
  let ?f = "(1 - eps) ^ length xs" and ?t = "sum_list (map dval xs)"
  have t: "0 \<le> ?t" using Cons.prems(1) by (auto intro!: sum_list_nonneg)
  obtain s where s: "add a x = rnd s" "dval s = dval a + dval x" using add_spec by blast
  have low: "(1 - eps) * (dval a + dval x) \<le> dval (add a x)"
    using rnd_relative [of s] Cons.prems by (simp add: s)
  have "(1 - eps) * (dval a + dval x + ?t) \<le> (1 - eps) * (dval a + dval x) + 1 * ?t"
    using t eps_bounds mult_right_mono [of "1 - eps" 1 ?t] by (simp add: algebra_simps)
  also have "\<dots> \<le> dval (add a x) + ?t" using low by simp
  finally have "?f * ((1 - eps) * (dval a + dval x + ?t)) \<le> ?f * (dval (add a x) + ?t)"
    using eps_bounds by (intro mult_left_mono) auto
  also have "\<dots> \<le> dval (foldl add (add a x) xs)"
    using Cons.prems by (intro Cons.IH) (auto intro: add_nonneg)
  finally show ?case by (simp add: mult_ac add.assoc)
qed

text \<open>The rounded sum of \<open>n\<close> nonnegative terms is off by \<open>n\<close> roundings at most, in either direction.\<close>

lemma foldl_add_close:
  assumes "\<forall>x \<in> set xs. 0 \<le> dval x" and "0 \<le> dval a"
  shows "\<bar>dval (foldl add a xs) - (dval a + sum_list (map dval xs))\<bar> \<le>
    ((1 + eps) ^ length xs - 1) * (dval a + sum_list (map dval xs))"
  using assms
proof (induction xs arbitrary: a)
  case Nil
  then show ?case by simp
next
  case (Cons x xs)
  let ?g = "(1 + eps) ^ length xs - 1" and ?t = "sum_list (map dval xs)" and ?s = "dval a + dval x"
  have pos: "0 \<le> ?s" "0 \<le> ?t" using Cons.prems by (auto intro!: sum_list_nonneg)
  have g: "0 \<le> ?g" using eps_bounds one_le_power [of "1 + eps" "length xs"] by simp
  obtain s where s: "add a x = rnd s" "dval s = ?s" using add_spec by blast
  have near: "\<bar>dval (add a x) - ?s\<bar> \<le> eps * ?s" using rnd_close [of s] pos(1) by (simp add: s)
  have "\<bar>dval (foldl add (add a x) xs) - (dval (add a x) + ?t)\<bar> \<le> ?g * (dval (add a x) + ?t)"
    using Cons.prems by (intro Cons.IH) (auto intro: add_nonneg)
  also have "\<dots> \<le> ?g * ((1 + eps) * ?s + ?t)"
    using near g by (intro mult_left_mono) (simp_all add: algebra_simps abs_le_iff)
  finally have "\<bar>dval (foldl add (add a x) xs) - (?s + ?t)\<bar> \<le> ?g * ((1 + eps) * ?s + ?t) + eps * ?s"
    using near by linarith
  also have "\<dots> \<le> ?g * ((1 + eps) * (?s + ?t)) + eps * (?s + ?t)"
  proof -
    have "0 \<le> eps * ?t" using pos eps_bounds by simp
    then have "(1 + eps) * ?s + ?t \<le> (1 + eps) * (?s + ?t)" "eps * ?s \<le> eps * (?s + ?t)"
      using pos by (simp_all only: distrib_left distrib_right mult_1_left)
    then show ?thesis by (intro add_mono [OF mult_left_mono [OF _ g]])
  qed
  also have "\<dots> = ((1 + eps) ^ length (x # xs) - 1) * (?s + ?t)" by (simp add: algebra_simps)
  finally show ?case by (simp add: add.assoc)
qed

end

definition ulp50 :: rat where "ulp50 = 1 / 10 ^ 49"

lemma ulp50_bounds: "0 \<le> ulp50" "ulp50 \<le> 1"
  by (simp_all add: ulp50_def)

interpretation a50: accurate_context "dfix 50" "drepr 50" "dadd 50" "dsub 50" "dmul 50" "dneg 50" "dabs 50" ulp50
proof unfold_locales
  show "0 \<le> ulp50" "ulp50 \<le> 1" by (rule ulp50_bounds)+
  show "\<bar>dval (dfix 50 a) - dval a\<bar> \<le> ulp50 * \<bar>dval a\<bar>" for a
    using dfix_close [of 50 a] unfolding ulp50_def
    by (simp add: power_int_def power_one_over inverse_eq_divide del: power_numeral)
qed

section \<open>Quantizing\<close>

lemma domain_decimal_drepr: "domain_decimal d \<Longrightarrow> drepr QUANTIZE_PRECISION d"
  by (simp add: domain_decimal_def drepr_def QUANTIZE_PRECISION_def MAX_DOMAIN_DECIMAL_DIGITS_def)

lemma dstrip_all: "dstrip k (c * 10 ^ k) e = Dec c (e + int k)"
proof (induction k arbitrary: e)
  case 0 show ?case by simp
next
  case (Suc k)
  have "c * 10 ^ Suc k = (c * 10 ^ k) * 10" by simp
  then have "c * 10 ^ Suc k mod 10 = 0" "c * 10 ^ Suc k div 10 = c * 10 ^ k"
    by (simp_all only: mod_mult_self2_is_0 nonzero_mult_div_cancel_right)
  with Suc show ?case by simp
qed

text \<open>Dividing by a power of ten only moves the exponent.\<close>

lemma ddiv_pow10:
  assumes "1 \<le> p" and "drepr p (Dec c d)"
  shows "ddiv p (Dec c d) (Dec 1 u) = Some (Dec c (d - u))"
proof (cases "c = 0")
  case True then show ?thesis by simp
next
  case False
  define s where "s = 1 - ndigits \<bar>c\<bar> + p + 1"
  have s: "0 \<le> s" using assms by (simp add: s_def drepr_def)
  have "ddiv_mag p \<bar>c\<bar> d 1 u = dstrip (nat s) (\<bar>c\<bar> * p10 s) (d - u - s)"
    using s by (simp add: ddiv_mag_def Let_def s_def ndigits.simps [of 1] p10_nonpos)
  also have "\<dots> = Dec \<bar>c\<bar> (d - u)" using s by (simp add: p10_def dstrip_all)
  finally have m: "ddiv_mag p \<bar>c\<bar> d 1 u = Dec \<bar>c\<bar> (d - u)" .
  have "dfix p (Dec c (d - u)) = Dec c (d - u)" using assms by (intro dfix_id) (simp add: drepr_def)
  with m False show ?thesis by (simp add: sgn_mult_abs)
qed

text \<open>
  Rounding down to a power-of-ten quantum: the closed form of the computation, which is also how
  concrete instances evaluate, and the floor law it gives for nonnegative values.
\<close>

definition quantized_down :: "decimal \<Rightarrow> int \<Rightarrow> decimal" where
  "quantized_down d u =
     (if u \<le> expo d then Dec (coeff d * p10 (expo d - u)) u
      else Dec (sgn (coeff d) * (\<bar>coeff d\<bar> div p10 (u - expo d))) u)"

lemma domain_pow10: "- 64 \<le> u \<Longrightarrow> u \<le> 64 \<Longrightarrow> domain_decimal (Dec 1 u)"
  by (simp add: domain_decimal_def ndigits.simps MAX_DOMAIN_DECIMAL_DIGITS_def
      MIN_DOMAIN_DECIMAL_EXPONENT_def MAX_DOMAIN_DECIMAL_EXPONENT_def)

lemma ndigits_quantized:
  assumes d: "domain_decimal d" and u: "- 64 \<le> u" "u \<le> 64"
  shows "ndigits \<bar>coeff (quantized_down d u)\<bar> \<le> 192"
proof -
  have c: "ndigits \<bar>coeff d\<bar> \<le> 64" and e: "- 64 \<le> expo d" "expo d \<le> 64"
    using d by (simp_all add: domain_decimal_def MAX_DOMAIN_DECIMAL_DIGITS_def
      MIN_DOMAIN_DECIMAL_EXPONENT_def MAX_DOMAIN_DECIMAL_EXPONENT_def)
  show ?thesis
  proof (cases "u \<le> expo d")
    case True
    show ?thesis
    proof (cases "coeff d = 0")
      case True then show ?thesis by (simp add: quantized_down_def ndigits.simps)
    next
      case False
      then have "ndigits \<bar>coeff (quantized_down d u)\<bar> = ndigits \<bar>coeff d\<bar> + (expo d - u)"
        using \<open>u \<le> expo d\<close> by (simp add: quantized_down_def abs_mult ndigits_shift)
      then show ?thesis using c e u by simp
    qed
  next
    case False
    have "0 \<le> \<bar>coeff d\<bar> div p10 (u - expo d)" by (simp add: pos_imp_zdiv_nonneg_iff)
    moreover have "\<bar>coeff d\<bar> div p10 (u - expo d) \<le> \<bar>coeff d\<bar>"
      using zdiv_mono2 [of "\<bar>coeff d\<bar>" 1 "p10 (u - expo d)"] p10_pos [of "u - expo d"] by simp
    ultimately have "ndigits (\<bar>coeff d\<bar> div p10 (u - expo d)) \<le> 64"
      using ndigits_mono c by (meson order_trans)
    moreover have "\<bar>coeff (quantized_down d u)\<bar> = \<bar>coeff d\<bar> div p10 (u - expo d)"
      using False \<open>0 \<le> \<bar>coeff d\<bar> div p10 (u - expo d)\<close>
      by (cases "coeff d = 0") (simp_all add: quantized_down_def abs_mult abs_sgn_eq)
    ultimately show ?thesis by simp
  qed
qed

lemma quantize_down:
  assumes d: "domain_decimal d" and u: "- 64 \<le> u" "u \<le> 64"
  shows "quantize_decimal d (Dec 1 u) DOWN = require_finite_decimal (quantized_down d u)"
proof -
  let ?P = QUANTIZE_PRECISION and ?Q = "quantized_down d u"
  have P: "?P = 260" by (simp add: QUANTIZE_PRECISION_def MAX_DOMAIN_DECIMAL_DIGITS_def)
  have div: "ddiv ?P d (Dec 1 u) = Some (Dec (coeff d) (expo d - u))"
    using ddiv_pow10 [of ?P "coeff d" "expo d" u] domain_decimal_drepr [OF d] by (simp add: P)
  have n: "ndigits \<bar>coeff ?Q\<bar> \<le> 260" using ndigits_quantized [OF d u] by simp
  have q: "dquantize1 ?P DOWN (Dec (coeff d) (expo d - u)) = Inr (Dec (coeff ?Q) 0)"
    using n by (auto simp: P quantized_down_def round_mag_def Let_def split: if_splits)
  have "dmul ?P (Dec (coeff ?Q) 0) (Dec 1 u) = Dec (coeff ?Q) u"
    using n by (simp add: P dfix.simps)
  moreover have "Dec (coeff ?Q) u = ?Q" by (simp add: quantized_down_def)
  moreover have "\<not> dle (Dec 1 u) dzero" by (simp add: dle_iff dval_def)
  ultimately show ?thesis
    using d domain_pow10 [OF u] div q by (simp add: quantize_decimal_def require_finite_decimal_def)
qed

text \<open>The closed form for evaluation; every other rounding takes the general path.\<close>

lemma quantize_decimal_code [code]:
  "quantize_decimal value quantum rounding =
     (if coeff quantum = 1 \<and> - 64 \<le> expo quantum \<and> expo quantum \<le> 64 \<and> rounding = DOWN \<and> domain_decimal value
      then require_finite_decimal (quantized_down value (expo quantum))
      else bindE (require_finite_decimal value) (\<lambda>number.
        bindE (require_finite_decimal quantum) (\<lambda>unit.
        if dle unit dzero then Inl (DomainValidationError ''quantum must be positive'')
        else
          bindE (rethrow (DomainValidationError ''could not be quantized'')
            (case ddiv QUANTIZE_PRECISION number unit of
               None \<Rightarrow> Inl (DecimalException ''DivisionByZero'')
             | Some ratio \<Rightarrow>
                 bindE (dquantize1 QUANTIZE_PRECISION rounding ratio) (\<lambda>unit_count.
                   Inr (dmul QUANTIZE_PRECISION unit_count unit))))
          require_finite_decimal)))"
  using quantize_down [of "value" "expo quantum"] by (cases quantum) (auto simp: quantize_decimal_def)

lemma quantized_down_bounds:
  assumes "0 \<le> dval d"
  shows "0 \<le> dval (quantized_down d u)" and "dval (quantized_down d u) \<le> dval d"
    and "dval d < dval (quantized_down d u) + 10 powi u"
proof -
  have c: "0 \<le> coeff d" using assms dval_sign(2) [of d] by linarith
  have "0 \<le> dval (quantized_down d u) \<and> dval (quantized_down d u) \<le> dval d \<and>
      dval d < dval (quantized_down d u) + 10 powi u"
  proof (cases "u \<le> expo d")
    case True
    then have "dval (quantized_down d u) = dval d"
      using dval_align [OF True] by (simp add: quantized_down_def dval_def [of "Dec _ _"])
    with assms show ?thesis by simp
  next
    case False
    define k q where "k = p10 (u - expo d)" and "q = coeff d div k"
    have k: "0 < k" by (simp add: k_def)
    have kk: "10 powi u = (of_int k * 10 powi expo d :: rat)"
      using False by (simp add: k_def of_int_p10 flip: powi_add)
    have Q: "dval (quantized_down d u) = of_int (q * k) * 10 powi expo d"
      using False c by (auto simp: quantized_down_def q_def k_def [symmetric] dval_def kk sgn_if)
    have c_eq: "coeff d = q * k + coeff d mod k" by (simp add: q_def)
    have "0 \<le> q" using k c by (simp add: q_def pos_imp_zdiv_nonneg_iff)
    then have b: "0 \<le> q * k" "q * k \<le> coeff d" "coeff d < (q + 1) * k"
      using k c_eq pos_mod_bound [OF k, of "coeff d"] pos_mod_sign [OF k, of "coeff d"]
      by (simp_all add: distrib_right)
    have "dval (quantized_down d u) + 10 powi u = of_int ((q + 1) * k) * 10 powi expo d"
      by (simp add: Q kk algebra_simps)
    moreover have "dval d = of_int (coeff d) * 10 powi expo d" by (simp add: dval_def)
    moreover have "0 \<le> (of_int (q * k) * 10 powi expo d :: rat)"
      using b(1) by (intro mult_nonneg_nonneg) (simp_all only: of_int_0_le_iff less_imp_le powi_pos)
    ultimately show ?thesis using b(2,3) by (simp only: Q powi_cancel simp_thms)
  qed
  then show "0 \<le> dval (quantized_down d u)" "dval (quantized_down d u) \<le> dval d"
    "dval d < dval (quantized_down d u) + 10 powi u" by auto
qed


end
