(* ===== verification/Canonical.thy ===== *)
theory Canonical
  imports Decimals "HOL-Library.Multiset"
begin

text \<open>
  Canonical JSON and content hashes (\<open>platform/canonical.py\<close>, \<open>platform/hashing.py\<close>,
  \<open>domain.DeterministicId\<close>): the closed set of encodable values, normalization under the node,
  depth and text budgets, rendering with sorted keys, and identifiers of the form
  \<open>prefix_digest\<close>. The digest itself, \<open>hashlib.sha256(...).hexdigest()\<close>, is the argument
  \<open>sha\<close> of every definition that hashes. Strings are their UTF-8 bytes; structural positions
  are left out of error messages; the object-identity cycle check cannot fire on a value of a
  datatype. Floating-point values are not modelled: no hashed record of the modelled modules has
  one.
\<close>

section \<open>Values and budgets\<close>

datatype pval =
    PNone | PBool bool | PInt int | PStr string | PDec decimal | PTime int | PEnum string
  | PSeq "pval list" | PMap "(string \<times> pval) list"

datatype json =
    JNull | JBool bool | JInt int | JStr string | JList "json list" | JObj "(string \<times> json) list"

record budget =
  nodes :: int
  text_bytes :: int

definition MAX_DEPTH :: int where "MAX_DEPTH = 32"

definition MAX_NODES :: int where "MAX_NODES = 4096"

definition MAX_STRING_BYTES :: int where "MAX_STRING_BYTES = 65536"

definition MAX_TEXT_BYTES :: int where "MAX_TEXT_BYTES = 1048576"

definition MAX_DECIMAL_CHARACTERS :: int where "MAX_DECIMAL_CHARACTERS = 1024"

definition MAX_OUTPUT_BYTES :: int where "MAX_OUTPUT_BYTES = 8388608"

definition MIN_SIGNED_64_BIT_INTEGER :: int where "MIN_SIGNED_64_BIT_INTEGER = - (2 ^ 63)"

definition MAX_SIGNED_64_BIT_INTEGER :: int where "MAX_SIGNED_64_BIT_INTEGER = 2 ^ 63 - 1"

definition consume_node :: "int \<Rightarrow> budget \<Rightarrow> budget res" where
  "consume_node depth b =
     (if depth > MAX_DEPTH then Inl (CanonicalizationError ''canonical nesting limit exceeded'')
      else if nodes b + 1 > MAX_NODES
        then Inl (CanonicalizationError ''canonical node limit exceeded'')
      else Inr (b\<lparr>nodes := nodes b + 1\<rparr>))"

definition consume_text :: "int \<Rightarrow> budget \<Rightarrow> budget res" where
  "consume_text n b =
     (if text_bytes b + n > MAX_TEXT_BYTES
      then Inl (CanonicalizationError ''canonical text limit exceeded'')
      else Inr (b\<lparr>text_bytes := text_bytes b + n\<rparr>))"

definition consume_string :: "string \<Rightarrow> budget \<Rightarrow> budget res" where
  "consume_string s b =
     (if int (length s) > MAX_STRING_BYTES
      then Inl (CanonicalizationError ''string length limit exceeded'')
      else consume_text (int (length s)) b)"

fun consume_keys :: "string list \<Rightarrow> budget \<Rightarrow> budget res" where
  "consume_keys [] b = Inr b"
| "consume_keys (k # ks) b = bindE (consume_string k b) (consume_keys ks)"

section \<open>Scalars as text\<close>

definition digit_char :: "int \<Rightarrow> char" where
  "digit_char d = char_of (48 + nat d)"

fun nat_text :: "int \<Rightarrow> string" where
  "nat_text n = (if n < 10 then [digit_char n] else nat_text (n div 10) @ [digit_char (n mod 10)])"

declare nat_text.simps [simp del]

definition int_text :: "int \<Rightarrow> string" where
  "int_text n = (if n < 0 then CHR ''-'' # nat_text (- n) else nat_text n)"

text \<open>\<open>format(value, "f")\<close> of a nonzero magnitude, without the sign.\<close>

definition plain_text :: "int \<Rightarrow> int \<Rightarrow> string" where
  "plain_text c e =
     (let ds = nat_text c; n = int (length ds) in
      if 0 \<le> e then ds @ replicate (nat e) CHR ''0''
      else if n + e > 0 then take (nat (n + e)) ds @ ''.'' @ drop (nat (n + e)) ds
      else ''0.'' @ replicate (nat (- e - n)) CHR ''0'' @ ds)"

definition rstrip :: "char \<Rightarrow> string \<Rightarrow> string" where
  "rstrip c s = rev (dropWhile (\<lambda>x. x = c) (rev s))"

definition decimal_characters :: "decimal \<Rightarrow> int" where
  "decimal_characters d =
     (let n = ndigits \<bar>coeff d\<bar>; e = expo d in
      (if 0 \<le> e then n + e else if n + e > 0 then n + 1 else 2 - e)
      + (if coeff d < 0 then 1 else 0))"

definition decimal_text :: "decimal \<Rightarrow> string res" where
  "decimal_text d =
     (if coeff d = 0 then Inr ''0''
      else if decimal_characters d > MAX_DECIMAL_CHARACTERS
        then Inl (CanonicalizationError ''Decimal length limit exceeded'')
      else
        (let rendered = (if coeff d < 0 then ''-'' else '''') @ plain_text \<bar>coeff d\<bar> (expo d)
         in Inr (if CHR ''.'' \<in> set rendered then rstrip CHR ''.'' (rstrip CHR ''0'' rendered)
                 else rendered)))"

text \<open>
  An instant is its distance from 1970-01-01T00:00:00Z in microseconds; the civil date of a day
  number is computed as \<open>datetime.fromordinal\<close> does, on cycles of 400, 100, 4 and 1 years.
\<close>

definition days_before_month :: "int \<Rightarrow> bool \<Rightarrow> int" where
  "days_before_month m leap =
     (if m < 0 \<or> 12 < m then 0 else [-1, 0, 31, 59, 90, 120, 151, 181, 212, 243, 273, 304, 334] ! nat m) +
     (if m > 2 \<and> leap then 1 else 0)"

definition date_of_cycles :: "int \<Rightarrow> int \<Rightarrow> int \<Rightarrow> int \<Rightarrow> int \<Rightarrow> int \<times> int \<times> int" where
  "date_of_cycles n400 n100 n4 n1 n =
     (let year = n400 * 400 + 1 + n100 * 100 + n4 * 4 + n1 in
      if n1 = 4 \<or> n100 = 4 then (year - 1, 12, 31)
      else
        (let leap = (n1 = 3 \<and> (n4 \<noteq> 24 \<or> n100 = 3)); month = (n + 50) div 32;
             month = (if days_before_month month leap > n then month - 1 else month) in
         (year, month, n - days_before_month month leap + 1)))"

definition civil_date :: "int \<Rightarrow> int \<times> int \<times> int" where
  "civil_date days =
     (let n = days + 719162; r = n mod 146097; s = r mod 36524; t = s mod 1461 in
      date_of_cycles (n div 146097) (r div 36524) (s div 1461) (t div 365) (t mod 365))"

definition pad :: "nat \<Rightarrow> int \<Rightarrow> string" where
  "pad w n = (let s = nat_text n in replicate (w - length s) CHR ''0'' @ s)"

definition datetime_text :: "int \<Rightarrow> string" where
  "datetime_text t =
     (let us = t mod 1000000; s = t div 1000000; sod = s mod 86400 in
      case civil_date (s div 86400) of (y, m, d) \<Rightarrow>
        pad 4 y @ ''-'' @ pad 2 m @ ''-'' @ pad 2 d @ ''T'' @
        pad 2 (sod div 3600) @ '':'' @ pad 2 (sod div 60 mod 60) @ '':'' @ pad 2 (sod mod 60) @
        ''.'' @ pad 6 us @ ''Z'')"

section \<open>Normalization\<close>

lemma size_list_sort_key: "size_list f (sort_key k xs) = size_list f xs"
proof -
  have "sum_list (map f (sort_key k xs)) = sum_list (map f xs)"
    by (metis mset_map mset_sort sum_mset_sum_list)
  then show ?thesis by (simp add: size_list_conv_sum_list)
qed

function (sequential)
  normalize :: "int \<Rightarrow> pval \<Rightarrow> budget \<Rightarrow> (json \<times> budget) res" and
  normalize_sequence :: "int \<Rightarrow> pval list \<Rightarrow> budget \<Rightarrow> (json list \<times> budget) res" and
  normalize_mapping :: "int \<Rightarrow> (string \<times> pval) list \<Rightarrow> budget \<Rightarrow> ((string \<times> json) list \<times> budget) res"
where
  "normalize depth v b =
     bindE (consume_node depth b) (\<lambda>b. case v of
       PEnum s \<Rightarrow> bindE (consume_node (depth + 1) b) (\<lambda>b.
         bindE (consume_string s b) (\<lambda>b. Inr (JStr s, b)))
     | PNone \<Rightarrow> Inr (JNull, b)
     | PBool x \<Rightarrow> Inr (JBool x, b)
     | PInt n \<Rightarrow>
         (if MIN_SIGNED_64_BIT_INTEGER \<le> n \<and> n \<le> MAX_SIGNED_64_BIT_INTEGER then Inr (JInt n, b)
          else Inl (CanonicalizationError ''integer range limit exceeded''))
     | PStr s \<Rightarrow> bindE (consume_string s b) (\<lambda>b. Inr (JStr s, b))
     | PDec d \<Rightarrow> bindE (decimal_text d) (\<lambda>s.
         bindE (consume_text (int (length s)) b) (\<lambda>b. Inr (JStr s, b)))
     | PTime t \<Rightarrow>
         bindE (consume_text (int (length (datetime_text t))) b) (\<lambda>b. Inr (JStr (datetime_text t), b))
     | PSeq vs \<Rightarrow> bindE (normalize_sequence depth vs b) (\<lambda>(js, b). Inr (JList js, b))
     | PMap kvs \<Rightarrow>
         bindE (consume_keys (map fst kvs) b) (\<lambda>b.
         bindE (normalize_mapping depth (sort_key fst kvs) b) (\<lambda>(js, b). Inr (JObj js, b))))"
| "normalize_sequence depth [] b = Inr ([], b)"
| "normalize_sequence depth (v # vs) b =
     bindE (normalize (depth + 1) v b) (\<lambda>(j, b).
     bindE (normalize_sequence depth vs b) (\<lambda>(js, b). Inr (j # js, b)))"
| "normalize_mapping depth [] b = Inr ([], b)"
| "normalize_mapping depth ((k, v) # kvs) b =
     bindE (normalize (depth + 1) v b) (\<lambda>(j, b).
     bindE (normalize_mapping depth kvs b) (\<lambda>(js, b). Inr ((k, j) # js, b)))"
  by pat_completeness auto
termination
  by (relation "measure (\<lambda>x. case x of
        Inl (_, v, _) \<Rightarrow> size v
      | Inr (Inl (_, vs, _)) \<Rightarrow> size_list size vs
      | Inr (Inr (_, kvs, _)) \<Rightarrow> size_list (size_prod (\<lambda>_. 0) size) kvs)")
    (auto simp: size_list_sort_key)

text \<open>The first equation applies to every value; its instances per constructor are the rules used.\<close>

declare normalize.simps [simp del]

lemmas normalize_constructors [simp] =
  normalize.simps [where v = PNone, simplified] normalize.simps [where v = "PBool x" for x, simplified]
  normalize.simps [where v = "PInt n" for n, simplified] normalize.simps [where v = "PStr s" for s, simplified]
  normalize.simps [where v = "PDec d" for d, simplified] normalize.simps [where v = "PTime t" for t, simplified]
  normalize.simps [where v = "PEnum s" for s, simplified] normalize.simps [where v = "PSeq vs" for vs, simplified]
  normalize.simps [where v = "PMap kvs" for kvs, simplified]

section \<open>Rendering\<close>

definition hex_char :: "nat \<Rightarrow> char" where
  "hex_char n = char_of (if n < 10 then 48 + n else 87 + n)"

definition escape_char :: "char \<Rightarrow> string" where
  "escape_char c =
     (let n = of_char c :: nat in
      if c = CHR 0x22 then [CHR 0x5C, CHR 0x22]
      else if c = CHR 0x5C then [CHR 0x5C, CHR 0x5C]
      else if n = 10 then [CHR 0x5C, CHR ''n'']
      else if n = 13 then [CHR 0x5C, CHR ''r'']
      else if n = 9 then [CHR 0x5C, CHR ''t'']
      else if n = 8 then [CHR 0x5C, CHR ''b'']
      else if n = 12 then [CHR 0x5C, CHR ''f'']
      else if n < 32 then CHR 0x5C # ''u00'' @ [hex_char (n div 16), hex_char (n mod 16)]
      else [c])"

definition quoted :: "string \<Rightarrow> string" where
  "quoted s = [CHR 0x22] @ concat (map escape_char s) @ [CHR 0x22]"

fun dumps :: "json \<Rightarrow> string" where
  "dumps JNull = ''null''"
| "dumps (JBool x) = (if x then ''true'' else ''false'')"
| "dumps (JInt n) = int_text n"
| "dumps (JStr s) = quoted s"
| "dumps (JList js) = ''['' @ join '','' (map dumps js) @ '']''"
| "dumps (JObj kvs) = ''{'' @ join '','' (map (\<lambda>(k, j). quoted k @ '':'' @ dumps j) kvs) @ ''}''"

definition canonical_json_bytes :: "pval \<Rightarrow> string res" where
  "canonical_json_bytes v =
     bindE (normalize 0 v \<lparr>nodes = 0, text_bytes = 0\<rparr>) (\<lambda>(j, _).
       if int (length (dumps j)) > MAX_OUTPUT_BYTES
       then Inl (CanonicalizationError ''canonical output limit exceeded'')
       else Inr (dumps j))"

section \<open>Content hashes and deterministic identifiers\<close>

type_synonym sha256 = "string \<Rightarrow> string"

definition sha256_hex :: "sha256 \<Rightarrow> pval \<Rightarrow> string res" where
  "sha256_hex sha v = bindE (canonical_json_bytes v) (\<lambda>b. Inr (sha b))"

definition deterministic_id :: "string \<Rightarrow> string \<Rightarrow> string res" where
  "deterministic_id prefix digest =
     guarded
       [(\<not> is_id_prefix prefix, DomainValidationError ''deterministic ID prefix is invalid''),
        (\<not> is_hash digest, DomainValidationError ''deterministic ID digest must be lowercase SHA-256'')]
     (Inr (prefix @ ''_'' @ digest))"

definition deterministic_id_from :: "sha256 \<Rightarrow> string \<Rightarrow> pval \<Rightarrow> string res" where
  "deterministic_id_from sha prefix v =
     guarded [(\<not> is_id_prefix prefix, DomainValidationError ''deterministic ID prefix is invalid'')]
       (bindE (sha256_hex sha v) (deterministic_id prefix))"


section \<open>Only canonicalization errors\<close>

definition canonicalization_error :: "error \<Rightarrow> bool" where
  "canonicalization_error e \<longleftrightarrow> (\<exists>m. e = CanonicalizationError m)"

lemma consume_error:
  "consume_node d b = Inl e \<Longrightarrow> canonicalization_error e"
  "consume_text n b = Inl e \<Longrightarrow> canonicalization_error e"
  "consume_string s b = Inl e \<Longrightarrow> canonicalization_error e"
  "decimal_text x = Inl e \<Longrightarrow> canonicalization_error e"
  by (auto simp: consume_node_def consume_text_def consume_string_def decimal_text_def Let_def
      canonicalization_error_def split: if_splits)

lemma consume_keys_error: "consume_keys ks b = Inl e \<Longrightarrow> canonicalization_error e"
  by (induction ks arbitrary: b) (auto simp: bindE_Inl_iff intro: consume_error)

lemma normalize_error:
  "normalize d v b = Inl e \<Longrightarrow> canonicalization_error e"
  "normalize_sequence d vs b = Inl e \<Longrightarrow> canonicalization_error e"
  "normalize_mapping d kvs b = Inl e \<Longrightarrow> canonicalization_error e"
proof (induction d v b and d vs b and d kvs b rule: normalize_normalize_sequence_normalize_mapping.induct)
  case (1 depth v b)
  show ?case
  proof (cases v)
    case (PSeq vs)
    with 1 show ?thesis by (auto simp: bindE_Inl_iff dest: consume_error)
  next
    case (PMap kvs)
    with 1 show ?thesis by (auto simp: bindE_Inl_iff dest: consume_error consume_keys_error)
  next
    case (PInt n)
    with "1.prems" show ?thesis
      by (auto simp: bindE_Inl_iff canonicalization_error_def split: if_splits
          dest: consume_error [unfolded canonicalization_error_def])
  qed (use "1.prems" in \<open>auto simp: bindE_Inl_iff dest: consume_error\<close>)
qed (auto simp: bindE_Inl_iff)

lemma sha256_hex_error: "sha256_hex sha v = Inl e \<Longrightarrow> \<exists>m. e = CanonicalizationError m"
  by (auto simp: sha256_hex_def canonical_json_bytes_def bindE_Inl_iff canonicalization_error_def
      split: if_splits dest: normalize_error [unfolded canonicalization_error_def])

section \<open>The order of keys does not matter\<close>

lemma consume_string_Inr [simp, guard_simps]:
  "consume_string s b = Inr b' \<longleftrightarrow> int (length s) \<le> MAX_STRING_BYTES \<and>
     text_bytes b + int (length s) \<le> MAX_TEXT_BYTES \<and> b' = b\<lparr>text_bytes := text_bytes b + int (length s)\<rparr>"
  by (auto simp: consume_string_def consume_text_def)

lemma consume_keys_Inr:
  "consume_keys ks b = Inr b' \<longleftrightarrow> (\<forall>k \<in> set ks. int (length k) \<le> MAX_STRING_BYTES) \<and>
     (ks \<noteq> [] \<longrightarrow> text_bytes b + int (sum_list (map length ks)) \<le> MAX_TEXT_BYTES) \<and>
     b' = b\<lparr>text_bytes := text_bytes b + int (sum_list (map length ks))\<rparr>"
proof (induction ks arbitrary: b)
  case Nil show ?case by auto
next
  case (Cons k ks)
  show ?case by (cases "ks = []") (auto simp: Cons.IH algebra_simps)
qed

lemma consume_keys_perm:
  assumes "mset ks = mset ks'"
  shows "consume_keys ks b = Inr b' \<longleftrightarrow> consume_keys ks' b = Inr b'"
proof -
  have "set ks = set ks'" using assms by (rule mset_eq_setD)
  moreover have "sum_list (map length ks) = sum_list (map length ks')"
    using assms by (metis mset_map sum_mset_sum_list)
  moreover have "ks = [] \<longleftrightarrow> ks' = []" using assms by auto
  ultimately show ?thesis by (simp add: consume_keys_Inr)
qed

lemma canonical_json_bytes_PMap:
  "canonical_json_bytes (PMap kvs) = Inr s \<longleftrightarrow>
     (\<exists>b1 b2 js b3. consume_node 0 \<lparr>nodes = 0, text_bytes = 0\<rparr> = Inr b1 \<and>
        consume_keys (map fst kvs) b1 = Inr b2 \<and>
        normalize_mapping 0 (sort_key fst kvs) b2 = Inr (js, b3) \<and>
        int (length (dumps (JObj js))) \<le> MAX_OUTPUT_BYTES \<and> s = dumps (JObj js))"
  unfolding canonical_json_bytes_def normalize.simps [of 0 "PMap kvs"]
  by (simp only: bindE_Inr_iff split_paired_Ex pval.case prod.case Inr_inject)
    (force split: if_splits)

lemma canonical_json_bytes_keys:
  assumes "sort_key fst kvs = sort_key fst kvs'"
  shows "canonical_json_bytes (PMap kvs) = Inr s \<longleftrightarrow> canonical_json_bytes (PMap kvs') = Inr s"
proof -
  have "mset kvs = mset kvs'" using assms by (metis mset_sort)
  then have "mset (map fst kvs) = mset (map fst kvs')" by simp
  then have "consume_keys (map fst kvs) b = Inr b' \<longleftrightarrow> consume_keys (map fst kvs') b = Inr b'" for b b'
    by (rule consume_keys_perm)
  then show ?thesis by (simp only: canonical_json_bytes_PMap assms)
qed

lemma sha256_hex_keys:
  "sort_key fst kvs = sort_key fst kvs' \<Longrightarrow> sha256_hex sha (PMap kvs) = Inr h \<longleftrightarrow> sha256_hex sha (PMap kvs') = Inr h"
  using canonical_json_bytes_keys [of kvs kvs'] by (simp add: sha256_hex_def)

text \<open>
  Two dictionaries with the same entries have the same canonical bytes and hence the same
  content hash, whatever the order in which their keys were inserted.
\<close>

lemma content_hash_ignores_key_order:
  assumes "distinct (map fst kvs)" and "mset kvs = mset kvs'"
  shows "sha256_hex sha (PMap kvs) = Inr h \<longleftrightarrow> sha256_hex sha (PMap kvs') = Inr h"
proof (rule sha256_hex_keys, rule sort_key_inj_key_eq)
  show "mset kvs = mset (sort_key fst kvs')" using assms by simp
  show "inj_on fst (set kvs)" using assms(1) by (simp add: distinct_map)
qed simp

section \<open>Decimal text\<close>

definition decimal_render :: "decimal \<Rightarrow> string" where
  "decimal_render d =
     (let rendered = (if coeff d < 0 then ''-'' else '''') @ plain_text \<bar>coeff d\<bar> (expo d)
      in if CHR ''.'' \<in> set rendered then rstrip CHR ''.'' (rstrip CHR ''0'' rendered) else rendered)"

lemma decimal_text_Inr:
  "decimal_text d = Inr s \<longleftrightarrow>
     (if coeff d = 0 then s = ''0'' else decimal_characters d \<le> MAX_DECIMAL_CHARACTERS \<and> s = decimal_render d)"
  by (auto simp: decimal_text_def decimal_render_def Let_def)

definition is_digits :: "string \<Rightarrow> bool" where "is_digits s \<longleftrightarrow> list_all is_digit s"

definition digit_value :: "char \<Rightarrow> int" where "digit_value c = int (of_char c) - 48"

definition digits_value :: "string \<Rightarrow> int" where
  "digits_value s = foldl (\<lambda>n c. 10 * n + digit_value c) 0 s"

definition unsigned_value :: "string \<Rightarrow> rat" where
  "unsigned_value t =
     (let a = takeWhile (\<lambda>c. c \<noteq> CHR ''.'') t; b = drop 1 (dropWhile (\<lambda>c. c \<noteq> CHR ''.'') t)
      in of_int (digits_value (a @ b)) / 10 ^ length b)"

definition text_value :: "string \<Rightarrow> rat" where
  "text_value s = (case s of c # t \<Rightarrow> if c = CHR ''-'' then - unsigned_value t else unsigned_value s
     | [] \<Rightarrow> 0)"

lemma digit_char_value [simp]: "0 \<le> d \<Longrightarrow> d < 10 \<Longrightarrow> digit_value (digit_char d) = d"
  by (simp add: digit_value_def digit_char_def)

lemma digit_char_is_digit [simp]: "0 \<le> d \<Longrightarrow> d < 10 \<Longrightarrow> is_digit (digit_char d)"
  by (simp add: is_digit_def digit_char_def less_eq_char_def)

lemma digits_value_simps [simp]:
  "digits_value [] = 0" "digits_value (s @ [c]) = 10 * digits_value s + digit_value c"
  by (simp_all add: digits_value_def)

lemma foldl_digits: "foldl (\<lambda>n c. 10 * n + digit_value c) a s = a * 10 ^ length s + digits_value s"
  by (induction s rule: rev_induct) (simp_all add: digits_value_def algebra_simps)

lemma digits_value_append: "digits_value (s @ t) = digits_value s * 10 ^ length t + digits_value t"
proof -
  have "digits_value (s @ t) = foldl (\<lambda>n c. 10 * n + digit_value c) (digits_value s) t"
    by (simp add: digits_value_def)
  then show ?thesis by (simp add: foldl_digits)
qed

lemma digits_value_zeros [simp]: "digits_value (replicate k CHR ''0'') = 0"
  by (induction k) (simp_all add: digits_value_def digit_value_def)

lemma nat_text_value: "0 \<le> n \<Longrightarrow> digits_value (nat_text n) = n \<and> is_digits (nat_text n) \<and> nat_text n \<noteq> []"
proof (induction n rule: nat_text.induct)
  case (1 n)
  show ?case
  proof (cases "n < 10")
    case True
    with 1 show ?thesis
      using digits_value_simps(2) [of "[]" "digit_char n"] by (simp add: nat_text.simps [of n] is_digits_def)
  next
    case False
    with 1 show ?thesis by (simp add: nat_text.simps [of n] is_digits_def)
  qed
qed

lemma length_nat_text: "0 \<le> n \<Longrightarrow> int (length (nat_text n)) = ndigits n"
proof (induction n rule: nat_text.induct)
  case (1 n) then show ?case by (simp add: nat_text.simps [of n] ndigits.simps [of n])
qed

lemma is_digits_no_dot: "is_digits s \<Longrightarrow> CHR ''.'' \<notin> set s \<and> CHR ''-'' \<notin> set s"
  by (auto simp: is_digits_def list_all_iff is_digit_def less_eq_char_def)

lemma unsigned_value_plain: "is_digits a \<Longrightarrow> unsigned_value a = of_int (digits_value a)"
proof -
  assume "is_digits a"
  then have "\<forall>c \<in> set a. c \<noteq> CHR ''.''" using is_digits_no_dot by fastforce
  then have "takeWhile (\<lambda>c. c \<noteq> CHR ''.'') a = a" "dropWhile (\<lambda>c. c \<noteq> CHR ''.'') a = []"
    by (simp_all add: takeWhile_eq_all_conv)
  then show ?thesis unfolding unsigned_value_def Let_def by (simp only:) simp
qed

lemma unsigned_value_point:
  "is_digits a \<Longrightarrow> unsigned_value (a @ ''.'' @ b) = of_int (digits_value (a @ b)) / 10 ^ length b"
proof -
  assume "is_digits a"
  then have "\<forall>c \<in> set a. c \<noteq> CHR ''.''" using is_digits_no_dot by fastforce
  then have "takeWhile (\<lambda>c. c \<noteq> CHR ''.'') (a @ ''.'' @ b) = a"
      "dropWhile (\<lambda>c. c \<noteq> CHR ''.'') (a @ ''.'' @ b) = ''.'' @ b"
    by (simp_all add: takeWhile_append2 dropWhile_append2)
  then show ?thesis by (simp add: unsigned_value_def)
qed

lemma rstrip_snoc: "rstrip c (s @ [x]) = (if x = c then rstrip c s else s @ [x])"
  by (simp add: rstrip_def)

text \<open>Dropping trailing zeros, and then a bare point, keeps the value and what stands before.\<close>

lemma rstrip_point:
  assumes a: "is_digits a" "a \<noteq> []" and b: "is_digits b"
  shows "\<exists>t. t \<noteq> [] \<and> hd t = hd a \<and> unsigned_value t = unsigned_value (a @ ''.'' @ b) \<and>
    (\<forall>u. rstrip CHR ''.'' (rstrip CHR ''0'' (u @ a @ ''.'' @ b)) = u @ t)"
  using b
proof (induction b rule: rev_induct)
  case Nil
  obtain a' y where y: "a = a' @ [y]" using a(2) by (cases a rule: rev_cases) auto
  then have "y \<noteq> CHR ''.''" using is_digits_no_dot [OF a(1)] by auto
  then have "rstrip CHR ''.'' (rstrip CHR ''0'' (u @ a @ ''.'')) = u @ a" for u
    by (simp add: y rstrip_def)
  moreover have "unsigned_value a = unsigned_value (a @ ''.'')"
    using unsigned_value_point [OF a(1), of "[]"] by (simp add: unsigned_value_plain a(1))
  ultimately show ?case using a(2) by (intro exI [of _ a]) simp
next
  case (snoc x b)
  have b: "is_digits b" and x: "is_digit x" using snoc.prems by (simp_all add: is_digits_def)
  show ?case
  proof (cases "x = CHR ''0''")
    case True
    have "rstrip CHR ''0'' (u @ a @ ''.'' @ b @ [x]) = rstrip CHR ''0'' (u @ a @ ''.'' @ b)" for u
      using rstrip_snoc [of "CHR ''0''" "u @ a @ ''.'' @ b" x] True by simp
    moreover have "unsigned_value (a @ ''.'' @ b @ [x]) = unsigned_value (a @ ''.'' @ b)"
      using True digits_value_simps(2) [of "a @ b" x]
      by (simp only: unsigned_value_point [OF a(1)]) (simp add: digit_value_def)
    ultimately show ?thesis using snoc.IH [OF b] by simp
  next
    case False
    moreover have "x \<noteq> CHR ''.''" using x by (auto simp: is_digit_def less_eq_char_def)
    ultimately show ?thesis using a(2)
      by (intro exI [of _ "a @ ''.'' @ b @ [x]"]) (simp add: rstrip_def)
  qed
qed

text \<open>The plain rendering is digits, or digits with a point in them, of the right value.\<close>

lemma plain_text_cases:
  assumes "0 < c"
  obtains (integral) "is_digits (plain_text c e)" "of_int (digits_value (plain_text c e)) = dval (Dec c e)"
      "plain_text c e \<noteq> []"
    | (point) a b where "is_digits a" "is_digits b" "a \<noteq> []" "plain_text c e = a @ ''.'' @ b"
      "of_int (digits_value (a @ b)) / 10 ^ length b = dval (Dec c e)"
proof -
  let ?ds = "nat_text c"
  have ds: "digits_value ?ds = c" "is_digits ?ds" "?ds \<noteq> []" using nat_text_value [of c] assms by simp_all
  have zero: "is_digits (replicate k CHR ''0'')" for k
    by (simp add: is_digits_def list_all_iff is_digit_def less_eq_char_def)
  have neg: "(10 :: rat) ^ nat (- e) = inverse (10 powi e)" if "e < 0"
    using that by (simp add: power_int_def power_one_over)
  show thesis
  proof (cases "0 \<le> e")
    case True
    have "plain_text c e = ?ds @ replicate (nat e) CHR ''0''" using True by (simp add: plain_text_def Let_def)
    with True ds zero show thesis
      by (intro integral) (simp_all add: is_digits_def digits_value_append dval_def power_int_def)
  next
    case False
    let ?k = "nat (int (length ?ds) + e)"
    show thesis
    proof (cases "int (length ?ds) + e > 0")
      case True
      have "length (drop ?k ?ds) = nat (- e)" using True False by simp
      moreover have "of_int c / 10 ^ nat (- e) = dval (Dec c e)" using False by (simp add: neg dval_def field_simps)
      ultimately show thesis using True False ds
        by (intro point [of "take ?k ?ds" "drop ?k ?ds"])
          (auto simp: is_digits_def list_all_iff plain_text_def Let_def dest: in_set_takeD in_set_dropD)
    next
      case nop: False
      let ?b = "replicate (nat (- e - int (length ?ds))) CHR ''0'' @ ?ds"
      have "length ?b = nat (- e)" using nop False by simp
      moreover have "of_int c / 10 ^ nat (- e) = dval (Dec c e)" using False by (simp add: neg dval_def field_simps)
      moreover have "digits_value (''0'' @ ?b) = c"
        using ds digits_value_zeros [of "Suc (nat (- e - int (length ?ds)))"]
          digits_value_append [of "replicate (Suc (nat (- e - int (length ?ds)))) CHR ''0''" ?ds] by simp
      ultimately show thesis using nop False ds zero
        by (intro point [of "''0''" ?b])
          (auto simp: is_digits_def plain_text_def Let_def is_digit_def less_eq_char_def)
    qed
  qed
qed

lemma decimal_render_value:
  assumes "coeff d \<noteq> 0"
  shows "text_value (decimal_render d) = dval d"
proof -
  define c where "c = \<bar>coeff d\<bar>"
  have c: "0 < c" using assms by (simp add: c_def)
  have neg: "dval d = (if coeff d < 0 then - dval (Dec c (expo d)) else dval (Dec c (expo d)))"
    by (simp add: dval_def c_def)
  have "\<exists>body. unsigned_value body = dval (Dec c (expo d)) \<and> body \<noteq> [] \<and> hd body \<noteq> CHR ''-'' \<and>
      decimal_render d = (if coeff d < 0 then ''-'' else []) @ body"
    using c
  proof (cases rule: plain_text_cases [of c "expo d"])
    case integral
    then have "CHR ''.'' \<notin> set (plain_text c (expo d))" "hd (plain_text c (expo d)) \<noteq> CHR ''-''"
      using is_digits_no_dot [OF integral(1)] hd_in_set [OF integral(3)] by metis+
    with integral show ?thesis
      by (intro exI [of _ "plain_text c (expo d)"])
        (simp add: decimal_render_def c_def [symmetric] Let_def unsigned_value_plain)
  next
    case (point a b)
    obtain t where t: "t \<noteq> []" "hd t = hd a" "unsigned_value t = unsigned_value (a @ ''.'' @ b)"
        "\<And>u. rstrip CHR ''.'' (rstrip CHR ''0'' (u @ a @ ''.'' @ b)) = u @ t"
      using rstrip_point [OF point(1,3,2)] by blast
    have "hd a \<noteq> CHR ''-''" using is_digits_no_dot [OF point(1)] hd_in_set [OF point(3)] by metis
    moreover have "unsigned_value t = dval (Dec c (expo d))"
      using t(3) unsigned_value_point [OF point(1), of b] point(5) by simp
    moreover have "decimal_render d = (if coeff d < 0 then ''-'' else []) @ t"
      using t(4) [of "[]"] t(4) [of "''-''"] point(4)
      by (simp add: decimal_render_def c_def [symmetric] Let_def)
    ultimately show ?thesis using t(1,2) by (intro exI [of _ t]) simp
  qed
  then obtain body where body: "unsigned_value body = dval (Dec c (expo d))" "body \<noteq> []"
      "hd body \<noteq> CHR ''-''" "decimal_render d = (if coeff d < 0 then ''-'' else []) @ body"
    by blast
  then show ?thesis by (cases body) (auto simp: neg text_value_def)
qed

lemma decimal_text_value: "decimal_text d = Inr s \<Longrightarrow> text_value s = dval d"
proof (cases "coeff d = 0")
  case True
  assume "decimal_text d = Inr s"
  with True have "s = ''0''" by (simp add: decimal_text_Inr)
  then show ?thesis using True dval_sign(3) [of d]
    by (simp add: text_value_def unsigned_value_def digits_value_def digit_value_def)
next
  case False
  assume "decimal_text d = Inr s"
  with False show ?thesis by (simp add: decimal_text_Inr decimal_render_value)
qed

lemma nat_text_times_10: "0 < c \<Longrightarrow> nat_text (c * 10) = nat_text c @ ''0''"
proof -
  have "digit_char 0 = CHR ''0''" by code_simp
  then show "0 < c \<Longrightarrow> nat_text (c * 10) = nat_text c @ ''0''" by (simp add: nat_text.simps [of "c * 10"])
qed

text \<open>A trailing zero of the coefficient does not change the rendering.\<close>

lemma decimal_render_shift1:
  assumes "c \<noteq> 0"
  shows "decimal_render (Dec (c * 10) (e - 1)) = decimal_render (Dec c e)"
proof -
  let ?ds = "nat_text \<bar>c\<bar>" and ?u = "if c < 0 then ''-'' else []"
  have ds: "is_digits ?ds" "?ds \<noteq> []" "nat_text (\<bar>c\<bar> * 10) = ?ds @ ''0''"
    using assms nat_text_value [of "\<bar>c\<bar>"] nat_text_times_10 [of "\<bar>c\<bar>"] by auto
  have dot: "CHR ''.'' \<notin> set ?u" "CHR ''.'' \<notin> set ?ds" using is_digits_no_dot [OF ds(1)] by auto
  consider "1 \<le> e" | "e = 0" | "e < 0" by linarith
  then show ?thesis
  proof cases
    case 1
    then have "nat e = Suc (nat (e - 1))" by simp
    with 1 have "plain_text (\<bar>c\<bar> * 10) (e - 1) = plain_text \<bar>c\<bar> e"
      by (simp add: plain_text_def Let_def ds(3))
    then show ?thesis using assms by (simp add: decimal_render_def Let_def abs_mult mult_less_0_iff)
  next
    case 2
    obtain ds' y where y: "?ds = ds' @ [y]" using ds(2) by (cases "?ds" rule: rev_cases) auto
    have "y \<noteq> CHR ''.''" using dot(2) y by auto
    then have "rstrip CHR ''.'' (rstrip CHR ''0'' (u @ ?ds @ ''.0'')) = u @ ?ds" for u
      by (simp add: y rstrip_def)
    moreover have "plain_text (\<bar>c\<bar> * 10) (- 1) = ?ds @ ''.0''" "plain_text \<bar>c\<bar> 0 = ?ds"
      using ds(2) by (simp_all add: plain_text_def Let_def ds(3) nat_add_distrib)
    ultimately show ?thesis using 2 assms dot
      by (simp add: decimal_render_def Let_def abs_mult mult_less_0_iff)
  next
    case 3
    have t: "plain_text (\<bar>c\<bar> * 10) (e - 1) = plain_text \<bar>c\<bar> e @ ''0''"
      using 3 by (auto simp: plain_text_def Let_def ds(3))
    have "CHR ''.'' \<in> set (plain_text \<bar>c\<bar> e)" using 3 by (auto simp: plain_text_def Let_def)
    then show ?thesis using 3 assms rstrip_snoc [of "CHR ''0''" "u @ plain_text \<bar>c\<bar> e" "CHR ''0''" for u]
      by (simp add: decimal_render_def Let_def abs_mult mult_less_0_iff t)
  qed
qed

lemma decimal_render_shift: "c \<noteq> 0 \<Longrightarrow> decimal_render (Dec (c * 10 ^ k) (e - int k)) = decimal_render (Dec c e)"
proof (induction k arbitrary: c e)
  case 0 show ?case by simp
next
  case (Suc k)
  then have "decimal_render (Dec ((c * 10) * 10 ^ k) (e - 1 - int k)) = decimal_render (Dec c e)"
    using decimal_render_shift1 [of c e] by (subst Suc.IH) simp_all
  then show ?case by (simp add: algebra_simps)
qed

lemma decimal_render_cong:
  assumes "dval a = dval b" and "coeff a \<noteq> 0"
  shows "decimal_render a = decimal_render b"
proof -
  define m where "m = min (expo a) (expo b)"
  have shift: "decimal_render (Dec (coeff d * p10 (expo d - m)) m) = decimal_render d"
    if "m \<le> expo d" "coeff d \<noteq> 0" for d
    using decimal_render_shift [of "coeff d" "nat (expo d - m)" "expo d"] that by (simp add: p10_def)
  have "coeff b \<noteq> 0" using assms dval_sign(3) [of a] dval_sign(3) [of b] by simp
  moreover have "coeff a * p10 (expo a - m) = coeff b * p10 (expo b - m)"
    using assms(1) deq_iff [of a b] by (simp add: deq_def dalign_def Let_def m_def)
  ultimately show ?thesis using shift [of a] shift [of b] assms(2) by (simp add: m_def)
qed

text \<open>
  C37. The text of a decimal is canonical: two decimals that can be encoded have the same text
  exactly when they are numerically equal, so \<open>1.0\<close> and \<open>1.00\<close> hash alike and different
  amounts never do.
\<close>

theorem decimal_text_canonical:
  assumes "decimal_text a = Inr s" and "decimal_text b = Inr t"
  shows "s = t \<longleftrightarrow> dval a = dval b"
proof
  assume "s = t"
  then show "dval a = dval b" using assms decimal_text_value by metis
next
  assume eq: "dval a = dval b"
  then have "coeff a = 0 \<longleftrightarrow> coeff b = 0" using dval_sign(3) [of a] dval_sign(3) [of b] by simp
  then show "s = t" using assms decimal_render_cong [OF eq] by (auto simp: decimal_text_Inr split: if_splits)
qed

theorem decimal_text_canonical_witness: "''1.5'' = ''1.5'' \<longleftrightarrow> dval (Dec 15 (- 1)) = dval (Dec 1500 (- 3))"
proof -
  have "decimal_text (Dec 15 (- 1)) = Inr ''1.5''" by code_simp
  moreover have "decimal_text (Dec 1500 (- 3)) = Inr ''1.5''" by code_simp
  ultimately show ?thesis by (rule decimal_text_canonical)
qed

section \<open>Normalization in closed form\<close>

text \<open>
  The encoder as a specification: the JSON value of a program value, the nodes and text bytes it
  costs, and the limits each leaf and each level has to respect.
\<close>

fun jval :: "pval \<Rightarrow> json" where
  "jval PNone = JNull"
| "jval (PBool x) = JBool x"
| "jval (PInt n) = JInt n"
| "jval (PStr s) = JStr s"
| "jval (PDec d) = JStr (case decimal_text d of Inr s \<Rightarrow> s | Inl _ \<Rightarrow> '''')"
| "jval (PTime t) = JStr (datetime_text t)"
| "jval (PEnum s) = JStr s"
| "jval (PSeq vs) = JList (map jval vs)"
| "jval (PMap kvs) = JObj (sort_key fst (map (\<lambda>(k, v). (k, jval v)) kvs))"

fun pnodes :: "pval \<Rightarrow> int" where
  "pnodes (PEnum s) = 2"
| "pnodes (PSeq vs) = 1 + sum_list (map pnodes vs)"
| "pnodes (PMap kvs) = 1 + sum_list (map (\<lambda>(k, v). pnodes v) kvs)"
| "pnodes v = 1"

fun ptext :: "pval \<Rightarrow> int" where
  "ptext (PStr s) = int (length s)"
| "ptext (PEnum s) = int (length s)"
| "ptext (PDec d) = (case decimal_text d of Inr s \<Rightarrow> int (length s) | Inl _ \<Rightarrow> 0)"
| "ptext (PTime t) = int (length (datetime_text t))"
| "ptext (PSeq vs) = sum_list (map ptext vs)"
| "ptext (PMap kvs) = sum_list (map (\<lambda>(k, v). int (length k)) kvs) + sum_list (map (\<lambda>(k, v). ptext v) kvs)"
| "ptext v = 0"

fun pfits :: "int \<Rightarrow> pval \<Rightarrow> bool" where
  "pfits d (PInt n) \<longleftrightarrow> d \<le> MAX_DEPTH \<and> MIN_SIGNED_64_BIT_INTEGER \<le> n \<and> n \<le> MAX_SIGNED_64_BIT_INTEGER"
| "pfits d (PStr s) \<longleftrightarrow> d \<le> MAX_DEPTH \<and> int (length s) \<le> MAX_STRING_BYTES"
| "pfits d (PEnum s) \<longleftrightarrow> d < MAX_DEPTH \<and> int (length s) \<le> MAX_STRING_BYTES"
| "pfits d (PDec x) \<longleftrightarrow> d \<le> MAX_DEPTH \<and> (coeff x = 0 \<or> decimal_characters x \<le> MAX_DECIMAL_CHARACTERS)"
| "pfits d (PSeq vs) \<longleftrightarrow> d \<le> MAX_DEPTH \<and> (\<forall>v \<in> set vs. pfits (d + 1) v)"
| "pfits d (PMap kvs) \<longleftrightarrow> d \<le> MAX_DEPTH \<and>
     (\<forall>(k, v) \<in> set kvs. int (length k) \<le> MAX_STRING_BYTES \<and> pfits (d + 1) v)"
| "pfits d v \<longleftrightarrow> d \<le> MAX_DEPTH"

definition within_limits :: "pval \<Rightarrow> bool" where
  "within_limits v \<longleftrightarrow> pfits 0 v \<and> pnodes v \<le> MAX_NODES \<and> ptext v \<le> MAX_TEXT_BYTES"

definition spend :: "int \<Rightarrow> int \<Rightarrow> budget \<Rightarrow> budget" where
  "spend n t b = \<lparr>nodes = nodes b + n, text_bytes = text_bytes b + t\<rparr>"

lemma spend_simps [simp]:
  "nodes (spend n t b) = nodes b + n" "text_bytes (spend n t b) = text_bytes b + t"
  "spend n t (spend n' t' b) = spend (n' + n) (t' + t) b"
  "b\<lparr>nodes := nodes b + n\<rparr> = spend n 0 b" "b\<lparr>text_bytes := text_bytes b + t\<rparr> = spend 0 t b"
  by (simp_all add: spend_def)

lemma pcost_nonneg: "0 < pnodes v" "0 \<le> ptext v"
proof -
  show "0 < pnodes v"
    by (induction v rule: pnodes.induct) (auto intro!: add_pos_nonneg sum_list_nonneg simp: less_imp_le)
  show "0 \<le> ptext v"
    by (induction v rule: ptext.induct) (auto intro!: add_nonneg_nonneg sum_list_nonneg split: sum.splits)
qed

lemma sum_list_sort_key: "sum_list (map f (sort_key k xs)) = (sum_list (map f xs) :: int)"
  by (metis mset_map mset_sort sum_mset_sum_list)

lemma insort_key_fst_map:
  "insort_key fst (k, f v) (map (\<lambda>(k, v). (k, f v)) xs) = map (\<lambda>(k, v). (k, f v)) (insort_key fst (k, v) xs)"
  by (induction xs) auto

lemma sort_key_fst_map:
  "sort_key fst (map (\<lambda>(k, v). (k, f v)) xs) = map (\<lambda>(k, v). (k, f v)) (sort_key fst xs)"
  by (induction xs) (auto simp: insort_key_fst_map)

lemma decimal_text_Inr_iff:
  "(\<exists>s. decimal_text x = Inr s) \<longleftrightarrow> coeff x = 0 \<or> decimal_characters x \<le> MAX_DECIMAL_CHARACTERS"
  by (auto simp: decimal_text_def Let_def)

lemma consume_node_Inr:
  "consume_node d b = Inr b' \<longleftrightarrow> d \<le> MAX_DEPTH \<and> nodes b < MAX_NODES \<and> b' = spend 1 0 b"
  by (auto simp: consume_node_def)

lemma consume_text_Inr:
  "consume_text n b = Inr b' \<longleftrightarrow> text_bytes b + n \<le> MAX_TEXT_BYTES \<and> b' = spend 0 n b"
  by (auto simp: consume_text_def)

lemma sum_list_pnodes: "0 \<le> sum_list (map pnodes vs)" "0 \<le> sum_list (map (\<lambda>(k, v). pnodes v) kvs)"
  "0 \<le> sum_list (map ptext vs)" "0 \<le> sum_list (map (\<lambda>(k, v). ptext v) kvs)"
  using pcost_nonneg by (auto intro!: sum_list_nonneg simp: less_imp_le)

lemma normalize_closed_form:
  "nodes b \<le> MAX_NODES \<Longrightarrow> text_bytes b \<le> MAX_TEXT_BYTES \<Longrightarrow>
     normalize d v b = Inr r \<longleftrightarrow> pfits d v \<and> nodes b + pnodes v \<le> MAX_NODES \<and>
       text_bytes b + ptext v \<le> MAX_TEXT_BYTES \<and> r = (jval v, spend (pnodes v) (ptext v) b)"
  "nodes b \<le> MAX_NODES \<Longrightarrow> text_bytes b \<le> MAX_TEXT_BYTES \<Longrightarrow>
     normalize_sequence d vs b = Inr rs \<longleftrightarrow> (\<forall>v \<in> set vs. pfits (d + 1) v) \<and>
       nodes b + sum_list (map pnodes vs) \<le> MAX_NODES \<and>
       text_bytes b + sum_list (map ptext vs) \<le> MAX_TEXT_BYTES \<and>
       rs = (map jval vs, spend (sum_list (map pnodes vs)) (sum_list (map ptext vs)) b)"
  "nodes b \<le> MAX_NODES \<Longrightarrow> text_bytes b \<le> MAX_TEXT_BYTES \<Longrightarrow>
     normalize_mapping d kvs b = Inr ms \<longleftrightarrow> (\<forall>(k, v) \<in> set kvs. pfits (d + 1) v) \<and>
       nodes b + sum_list (map (\<lambda>(k, v). pnodes v) kvs) \<le> MAX_NODES \<and>
       text_bytes b + sum_list (map (\<lambda>(k, v). ptext v) kvs) \<le> MAX_TEXT_BYTES \<and>
       ms = (map (\<lambda>(k, v). (k, jval v)) kvs,
             spend (sum_list (map (\<lambda>(k, v). pnodes v) kvs)) (sum_list (map (\<lambda>(k, v). ptext v) kvs)) b)"
proof (induction d v b and d vs b and d kvs b arbitrary: r and rs and ms
    rule: normalize_normalize_sequence_normalize_mapping.induct)
  case (1 depth v b)
  show ?case
  proof (cases v)
    case (PDec x)
    then show ?thesis using "1.prems" decimal_text_Inr_iff [of x]
      by (cases "decimal_text x") (auto simp: consume_node_Inr consume_text_Inr)
  next
    case (PSeq vs)
    then show ?thesis using "1.prems" sum_list_pnodes(1,3) [of vs]
      by (auto simp: consume_node_Inr "1.IH"(1) [OF PSeq])
  next
    case (PMap kvs)
    have keys: "int (sum_list (map length (map fst kvs))) = sum_list (map (\<lambda>(k, v). int (length k)) kvs)"
      by (induction kvs) auto
    then show ?thesis using PMap "1.prems" sum_list_pnodes(2,4) [of kvs]
      by (auto simp: consume_node_Inr consume_keys_Inr "1.IH"(2) [OF PMap] sort_key_fst_map sum_list_sort_key)
  qed (use "1.prems" in \<open>auto simp: consume_node_Inr consume_text_Inr\<close>)
next
  case (2 depth b)
  then show ?case by (auto simp: spend_def)
next
  case (3 depth v vs b)
  have "normalize_sequence depth (v # vs) b = Inr rs \<longleftrightarrow> (\<exists>r rs'. normalize (depth + 1) v b = Inr r \<and>
      normalize_sequence depth vs (snd r) = Inr rs' \<and> rs = (fst r # fst rs', snd rs'))" by auto
  then show ?case using "3.prems" pcost_nonneg [of v] sum_list_pnodes(1,3) [of vs] 
    by (auto simp: "3.IH"(1) [OF "3.prems"] "3.IH"(2) add.assoc)
next
  case (4 depth b)
  then show ?case by (auto simp: spend_def)
next
  case (5 depth k v kvs b)
  show ?case using "5.prems" pcost_nonneg [of v] sum_list_pnodes(2,4) [of kvs]
    by (auto simp: "5.IH" add.assoc)
qed

section \<open>The output limit\<close>

lemma length_quoted: "int (length (quoted s)) \<le> 6 * int (length s) + 2"
  by (induction s) (auto simp: quoted_def escape_char_def Let_def)

lemma length_quoted_weak: "2 \<le> k \<Longrightarrow> int (length (quoted s)) \<le> k + 6 * int (length s)"
  using length_quoted [of s] by simp

lemma length_join: "int (length (join '','' xs)) \<le> sum_list (map (\<lambda>x. int (length x) + 1) xs)"
  by (induction xs rule: induct_list012) auto

lemma length_int_text:
  assumes "MIN_SIGNED_64_BIT_INTEGER \<le> n" and "n \<le> MAX_SIGNED_64_BIT_INTEGER"
  shows "int (length (int_text n)) \<le> 20"
proof -
  have "\<bar>n\<bar> < p10 19"
    using assms by (simp add: MIN_SIGNED_64_BIT_INTEGER_def MAX_SIGNED_64_BIT_INTEGER_def p10_def)
  then have "ndigits \<bar>n\<bar> \<le> 19" by (simp add: ndigits_le_iff)
  then show ?thesis using length_nat_text [of n] length_nat_text [of "- n"] by (auto simp: int_text_def)
qed

lemma length_dumps_bound:
  "pfits d v \<Longrightarrow> int (length (dumps (jval v))) + 4 \<le> 6 * ptext v + 28 * pnodes v"
proof (induction d v rule: pfits.induct)
  case (5 d vs)
  have "int (length (dumps (jval (PSeq vs)))) \<le> 2 + sum_list (map (\<lambda>v. int (length (dumps (jval v))) + 1) vs)"
    using length_join [of "map (dumps \<circ> jval) vs"] by (simp add: comp_def)
  also have "\<dots> \<le> 2 + sum_list (map (\<lambda>v. 6 * ptext v + 28 * pnodes v) vs)"
    using 5 by (intro add_left_mono sum_list_mono) force
  finally show ?case by (simp add: sum_list_addf sum_list_const_mult)
next
  case (6 d kvs)
  let ?entry = "\<lambda>(k, v). quoted k @ '':'' @ dumps (jval v)"
  have "dumps (jval (PMap kvs)) = ''{'' @ join '','' (map ?entry (sort_key fst kvs)) @ ''}''"
    by (simp only: jval.simps dumps.simps sort_key_fst_map map_map) (simp add: comp_def case_prod_unfold)
  then have "int (length (dumps (jval (PMap kvs)))) \<le>
      2 + sum_list (map (\<lambda>x. int (length (?entry x)) + 1) (sort_key fst kvs))"
    using length_join [of "map ?entry (sort_key fst kvs)"] by (simp only: map_map comp_def) simp
  also have "\<dots> = 2 + sum_list (map (\<lambda>x. int (length (?entry x)) + 1) kvs)"
    by (simp add: sum_list_sort_key)
  also have "\<dots> \<le> 2 + sum_list (map (\<lambda>(k, v). 6 * int (length k) + 6 * ptext v + 28 * pnodes v) kvs)"
  proof (intro add_left_mono sum_list_mono)
    fix x assume x: "x \<in> set kvs"
    obtain k v where kv: "x = (k, v)" by (cases x)
    have "pfits (d + 1) v" using 6 x kv by auto
    then have "int (length (dumps (jval v))) + 4 \<le> 6 * ptext v + 28 * pnodes v"
      using "6.IH" x kv by blast
    then show "int (length (?entry x)) + 1 \<le>
        (case x of (k, v) \<Rightarrow> 6 * int (length k) + 6 * ptext v + 28 * pnodes v)"
      using length_quoted [of k] by (simp add: kv)
  qed
  finally show ?case by (simp add: case_prod_beta' sum_list_addf sum_list_const_mult)
next
  case (1 d n)
  then show ?case using length_int_text [of n] by simp
qed (auto intro: length_quoted_weak simp: quoted_def [of "[]"] split: sum.splits)

lemma canonical_json_bytes_iff:
  "canonical_json_bytes v = Inr s \<longleftrightarrow> within_limits v \<and> s = dumps (jval v)"
proof -
  have "int (length (dumps (jval v))) \<le> MAX_OUTPUT_BYTES" if "within_limits v"
    using that length_dumps_bound [of 0 v]
    by (simp add: within_limits_def MAX_OUTPUT_BYTES_def MAX_NODES_def MAX_TEXT_BYTES_def)
  moreover have "0 \<le> MAX_NODES" "0 \<le> MAX_TEXT_BYTES" by (simp_all add: MAX_NODES_def MAX_TEXT_BYTES_def)
  ultimately show ?thesis
    by (auto simp: canonical_json_bytes_def normalize_closed_form within_limits_def)
qed

text \<open>The same fact for the hashes, as the rule that evaluates them.\<close>

lemma sha256_hex_Inr: "within_limits v \<Longrightarrow> sha256_hex sha v = Inr (sha (dumps (jval v)))"
  by (simp add: sha256_hex_def iffD2 [OF canonical_json_bytes_iff])

text \<open>Evaluation through the closed form renders the bytes only if the hash function looks at them.\<close>

lemma sha256_hex_code [code]:
  "sha256_hex sha v = (if within_limits v then Inr (sha (dumps (jval v)))
     else bindE (canonical_json_bytes v) (\<lambda>b. Inr (sha b)))"
  using sha256_hex_Inr [of v sha] by (auto simp only: sha256_hex_def split: if_splits)

text \<open>A digest for the examples.\<close>

definition sample_hash :: string where
  "sample_hash = replicate 64 CHR ''a''"

lemma sample_hash_is_hash [simp]: "is_hash sample_hash"
  by (simp add: is_hash_def sample_hash_def list_all_iff is_hex_def)

text \<open>
  C18. The canonical encoder in closed form: \<open>canonical_json_bytes\<close> returns exactly for the values
  within the limits on depth, nodes, text and leaves, and what it returns is the rendering with
  sorted keys of the value itself, whatever order the budgets were spent in. In particular the
  limit on the output is implied by the other budgets and never rejects a value.
\<close>

theorem canonical_json_bytes_closed_form:
  "canonical_json_bytes v = Inr s \<longleftrightarrow> within_limits v \<and> s = dumps (jval v)"
  by (rule canonical_json_bytes_iff)

end
