(* ===== verification/Risk_Policy.thy ===== *)
theory Risk_Policy
  imports Canonical
begin

text \<open>
  The signed risk policy of \<open>risk/policy.py\<close>: the constraint receipts, the clusters of correlated
  symbols (a union-find over the correlation matrix), the shrinking steps and their loop of at most
  eight passes, the independent check of the constraints, exposure snapshots and the rebalance band.
  All arithmetic is that of a context of 50 digits. \<open>RiskPolicySpec\<close>, \<open>RiskGroupSpec\<close> and
  \<open>RiskStatistics\<close> are records.
\<close>

section \<open>Inputs\<close>

record RiskPolicySpec =
  policy_name :: string
  policy_version :: int
  max_absolute_symbol_weight :: decimal
  max_gross_weight :: decimal
  min_net_weight :: decimal
  max_net_weight :: decimal
  max_cluster_gross_weight :: decimal
  correlation_edge_threshold :: decimal
  minimum_rebalance_equity_fraction :: decimal
  session_loss_trigger :: decimal
  deployment_drawdown_trigger :: decimal
  target_annualized_volatility :: decimal
  sigma_floor :: decimal
  edge_saturation_bps :: decimal
  covariance_eigenvalue_floor :: decimal

text \<open>\<open>policy_name\<close> is the field \<open>id\<close>; the validator is \<open>RiskPolicySpec.validate_policy\<close>.\<close>

definition validate_policy :: "RiskPolicySpec \<Rightarrow> bool" where
  "validate_policy p \<longleftrightarrow>
     dlt dzero (max_absolute_symbol_weight p) \<and> dle (max_absolute_symbol_weight p) dunit \<and>
     dlt dzero (max_gross_weight p) \<and> dle (max_gross_weight p) dunit \<and>
     dle (max_absolute_symbol_weight p) (max_gross_weight p) \<and>
     dle (Dec (- coeff (max_gross_weight p)) (expo (max_gross_weight p))) (min_net_weight p) \<and>
     dle (min_net_weight p) (max_net_weight p) \<and>
     dle (max_net_weight p) (max_gross_weight p) \<and>
     dlt dzero (max_cluster_gross_weight p) \<and> dle (max_cluster_gross_weight p) (max_gross_weight p) \<and>
     dle dzero (correlation_edge_threshold p) \<and> dle (correlation_edge_threshold p) dunit \<and>
     dle dzero (minimum_rebalance_equity_fraction p) \<and> dle (minimum_rebalance_equity_fraction p) dunit \<and>
     dle (Dec (- 1) 0) (session_loss_trigger p) \<and> dlt (session_loss_trigger p) dzero \<and>
     dle (Dec (- 1) 0) (deployment_drawdown_trigger p) \<and> dlt (deployment_drawdown_trigger p) dzero \<and>
     dle (deployment_drawdown_trigger p) (session_loss_trigger p) \<and>
     dlt dzero (target_annualized_volatility p) \<and> dlt dzero (sigma_floor p) \<and>
     dlt dzero (edge_saturation_bps p) \<and> dlt dzero (covariance_eigenvalue_floor p)"

record RiskGroupSpec =
  group_id :: string
  group_symbols :: "string list"
  group_max_gross_weight :: decimal

definition validate_limit :: "RiskGroupSpec \<Rightarrow> bool" where
  "validate_limit g \<longleftrightarrow> dlt dzero (group_max_gross_weight g) \<and> dle (group_max_gross_weight g) dunit"

record RiskStatistics =
  stat_symbols :: "string list"
  observation_count :: int
  annualization_factor :: decimal
  eigenvalue_floor :: decimal
  annualized_covariance :: "decimal list list"
  prior_correlation :: "decimal list list"
  annualized_sigma :: "decimal list"
  stat_input_hash :: string
  stat_output_hash :: string

fun index_of :: "'a \<Rightarrow> 'a list \<Rightarrow> nat option" where
  "index_of x [] = None"
| "index_of x (y # ys) = (if x = y then Some 0 else map_option Suc (index_of x ys))"

definition correlation_for :: "RiskStatistics \<Rightarrow> string \<Rightarrow> string \<Rightarrow> decimal res" where
  "correlation_for st left right =
     (case (index_of left (stat_symbols st), index_of right (stat_symbols st)) of
        (Some i, Some j) \<Rightarrow> Inr (prior_correlation st ! i ! j)
      | _ \<Rightarrow> Inl (RiskStatisticsError ''correlation requested for an unknown symbol''))"

type_synonym weights = "(string, decimal) dict"

section \<open>Validation helpers\<close>

abbreviation policy_error :: "string \<Rightarrow> error" where
  "policy_error \<equiv> SignedRiskPolicyError"

text \<open>ASCII, upper case, at most ten characters, alphanumeric but for dots.\<close>

definition is_policy_symbol :: "string \<Rightarrow> bool" where
  "is_policy_symbol s \<longleftrightarrow> s \<noteq> [] \<and> length s \<le> 10 \<and> list_ex is_upper s \<and>
     list_all (\<lambda>c. is_upper c \<or> is_digit c \<or> c = CHR ''.'') s"

definition policy_guard_decimal :: "decimal \<Rightarrow> string \<Rightarrow> bool \<times> error" where
  "policy_guard_decimal d field =
     (\<not> domain_decimal d, policy_error (field @ '' must be a finite exact decimal''))"

definition weight_guards :: "weights \<Rightarrow> (bool \<times> error) list" where
  "weight_guards ws =
     (ws = [], policy_error ''weights must be a nonempty bounded sequence'') #
     concat (map (\<lambda>(s, v). [(\<not> is_policy_symbol s, policy_error ''symbol is invalid''),
         policy_guard_decimal v ''target_weight'']) ws) @
     [(map fst ws \<noteq> sort (map fst ws) \<or> \<not> distinct (map fst ws),
         policy_error ''weight symbols must be unique and alphabetically ordered'')]"

definition normalized_weights :: "weights \<Rightarrow> weights res" where
  "normalized_weights ws = guarded (weight_guards ws) (Inr ws)"

definition policy_guards :: "RiskPolicySpec \<Rightarrow> (bool \<times> error) list" where
  "policy_guards p =
     [(\<not> (dle (min_net_weight p) dzero \<and> dle dzero (max_net_weight p)),
        policy_error ''signed policy net bounds must contain zero'')]"

definition risk_group_guards :: "RiskGroupSpec list \<Rightarrow> string list option \<Rightarrow> (bool \<times> error) list" where
  "risk_group_guards gs symbols =
     (let grouped = concat (map group_symbols gs) in
      [(gs = [], policy_error ''risk groups must be a nonempty bounded sequence''),
       (map group_id gs \<noteq> sort (map group_id gs), policy_error ''risk groups must be ordered by ID''),
       (\<not> distinct (map group_id gs), policy_error ''risk group IDs must be unique''),
       (\<not> distinct grouped, policy_error ''risk groups must not overlap''),
       (case symbols of Some ss \<Rightarrow> set grouped \<noteq> set ss | None \<Rightarrow> False,
         policy_error ''risk groups must partition target symbols'')])"

definition component_guards :: "string list list \<Rightarrow> string list \<Rightarrow> (bool \<times> error) list" where
  "component_guards cs symbols =
     concat (map (\<lambda>c. [(c = [], policy_error ''correlation component is invalid''),
       (c \<noteq> sort c \<or> \<not> distinct c, policy_error ''correlation component must be unique and ordered'')]) cs) @
     [(sort (concat cs) \<noteq> symbols \<or> \<not> distinct (concat cs),
        policy_error ''correlation components must partition symbols''),
      (cs \<noteq> sort_key hd cs, policy_error ''correlation components must be deterministically ordered'')]"

fun named_guards :: "string option \<Rightarrow> string \<Rightarrow> (string \<times> decimal) list \<Rightarrow> (bool \<times> error) list" where
  "named_guards previous field [] = []"
| "named_guards previous field ((name, amount) # rest) =
     [(name = '''', policy_error (field @ '' name is invalid'')),
      (case previous of Some p \<Rightarrow> name \<le> p | None \<Rightarrow> False,
        policy_error (field @ '' must be unique and ordered'')),
      policy_guard_decimal amount ''gross_exposure'',
      (dlt amount dzero, policy_error (field @ '' cannot be negative''))] @
     named_guards (Some name) field rest"

section \<open>Receipts\<close>

datatype RiskControl =
  CLUSTER_GROSS | GROSS | NET_LONG | NET_SHORT | REBALANCE_BAND | RISK_GROUP_GROSS | SYMBOL_CLIP

fun control_value :: "RiskControl \<Rightarrow> string" where
  "control_value CLUSTER_GROSS = ''cluster_gross''"
| "control_value GROSS = ''gross''"
| "control_value NET_LONG = ''net_long''"
| "control_value NET_SHORT = ''net_short''"
| "control_value REBALANCE_BAND = ''rebalance_band''"
| "control_value RISK_GROUP_GROSS = ''risk_group_gross''"
| "control_value SYMBOL_CLIP = ''symbol_clip''"

record AppliedRiskControl =
  pass_number :: int
  ordinal :: int
  control :: RiskControl
  scope :: string
  factor :: decimal
  before_weights :: weights
  after_weights :: weights

definition control_guards :: "AppliedRiskControl \<Rightarrow> (bool \<times> error) list" where
  "control_guards c =
     [(pass_number c < 1, policy_error ''control pass number must be positive''),
      (ordinal c < 1, policy_error ''control ordinal must be positive''),
      (scope c = '''' \<or> length (scope c) > 128, policy_error ''control scope is invalid''),
      policy_guard_decimal (factor c) ''control_factor'',
      (\<not> (dle dzero (factor c) \<and> dle (factor c) dunit), policy_error ''control factor must be in [0, 1]'')] @
     weight_guards (before_weights c) @ weight_guards (after_weights c)"

definition validate_control :: "AppliedRiskControl \<Rightarrow> AppliedRiskControl res" where
  "validate_control c = guarded (control_guards c) (Inr c)"

record ExposureSnapshot =
  ex_gross :: decimal
  ex_net :: decimal
  ex_positive :: decimal
  ex_short_abs :: decimal
  ex_group_gross :: "(string \<times> decimal) list"
  ex_cluster_gross :: "(string \<times> decimal) list"

definition exposure_guards :: "ExposureSnapshot \<Rightarrow> (bool \<times> error) list" where
  "exposure_guards x =
     [policy_guard_decimal (ex_gross x) ''gross'', policy_guard_decimal (ex_net x) ''net'',
      policy_guard_decimal (ex_positive x) ''positive'', policy_guard_decimal (ex_short_abs x) ''short_abs'',
      (dlt (dmin (dmin (ex_gross x) (ex_positive x)) (ex_short_abs x)) dzero,
        policy_error ''gross exposure totals cannot be negative''),
      (\<not> deq (ex_gross x) (dadd 50 (ex_positive x) (ex_short_abs x)) \<or>
         \<not> deq (ex_net x) (dsub 50 (ex_positive x) (ex_short_abs x)),
        policy_error ''exposure totals are internally inconsistent'')] @
     named_guards None ''group exposure'' (ex_group_gross x) @
     named_guards None ''cluster exposure'' (ex_cluster_gross x)"

definition validate_exposure :: "ExposureSnapshot \<Rightarrow> ExposureSnapshot res" where
  "validate_exposure x = guarded (exposure_guards x) (Inr x)"

record ConstraintResult =
  original_targets :: weights
  final_targets :: weights
  before_exposure :: ExposureSnapshot
  after_exposure :: ExposureSnapshot
  controls :: "AppliedRiskControl list"
  result_components :: "string list list"
  converged :: bool
  reason_code :: "string option"
  result_hash :: string

definition pval_weights :: "weights \<Rightarrow> pval" where
  "pval_weights ws = PSeq (map (\<lambda>(s, v). PSeq [PStr s, PDec v]) ws)"

definition exposure_payload :: "ExposureSnapshot \<Rightarrow> pval" where
  "exposure_payload x = PMap
     [(''cluster_gross'', pval_weights (ex_cluster_gross x)), (''gross'', PDec (ex_gross x)),
      (''group_gross'', pval_weights (ex_group_gross x)), (''net'', PDec (ex_net x)),
      (''positive'', PDec (ex_positive x)), (''short_abs'', PDec (ex_short_abs x))]"

definition control_payload :: "AppliedRiskControl \<Rightarrow> pval" where
  "control_payload c = PMap
     [(''after'', pval_weights (after_weights c)), (''before'', pval_weights (before_weights c)),
      (''control'', PEnum (control_value (control c))), (''factor'', PDec (factor c)),
      (''ordinal'', PInt (ordinal c)), (''pass_number'', PInt (pass_number c)),
      (''scope'', PStr (scope c))]"

definition constraint_values_hash :: "sha256 \<Rightarrow> ConstraintResult \<Rightarrow> string res" where
  "constraint_values_hash sha r = sha256_hex sha (PMap
     [(''after_exposure'', exposure_payload (after_exposure r)),
      (''before_exposure'', exposure_payload (before_exposure r)),
      (''controls'', PSeq (map control_payload (controls r))),
      (''correlation_components'', PSeq (map (\<lambda>c. PSeq (map PStr c)) (result_components r))),
      (''converged'', PBool (converged r)),
      (''final_targets'', pval_weights (final_targets r)),
      (''original_targets'', pval_weights (original_targets r)),
      (''reason_code'', case reason_code r of None \<Rightarrow> PNone | Some s \<Rightarrow> PStr s),
      (''schema'', PStr ''signed-risk-constraint-result-v1'')])"

definition result_guards :: "ConstraintResult \<Rightarrow> (bool \<times> error) list" where
  "result_guards r =
     weight_guards (original_targets r) @ weight_guards (final_targets r) @
     [(map fst (original_targets r) \<noteq> map fst (final_targets r),
        policy_error ''constraint target symbols do not match''),
      (map ordinal (controls r) \<noteq> [1..int (length (controls r))],
        policy_error ''constraint control ordinals must be contiguous'')] @
     component_guards (result_components r) (map fst (final_targets r)) @
     [(reason_code r = Some '''', policy_error ''constraint reason is invalid''),
      (converged r \<noteq> (reason_code r = None),
        policy_error ''constraint convergence and reason are inconsistent'')]"

definition validate_constraint_result :: "sha256 \<Rightarrow> ConstraintResult \<Rightarrow> ConstraintResult res" where
  "validate_constraint_result sha r =
     guarded (result_guards r)
     (bindE (constraint_values_hash sha r) (\<lambda>h.
       guarded [(result_hash r \<noteq> h, policy_error ''constraint result hash is invalid'')] (Inr r)))"

section \<open>Correlation clusters\<close>

text \<open>\<open>parent[s]\<close>: every symbol is a key of the dictionary.\<close>

definition parent_of :: "(string, string) dict \<Rightarrow> string \<Rightarrow> string" where
  "parent_of d s = dict_get d s s"

text \<open>
  \<open>find\<close> with path halving; the chain of parents of a symbol is no longer than the number of
  symbols, which is the fuel.
\<close>

fun uf_find :: "nat \<Rightarrow> (string, string) dict \<Rightarrow> string \<Rightarrow> ((string, string) dict \<times> string) option" where
  "uf_find 0 parent s = None"
| "uf_find (Suc n) parent s =
     (if parent_of parent s = s then Some (parent, s)
      else (let parent' = AList.update s (parent_of parent (parent_of parent s)) parent
            in uf_find n parent' (parent_of parent' s)))"

definition uf_union :: "nat \<Rightarrow> string \<Rightarrow> string \<Rightarrow> (string, string) dict \<Rightarrow> (string, string) dict option" where
  "uf_union n left right parent =
     (case uf_find n parent left of None \<Rightarrow> None | Some (parent, left_root) \<Rightarrow>
      (case uf_find n parent right of None \<Rightarrow> None | Some (parent, right_root) \<Rightarrow>
         Some (if left_root = right_root then parent
               else AList.update (max left_root right_root) (min left_root right_root) parent)))"

definition correlated_pairs :: "int \<Rightarrow> RiskStatistics \<Rightarrow> decimal \<Rightarrow> (string \<times> string) list res" where
  "correlated_pairs prec st threshold =
     (let symbols = stat_symbols st;
          pairs = [(symbols ! i, r). i \<leftarrow> [0..<length symbols], r \<leftarrow> drop (Suc i) symbols]
      in bindE (mapE (\<lambda>(l, r). correlation_for st l r) pairs) (\<lambda>cs.
           Inr (map fst (filter (\<lambda>(p, c). dlt threshold (dabs prec c)) (zip pairs cs)))))"

fun uf_unions :: "nat \<Rightarrow> (string \<times> string) list \<Rightarrow> (string, string) dict \<Rightarrow> (string, string) dict option" where
  "uf_unions n [] parent = Some parent"
| "uf_unions n ((l, r) # ps) parent =
     (case uf_union n l r parent of None \<Rightarrow> None | Some parent \<Rightarrow> uf_unions n ps parent)"

fun uf_groups :: "nat \<Rightarrow> string list \<Rightarrow> (string, string) dict \<Rightarrow> (string, string list) dict \<Rightarrow>
    (string, string list) dict option" where
  "uf_groups n [] parent groups = Some groups"
| "uf_groups n (s # ss) parent groups =
     (case uf_find n parent s of None \<Rightarrow> None | Some (parent, rt) \<Rightarrow>
        uf_groups n ss parent (dict_append rt s groups))"

text \<open>
  \<open>prec\<close> is the precision of the caller's context: the function does not set one. \<open>StopIteration\<close>
  stands for a \<open>find\<close> that does not end.
\<close>

definition correlation_components :: "int \<Rightarrow> RiskStatistics \<Rightarrow> decimal \<Rightarrow> string list list res" where
  "correlation_components prec st threshold =
     guarded
       [policy_guard_decimal threshold ''correlation_threshold'',
        (\<not> (dle dzero threshold \<and> dle threshold dunit), policy_error ''correlation threshold must be in [0, 1]'')]
     (let symbols = stat_symbols st; n = Suc (length symbols) in
      bindE (correlated_pairs prec st threshold) (\<lambda>edges.
      case uf_unions n edges (map (\<lambda>s. (s, s)) symbols) of
        None \<Rightarrow> Inl StopIteration
      | Some parent \<Rightarrow>
          (case uf_groups n symbols parent [] of
             None \<Rightarrow> Inl StopIteration
           | Some groups \<Rightarrow> Inr (sort_key hd (map snd groups)))))"

section \<open>Shrinking steps\<close>

text \<open>Every scope is a part of the symbols of \<open>weights\<close>, which the guards of the caller establish.\<close>

definition weight_of :: "weights \<Rightarrow> string \<Rightarrow> decimal" where
  "weight_of w s = dict_get w s dzero"

definition weights_of :: "weights \<Rightarrow> string list \<Rightarrow> weights" where
  "weights_of w symbols = map (\<lambda>s. (s, weight_of w s)) symbols"

definition gross_of :: "weights \<Rightarrow> string list \<Rightarrow> decimal" where
  "gross_of w symbols = dsum 50 (map (\<lambda>s. dabs 50 (weight_of w s)) symbols)"

definition positive_sum :: "decimal list \<Rightarrow> decimal" where
  "positive_sum vs = dsum 50 (filter (\<lambda>v. dlt dzero v) vs)"

definition short_sum :: "decimal list \<Rightarrow> decimal" where
  "short_sum vs = dsum 50 (map (dneg 50) (filter (\<lambda>v. dlt v dzero) vs))"

definition quotient :: "decimal \<Rightarrow> decimal \<Rightarrow> decimal res" where
  "quotient a b = (case ddiv 50 a b of None \<Rightarrow> Inl (DecimalException ''DivisionByZero'') | Some q \<Rightarrow> Inr q)"

type_synonym shrink_state = "weights \<times> AppliedRiskControl list"

definition record_control :: "string list \<Rightarrow> weights \<Rightarrow> weights \<Rightarrow> int \<Rightarrow> RiskControl \<Rightarrow> string \<Rightarrow> decimal \<Rightarrow>
    AppliedRiskControl list \<Rightarrow> shrink_state res" where
  "record_control symbols before w pass ctl sc f cs =
     bindE (validate_control \<lparr>pass_number = pass, ordinal = int (length cs) + 1, control = ctl, scope = sc,
         factor = f, before_weights = before, after_weights = weights_of w symbols\<rparr>)
       (\<lambda>c. Inr (w, cs @ [c]))"

definition clip_symbol :: "string list \<Rightarrow> decimal \<Rightarrow> int \<Rightarrow> string \<Rightarrow> shrink_state \<Rightarrow> shrink_state res" where
  "clip_symbol symbols limit pass s = (\<lambda>(w, cs).
     let value = weight_of w s; clipped = dmax (dneg 50 limit) (dmin limit value) in
     if deq clipped value then Inr (w, cs)
     else bindE (quotient clipped value) (\<lambda>q.
       record_control symbols (weights_of w symbols) (AList.update s clipped w) pass SYMBOL_CLIP
         (''symbol:'' @ s) (dabs 50 q) cs))"

definition clip_symbols :: "string list \<Rightarrow> decimal \<Rightarrow> int \<Rightarrow> shrink_state \<Rightarrow> shrink_state res" where
  "clip_symbols symbols limit pass = foldE (clip_symbol symbols limit pass) symbols"

definition scale_weights :: "(decimal \<Rightarrow> bool) \<Rightarrow> string list \<Rightarrow> decimal \<Rightarrow> weights \<Rightarrow> weights" where
  "scale_weights sel scope_symbols f w =
     fold (\<lambda>s w. if sel (weight_of w s) then AList.update s (dmul 50 (weight_of w s) f) w else w) scope_symbols w"

definition trim_gross_excess :: "string list \<Rightarrow> decimal \<Rightarrow> weights \<Rightarrow> weights res" where
  "trim_gross_excess scope_symbols limit w =
     (let excess = dsub 50 (gross_of w scope_symbols) limit in
      if dle excess dzero then Inr w
      else (case find (\<lambda>s. \<not> deq (weight_of w s) dzero) scope_symbols of
              None \<Rightarrow> Inl StopIteration
            | Some s \<Rightarrow> Inr (AList.update s
                (if dlt dzero (weight_of w s) then dsub 50 (weight_of w s) excess
                 else dadd 50 (weight_of w s) excess) w)))"

definition scale_scope_gross :: "string list \<Rightarrow> string list \<Rightarrow> decimal \<Rightarrow> int \<Rightarrow> RiskControl \<Rightarrow> string \<Rightarrow>
    shrink_state \<Rightarrow> shrink_state res" where
  "scale_scope_gross all_symbols scope_symbols limit pass ctl sc = (\<lambda>(w, cs).
     let gross = gross_of w scope_symbols in
     if dle gross limit then Inr (w, cs)
     else bindE (quotient limit gross) (\<lambda>f.
       bindE (trim_gross_excess scope_symbols limit (scale_weights (\<lambda>_. True) scope_symbols f w)) (\<lambda>w'.
         record_control all_symbols (weights_of w all_symbols) w' pass ctl sc f cs)))"

definition scale_all_gross :: "string list \<Rightarrow> decimal \<Rightarrow> int \<Rightarrow> shrink_state \<Rightarrow> shrink_state res" where
  "scale_all_gross symbols limit pass = scale_scope_gross symbols symbols limit pass GROSS ''portfolio''"

definition net_of :: "weights \<Rightarrow> string list \<Rightarrow> decimal" where
  "net_of w symbols = dsub 50 (positive_sum (map (weight_of w) symbols)) (short_sum (map (weight_of w) symbols))"

definition shift_first :: "(decimal \<Rightarrow> bool) \<Rightarrow> (decimal \<Rightarrow> decimal) \<Rightarrow> string list \<Rightarrow> weights \<Rightarrow> weights res" where
  "shift_first sel f symbols w =
     (case find (\<lambda>s. sel (weight_of w s)) symbols of
        None \<Rightarrow> Inl StopIteration
      | Some s \<Rightarrow> Inr (AList.update s (f (weight_of w s)) w))"

definition scale_positive_net :: "string list \<Rightarrow> decimal \<Rightarrow> int \<Rightarrow> shrink_state \<Rightarrow> shrink_state res" where
  "scale_positive_net symbols limit pass = (\<lambda>(w, cs).
     let vs = map (weight_of w) symbols; positive = positive_sum vs; short_abs = short_sum vs in
     if dle (dsub 50 positive short_abs) limit then Inr (w, cs)
     else bindE (quotient (dadd 50 limit short_abs) positive) (\<lambda>f.
       if \<not> (dle dzero f \<and> dle f dunit) then Inl (policy_error ''positive-net shrink factor is invalid'')
       else
         (let w1 = scale_weights (\<lambda>v. dlt dzero v) symbols f w;
              excess = dsub 50 (net_of w1 symbols) limit
          in bindE (if dlt dzero excess then shift_first (\<lambda>v. dlt dzero v) (\<lambda>v. dsub 50 v excess) symbols w1
                    else Inr w1) (\<lambda>w'.
            record_control symbols (weights_of w symbols) w' pass NET_LONG ''positive_weights'' f cs))))"

definition scale_negative_net :: "string list \<Rightarrow> decimal \<Rightarrow> int \<Rightarrow> shrink_state \<Rightarrow> shrink_state res" where
  "scale_negative_net symbols limit pass = (\<lambda>(w, cs).
     let vs = map (weight_of w) symbols; positive = positive_sum vs; short_abs = short_sum vs in
     if dle limit (dsub 50 positive short_abs) then Inr (w, cs)
     else bindE (quotient (dadd 50 (dneg 50 limit) positive) short_abs) (\<lambda>f.
       if \<not> (dle dzero f \<and> dle f dunit) then Inl (policy_error ''negative-net shrink factor is invalid'')
       else
         (let w1 = scale_weights (\<lambda>v. dlt v dzero) symbols f w;
              excess = dsub 50 limit (net_of w1 symbols)
          in bindE (if dlt dzero excess then shift_first (\<lambda>v. dlt v dzero) (\<lambda>v. dadd 50 v excess) symbols w1
                    else Inr w1) (\<lambda>w'.
            record_control symbols (weights_of w symbols) w' pass NET_SHORT ''negative_weights'' f cs))))"

section \<open>Checking and measuring\<close>

definition constraints_satisfied ::
  "weights \<Rightarrow> RiskStatistics \<Rightarrow> RiskPolicySpec \<Rightarrow> RiskGroupSpec list \<Rightarrow> bool res" where
  "constraints_satisfied ws st p gs =
     guarded (weight_guards ws @
       [(stat_symbols st \<noteq> map fst ws, policy_error ''constraint statistics must match target symbols'')] @
       policy_guards p @ risk_group_guards gs (Some (map fst ws)))
     (let positive = positive_sum (map snd ws); short_abs = short_sum (map snd ws);
          net = dsub 50 positive short_abs in
      if \<exists>v \<in> set (map snd ws). dlt (max_absolute_symbol_weight p) (dabs 50 v) then Inr False
      else if dlt (max_gross_weight p) (dadd 50 positive short_abs) then Inr False
      else if dlt (max_net_weight p) net \<or> dlt net (min_net_weight p) then Inr False
      else if \<exists>g \<in> set gs. dlt (group_max_gross_weight g) (gross_of ws (group_symbols g)) then Inr False
      else bindE (correlation_components 50 st (correlation_edge_threshold p)) (\<lambda>cs.
        Inr (\<not> (\<exists>c \<in> set cs. dlt (max_cluster_gross_weight p) (gross_of ws c)))))"

definition exposure_snapshot :: "weights \<Rightarrow> RiskGroupSpec list \<Rightarrow> string list list \<Rightarrow> ExposureSnapshot res" where
  "exposure_snapshot ws gs cs =
     guarded (weight_guards ws @ risk_group_guards gs (Some (map fst ws)) @ component_guards cs (map fst ws))
     (let positive = positive_sum (map snd ws); short_abs = short_sum (map snd ws) in
      validate_exposure \<lparr>ex_gross = dadd 50 positive short_abs, ex_net = dsub 50 positive short_abs,
        ex_positive = positive, ex_short_abs = short_abs,
        ex_group_gross = map (\<lambda>g. (group_id g, gross_of ws (group_symbols g))) gs,
        ex_cluster_gross = map (\<lambda>c. (join '','' c, gross_of ws c)) cs\<rparr>)"

section \<open>The constraint loop\<close>

definition MAX_CONSTRAINT_PASSES :: int where "MAX_CONSTRAINT_PASSES = 8"

definition CONVERGENCE_TOLERANCE :: decimal where "CONVERGENCE_TOLERANCE = Dec 1 (- 12)"

definition constraint_pass :: "string list \<Rightarrow> RiskPolicySpec \<Rightarrow> RiskGroupSpec list \<Rightarrow> string list list \<Rightarrow> int \<Rightarrow>
    shrink_state \<Rightarrow> shrink_state res" where
  "constraint_pass symbols p gs cs pass state =
     bindE (clip_symbols symbols (max_absolute_symbol_weight p) pass state) (\<lambda>state.
     bindE (scale_all_gross symbols (max_gross_weight p) pass state) (\<lambda>state.
     bindE (scale_positive_net symbols (max_net_weight p) pass state) (\<lambda>state.
     bindE (scale_negative_net symbols (min_net_weight p) pass state) (\<lambda>state.
     bindE (foldE (\<lambda>g. scale_scope_gross symbols (group_symbols g) (group_max_gross_weight g) pass
         RISK_GROUP_GROSS (''group:'' @ group_id g)) gs state) (\<lambda>state.
       foldE (\<lambda>c. scale_scope_gross symbols c (max_cluster_gross_weight p) pass
         CLUSTER_GROSS (''cluster:'' @ join '','' c)) cs state)))))"

definition maximum_change :: "string list \<Rightarrow> weights \<Rightarrow> weights \<Rightarrow> decimal" where
  "maximum_change symbols start w =
     (case map (\<lambda>s. dabs 50 (dsub 50 (weight_of start s) (weight_of w s))) symbols of
        [] \<Rightarrow> dzero | d # ds \<Rightarrow> foldl dmax d ds)"

fun constraint_loop :: "nat \<Rightarrow> int \<Rightarrow> RiskStatistics \<Rightarrow> RiskPolicySpec \<Rightarrow> RiskGroupSpec list \<Rightarrow> string list list \<Rightarrow>
    string list \<Rightarrow> shrink_state \<Rightarrow> (bool \<times> shrink_state) res" where
  "constraint_loop 0 pass st p gs cs symbols state = Inr (False, state)"
| "constraint_loop (Suc n) pass st p gs cs symbols state =
     bindE (constraint_pass symbols p gs cs pass state) (\<lambda>state'.
     bindE (if dle (maximum_change symbols (fst state) (fst state')) CONVERGENCE_TOLERANCE
            then constraints_satisfied (weights_of (fst state') symbols) st p gs else Inr False) (\<lambda>ok.
       if ok then Inr (True, state') else constraint_loop n (pass + 1) st p gs cs symbols state'))"

definition apply_signed_constraints :: "sha256 \<Rightarrow> weights \<Rightarrow> RiskStatistics \<Rightarrow> RiskPolicySpec \<Rightarrow>
    RiskGroupSpec list \<Rightarrow> ConstraintResult res" where
  "apply_signed_constraints sha targets st p gs =
     bindE (normalized_weights targets) (\<lambda>original.
     let symbols = map fst original in
     guarded ([(stat_symbols st \<noteq> symbols, policy_error ''constraint statistics must match target symbols'')] @
       policy_guards p @ risk_group_guards gs (Some symbols))
     (bindE (correlation_components 50 st (correlation_edge_threshold p)) (\<lambda>cs.
      bindE (constraint_loop (nat MAX_CONSTRAINT_PASSES) 1 st p gs cs symbols (original, [])) (\<lambda>(ok, w, ctls).
      bindE (exposure_snapshot original gs cs) (\<lambda>before.
      let final = (if ok then weights_of w symbols else map (\<lambda>s. (s, dzero)) symbols);
          reason = (if ok then None else Some ''risk_constraints_not_converged'')
      in bindE (exposure_snapshot final gs cs) (\<lambda>after.
      let r = \<lparr>original_targets = original, final_targets = final, before_exposure = before,
            after_exposure = after, controls = ctls, result_components = cs, converged = ok,
            reason_code = reason, result_hash = ''''\<rparr>
      in bindE (constraint_values_hash sha r) (\<lambda>h.
           validate_constraint_result sha (r\<lparr>result_hash := h\<rparr>))))))))"

section \<open>The rebalance band\<close>

text \<open>\<open>_exact_decimal_mapping\<close>: the values of a mapping in the order of the symbols.\<close>

definition mapping_guards :: "(string, decimal) dict \<Rightarrow> string list \<Rightarrow> string \<Rightarrow> string \<Rightarrow> bool \<Rightarrow> (bool \<times> error) list" where
  "mapping_guards m symbols field label positive =
     (set (map fst m) \<noteq> set symbols, policy_error (field @ '' mapping must contain exactly active symbols'')) #
     concat (map (\<lambda>s. [policy_guard_decimal (dict_get m s dzero) label,
       (positive \<and> dle (dict_get m s dzero) dzero, policy_error (field @ '' must be positive''))]) symbols)"

definition band_factor :: "decimal \<Rightarrow> decimal \<Rightarrow> decimal res" where
  "band_factor target retained =
     (if deq target dzero \<or> deq retained target then Inr dunit
      else if dle (dabs 50 retained) (dabs 50 target) \<and> dle dzero (dmul 50 retained target)
        then bindE (quotient retained target) (\<lambda>q. Inr (dabs 50 q))
      else Inr dunit)"

definition current_weight :: "(string, decimal) dict \<Rightarrow> (string, decimal) dict \<Rightarrow> decimal \<Rightarrow> string \<Rightarrow> decimal res" where
  "current_weight quantities prices equity s =
     quotient (dmul 50 (dict_get quantities s dzero) (dict_get prices s dzero)) equity"

text \<open>The body of the loop: one symbol and its desired target.\<close>

definition band_step :: "RiskStatistics \<Rightarrow> RiskPolicySpec \<Rightarrow> RiskGroupSpec list \<Rightarrow> string list \<Rightarrow>
    weights \<Rightarrow> decimal \<Rightarrow> decimal \<Rightarrow> string \<times> decimal \<Rightarrow> shrink_state \<Rightarrow> shrink_state res" where
  "band_step st p gs symbols current equity threshold = (\<lambda>(s, target) (result, cs).
     if deq target dzero then Inr (result, cs)
     else if dle threshold (dabs 50 (dmul 50 (dsub 50 target (weight_of current s)) equity)) then Inr (result, cs)
     else
       (let candidate = AList.update s (weight_of current s) result in
        bindE (constraints_satisfied (weights_of candidate symbols) st p gs) (\<lambda>ok.
        if \<not> ok then Inr (result, cs)
        else bindE (band_factor target (weight_of current s)) (\<lambda>f.
          record_control symbols (weights_of result symbols) candidate 1 REBALANCE_BAND (''symbol:'' @ s) f cs))))"

definition apply_rebalance_band :: "weights \<Rightarrow> (string, decimal) dict \<Rightarrow> (string, decimal) dict \<Rightarrow> decimal \<Rightarrow>
    RiskStatistics \<Rightarrow> RiskPolicySpec \<Rightarrow> RiskGroupSpec list \<Rightarrow> bool \<Rightarrow> shrink_state res" where
  "apply_rebalance_band targets quantities prices equity st p gs force_reduction =
     bindE (normalized_weights targets) (\<lambda>desired.
     let symbols = map fst desired in
     guarded (mapping_guards quantities symbols ''current quantity'' ''current_quantity'' False @
        mapping_guards prices symbols ''planning price'' ''planning_price'' True @
        [policy_guard_decimal equity ''equity'', (dle equity dzero, policy_error ''equity must be positive'')] @
        risk_group_guards gs (Some symbols))
     (bindE (mapE (\<lambda>s. bindE (current_weight quantities prices equity s) (\<lambda>v. Inr (s, v))) symbols) (\<lambda>current.
      if force_reduction then Inr (desired, [])
      else bindE (foldE (band_step st p gs symbols current equity
            (dmul 50 (minimum_rebalance_equity_fraction p) equity)) desired (desired, []))
          (\<lambda>(result, cs). Inr (weights_of result symbols, cs)))))"

section \<open>A concrete portfolio\<close>

definition sample_policy :: RiskPolicySpec where
  "sample_policy = \<lparr>policy_name = ''signed_policy'', policy_version = 1, max_absolute_symbol_weight = Dec 4 (- 1), max_gross_weight = Dec 8 (- 1),
     min_net_weight = Dec (- 5) (- 1), max_net_weight = Dec 6 (- 1), max_cluster_gross_weight = Dec 5 (- 1),
     correlation_edge_threshold = Dec 7 (- 1), minimum_rebalance_equity_fraction = Dec 1 (- 2),
     session_loss_trigger = Dec (- 2) (- 2), deployment_drawdown_trigger = Dec (- 15) (- 2),
     target_annualized_volatility = Dec 1 (- 1), sigma_floor = Dec 5 (- 2), edge_saturation_bps = Dec 25 0,
     covariance_eigenvalue_floor = Dec 1 (- 8)\<rparr>"

definition sample_groups :: "RiskGroupSpec list" where
  "sample_groups = [\<lparr>group_id = ''core'', group_symbols = [''QQQ'', ''SPY''], group_max_gross_weight = Dec 8 (- 1)\<rparr>]"

definition sample_statistics :: RiskStatistics where
  "sample_statistics = \<lparr>stat_symbols = [''QQQ'', ''SPY''], observation_count = 500,
     annualization_factor = Dec 6552 0, eigenvalue_floor = Dec 1 (- 8),
     annualized_covariance = [[Dec 4 (- 2), Dec 36 (- 3)], [Dec 36 (- 3), Dec 4 (- 2)]],
     prior_correlation = [[Dec 1 0, Dec 9 (- 1)], [Dec 9 (- 1), Dec 1 0]],
     annualized_sigma = [Dec 2 (- 1), Dec 2 (- 1)],
     stat_input_hash = replicate 64 CHR ''a'', stat_output_hash = replicate 64 CHR ''a''\<rparr>"

definition sample_targets :: weights where
  "sample_targets = [(''QQQ'', Dec 2 (- 1)), (''SPY'', Dec (- 1) (- 1))]"

end
