(* ===== verification/Risk_Limits.thy ===== *)
theory Risk_Limits
  imports Risk_Policy
begin

text \<open>
  What the signed risk policy guarantees: every result respects the hard limits, what the check at
  50 digits means for the exact exposures, proportional scaling only shrinks, and the rebalance
  band keeps within the limits.
\<close>

section \<open>The hard limits hold for every result\<close>

lemma constraint_loop_satisfied:
  "constraint_loop n pass st p gs cs symbols s = Inr (True, s') \<Longrightarrow>
     constraints_satisfied (weights_of (fst s') symbols) st p gs = Inr True"
  by (induction n arbitrary: pass s) (auto split: if_splits)

lemma zero_arith [simp]: "dfix 50 (Dec 0 e) = Dec 0 e" "dabs 50 dzero = dzero" "dneg 50 dzero = dzero"
  by (simp_all add: dfix.simps ndigits.simps dabs_def dneg_def)

lemma dsum_zeros [simp]: "dsum 50 (map (\<lambda>s. dzero) xs) = dzero"
  by (induction xs) (simp_all add: dsum_def)

lemma weight_of_zeros [simp]: "weight_of (map (\<lambda>s. (s, dzero)) symbols) s = dzero"
proof -
  have "map_of (map (\<lambda>s. (s, dzero)) symbols) s = Some dzero \<or> map_of (map (\<lambda>s. (s, dzero)) symbols) s = None"
    by (induction symbols) auto
  then show ?thesis by (auto simp: weight_of_def dict_get_def)
qed

lemma gross_zeros [simp]: "gross_of (map (\<lambda>s. (s, dzero)) symbols) scope_symbols = dzero"
  by (simp add: gross_of_def)

lemma gross_zeros_fst [simp]: "gross_of (map (\<lambda>x. (fst x, dzero)) ws) scope_symbols = dzero"
  using gross_zeros [of "map fst ws"] by (simp add: comp_def)

lemma not_dlt_dzero [simp]: "\<not> dlt dzero dzero"
  by (simp add: dlt_iff)

lemma sums_zeros [simp]:
  "positive_sum (map (\<lambda>x. dzero) xs) = dzero" "short_sum (map (\<lambda>x. dzero) xs) = dzero"
  by (simp_all add: positive_sum_def short_sum_def filter_map comp_def dsum_def)

lemma weight_guards_zeros:
  "guards_ok (weight_guards ws) \<Longrightarrow> guards_ok (weight_guards (map (\<lambda>s. (s, dzero)) (map fst ws)))"
  by (auto simp: weight_guards_def policy_guard_decimal_def domain_decimal_def ndigits.simps comp_def
      MAX_DOMAIN_DECIMAL_DIGITS_def MIN_DOMAIN_DECIMAL_EXPONENT_def MAX_DOMAIN_DECIMAL_EXPONENT_def)

lemma zeros_satisfy:
  assumes p: "validate_policy p" "guards_ok (policy_guards p)" and gs: "\<forall>g \<in> set gs. validate_limit g"
    and ws: "guards_ok (weight_guards ws)" "guards_ok (risk_group_guards gs (Some (map fst ws)))"
    and st: "stat_symbols st = map fst ws" and cs: "correlation_components 50 st (correlation_edge_threshold p) = Inr cs"
  shows "constraints_satisfied (map (\<lambda>s. (s, dzero)) (map fst ws)) st p gs = Inr True"
proof -
  have "0 < dval (max_absolute_symbol_weight p)" "0 < dval (max_gross_weight p)"
      "0 < dval (max_cluster_gross_weight p)" "dval (min_net_weight p) \<le> 0" "0 \<le> dval (max_net_weight p)"
    using p by (auto simp: validate_policy_def policy_guards_def dlt_iff dle_iff)
  moreover have "\<forall>g \<in> set gs. 0 < dval (group_max_gross_weight g)"
    using gs by (auto simp: validate_limit_def dlt_iff)
  ultimately show ?thesis
    using weight_guards_zeros [OF ws(1)] ws(2) p(2) st cs
    by (auto simp: constraints_satisfied_def Let_def comp_def dsub_def dlt_iff)
qed

lemma apply_signed_constraints_Inr:
  assumes "apply_signed_constraints sha targets st p gs = Inr r"
  obtains cs ok w ctls where
    "guards_ok (weight_guards targets)" "guards_ok (policy_guards p)" "stat_symbols st = map fst targets"
    "guards_ok (risk_group_guards gs (Some (map fst targets)))"
    "correlation_components 50 st (correlation_edge_threshold p) = Inr cs"
    "constraint_loop (nat MAX_CONSTRAINT_PASSES) 1 st p gs cs (map fst targets) (targets, []) = Inr (ok, w, ctls)"
    "converged r = ok" "original_targets r = targets" "result_components r = cs" "controls r = ctls"
    "final_targets r = (if ok then weights_of w (map fst targets) else map (\<lambda>s. (s, dzero)) (map fst targets))"
  using assms
  by (auto simp: apply_signed_constraints_def normalized_weights_def validate_constraint_result_def Let_def
      split: prod.splits if_splits)

lemma constrained_targets_ok:
  assumes "apply_signed_constraints sha targets st p gs = Inr r"
    and "validate_policy p" and "\<forall>g \<in> set gs. validate_limit g"
  shows "constraints_satisfied (final_targets r) st p gs = Inr True \<and>
    map fst (final_targets r) = map fst targets \<and>
    (\<not> converged r \<longrightarrow> (\<forall>v \<in> set (map snd (final_targets r)). v = dzero))"
  using assms(1)
proof (rule apply_signed_constraints_Inr)
  fix cs ok w ctls
  assume *: "guards_ok (weight_guards targets)" "guards_ok (policy_guards p)" "stat_symbols st = map fst targets"
    "guards_ok (risk_group_guards gs (Some (map fst targets)))"
    "correlation_components 50 st (correlation_edge_threshold p) = Inr cs"
    and loop: "constraint_loop (nat MAX_CONSTRAINT_PASSES) 1 st p gs cs (map fst targets) (targets, []) = Inr (ok, w, ctls)"
    and final: "final_targets r = (if ok then weights_of w (map fst targets) else map (\<lambda>s. (s, dzero)) (map fst targets))"
    and "converged r = ok"
  show ?thesis
  proof (cases ok)
    case True
    then show ?thesis using constraint_loop_satisfied loop final \<open>converged r = ok\<close>
      by (fastforce simp: weights_of_def comp_def)
  next
    case False
    then show ?thesis using zeros_satisfy [OF assms(2) *(2) assms(3) *(1,4,3,5)] final
      by (auto simp: comp_def)
  qed
qed

text \<open>
  C8. Whatever the constraint loop does, what it returns respects every hard limit: for a validated
  policy and validated groups, the final targets of a result pass the independent recomputation of
  the symbol, gross, net, group and cluster limits. A loop that does not settle in eight passes
  returns the flat portfolio and says so.
\<close>

theorem final_targets_respect_limits:
  assumes "apply_signed_constraints sha targets st p gs = Inr r"
    and "validate_policy p" and "\<forall>g \<in> set gs. validate_limit g"
  shows "constraints_satisfied (final_targets r) st p gs = Inr True \<and>
    map fst (final_targets r) = map fst targets \<and>
    (\<not> converged r \<longrightarrow> (\<forall>v \<in> set (map snd (final_targets r)). v = dzero))"
  using assms by (rule constrained_targets_ok)

theorem final_targets_respect_limits_witness:
  "\<exists>r. apply_signed_constraints (\<lambda>_. sample_hash) sample_targets sample_statistics sample_policy sample_groups = Inr r \<and>
     constraints_satisfied (final_targets r) sample_statistics sample_policy sample_groups = Inr True"
proof -
  have "case apply_signed_constraints (\<lambda>_. sample_hash) sample_targets sample_statistics sample_policy sample_groups of
      Inr r \<Rightarrow> converged r | Inl _ \<Rightarrow> False" by code_simp
  then obtain r where r: "apply_signed_constraints (\<lambda>_. sample_hash) sample_targets sample_statistics sample_policy
      sample_groups = Inr r" using res_evaluates by blast
  have "validate_policy sample_policy" "\<forall>g \<in> set sample_groups. validate_limit g" by code_simp+
  then show ?thesis using r final_targets_respect_limits [OF r] by blast
qed

section \<open>What the check means for the exact exposures\<close>

lemma constraints_satisfied_True:
  assumes "constraints_satisfied ws st p gs = Inr True"
  obtains cs where "guards_ok (weight_guards ws)" "correlation_components 50 st (correlation_edge_threshold p) = Inr cs"
    "\<forall>v \<in> set (map snd ws). dval (dabs 50 v) \<le> dval (max_absolute_symbol_weight p)"
    "dval (dadd 50 (positive_sum (map snd ws)) (short_sum (map snd ws))) \<le> dval (max_gross_weight p)"
    "dval (min_net_weight p) \<le> dval (dsub 50 (positive_sum (map snd ws)) (short_sum (map snd ws)))"
    "dval (dsub 50 (positive_sum (map snd ws)) (short_sum (map snd ws))) \<le> dval (max_net_weight p)"
    "\<forall>g \<in> set gs. dval (gross_of ws (group_symbols g)) \<le> dval (group_max_gross_weight g)"
    "\<forall>c \<in> set cs. dval (gross_of ws c) \<le> dval (max_cluster_gross_weight p)"
  using assms
  by (auto simp: constraints_satisfied_def Let_def dlt_iff not_less split: if_splits)

lemma dsum_lower:
  assumes "\<forall>v \<in> set vs. 0 \<le> dval v"
  shows "(1 - ulp50) ^ length vs * sum_list (map dval vs) \<le> dval (dsum 50 vs)"
  using a50.foldl_add_lower [of vs dzero] assms by (simp add: dsum_def)

definition exact_gross :: "weights \<Rightarrow> string list \<Rightarrow> rat" where
  "exact_gross ws symbols = sum_list (map (\<lambda>s. \<bar>dval (weight_of ws s)\<bar>) symbols)"

lemma dabs50_lower: "(1 - ulp50) * \<bar>dval v\<bar> \<le> dval (dabs 50 v)"
proof -
  obtain s where "dabs 50 v = dfix 50 s" "dval s = \<bar>dval v\<bar>" using dabs_val by blast
  then show ?thesis using a50.rnd_relative [of s] by simp
qed

lemma gross_of_lower:
  "(1 - ulp50) ^ (length symbols + 1) * exact_gross ws symbols \<le> dval (gross_of ws symbols)"
proof -
  let ?q = "1 - ulp50" and ?vs = "map (\<lambda>s. dabs 50 (weight_of ws s)) symbols"
  have q: "0 \<le> ?q" using ulp50_bounds by simp
  have nonneg: "\<forall>v \<in> set ?vs. 0 \<le> dval v"
    using dabs_val by (auto simp: dabs_def) (metis c50.rnd_nonneg dabs_def dabs_val abs_ge_zero)
  have "?q * exact_gross ws symbols \<le> sum_list (map dval ?vs)"
    unfolding exact_gross_def sum_list_const_mult [symmetric] map_map comp_def
    by (intro sum_list_mono dabs50_lower)
  then have "?q ^ length symbols * (?q * exact_gross ws symbols) \<le> ?q ^ length symbols * sum_list (map dval ?vs)"
    using q by (intro mult_left_mono zero_le_power)
  also have "\<dots> \<le> dval (gross_of ws symbols)"
    using dsum_lower [OF nonneg] by (simp add: gross_of_def)
  finally show ?thesis by (simp add: mult_ac)
qed

text \<open>The portfolio's exposures: the long side, the short side, their sum and their difference.\<close>

definition growth50 :: "nat \<Rightarrow> rat" where
  "growth50 n = (1 + ulp50) ^ n - 1"

lemma growth50: "0 \<le> growth50 n" "m \<le> n \<Longrightarrow> growth50 m \<le> growth50 n"
    "growth50 (Suc n) = growth50 n * (1 + ulp50) + ulp50"
  using ulp50_bounds by (simp_all add: growth50_def power_increasing algebra_simps)

definition long_side :: "decimal list \<Rightarrow> rat" where
  "long_side vs = sum_list (map dval (filter (\<lambda>v. dlt dzero v) vs))"

definition short_side :: "decimal list \<Rightarrow> rat" where
  "short_side vs = sum_list (map (\<lambda>v. - dval v) (filter (\<lambda>v. dlt v dzero) vs))"

lemma sides:
  "long_side vs + short_side vs = sum_list (map (\<lambda>v. \<bar>dval v\<bar>) vs)" "long_side vs - short_side vs = sum_list (map dval vs)"
  "0 \<le> long_side vs" "0 \<le> short_side vs"
  by (induction vs) (auto simp: long_side_def short_side_def dlt_iff)

lemma close_mono: "\<bar>x - y\<bar> \<le> growth50 m * y \<Longrightarrow> 0 \<le> y \<Longrightarrow> m \<le> n \<Longrightarrow> \<bar>x - y\<bar> \<le> growth50 n * y"
  using mult_right_mono [OF growth50(2), of m n y] by linarith

lemma dsum_close: "\<forall>v \<in> set vs. 0 \<le> dval v \<Longrightarrow> \<bar>dval (dsum 50 vs) - sum_list (map dval vs)\<bar> \<le> growth50 (length vs) * sum_list (map dval vs)"
  using a50.foldl_add_close [of vs dzero] by (simp add: dsum_def growth50_def)

lemma dsum_nonneg: "\<forall>v \<in> set vs. 0 \<le> dval v \<Longrightarrow> 0 \<le> dval (dsum 50 vs)"
  using c50.foldl_add_ge [of vs dzero] c50.fits_zero by (simp add: dsum_def)

lemma dneg_nonneg: "dval v \<le> 0 \<Longrightarrow> 0 \<le> dval (dneg 50 v)"
  using dneg_val [of 50 v] by (auto intro!: c50.rnd_nonneg)

lemma sums_nonneg: "0 \<le> dval (positive_sum vs)" "0 \<le> dval (short_sum vs)"
  unfolding positive_sum_def short_sum_def by (rule dsum_nonneg, force simp: dlt_iff intro: dneg_nonneg)+

lemma positive_sum_close: "\<bar>dval (positive_sum vs) - long_side vs\<bar> \<le> growth50 (length vs + 1) * long_side vs"
proof -
  have "\<bar>dval (positive_sum vs) - long_side vs\<bar> \<le> growth50 (length (filter (\<lambda>v. dlt dzero v) vs)) * long_side vs"
    unfolding positive_sum_def long_side_def by (rule dsum_close) (auto simp: dlt_iff)
  then show ?thesis by (rule close_mono) (simp_all add: sides le_SucI)
qed

lemma short_sum_close: "\<bar>dval (short_sum vs) - short_side vs\<bar> \<le> growth50 (length vs + 1) * short_side vs"
proof -
  define ns where "ns = filter (\<lambda>v. dlt v dzero) vs"
  define t where "t = sum_list (map dval (map (dneg 50) ns))"
  have neg: "\<bar>dval (dneg 50 v) + dval v\<bar> \<le> ulp50 * - dval v \<and> 0 \<le> dval (dneg 50 v)" if "v \<in> set ns" for v
  proof -
    obtain s where s: "dneg 50 v = dfix 50 s" "dval s = - dval v" using dneg_val by blast
    have "dval v \<le> 0" using that by (simp add: ns_def dlt_iff)
    then show ?thesis using a50.rnd_close [of s] c50.rnd_nonneg [of s] by (simp add: s)
  qed
  have S: "short_side vs = sum_list (map (\<lambda>v. - dval v) ns)" by (simp add: short_side_def ns_def)
  have sum: "\<bar>t - short_side vs\<bar> \<le> ulp50 * short_side vs"
    using neg unfolding t_def S
  proof (induction ns)
    case (Cons v ns)
    then have "\<bar>dval (dneg 50 v) + dval v\<bar> \<le> ulp50 * - dval v"
      "\<bar>sum_list (map dval (map (dneg 50) ns)) - sum_list (map (\<lambda>v. - dval v) ns)\<bar> \<le> ulp50 * sum_list (map (\<lambda>v. - dval v) ns)"
      by simp_all
    then show ?case by (simp add: algebra_simps)
  qed simp
  have total: "\<bar>dval (short_sum vs) - t\<bar> \<le> growth50 (length ns) * t"
    using dsum_close [of "map (dneg 50) ns"] neg by (simp add: t_def short_sum_def ns_def)
  have "growth50 (length ns) * t \<le> growth50 (length ns) * ((1 + ulp50) * short_side vs)"
    using sum by (intro mult_left_mono growth50(1)) (simp add: algebra_simps abs_le_iff)
  then have "\<bar>dval (short_sum vs) - short_side vs\<bar> \<le> growth50 (length ns) * ((1 + ulp50) * short_side vs) + ulp50 * short_side vs"
    using total sum by linarith
  then have "\<bar>dval (short_sum vs) - short_side vs\<bar> \<le> growth50 (Suc (length ns)) * short_side vs"
    by (simp add: growth50(3) algebra_simps)
  then show ?thesis by (rule close_mono) (simp_all add: sides ns_def)
qed

text \<open>A sum or difference of two sides, each off by \<open>n\<close> roundings, is off by one more.\<close>

lemma sides_close:
  assumes "\<bar>p' - p\<bar> \<le> growth50 n * p" "\<bar>s' - s\<bar> \<le> growth50 n * s" and "\<bar>x\<bar> \<le> p' + s'" "\<bar>r - x\<bar> \<le> ulp50 * \<bar>x\<bar>"
    and "\<bar>x - y\<bar> \<le> \<bar>p' - p\<bar> + \<bar>s' - s\<bar>"
  shows "\<bar>r - y\<bar> \<le> growth50 (Suc n) * (p + s)"
proof -
  have "\<bar>x\<bar> \<le> (1 + growth50 n) * (p + s)" using assms(1-3) by (simp add: algebra_simps abs_le_iff)
  then have "ulp50 * \<bar>x\<bar> \<le> ulp50 * ((1 + growth50 n) * (p + s))" using ulp50_bounds by (intro mult_left_mono)
  then have "\<bar>r - y\<bar> \<le> ulp50 * ((1 + growth50 n) * (p + s)) + growth50 n * (p + s)"
    using assms(1,2,4,5) by (simp add: distrib_left)
  then show ?thesis by (simp add: growth50(3) algebra_simps)
qed

lemma portfolio_close:
  fixes vs :: "decimal list"
  defines "m \<equiv> growth50 (length vs + 2) * sum_list (map (\<lambda>v. \<bar>dval v\<bar>) vs)"
  shows "\<bar>dval (dadd 50 (positive_sum vs) (short_sum vs)) - sum_list (map (\<lambda>v. \<bar>dval v\<bar>) vs)\<bar> \<le> m"
    and "\<bar>dval (dsub 50 (positive_sum vs) (short_sum vs)) - sum_list (map dval vs)\<bar> \<le> m"
proof -
  obtain a where a: "dadd 50 (positive_sum vs) (short_sum vs) = dfix 50 a" "dval a = dval (positive_sum vs) + dval (short_sum vs)"
    using dadd_val by blast
  obtain d where d: "dsub 50 (positive_sum vs) (short_sum vs) = dfix 50 d" "dval d = dval (positive_sum vs) - dval (short_sum vs)"
    using dsub_val by blast
  note close = sides_close [OF positive_sum_close [of vs] short_sum_close [of vs]]
  have "\<bar>dval a - (long_side vs + short_side vs)\<bar> \<le> \<bar>dval (positive_sum vs) - long_side vs\<bar> + \<bar>dval (short_sum vs) - short_side vs\<bar>"
    "\<bar>dval d - (long_side vs - short_side vs)\<bar> \<le> \<bar>dval (positive_sum vs) - long_side vs\<bar> + \<bar>dval (short_sum vs) - short_side vs\<bar>"
    "\<bar>dval a\<bar> \<le> dval (positive_sum vs) + dval (short_sum vs)" "\<bar>dval d\<bar> \<le> dval (positive_sum vs) + dval (short_sum vs)"
    using sums_nonneg [of vs] unfolding a(2) d(2) by linarith+
  note r = close [OF this(3) a50.rnd_close this(1)] close [OF this(4) a50.rnd_close this(2)]
  show "\<bar>dval (dadd 50 (positive_sum vs) (short_sum vs)) - sum_list (map (\<lambda>v. \<bar>dval v\<bar>) vs)\<bar> \<le> m"
    "\<bar>dval (dsub 50 (positive_sum vs) (short_sum vs)) - sum_list (map dval vs)\<bar> \<le> m"
    using r by (simp_all add: a(1) d(1) m_def sides(1,2))
qed

text \<open>
  C26. The 50-digit check bounds the exact exposures: when it passes, every weight, the exact gross
  exposure of every group and of every correlation cluster, and the exact gross and net exposure of
  the portfolio stay within their limits, up to one rounding unit of relative error per term and two
  more (the unit is \<open>ulp50\<close>, 1e-49; the error of the net exposure is relative to the gross one).
\<close>

theorem satisfied_bounds_exact_exposure:
  assumes "constraints_satisfied ws st p gs = Inr True"
  shows "(\<forall>v \<in> set (map snd ws). (1 - ulp50) * \<bar>dval v\<bar> \<le> dval (max_absolute_symbol_weight p)) \<and>
    (\<forall>g \<in> set gs. (1 - ulp50) ^ (length (group_symbols g) + 1) * exact_gross ws (group_symbols g) \<le>
       dval (group_max_gross_weight g)) \<and>
    (\<exists>cs. correlation_components 50 st (correlation_edge_threshold p) = Inr cs \<and>
       (\<forall>c \<in> set cs. (1 - ulp50) ^ (length c + 1) * exact_gross ws c \<le> dval (max_cluster_gross_weight p))) \<and>
    (let gross = sum_list (map (\<lambda>w. \<bar>dval (snd w)\<bar>) ws); net = sum_list (map (\<lambda>w. dval (snd w)) ws);
         error = ((1 + ulp50) ^ (length ws + 2) - 1) * gross
     in gross \<le> dval (max_gross_weight p) + error \<and> net \<le> dval (max_net_weight p) + error \<and>
       dval (min_net_weight p) - error \<le> net)"
  using assms
proof (rule constraints_satisfied_True)
  fix cs
  assume *: "correlation_components 50 st (correlation_edge_threshold p) = Inr cs"
    "\<forall>v \<in> set (map snd ws). dval (dabs 50 v) \<le> dval (max_absolute_symbol_weight p)"
    "\<forall>g \<in> set gs. dval (gross_of ws (group_symbols g)) \<le> dval (group_max_gross_weight g)"
    "\<forall>c \<in> set cs. dval (gross_of ws c) \<le> dval (max_cluster_gross_weight p)"
    and portfolio: "dval (dadd 50 (positive_sum (map snd ws)) (short_sum (map snd ws))) \<le> dval (max_gross_weight p)"
    "dval (min_net_weight p) \<le> dval (dsub 50 (positive_sum (map snd ws)) (short_sum (map snd ws)))"
    "dval (dsub 50 (positive_sum (map snd ws)) (short_sum (map snd ws))) \<le> dval (max_net_weight p)"
  have "let gross = sum_list (map (\<lambda>w. \<bar>dval (snd w)\<bar>) ws); net = sum_list (map (\<lambda>w. dval (snd w)) ws);
         error = ((1 + ulp50) ^ (length ws + 2) - 1) * gross
     in gross \<le> dval (max_gross_weight p) + error \<and> net \<le> dval (max_net_weight p) + error \<and>
       dval (min_net_weight p) - error \<le> net"
    using portfolio_close [of "map snd ws"] portfolio by (simp add: Let_def growth50_def comp_def abs_le_iff)
  then show ?thesis
    using * by (intro conjI ballI exI [of _ cs]) (blast intro: order_trans gross_of_lower dabs50_lower)+
qed

theorem satisfied_bounds_exact_exposure_witness:
  "constraints_satisfied sample_targets sample_statistics sample_policy sample_groups = Inr True \<and>
   (1 - ulp50) ^ 3 * exact_gross sample_targets [''QQQ'', ''SPY''] \<le> 8 / 10 \<and>
   3 / 10 \<le> dval (max_gross_weight sample_policy) + ((1 + ulp50) ^ 4 - 1) * (3 / 10)"
proof -
  have ok: "constraints_satisfied sample_targets sample_statistics sample_policy sample_groups = Inr True" by code_simp
  note bound = satisfied_bounds_exact_exposure [OF ok]
  have "\<forall>g \<in> set sample_groups. (1 - ulp50) ^ (length (group_symbols g) + 1) *
      exact_gross sample_targets (group_symbols g) \<le> dval (group_max_gross_weight g)"
    using bound by blast
  moreover have "sum_list (map (\<lambda>w. \<bar>dval (snd w)\<bar>) sample_targets) = 3 / 10" "length sample_targets = 2"
    by (simp_all add: sample_targets_def dval_def power_int_minus)
  moreover have "sum_list (map (\<lambda>w. \<bar>dval (snd w)\<bar>) sample_targets) \<le> dval (max_gross_weight sample_policy) +
      ((1 + ulp50) ^ (length sample_targets + 2) - 1) * sum_list (map (\<lambda>w. \<bar>dval (snd w)\<bar>) sample_targets)"
    using bound unfolding Let_def by blast
  then have "3 / 10 \<le> dval (max_gross_weight sample_policy) + ((1 + ulp50) ^ 4 - 1) * (3 / 10)"
    using calculation(2,3) by simp
  ultimately show ?thesis using ok
    by (simp add: sample_groups_def dval_def [of "Dec _ _"] power_int_minus power3_eq_cube mult_ac)
qed

section \<open>Scaling only shrinks\<close>

definition shrinks :: "decimal \<Rightarrow> decimal \<Rightarrow> bool" where
  "shrinks a b \<longleftrightarrow> 0 \<le> dval b \<and> dval b \<le> dval a \<or> dval a \<le> dval b \<and> dval b \<le> 0"

lemma weight_of_update [simp]: "weight_of (AList.update s v w) t = (if t = s then v else weight_of w t)"
  by (simp add: weight_of_def dict_get_def)

lemma shrinks_refl: "shrinks a a"
  by (auto simp: shrinks_def)

lemma weight_of_scale:
  assumes "distinct scope_symbols"
  shows "weight_of (scale_weights sel scope_symbols f w) s =
    (if s \<in> set scope_symbols \<and> sel (weight_of w s) then dmul 50 (weight_of w s) f else weight_of w s)"
  using assms by (induction scope_symbols arbitrary: w) (auto simp: scale_weights_def)

text \<open>
  Proportional scaling is shrink-only: with a factor of the unit interval, every weight of at
  most 50 digits keeps its sign and does not grow, whatever the rounding, and weights outside the
  scope are untouched.
\<close>

lemma scaling_shrinks:
  assumes "distinct scope_symbols" and "0 \<le> dval f" and "dval f \<le> 1" and "drepr 50 (weight_of w s)"
  shows "shrinks (weight_of w s) (weight_of (scale_weights sel scope_symbols f w) s) \<and>
    (s \<notin> set scope_symbols \<longrightarrow> weight_of (scale_weights sel scope_symbols f w) s = weight_of w s)"
proof -
  have "shrinks (weight_of w s) (dmul 50 (weight_of w s) f)"
    using c50.mul_shrink [OF assms(4,2,3)] by (cases "0 \<le> dval (weight_of w s)") (auto simp: shrinks_def)
  then show ?thesis using weight_of_scale [OF assms(1)] shrinks_refl by simp
qed

section \<open>The rebalance band\<close>

lemma weights_of_self:
  assumes "distinct (map fst ws)" shows "weights_of ws (map fst ws) = ws"
  unfolding weights_of_def weight_of_def map_map comp_def
  by (rule map_idI) (auto simp: dict_get_entry [OF assms])

lemma weight_of_weights_of: "s \<in> set symbols \<Longrightarrow> weight_of (weights_of w symbols) s = weight_of w s"
  by (induction symbols) (auto simp: weights_of_def weight_of_def dict_get_def)

lemma record_control_Inr:
  "record_control symbols before w pass ctl sc f cs = Inr s' \<Longrightarrow> fst s' = w"
  by (auto simp: record_control_def validate_control_def)

lemma mapE_dict:
  "mapE (\<lambda>s. bindE (f s) (\<lambda>v. Inr (s, v))) xs = Inr ys \<Longrightarrow> s \<in> set xs \<Longrightarrow> f s = Inr (dict_get ys s x)"
  by (induction xs arbitrary: ys) (auto simp: dict_get_def)

lemma band_step_invariant:
  assumes "band_step st p gs symbols current equity threshold x s = Inr s'"
    and "constraints_satisfied (weights_of (fst s) symbols) st p gs = Inr True"
    and "\<forall>t. weight_of (fst s) t = weight_of desired t \<or> weight_of (fst s) t = weight_of current t"
  shows "constraints_satisfied (weights_of (fst s') symbols) st p gs = Inr True \<and>
    (\<forall>t. weight_of (fst s') t = weight_of desired t \<or> weight_of (fst s') t = weight_of current t)"
  using assms by (auto simp: band_step_def Let_def split: prod.splits if_splits dest!: record_control_Inr)

text \<open>
  The rebalance band never breaks a limit: if the targets it starts from satisfy the
  constraints, so do the weights it returns, and each of these is either the target of its symbol or
  the weight the account already holds.
\<close>

lemma rebalance_band_keeps_limits:
  assumes "apply_rebalance_band targets quantities prices equity st p gs force = Inr (ws, cs)"
    and "constraints_satisfied targets st p gs = Inr True"
  shows "constraints_satisfied ws st p gs = Inr True \<and> map fst ws = map fst targets \<and>
    (\<forall>s \<in> set (map fst targets). weight_of ws s = weight_of targets s \<or>
       Inr (weight_of ws s) = current_weight quantities prices equity s)"
proof -
  let ?symbols = "map fst targets"
  have self: "weights_of targets ?symbols = targets"
    using assms(1) by (intro weights_of_self) (auto simp: apply_rebalance_band_def normalized_weights_def weight_guards_def)
  obtain current where cur: "mapE (\<lambda>s. bindE (current_weight quantities prices equity s) (\<lambda>v. Inr (s, v))) ?symbols = Inr current"
    using assms(1) by (auto simp: apply_rebalance_band_def normalized_weights_def Let_def)
  show ?thesis
  proof (cases force)
    case True
    then have "ws = targets" using assms(1) by (auto simp: apply_rebalance_band_def normalized_weights_def Let_def)
    then show ?thesis using assms(2) by simp
  next
    case False
    then obtain result where run: "foldE (band_step st p gs ?symbols current equity
          (dmul 50 (minimum_rebalance_equity_fraction p) equity)) targets (targets, []) = Inr (result, cs)"
        and ws: "ws = weights_of result ?symbols"
      using assms(1) cur by (auto simp: apply_rebalance_band_def normalized_weights_def Let_def)
    have inv: "constraints_satisfied (weights_of (fst (result, cs)) ?symbols) st p gs = Inr True \<and>
        (\<forall>t. weight_of (fst (result, cs)) t = weight_of targets t \<or> weight_of (fst (result, cs)) t = weight_of current t)"
      by (rule foldE_invariant [OF run]) (use assms(2) self band_step_invariant in auto)
    have now: "Inr (weight_of current s) = current_weight quantities prices equity s" if "s \<in> set ?symbols" for s
      using mapE_dict [OF cur that] by (simp add: weight_of_def)
    have "weight_of ws s = weight_of targets s \<or> Inr (weight_of ws s) = current_weight quantities prices equity s"
      if s: "s \<in> set ?symbols" for s
      using inv now [OF s] weight_of_weights_of [OF s, of result] unfolding ws fst_conv by metis
    moreover have "map fst ws = ?symbols" unfolding ws weights_of_def map_map comp_def by simp
    ultimately show ?thesis using inv unfolding ws fst_conv by blast
  qed
qed

end
