(* ===== verification/Correlation_Clusters.thy ===== *)
theory Correlation_Clusters
  imports Risk_Policy
begin

text \<open>
  The union-find of \<open>risk/policy.correlation_components\<close> is correct: path halving keeps the roots, a
  union merges two classes, and the clusters it returns are the connected components of the graph
  of the pairs whose absolute correlation exceeds the threshold.
\<close>

section \<open>Correlation clusters are connected components\<close>

text \<open>The root a chain of parents leads to.\<close>

lemma parent_of_update [simp]: "parent_of (AList.update k v d) = (parent_of d)(k := v)"
  by (auto simp: parent_of_def dict_get_def fun_eq_iff)

inductive root_of :: "(string \<Rightarrow> string) \<Rightarrow> string \<Rightarrow> string \<Rightarrow> bool" for f where
  here: "f s = s \<Longrightarrow> root_of f s s"
| up: "f s \<noteq> s \<Longrightarrow> root_of f (f s) r \<Longrightarrow> root_of f s r"

definition forest :: "string set \<Rightarrow> (string \<Rightarrow> string) \<Rightarrow> bool" where
  "forest S f \<longleftrightarrow> finite S \<and> (\<forall>s \<in> S. f s \<in> S \<and> f s \<le> s)"

definition below :: "string set \<Rightarrow> string \<Rightarrow> nat" where
  "below S s = card {t \<in> S. t < s}"

lemma below_mono: "finite S \<Longrightarrow> t \<in> S \<Longrightarrow> t < s \<Longrightarrow> below S t < below S s"
  unfolding below_def by (rule psubset_card_mono) auto

lemma root_of_unique: "root_of f s r \<Longrightarrow> root_of f s r' \<Longrightarrow> r = r'"
  by (induction rule: root_of.induct) (erule root_of.cases; simp)+

lemma root_of_root: "root_of f s r \<Longrightarrow> f r = r"
  by (induction rule: root_of.induct) auto

lemma root_of_in: "root_of f s r \<Longrightarrow> forest S f \<Longrightarrow> s \<in> S \<Longrightarrow> r \<in> S"
  by (induction rule: root_of.induct) (auto simp: forest_def)

lemma root_of_exists: "forest S f \<Longrightarrow> s \<in> S \<Longrightarrow> \<exists>r. root_of f s r"
proof (induction "below S s" arbitrary: s rule: less_induct)
  case less
  show ?case
  proof (cases "f s = s")
    case True
    then show ?thesis by (blast intro: root_of.here)
  next
    case False
    then have "f s \<in> S" "f s < s" using less.prems by (auto simp: forest_def)
    then show ?thesis using less False below_mono [of S "f s" s] by (metis forest_def root_of.up)
  qed
qed

text \<open>Path halving moves a pointer, not a root.\<close>

lemma halving_root:
  assumes "forest S f" and "s \<in> S" and "f s \<noteq> s" and "t \<in> S" and "root_of f t x"
  shows "root_of (f(s := f (f s))) t x"
  using assms(5,1,4)
proof (induction rule: root_of.induct)
  case (here t)
  then show ?case by - (rule root_of.here, use assms(3) in auto)
next
  case (up t r)
  let ?f = "f(s := f (f s))"
  have IH: "root_of ?f (f t) r" using up.prems by (intro up.IH) (simp_all add: forest_def)
  show ?case
  proof (cases "t = s")
    case False
    then have "?f t = f t" by simp
    then show ?thesis using up.hyps(1) IH by (metis root_of.up)
  next
    case True
    have fs: "f s < s" "f (f s) \<le> f s" using assms(1-3) by (auto simp: forest_def)
    have "root_of ?f (f (f s)) r"
    proof (cases "f (f s) = f s")
      case True
      then show ?thesis using IH \<open>t = s\<close> by simp
    next
      case False
      from IH \<open>t = s\<close> have "root_of ?f (f s) r" by simp
      then show ?thesis by (rule root_of.cases) (use False fs(1) in auto)
    qed
    moreover have "?f s \<noteq> s" using fs by auto
    moreover have "?f s = f (f s)" by simp
    ultimately show ?thesis unfolding True by (metis root_of.up)
  qed
qed

lemma uf_find_correct:
  "forest S (parent_of d) \<Longrightarrow> s \<in> S \<Longrightarrow> below S s < n \<Longrightarrow>
     \<exists>d' r. uf_find n d s = Some (d', r) \<and> forest S (parent_of d') \<and> root_of (parent_of d) s r \<and>
       (\<forall>t \<in> S. \<forall>x. root_of (parent_of d') t x \<longleftrightarrow> root_of (parent_of d) t x)"
proof (induction n arbitrary: d s)
  case 0
  then show ?case by simp
next
  case (Suc n)
  let ?f = "parent_of d"
  show ?case
  proof (cases "?f s = s")
    case True
    then have "uf_find (Suc n) d s = Some (d, s)" by simp
    then show ?thesis using Suc.prems True root_of.here [of ?f s] by blast
  next
    case False
    let ?d = "AList.update s (?f (?f s)) d"
    have fs: "?f s \<in> S" "?f s < s" "?f (?f s) \<in> S" "?f (?f s) \<le> ?f s"
      using Suc.prems False by (auto simp: forest_def)
    have "?f (?f s) \<le> s" using fs by simp
    then have forest: "forest S (parent_of ?d)" using Suc.prems fs(3) by (simp add: forest_def)
    have same: "root_of (parent_of ?d) t x \<longleftrightarrow> root_of ?f t x" if "t \<in> S" for t x
      using halving_root [OF Suc.prems(1,2) False that] root_of_exists [OF Suc.prems(1) that]
        root_of_unique by (metis parent_of_update)
    have "?f (?f s) < s" using fs(4,2) by (rule le_less_trans)
    then have "below S (?f (?f s)) < n"
      using below_mono [of S "?f (?f s)" s] fs(3) Suc.prems(1,3) by (simp add: forest_def)
    then obtain d' r where d': "uf_find n ?d (?f (?f s)) = Some (d', r)" "forest S (parent_of d')"
        "root_of (parent_of ?d) (?f (?f s)) r"
        "\<forall>t \<in> S. \<forall>x. root_of (parent_of d') t x \<longleftrightarrow> root_of (parent_of ?d) t x"
      using Suc.IH [OF forest fs(3)] by blast
    have "root_of (parent_of ?d) s r"
      by (rule root_of.up) (use d'(3) fs in auto)
    moreover have "uf_find (Suc n) d s = Some (d', r)"
      using False d'(1) by (simp add: Let_def)
    ultimately show ?thesis using d' same Suc.prems(2) by blast
  qed
qed

definition same_root :: "(string \<Rightarrow> string) \<Rightarrow> string \<Rightarrow> string \<Rightarrow> bool" where
  "same_root f a b \<longleftrightarrow> (\<exists>r. root_of f a r \<and> root_of f b r)"

lemma same_root_iff: "root_of f a u \<Longrightarrow> root_of f b v \<Longrightarrow> same_root f a b \<longleftrightarrow> u = v"
  unfolding same_root_def by (blast dest: root_of_unique)

lemma redirect_root:
  assumes "f hi = hi" and "f lo = lo" and "lo \<noteq> hi" and "root_of f t y"
  shows "root_of (f(hi := lo)) t (if y = hi then lo else y)"
  using assms(4,1-3)
proof (induction rule: root_of.induct)
  case (here s)
  have lo: "root_of (f(hi := lo)) lo lo" by (rule root_of.here) (use here in simp)
  show ?case
  proof (cases "s = hi")
    case True
    have "root_of (f(hi := lo)) hi lo" by (rule root_of.up) (use here lo in simp_all)
    then show ?thesis by (simp only: True simp_thms if_True)
  next
    case False
    then have "(f(hi := lo)) s = s" using here by simp
    then show ?thesis unfolding if_not_P [OF False] by (rule root_of.here)
  qed
next
  case (up s r)
  then have "(f(hi := lo)) s = f s" by auto
  then show ?case using up by (metis root_of.up)
qed

lemma uf_union_correct:
  assumes f: "forest S (parent_of d)" and l: "l \<in> S" and r: "r \<in> S" and n: "\<forall>s \<in> S. below S s < n"
  shows "\<exists>d'. uf_union n l r d = Some d' \<and> forest S (parent_of d') \<and>
    (\<forall>a \<in> S. \<forall>b \<in> S. same_root (parent_of d') a b \<longleftrightarrow> same_root (parent_of d) a b \<or>
       same_root (parent_of d) a l \<and> same_root (parent_of d) r b \<or>
       same_root (parent_of d) a r \<and> same_root (parent_of d) l b)"
proof -
  obtain d1 x where d1: "uf_find n d l = Some (d1, x)" "forest S (parent_of d1)" "root_of (parent_of d) l x"
      "\<forall>t \<in> S. \<forall>x. root_of (parent_of d1) t x \<longleftrightarrow> root_of (parent_of d) t x"
    using uf_find_correct [OF f l bspec [OF n l]] by (elim exE conjE) (rule that)
  obtain d2 y where d2: "uf_find n d1 r = Some (d2, y)" "forest S (parent_of d2)" "root_of (parent_of d1) r y"
      "\<forall>t \<in> S. \<forall>x. root_of (parent_of d2) t x \<longleftrightarrow> root_of (parent_of d1) t x"
    using uf_find_correct [OF d1(2) r bspec [OF n r]] by (elim exE conjE) (rule that)
  have roots: "root_of (parent_of d2) t z \<longleftrightarrow> root_of (parent_of d) t z" if "t \<in> S" for t z
    using d1(4) d2(4) that by blast
  have x: "root_of (parent_of d2) l x" and y: "root_of (parent_of d2) r y"
    using roots d1(3) d2(3,4) l r by blast+
  have ry: "root_of (parent_of d) r y" using roots y r by blast
  have total: "\<exists>z. root_of (parent_of d) t z" if "t \<in> S" for t using root_of_exists [OF f that] .
  have spec: "same_root (parent_of d) a b \<or> same_root (parent_of d) a l \<and> same_root (parent_of d) r b \<or>
      same_root (parent_of d) a r \<and> same_root (parent_of d) l b \<longleftrightarrow> u = v \<or> u = x \<and> y = v \<or> u = y \<and> x = v"
    if u: "root_of (parent_of d) a u" and v: "root_of (parent_of d) b v" for a b u v
    by (simp only: same_root_iff [OF u v] same_root_iff [OF u d1(3)] same_root_iff [OF ry v]
        same_root_iff [OF u ry] same_root_iff [OF d1(3) v])
  have merged: "\<forall>a \<in> S. \<forall>b \<in> S. same_root (parent_of e) a b \<longleftrightarrow> same_root (parent_of d) a b \<or>
       same_root (parent_of d) a l \<and> same_root (parent_of d) r b \<or>
       same_root (parent_of d) a r \<and> same_root (parent_of d) l b"
    if step: "\<And>a b u v. a \<in> S \<Longrightarrow> b \<in> S \<Longrightarrow> root_of (parent_of d) a u \<Longrightarrow> root_of (parent_of d) b v \<Longrightarrow>
      same_root (parent_of e) a b \<longleftrightarrow> u = v \<or> u = x \<and> y = v \<or> u = y \<and> x = v" for e
  proof (intro ballI)
    fix a b assume ab: "a \<in> S" "b \<in> S"
    obtain u where u: "root_of (parent_of d) a u" using total [OF ab(1)] by (elim exE)
    obtain v where v: "root_of (parent_of d) b v" using total [OF ab(2)] by (elim exE)
    show "same_root (parent_of e) a b \<longleftrightarrow> same_root (parent_of d) a b \<or>
       same_root (parent_of d) a l \<and> same_root (parent_of d) r b \<or>
       same_root (parent_of d) a r \<and> same_root (parent_of d) l b"
      by (simp only: spec [OF u v] step [OF ab u v])
  qed
  show ?thesis
  proof (cases "x = y")
    case True
    have "same_root (parent_of d2) a b \<longleftrightarrow> u = v \<or> u = x \<and> y = v \<or> u = y \<and> x = v"
      if "a \<in> S" "b \<in> S" "root_of (parent_of d) a u" "root_of (parent_of d) b v" for a b u v
      using same_root_iff [of "parent_of d2" a u b v] that roots True by auto
    moreover have "uf_union n l r d = Some d2" by (simp add: uf_union_def d1(1) d2(1) True)
    ultimately show ?thesis using d2(2) merged [of d2] True by blast
  next
    case False
    define hi lo where "hi = max x y" and "lo = min x y"
    have hl: "lo < hi" and xy: "hi = x \<and> lo = y \<or> hi = y \<and> lo = x"
      using False by (auto simp: hi_def lo_def max_def min_def)
    have tops: "parent_of d2 hi = hi" "parent_of d2 lo = lo"
      using root_of_root [OF x] root_of_root [OF y] xy by auto
    have inS: "hi \<in> S" "lo \<in> S"
      using root_of_in [OF x d2(2) l] root_of_in [OF y d2(2) r] xy by auto
    let ?d = "AList.update hi lo d2"
    have forest: "forest S (parent_of ?d)" using d2(2) inS hl by (simp add: forest_def less_imp_le)
    have new: "root_of (parent_of ?d) t (if u = hi then lo else u)" if "t \<in> S" "root_of (parent_of d) t u" for t u
      using redirect_root [OF tops] hl roots [OF that(1)] that(2) by simp
    have "same_root (parent_of ?d) a b \<longleftrightarrow> u = v \<or> u = x \<and> y = v \<or> u = y \<and> x = v"
      if "a \<in> S" "b \<in> S" "root_of (parent_of d) a u" "root_of (parent_of d) b v" for a b u v
      using same_root_iff [OF new [OF that(1,3)] new [OF that(2,4)]] xy hl by auto
    moreover have "uf_union n l r d = Some ?d" by (simp add: uf_union_def d1(1) d2(1) False hi_def lo_def)
    ultimately show ?thesis using forest merged [of ?d] by blast
  qed
qed

definition connected :: "(string \<times> string) set \<Rightarrow> (string \<times> string) set" where
  "connected E = (E \<union> E\<inverse>)\<^sup>*"

lemma connected_sym: "(a, b) \<in> connected E \<Longrightarrow> (b, a) \<in> connected E"
  unfolding connected_def by (metis converse_Un converse_converse rtrancl_converseD sup_commute)

lemma connected_trans: "(a, b) \<in> connected E \<Longrightarrow> (b, c) \<in> connected E \<Longrightarrow> (a, c) \<in> connected E"
  unfolding connected_def by (rule rtrancl_trans)

lemma connected_refl: "(a, a) \<in> connected E"
  by (simp add: connected_def)

lemma connected_edge: "(a, b) \<in> E \<union> E\<inverse> \<Longrightarrow> (a, b) \<in> connected E"
  unfolding connected_def by (rule r_into_rtrancl)

lemma connected_insert:
  "(a, b) \<in> connected (insert (l, r) E) \<longleftrightarrow> (a, b) \<in> connected E \<or>
     (a, l) \<in> connected E \<and> (r, b) \<in> connected E \<or> (a, r) \<in> connected E \<and> (l, b) \<in> connected E"
proof
  assume "(a, b) \<in> connected (insert (l, r) E)"
  then have "(a, b) \<in> (insert (l, r) E \<union> (insert (l, r) E)\<inverse>)\<^sup>*" by (simp only: connected_def)
  then show "(a, b) \<in> connected E \<or> (a, l) \<in> connected E \<and> (r, b) \<in> connected E \<or>
      (a, r) \<in> connected E \<and> (l, b) \<in> connected E"
  proof (induction rule: rtrancl_induct)
    case base
    show ?case using connected_refl by blast
  next
    case (step b c)
    then consider "(b, c) \<in> connected E" | "b = l \<and> c = r" | "b = r \<and> c = l" using connected_edge [of b c E] by auto
    then show ?case
    proof cases
      case 1
      then show ?thesis using step.IH connected_trans by blast
    next
      case 2
      then show ?thesis using step.IH connected_refl by blast
    next
      case 3
      then show ?thesis using step.IH connected_refl by blast
    qed
  qed
next
  have mono: "connected E \<subseteq> connected (insert (l, r) E)"
    unfolding connected_def by (rule rtrancl_mono) auto
  have lr: "(l, r) \<in> connected (insert (l, r) E)" by (rule connected_edge) simp
  assume "(a, b) \<in> connected E \<or> (a, l) \<in> connected E \<and> (r, b) \<in> connected E \<or>
      (a, r) \<in> connected E \<and> (l, b) \<in> connected E"
  then show "(a, b) \<in> connected (insert (l, r) E)"
    using mono lr connected_sym [OF lr] by (meson connected_trans subsetD)
qed

definition represents :: "string set \<Rightarrow> (string \<Rightarrow> string) \<Rightarrow> (string \<times> string) set \<Rightarrow> bool" where
  "represents S f E \<longleftrightarrow> forest S f \<and> (\<forall>a \<in> S. \<forall>b \<in> S. same_root f a b \<longleftrightarrow> (a, b) \<in> connected E)"

lemma uf_unions_correct:
  "represents S (parent_of d) E \<Longrightarrow> set ps \<subseteq> S \<times> S \<Longrightarrow> \<forall>s \<in> S. below S s < n \<Longrightarrow>
     \<exists>d'. uf_unions n ps d = Some d' \<and> represents S (parent_of d') (set ps \<union> E)"
proof (induction ps arbitrary: d E)
  case Nil
  then show ?case by simp
next
  case (Cons p ps)
  obtain l r where p: "p = (l, r)" by (cases p)
  have lr: "l \<in> S" "r \<in> S" using Cons.prems(2) p by auto
  have f: "forest S (parent_of d)" using Cons.prems(1) by (simp add: represents_def)
  obtain d' where d': "uf_union n l r d = Some d'" "forest S (parent_of d')"
      "\<forall>a \<in> S. \<forall>b \<in> S. same_root (parent_of d') a b \<longleftrightarrow> same_root (parent_of d) a b \<or>
       same_root (parent_of d) a l \<and> same_root (parent_of d) r b \<or>
       same_root (parent_of d) a r \<and> same_root (parent_of d) l b"
    using uf_union_correct [OF f lr Cons.prems(3)] by (elim exE conjE) (rule that)
  have "represents S (parent_of d') (insert (l, r) E)"
    using d'(2,3) Cons.prems(1) lr by (simp add: represents_def connected_insert)
  then have "\<exists>d''. uf_unions n ps d' = Some d'' \<and> represents S (parent_of d'') (set ps \<union> insert (l, r) E)"
    using Cons.prems(2,3) by (intro Cons.IH) auto
  then show ?case by (simp add: p d'(1))
qed

lemma uf_groups_correct:
  "forest S (parent_of d) \<Longrightarrow> \<forall>s \<in> S. root_of (parent_of d) s (rt s) \<Longrightarrow> set ss \<subseteq> S \<Longrightarrow>
     \<forall>s \<in> S. below S s < n \<Longrightarrow> uf_groups n ss d g = Some (fold (\<lambda>s. dict_append (rt s) s) ss g)"
proof (induction ss arbitrary: d g)
  case Nil
  then show ?case by simp
next
  case (Cons s ss)
  have s: "s \<in> S" using Cons.prems(3) by simp
  obtain d' r where d': "uf_find n d s = Some (d', r)" "forest S (parent_of d')" "root_of (parent_of d) s r"
      "\<forall>t \<in> S. \<forall>x. root_of (parent_of d') t x \<longleftrightarrow> root_of (parent_of d) t x"
    using uf_find_correct [OF Cons.prems(1) s bspec [OF Cons.prems(4) s]] by (elim exE conjE) (rule that)
  have "r = rt s" using root_of_unique [OF d'(3)] Cons.prems(2) s by blast
  moreover have "uf_groups n ss d' h = Some (fold (\<lambda>s. dict_append (rt s) s) ss h)" for h
    using Cons.prems d'(2,4) by (intro Cons.IH) auto
  ultimately show ?case by (simp add: d'(1))
qed

lemma set_concat_grouped:
  "distinct (map fst d) \<Longrightarrow> set (concat (map snd (fold (\<lambda>x. dict_append (key x) x) xs d))) =
     set xs \<union> set (concat (map snd d))"
proof (induction xs arbitrary: d)
  case (Cons x xs)
  have "distinct (map fst (dict_append (key x) x d))" using distinct_grouped [of d key "[x]"] Cons.prems by simp
  then show ?case using Cons.IH [of "dict_append (key x) x d"] set_concat_dict_append [OF Cons.prems] by simp
qed simp

text \<open>The lists of a grouped dictionary are the classes of the key.\<close>

lemma grouped_classes:
  assumes "v \<in> set (map snd (fold (\<lambda>x. dict_append (key x) x) xs []))"
  shows "\<exists>k. v = filter (\<lambda>x. key x = k) xs \<and> v \<noteq> []"
proof -
  let ?d = "fold (\<lambda>x. dict_append (key x) x) xs []"
  obtain k where k: "(k, v) \<in> set ?d" using assms by auto
  have "distinct (map fst ?d)" by (rule distinct_grouped) simp
  from dict_get_entry [OF this k, of "[]"] have "v = filter (\<lambda>x. key x = k) xs"
    by (simp add: dict_get_grouped) (simp add: dict_get_def)
  moreover have "k \<in> fst ` set ?d" using k by force
  then have "k \<in> key ` set xs" using keys_grouped [of key xs "[]"] by simp
  ultimately show ?thesis by (auto simp: filter_empty_conv)
qed

section \<open>The clusters of the policy\<close>

definition threshold_graph :: "int \<Rightarrow> RiskStatistics \<Rightarrow> decimal \<Rightarrow> (string \<times> string) set" where
  "threshold_graph prec st threshold =
     {(stat_symbols st ! i, stat_symbols st ! j) | i j. i < j \<and> j < length (stat_symbols st) \<and>
        dval threshold < dval (dabs prec (prior_correlation st ! i ! j))}"

lemma index_of_nth: "distinct xs \<Longrightarrow> i < length xs \<Longrightarrow> index_of (xs ! i) xs = Some i"
  by (induction xs arbitrary: i) (auto simp: nth_Cons split: nat.splits)

lemma symbol_pairs:
  "(l, r) \<in> set [(xs ! i, r). i \<leftarrow> [0..<length xs], r \<leftarrow> drop (Suc i) xs] \<longleftrightarrow>
     (\<exists>i j. i < j \<and> j < length xs \<and> l = xs ! i \<and> r = xs ! j)"
proof -
  have "r \<in> set (drop (Suc i) xs) \<longleftrightarrow> (\<exists>j. i < j \<and> j < length xs \<and> r = xs ! j)" for i
  proof
    assume "r \<in> set (drop (Suc i) xs)"
    then obtain k where "k < length xs - Suc i" "r = xs ! (Suc i + k)" by (auto simp: in_set_conv_nth)
    then show "\<exists>j. i < j \<and> j < length xs \<and> r = xs ! j" by (intro exI [of _ "Suc i + k"]) auto
  next
    assume "\<exists>j. i < j \<and> j < length xs \<and> r = xs ! j"
    then obtain j where "i < j" "j < length xs" "r = xs ! j" by auto
    then show "r \<in> set (drop (Suc i) xs)" by (auto simp: in_set_conv_nth intro!: exI [of _ "j - Suc i"])
  qed
  moreover have "(l, r) \<in> set [(xs ! i, r). i \<leftarrow> [0..<length xs], r \<leftarrow> drop (Suc i) xs] \<longleftrightarrow>
      (\<exists>i < length xs. l = xs ! i \<and> r \<in> set (drop (Suc i) xs))" by auto
  ultimately have "(l, r) \<in> set [(xs ! i, r). i \<leftarrow> [0..<length xs], r \<leftarrow> drop (Suc i) xs] \<longleftrightarrow>
      (\<exists>i < length xs. l = xs ! i \<and> (\<exists>j. i < j \<and> j < length xs \<and> r = xs ! j))" by simp
  then show ?thesis using less_trans by blast
qed

lemma set_filter_zip_map:
  "set (map fst (filter (\<lambda>(p, c). P c) (zip xs (map g xs)))) = {p \<in> set xs. P (g p)}"
  by (induction xs) auto

lemma correlated_pairs_Inr:
  assumes d: "distinct (stat_symbols st)"
  shows "\<exists>es. correlated_pairs prec st threshold = Inr es \<and> set es = threshold_graph prec st threshold"
proof -
  define sy where "sy = stat_symbols st"
  define pairs where "pairs = [(sy ! i, r). i \<leftarrow> [0..<length sy], r \<leftarrow> drop (Suc i) sy]"
  define g where "g = (\<lambda>(l, r). prior_correlation st ! the (index_of l sy) ! the (index_of r sy))"
  note pairs_iff = symbol_pairs [of _ _ sy, folded pairs_def]
  have idx: "correlation_for st (sy ! i) (sy ! j) = Inr (prior_correlation st ! i ! j)"
      "g (sy ! i, sy ! j) = prior_correlation st ! i ! j" if "i < j" "j < length sy" for i j
    using that index_of_nth [OF d] by (simp_all add: correlation_for_def sy_def g_def)
  have "mapE (\<lambda>(l, r). correlation_for st l r) pairs = Inr ys \<longleftrightarrow> (\<forall>x \<in> set pairs. True) \<and> ys = map g pairs" for ys
  proof (rule mapE_map)
    fix x y assume x: "x \<in> set pairs"
    obtain l r where lr: "x = (l, r)" by (cases x)
    obtain i j where "i < j" "j < length sy" "l = sy ! i" "r = sy ! j"
      using x unfolding lr pairs_iff by (elim exE conjE)
    then show "(case x of (l, r) \<Rightarrow> correlation_for st l r) = Inr y \<longleftrightarrow> True \<and> y = g x"
      using idx [of i j] by (auto simp: lr)
  qed
  then have run: "correlated_pairs prec st threshold =
      Inr (map fst (filter (\<lambda>(p, c). dlt threshold (dabs prec c)) (zip pairs (map g pairs))))"
    unfolding correlated_pairs_def Let_def sy_def [symmetric] pairs_def [symmetric] by simp
  have "p \<in> {p \<in> set pairs. dlt threshold (dabs prec (g p))} \<longleftrightarrow> p \<in> threshold_graph prec st threshold" for p
  proof -
    obtain l r where p: "p = (l, r)" by (cases p)
    show ?thesis
      unfolding p mem_Collect_eq pairs_iff threshold_graph_def dlt_iff sy_def [symmetric] using idx(2) by auto blast
  qed
  then have "{p \<in> set pairs. dlt threshold (dabs prec (g p))} = threshold_graph prec st threshold" by (rule set_eqI)
  then show ?thesis using run set_filter_zip_map [of "\<lambda>c. dlt threshold (dabs prec c)" pairs g] by simp
qed

lemma represents_initial:
  assumes "finite S" shows "represents S (parent_of (map (\<lambda>s. (s, s)) symbols)) {}"
proof -
  have "map_of (map (\<lambda>s. (s, s)) symbols) s = (if s \<in> set symbols then Some s else None)" for s
    by (induction symbols) auto
  then have id: "parent_of (map (\<lambda>s. (s, s)) symbols) s = s" for s
    by (simp add: parent_of_def dict_get_def)
  have "same_root (parent_of (map (\<lambda>s. (s, s)) symbols)) a b \<longleftrightarrow> a = b" for a b
    by (rule same_root_iff) (rule root_of.here, rule id)+
  then show ?thesis using assms id by (simp add: represents_def forest_def connected_def)
qed

text \<open>
  C15. The clusters are the connected components of the threshold graph: for distinct symbols and a
  threshold in [0, 1] the union-find of \<open>correlation_components\<close> ends (the fuel suffices), its
  clusters cover exactly the symbols, and two symbols share a cluster if and only if a chain of
  pairs whose absolute correlation exceeds the threshold links them.
\<close>

theorem correlation_components_connected:
  assumes "distinct (stat_symbols st)" and "domain_decimal threshold" and "dle dzero threshold" and "dle threshold dunit"
  shows "\<exists>cs. correlation_components prec st threshold = Inr cs \<and> set (concat cs) = set (stat_symbols st) \<and>
    (\<forall>a \<in> set (stat_symbols st). \<forall>b \<in> set (stat_symbols st).
       (\<exists>c \<in> set cs. a \<in> set c \<and> b \<in> set c) \<longleftrightarrow> (a, b) \<in> connected (threshold_graph prec st threshold))"
proof -
  let ?sy = "stat_symbols st" and ?E = "threshold_graph prec st threshold"
  let ?S = "set ?sy" and ?n = "Suc (length ?sy)"
  obtain es where es: "correlated_pairs prec st threshold = Inr es" "set es = ?E"
    using correlated_pairs_Inr [OF assms(1)] by blast
  have sub: "set es \<subseteq> ?S \<times> ?S" unfolding es(2) by (auto simp: threshold_graph_def)
  have fuel: "\<forall>s \<in> ?S. below ?S s < ?n"
    by (auto simp: below_def less_Suc_eq_le intro!: card_mono [THEN order_trans, OF _ _ card_length])
  obtain d where d: "uf_unions ?n es (map (\<lambda>s. (s, s)) ?sy) = Some d" "represents ?S (parent_of d) ?E"
    using uf_unions_correct [OF represents_initial sub fuel] es(2) by auto
  define rt where "rt s = (THE r. root_of (parent_of d) s r)" for s
  have f: "forest ?S (parent_of d)" using d(2) by (simp add: represents_def)
  have rt: "\<forall>s \<in> ?S. root_of (parent_of d) s (rt s)"
    unfolding rt_def using root_of_exists [OF f] root_of_unique by (metis theI)
  let ?g = "fold (\<lambda>s. dict_append (rt s) s) ?sy []"
  have groups: "uf_groups ?n ?sy d [] = Some ?g" by (rule uf_groups_correct [OF f rt _ fuel]) simp
  let ?cs = "sort_key hd (map snd ?g)"
  have "correlation_components prec st threshold = Inr ?cs"
    using assms(2-4) by (simp add: correlation_components_def policy_guard_decimal_def Let_def es(1) d(1) groups)
  moreover have cover: "set (concat ?cs) = ?S" using set_concat_grouped [of "[]" rt ?sy] by simp
  moreover have "(\<exists>c \<in> set ?cs. a \<in> set c \<and> b \<in> set c) \<longleftrightarrow> (a, b) \<in> connected ?E" if ab: "a \<in> ?S" "b \<in> ?S" for a b
  proof -
    have "(a, b) \<in> connected ?E \<longleftrightarrow> rt a = rt b"
      using d(2) ab same_root_iff [OF bspec [OF rt ab(1)] bspec [OF rt ab(2)]] by (simp add: represents_def)
    moreover have "rt a = rt b" if "c \<in> set ?cs" "a \<in> set c" "b \<in> set c" for c
    proof -
      have "c \<in> set (map snd ?g)" using that(1) by (simp only: set_sort)
      then obtain k where "c = filter (\<lambda>s. rt s = k) ?sy" using grouped_classes by blast
      then show ?thesis using that(2,3) by simp
    qed
    moreover have "\<exists>c \<in> set ?cs. a \<in> set c \<and> b \<in> set c" if "rt a = rt b"
    proof -
      have "a \<in> set (concat ?cs)" using cover ab(1) by (simp only:)
      then obtain c where c: "c \<in> set ?cs" "a \<in> set c" unfolding set_concat by blast
      then have "c \<in> set (map snd ?g)" by (simp only: set_sort)
      then obtain k where "c = filter (\<lambda>s. rt s = k) ?sy" using grouped_classes by blast
      then show ?thesis using c that ab(2) by (intro bexI [of _ c]) auto
    qed
    ultimately show ?thesis by blast
  qed
  ultimately show ?thesis by blast
qed

theorem correlation_components_connected_witness:
  "\<exists>cs. correlation_components 50 sample_statistics (Dec 7 (- 1)) = Inr cs \<and> set (concat cs) = {''QQQ'', ''SPY''}"
proof -
  have "distinct (stat_symbols sample_statistics)" "domain_decimal (Dec 7 (- 1))" "dle dzero (Dec 7 (- 1))"
      "dle (Dec 7 (- 1)) dunit" by code_simp+
  then show ?thesis
    using correlation_components_connected [of sample_statistics "Dec 7 (- 1)" 50]
    by (auto simp: sample_statistics_def)
qed

end
