(* ===== verification/Order_State.thy ===== *)
theory Order_State
  imports Prelude
begin

text \<open>
  The closed enumerations of \<open>execution/models.py\<close> and the order-state graph of
  \<open>execution/state_machine.py\<close>. The graph is modelled as the code's adjacency table; the step
  relation it induces is an inductive predicate, and the properties are about its paths: terminal
  states are exactly the stuck ones, every state can be driven to a terminal one, and no broker
  state is reached without the intent and the submission attempt having been recorded first.
\<close>

section \<open>Enumerations\<close>

datatype OrderSide = BUY | SELL

datatype PositionEffect =
    OPEN_LONG | INCREASE_LONG | REDUCE_LONG | CLOSE_LONG
  | OPEN_SHORT | INCREASE_SHORT | REDUCE_SHORT | CLOSE_SHORT
  | FORCED_FLAT_LONG | FORCED_FLAT_SHORT

definition opens_exposure :: "PositionEffect \<Rightarrow> bool" where
  "opens_exposure e \<longleftrightarrow> e \<in> {OPEN_LONG, INCREASE_LONG, OPEN_SHORT, INCREASE_SHORT}"

definition reduces_exposure :: "PositionEffect \<Rightarrow> bool" where
  "reduces_exposure e \<longleftrightarrow> \<not> opens_exposure e"

datatype IntentPhase = EXIT | ENTRY | FLATTEN

fun client_id_code :: "IntentPhase \<Rightarrow> string" where
  "client_id_code EXIT = ''x''"
| "client_id_code ENTRY = ''e''"
| "client_id_code FLATTEN = ''f''"

datatype OrderState =
    PLANNED | INTENT_COMMITTED | SUBMISSION_STARTED | SUBMITTED | ACCEPTED | PENDING
  | PARTIALLY_FILLED | FILLED | CANCEL_REQUESTED | CANCELED | REJECTED | EXPIRED
  | SUBMISSION_UNKNOWN | RECONCILIATION_REQUIRED

definition terminal :: "OrderState \<Rightarrow> bool" where
  "terminal s \<longleftrightarrow> s \<in> {FILLED, CANCELED, REJECTED, EXPIRED}"

definition ambiguous :: "OrderState \<Rightarrow> bool" where
  "ambiguous s \<longleftrightarrow> s \<in> {SUBMISSION_UNKNOWN, RECONCILIATION_REQUIRED}"

text \<open>The \<open>StrEnum\<close> values, as they enter hashes and messages.\<close>

fun side_value :: "OrderSide \<Rightarrow> string" where
  "side_value BUY = ''BUY''"
| "side_value SELL = ''SELL''"

fun effect_value :: "PositionEffect \<Rightarrow> string" where
  "effect_value OPEN_LONG = ''OPEN_LONG''"
| "effect_value INCREASE_LONG = ''INCREASE_LONG''"
| "effect_value REDUCE_LONG = ''REDUCE_LONG''"
| "effect_value CLOSE_LONG = ''CLOSE_LONG''"
| "effect_value OPEN_SHORT = ''OPEN_SHORT''"
| "effect_value INCREASE_SHORT = ''INCREASE_SHORT''"
| "effect_value REDUCE_SHORT = ''REDUCE_SHORT''"
| "effect_value CLOSE_SHORT = ''CLOSE_SHORT''"
| "effect_value FORCED_FLAT_LONG = ''FORCED_FLAT_LONG''"
| "effect_value FORCED_FLAT_SHORT = ''FORCED_FLAT_SHORT''"

fun phase_value :: "IntentPhase \<Rightarrow> string" where
  "phase_value EXIT = ''EXIT''"
| "phase_value ENTRY = ''ENTRY''"
| "phase_value FLATTEN = ''FLATTEN''"

fun state_value :: "OrderState \<Rightarrow> string" where
  "state_value PLANNED = ''PLANNED''"
| "state_value INTENT_COMMITTED = ''INTENT_COMMITTED''"
| "state_value SUBMISSION_STARTED = ''SUBMISSION_STARTED''"
| "state_value SUBMITTED = ''SUBMITTED''"
| "state_value ACCEPTED = ''ACCEPTED''"
| "state_value PENDING = ''PENDING''"
| "state_value PARTIALLY_FILLED = ''PARTIALLY_FILLED''"
| "state_value FILLED = ''FILLED''"
| "state_value CANCEL_REQUESTED = ''CANCEL_REQUESTED''"
| "state_value CANCELED = ''CANCELED''"
| "state_value REJECTED = ''REJECTED''"
| "state_value EXPIRED = ''EXPIRED''"
| "state_value SUBMISSION_UNKNOWN = ''SUBMISSION_UNKNOWN''"
| "state_value RECONCILIATION_REQUIRED = ''RECONCILIATION_REQUIRED''"

section \<open>The transition table\<close>

fun TRANSITIONS :: "OrderState \<Rightarrow> OrderState set" where
  "TRANSITIONS PLANNED = {INTENT_COMMITTED}"
| "TRANSITIONS INTENT_COMMITTED = {SUBMISSION_STARTED}"
| "TRANSITIONS SUBMISSION_STARTED =
     {SUBMITTED, ACCEPTED, PENDING, PARTIALLY_FILLED, FILLED, CANCELED, REJECTED, EXPIRED,
      SUBMISSION_UNKNOWN, RECONCILIATION_REQUIRED}"
| "TRANSITIONS SUBMITTED =
     {ACCEPTED, PENDING, PARTIALLY_FILLED, FILLED, CANCEL_REQUESTED, CANCELED, REJECTED, EXPIRED,
      RECONCILIATION_REQUIRED}"
| "TRANSITIONS ACCEPTED =
     {PENDING, PARTIALLY_FILLED, FILLED, CANCEL_REQUESTED, CANCELED, REJECTED, EXPIRED,
      RECONCILIATION_REQUIRED}"
| "TRANSITIONS PENDING =
     {PARTIALLY_FILLED, FILLED, CANCEL_REQUESTED, CANCELED, REJECTED, EXPIRED,
      RECONCILIATION_REQUIRED}"
| "TRANSITIONS PARTIALLY_FILLED =
     {PARTIALLY_FILLED, FILLED, CANCEL_REQUESTED, CANCELED, EXPIRED, RECONCILIATION_REQUIRED}"
| "TRANSITIONS CANCEL_REQUESTED = {PARTIALLY_FILLED, FILLED, CANCELED, RECONCILIATION_REQUIRED}"
| "TRANSITIONS SUBMISSION_UNKNOWN =
     {SUBMITTED, ACCEPTED, PENDING, PARTIALLY_FILLED, FILLED, CANCELED, REJECTED, EXPIRED,
      RECONCILIATION_REQUIRED}"
| "TRANSITIONS RECONCILIATION_REQUIRED =
     {SUBMITTED, ACCEPTED, PENDING, PARTIALLY_FILLED, FILLED, CANCELED, REJECTED, EXPIRED}"
| "TRANSITIONS FILLED = {}"
| "TRANSITIONS CANCELED = {}"
| "TRANSITIONS REJECTED = {}"
| "TRANSITIONS EXPIRED = {}"

definition validate_order_transition :: "OrderState \<Rightarrow> OrderState \<Rightarrow> unit res" where
  "validate_order_transition previous current =
     (if current \<notin> TRANSITIONS previous
      then Inl (ExecutionValidationError (''order transition '' @ state_value previous @ '' to '' @
        state_value current @ '' is not permitted''))
      else Inr ())"

definition transition_is_permitted :: "OrderState \<Rightarrow> OrderState \<Rightarrow> bool" where
  "transition_is_permitted previous current \<longleftrightarrow> current \<in> TRANSITIONS previous"

lemma validate_order_transition_iff [guard_simps]:
  "validate_order_transition s t = Inr u \<longleftrightarrow> transition_is_permitted s t"
  by (simp add: validate_order_transition_def transition_is_permitted_def)

section \<open>Paths\<close>

text \<open>\<open>order_path s ss\<close>: the code can move an order through the states \<open>ss\<close>, starting in \<open>s\<close>.\<close>

inductive order_path :: "OrderState \<Rightarrow> OrderState list \<Rightarrow> bool" where
  stop: "order_path s []"
| move: "transition_is_permitted s t \<Longrightarrow> order_path t ss \<Longrightarrow> order_path s (t # ss)"

inductive_simps order_path_simps [simp]: "order_path s []" "order_path s (t # ss)"

lemma order_path_append: "order_path s (ss @ ts) \<longleftrightarrow> order_path s ss \<and> order_path (last (s # ss)) ts"
  by (induction ss arbitrary: s) auto

lemma terminal_iff_stuck: "terminal s \<longleftrightarrow> (\<forall>t. \<not> transition_is_permitted s t)"
  by (cases s) (auto simp: terminal_def transition_is_permitted_def)

lemma terminal_path: "terminal s \<Longrightarrow> order_path s ss \<longleftrightarrow> ss = []"
  by (cases ss) (auto simp: terminal_iff_stuck)

text \<open>A permitted next state on the shortest way to a terminal one.\<close>

lemma nonterminal_progress: "\<not> terminal s \<Longrightarrow> \<exists>ss. order_path s ss \<and> terminal (last (s # ss)) \<and> length ss \<le> 3"
proof (cases s)
  case PLANNED
  then show ?thesis
    by (intro exI [of _ "[INTENT_COMMITTED, SUBMISSION_STARTED, FILLED]"])
      (simp add: transition_is_permitted_def terminal_def)
next
  case INTENT_COMMITTED
  then show ?thesis
    by (intro exI [of _ "[SUBMISSION_STARTED, FILLED]"])
      (simp add: transition_is_permitted_def terminal_def)
qed (auto simp: transition_is_permitted_def terminal_def intro!: exI [of _ "[FILLED]"])

lemma into_intent_committed: "transition_is_permitted s INTENT_COMMITTED \<Longrightarrow> s = PLANNED"
  by (cases s) (auto simp: transition_is_permitted_def)

lemma into_submission_started: "transition_is_permitted s SUBMISSION_STARTED \<Longrightarrow> s = INTENT_COMMITTED"
  by (cases s) (auto simp: transition_is_permitted_def)

text \<open>Nothing returns to the states that precede the broker.\<close>

definition before_broker :: "OrderState \<Rightarrow> bool" where
  "before_broker s \<longleftrightarrow> s \<in> {PLANNED, INTENT_COMMITTED, SUBMISSION_STARTED}"

lemma after_broker_step: "\<not> before_broker s \<Longrightarrow> transition_is_permitted s t \<Longrightarrow> \<not> before_broker t"
  by (cases s) (auto simp: before_broker_def transition_is_permitted_def)

lemma after_broker_path: "order_path s ss \<Longrightarrow> \<not> before_broker s \<Longrightarrow> t \<in> set ss \<Longrightarrow> \<not> before_broker t"
proof (induction rule: order_path.induct)
  case (stop s)
  then show ?case by simp
next
  case (move s u ss)
  then show ?case using after_broker_step by auto
qed

text \<open>
  C40. A state admits no further transition exactly when the code calls it terminal, and from
  every other state the graph leads to a terminal one in at most three steps: no order can be
  stranded in a non-terminal state by the table itself.
\<close>

theorem order_graph_terminates_in_terminal_states:
  "(terminal s \<longleftrightarrow> (\<forall>t. \<not> transition_is_permitted s t)) \<and>
   (\<exists>ss. order_path s ss \<and> terminal (last (s # ss)) \<and> length ss \<le> 3)"
proof (cases "terminal s")
  case True
  then show ?thesis using terminal_iff_stuck by (intro conjI exI [of _ "[]"]) simp_all
next
  case False
  then show ?thesis using terminal_iff_stuck nonterminal_progress by blast
qed

text \<open>
  C20. Write-ahead order: a path that starts at \<open>PLANNED\<close> and leaves the three states that precede
  the broker first records the committed intent and then the started submission, exactly once
  each and before anything else, and never returns to them.
\<close>

theorem broker_states_follow_recorded_intent:
  assumes "order_path PLANNED ss" and "t \<in> set ss" and "\<not> before_broker t"
  shows "\<exists>rest. ss = INTENT_COMMITTED # SUBMISSION_STARTED # rest \<and> t \<in> set rest \<and>
    (\<forall>u \<in> set rest. \<not> before_broker u)"
proof -
  obtain ss' where ss: "ss = INTENT_COMMITTED # ss'" "order_path INTENT_COMMITTED ss'"
    using assms by (cases ss) (auto simp: transition_is_permitted_def before_broker_def)
  moreover obtain rest where rest: "ss' = SUBMISSION_STARTED # rest" "order_path SUBMISSION_STARTED rest"
    using ss assms(2,3) by (cases ss') (auto simp: transition_is_permitted_def before_broker_def)
  moreover have "t \<in> set rest" using ss rest assms(2,3) by (auto simp: before_broker_def)
  moreover have "\<forall>u \<in> set rest. \<not> before_broker u"
  proof (cases rest)
    case (Cons u us)
    with rest have "\<not> before_broker u" "order_path u us"
      by (auto simp: transition_is_permitted_def before_broker_def)
    then show ?thesis using Cons after_broker_path by auto
  qed simp
  ultimately show ?thesis by blast
qed

theorem broker_states_follow_recorded_intent_witness:
  "\<exists>rest. [INTENT_COMMITTED, SUBMISSION_STARTED, SUBMISSION_UNKNOWN, FILLED] =
     INTENT_COMMITTED # SUBMISSION_STARTED # rest \<and> FILLED \<in> set rest \<and>
     (\<forall>u \<in> set rest. \<not> before_broker u)"
  using broker_states_follow_recorded_intent
    [of "[INTENT_COMMITTED, SUBMISSION_STARTED, SUBMISSION_UNKNOWN, FILLED]" FILLED]
  by (simp add: transition_is_permitted_def before_broker_def)

end
