(* ===== verification/Execution_Models.thy ===== *)
theory Execution_Models
  imports Canonical Order_State "HOL-Library.Product_Lexorder"
begin

text \<open>
  The first part of the immutable records of \<open>execution/models.py\<close>: the shared validation helpers,
  positions, execution plans and order intents (broker orders, order events and fills are in
  \<open>Broker_Orders\<close>, account states, receipts and incidents in \<open>Receipts\<close>). Each dataclass is a record; its \<open>__post_init__\<close> is a \<open>validate_*\<close> function that returns the
  record or the first error; \<open>create\<close> computes identity and hash and then validates, as the
  generated constructor does. A \<open>create_*\<close> function takes the fields as a record whose computed
  components (identifier, hash and the like) are overwritten.
  Static types discharge the dynamic type tests of the source (\<open>type(x) is not T\<close>); instants are
  UTC microseconds.
\<close>

section \<open>Shared validation\<close>

abbreviation exec_error :: "string \<Rightarrow> error" where
  "exec_error \<equiv> ExecutionValidationError"

definition guard_symbol :: "string \<Rightarrow> bool \<times> error" where
  "guard_symbol s = (\<not> is_symbol s, exec_error ''symbol is invalid'')"

definition guard_hash :: "string \<Rightarrow> string \<Rightarrow> bool \<times> error" where
  "guard_hash s field = (\<not> is_hash s, exec_error (field @ '' is invalid''))"

definition guard_identifier :: "string \<Rightarrow> string \<Rightarrow> bool \<times> error" where
  "guard_identifier s field = (\<not> is_identifier s, exec_error (field @ '' is invalid''))"

definition guard_safe_code :: "string \<Rightarrow> bool \<times> error" where
  "guard_safe_code s = (\<not> is_safe_code s, exec_error ''safe error or reason code is invalid'')"

definition guard_content_id :: "string \<Rightarrow> string \<Rightarrow> bool \<times> error" where
  "guard_content_id s prefix =
     (\<not> (is_content_id s \<and> starts_with (prefix @ ''_'') s), exec_error (prefix @ '' ID is invalid''))"

definition guard_decimal :: "decimal \<Rightarrow> string \<Rightarrow> bool \<times> error" where
  "guard_decimal d field = (\<not> domain_decimal d, exec_error (field @ '' must be a finite Decimal''))"

definition guards_positive_decimal :: "decimal \<Rightarrow> string \<Rightarrow> (bool \<times> error) list" where
  "guards_positive_decimal d field =
     [guard_decimal d field, (dle d dzero, exec_error (field @ '' must be positive''))]"

definition guards_nonnegative_decimal :: "decimal \<Rightarrow> string \<Rightarrow> (bool \<times> error) list" where
  "guards_nonnegative_decimal d field =
     [guard_decimal d field, (dlt d dzero, exec_error (field @ '' cannot be negative''))]"

text \<open>
  \<open>^aqa-[0-9a-f]{5}-[0-9a-f]{5}-[A-Z][A-Z0-9.]{0,9}-[xef]-[0-9a-f]{2}-[0-9]{1,6}-[0-9a-f]{6}$\<close>: no
  class of the pattern contains a hyphen, so a match is a match of the eight fields.
\<close>

definition matches_client_order_id :: "string \<Rightarrow> bool" where
  "matches_client_order_id s =
     (case split_on CHR ''-'' s of
        [a, e, r, sb, ph, sq, ver, tgt] \<Rightarrow>
          a = ''aqa'' \<and> length e = 5 \<and> list_all is_hex e \<and> length r = 5 \<and> list_all is_hex r \<and>
          is_symbol sb \<and> ph \<in> {''x'', ''e'', ''f''} \<and> length sq = 2 \<and> list_all is_hex sq \<and>
          1 \<le> length ver \<and> length ver \<le> 6 \<and> list_all is_digit ver \<and>
          length tgt = 6 \<and> list_all is_hex tgt
      | _ \<Rightarrow> False)"

definition is_client_order_id :: "string \<Rightarrow> bool" where
  "is_client_order_id s \<longleftrightarrow> length s \<le> 48 \<and> matches_client_order_id s"

definition guard_client_order_id :: "string \<Rightarrow> bool \<times> error" where
  "guard_client_order_id s = (\<not> is_client_order_id s, exec_error ''client order ID is invalid'')"

definition guards_optional :: "('a \<Rightarrow> bool \<times> error) \<Rightarrow> 'a option \<Rightarrow> (bool \<times> error) list" where
  "guards_optional g x = (case x of None \<Rightarrow> [] | Some v \<Rightarrow> [g v])"

lemmas guard_defs =
  guard_symbol_def guard_hash_def guard_identifier_def guard_safe_code_def guard_content_id_def
  guard_decimal_def guards_positive_decimal_def guards_nonnegative_decimal_def
  guard_client_order_id_def

lemma guards_optional_ok [simp]:
  "guards_ok (guards_optional g x) \<longleftrightarrow> (\<forall>v. x = Some v \<longrightarrow> \<not> fst (g v))"
  by (cases x) (simp_all add: guards_optional_def)

text \<open>\<open>_identifier_digest\<close>: the hash an identifier ends in, or the hash of the identifier.\<close>

definition identifier_digest :: "sha256 \<Rightarrow> string \<Rightarrow> string res" where
  "identifier_digest sha value =
     guarded [guard_identifier value ''identity'']
       (if CHR ''_'' \<in> set value \<and> is_hash (last (split_on CHR ''_'' value))
        then Inr (last (split_on CHR ''_'' value))
        else sha256_hex sha (PSeq [PStr ''execution-identifier-v1'', PStr value]))"

definition quantities_match :: "decimal \<Rightarrow> decimal \<Rightarrow> bool" where
  "quantities_match left right = dle (dabs 28 (dsub 28 left right)) (Dec 1 (- 6))"

section \<open>Positions\<close>

record Position =
  pos_symbol :: string
  pos_quantity :: decimal

definition validate_position :: "Position \<Rightarrow> Position res" where
  "validate_position p =
     guarded [guard_symbol (pos_symbol p), guard_decimal (pos_quantity p) ''position quantity'']
       (Inr p)"

text \<open>Equality of the dataclass: decimals compare by value.\<close>

definition position_eq :: "Position \<Rightarrow> Position \<Rightarrow> bool" where
  "position_eq p q \<longleftrightarrow> pos_symbol p = pos_symbol q \<and> deq (pos_quantity p) (pos_quantity q)"

definition price_eq :: "string \<times> decimal \<Rightarrow> string \<times> decimal \<Rightarrow> bool" where
  "price_eq p q \<longleftrightarrow> fst p = fst q \<and> deq (snd p) (snd q)"

definition guards_positions :: "Position list \<Rightarrow> bool \<Rightarrow> (bool \<times> error) list" where
  "guards_positions ps allow_empty =
     [(map pos_symbol ps \<noteq> sorted_set (map pos_symbol ps),
        exec_error ''positions must be unique and alphabetically ordered''),
      (\<not> allow_empty \<and> ps = [], exec_error ''positions cannot be empty'')]"

definition guards_prices :: "(string \<times> decimal) list \<Rightarrow> string \<Rightarrow> string \<Rightarrow> (bool \<times> error) list" where
  "guards_prices prices field order_message =
     concat (map (\<lambda>(s, p). guard_symbol s # guards_positive_decimal p field) prices) @
     [(map fst prices \<noteq> sorted_set (map fst prices), exec_error order_message)]"

definition pval_positions :: "Position list \<Rightarrow> pval" where
  "pval_positions ps = PSeq (map (\<lambda>p. PSeq [PStr (pos_symbol p), PDec (pos_quantity p)]) ps)"

definition pval_prices :: "(string \<times> decimal) list \<Rightarrow> pval" where
  "pval_prices ps = PSeq (map (\<lambda>(s, p). PSeq [PStr s, PDec p]) ps)"

definition pval_opt :: "('a \<Rightarrow> pval) \<Rightarrow> 'a option \<Rightarrow> pval" where
  "pval_opt f x = (case x of None \<Rightarrow> PNone | Some v \<Rightarrow> f v)"

section \<open>Execution plans\<close>

record ExecutionPlan =
  execution_plan_id :: string
  plan_risk_decision_id :: string
  plan_risk_decision_hash :: string
  plan_experiment_hash :: string
  plan_correlation_id :: string
  plan_target_version :: int
  plan_forced_flat :: bool
  plan_target_quantities :: "Position list"
  plan_current_positions :: "Position list"
  plan_reference_prices :: "(string \<times> decimal) list"
  plan_equity :: decimal
  plan_created_at :: int
  plan_deadline_at :: int
  plan_content_hash :: string

definition execution_plan_digest :: "sha256 \<Rightarrow> ExecutionPlan \<Rightarrow> string res" where
  "execution_plan_digest sha p = sha256_hex sha (PMap
     [(''correlation_id'', PStr (plan_correlation_id p)),
      (''current_positions'', pval_positions (plan_current_positions p)),
      (''created_at'', PTime (plan_created_at p)),
      (''deadline_at'', PTime (plan_deadline_at p)),
      (''equity'', PDec (plan_equity p)),
      (''experiment_hash'', PStr (plan_experiment_hash p)),
      (''forced_flat'', PBool (plan_forced_flat p)),
      (''risk_decision_hash'', PStr (plan_risk_decision_hash p)),
      (''risk_decision_id'', PStr (plan_risk_decision_id p)),
      (''reference_prices'', pval_prices (plan_reference_prices p)),
      (''schema'', PStr ''execution-plan-v2''),
      (''target_quantities'', pval_positions (plan_target_quantities p)),
      (''target_version'', PInt (plan_target_version p))])"

definition plan_guards :: "ExecutionPlan \<Rightarrow> (bool \<times> error) list" where
  "plan_guards p =
     [guard_content_id (execution_plan_id p) ''execution'',
      guard_identifier (plan_risk_decision_id p) ''risk decision ID'',
      guard_hash (plan_risk_decision_hash p) ''risk decision hash'',
      guard_hash (plan_experiment_hash p) ''experiment hash'',
      guard_identifier (plan_correlation_id p) ''correlation ID'',
      (\<not> (1 \<le> plan_target_version p \<and> plan_target_version p \<le> 999999),
        exec_error ''target version must be between one and 999999'')] @
     guards_positions (plan_target_quantities p) False @
     guards_positions (plan_current_positions p) False @
     guards_prices (plan_reference_prices p) ''reference price''
       ''reference prices must be unique and alphabetically ordered'' @
     [(map pos_symbol (plan_current_positions p) \<noteq> map pos_symbol (plan_target_quantities p),
        exec_error ''plan current positions do not match target symbols''),
      (map fst (plan_reference_prices p) \<noteq> map pos_symbol (plan_target_quantities p),
        exec_error ''plan reference prices do not match target symbols'')] @
     guards_positive_decimal (plan_equity p) ''planning equity'' @
     [(plan_created_at p \<ge> plan_deadline_at p,
        exec_error ''execution plan deadline must follow creation'')]"

definition validate_plan :: "sha256 \<Rightarrow> ExecutionPlan \<Rightarrow> ExecutionPlan res" where
  "validate_plan sha p =
     guarded (plan_guards p)
       (bindE (execution_plan_digest sha p) (\<lambda>expected.
         guarded [(plan_content_hash p \<noteq> expected \<or> execution_plan_id p \<noteq> ''execution_'' @ expected,
           exec_error ''execution plan identity or hash is invalid'')] (Inr p)))"

definition create_plan :: "sha256 \<Rightarrow> ExecutionPlan \<Rightarrow> ExecutionPlan res" where
  "create_plan sha p =
     bindE (execution_plan_digest sha p) (\<lambda>digest.
     bindE (deterministic_id ''execution'' digest) (\<lambda>pid.
       validate_plan sha (p\<lparr>execution_plan_id := pid, plan_content_hash := digest\<rparr>)))"

section \<open>Order intents\<close>

record OrderIntent =
  order_intent_id :: string
  intent_execution_plan_id :: string
  intent_risk_decision_id :: string
  intent_experiment_hash :: string
  intent_correlation_id :: string
  intent_client_order_id :: string
  intent_symbol :: string
  intent_side :: OrderSide
  intent_position_effect :: PositionEffect
  intent_phase :: IntentPhase
  intent_sequence :: int
  intent_target_version :: int
  intent_quantity :: decimal
  intent_notional :: decimal
  intent_reference_price :: decimal
  intent_final_target_quantity :: decimal
  intent_forced_flat :: bool
  intent_created_at :: int
  intent_deadline_at :: int
  intent_target_hash :: string
  intent_content_hash :: string

fun expected_side_phase :: "PositionEffect \<Rightarrow> OrderSide \<times> IntentPhase" where
  "expected_side_phase OPEN_LONG = (BUY, ENTRY)"
| "expected_side_phase INCREASE_LONG = (BUY, ENTRY)"
| "expected_side_phase REDUCE_LONG = (SELL, EXIT)"
| "expected_side_phase CLOSE_LONG = (SELL, EXIT)"
| "expected_side_phase OPEN_SHORT = (SELL, ENTRY)"
| "expected_side_phase INCREASE_SHORT = (SELL, ENTRY)"
| "expected_side_phase REDUCE_SHORT = (BUY, EXIT)"
| "expected_side_phase CLOSE_SHORT = (BUY, EXIT)"
| "expected_side_phase FORCED_FLAT_LONG = (SELL, FLATTEN)"
| "expected_side_phase FORCED_FLAT_SHORT = (BUY, FLATTEN)"

definition effect_guards :: "OrderIntent \<Rightarrow> (bool \<times> error) list" where
  "effect_guards i =
     [((intent_side i, intent_phase i) \<noteq> expected_side_phase (intent_position_effect i),
        exec_error ''side or phase disagrees with position effect''),
      (intent_phase i = FLATTEN \<and> \<not> intent_forced_flat i,
        exec_error ''flatten intent requires forced-flat authority''),
      (intent_forced_flat i \<and> intent_phase i \<noteq> FLATTEN,
        exec_error ''forced-flat plan can contain only flatten intents'')]"

definition intent_digest :: "sha256 \<Rightarrow> OrderIntent \<Rightarrow> string res" where
  "intent_digest sha i = sha256_hex sha (PMap
     [(''client_order_id'', PStr (intent_client_order_id i)),
      (''correlation_id'', PStr (intent_correlation_id i)),
      (''created_at'', PTime (intent_created_at i)),
      (''deadline_at'', PTime (intent_deadline_at i)),
      (''execution_plan_id'', PStr (intent_execution_plan_id i)),
      (''experiment_hash'', PStr (intent_experiment_hash i)),
      (''final_target_quantity'', PDec (intent_final_target_quantity i)),
      (''forced_flat'', PBool (intent_forced_flat i)),
      (''notional'', PDec (intent_notional i)),
      (''phase'', PEnum (phase_value (intent_phase i))),
      (''position_effect'', PEnum (effect_value (intent_position_effect i))),
      (''quantity'', PDec (intent_quantity i)),
      (''reference_price'', PDec (intent_reference_price i)),
      (''risk_decision_id'', PStr (intent_risk_decision_id i)),
      (''schema'', PStr ''order-intent-v1''),
      (''sequence'', PInt (intent_sequence i)),
      (''side'', PEnum (side_value (intent_side i))),
      (''symbol'', PStr (intent_symbol i)),
      (''target_hash'', PStr (intent_target_hash i)),
      (''target_version'', PInt (intent_target_version i))])"

definition intent_guards :: "OrderIntent \<Rightarrow> (bool \<times> error) list" where
  "intent_guards i =
     [guard_content_id (order_intent_id i) ''intent'',
      guard_content_id (intent_execution_plan_id i) ''execution'',
      guard_identifier (intent_risk_decision_id i) ''risk decision ID'',
      guard_hash (intent_experiment_hash i) ''experiment hash'',
      guard_identifier (intent_correlation_id i) ''correlation ID'',
      (\<not> is_client_order_id (intent_client_order_id i),
        exec_error ''client order ID violates the deterministic contract''),
      guard_symbol (intent_symbol i),
      (\<not> (0 \<le> intent_sequence i \<and> intent_sequence i < 16),
        exec_error ''intent sequence must be between zero and 15''),
      (\<not> (1 \<le> intent_target_version i \<and> intent_target_version i \<le> 999999),
        exec_error ''target version must be between one and 999999'')] @
     guards_positive_decimal (intent_quantity i) ''order quantity'' @
     guards_positive_decimal (intent_notional i) ''order notional'' @
     guards_positive_decimal (intent_reference_price i) ''reference price'' @
     [guard_decimal (intent_final_target_quantity i) ''final target quantity'',
      (\<not> deq (intent_notional i) (dmul 28 (intent_quantity i) (intent_reference_price i)),
        exec_error ''order notional must equal quantity times price''),
      (intent_created_at i \<ge> intent_deadline_at i, exec_error ''intent deadline must follow creation''),
      guard_hash (intent_target_hash i) ''target hash''] @
     effect_guards i"

definition validate_intent :: "sha256 \<Rightarrow> OrderIntent \<Rightarrow> OrderIntent res" where
  "validate_intent sha i =
     guarded (intent_guards i)
       (bindE (intent_digest sha i) (\<lambda>expected.
         guarded [(intent_content_hash i \<noteq> expected \<or> order_intent_id i \<noteq> ''intent_'' @ expected,
           exec_error ''order intent identity or hash is invalid'')] (Inr i)))"

fun hex_text :: "nat \<Rightarrow> string" where
  "hex_text n = (if n < 16 then [hex_char n] else hex_text (n div 16) @ [hex_char (n mod 16)])"

declare hex_text.simps [simp del]

text \<open>\<open>f"{n:02x}"\<close>.\<close>

definition format_02x :: "int \<Rightarrow> string" where
  "format_02x n =
     (if n < 0 then CHR ''-'' # hex_text (nat (- n))
      else (let s = hex_text (nat n) in replicate (2 - length s) CHR ''0'' @ s))"

definition make_client_order_id :: "OrderIntent \<Rightarrow> string \<Rightarrow> string" where
  "make_client_order_id i decision_digest =
     ''aqa-'' @ take 5 (intent_experiment_hash i) @ ''-'' @ take 5 decision_digest @ ''-'' @
     intent_symbol i @ ''-'' @ client_id_code (intent_phase i) @ ''-'' @
     format_02x (intent_sequence i) @ ''-'' @ int_text (intent_target_version i) @ ''-'' @
     take 6 (intent_target_hash i)"

text \<open>The dictionary of \<open>OrderIntent.create\<close>, in its insertion order, behind the schema tag.\<close>

definition intent_values_digest :: "sha256 \<Rightarrow> OrderIntent \<Rightarrow> string res" where
  "intent_values_digest sha i = sha256_hex sha (PMap
     [(''schema'', PStr ''order-intent-v1''),
      (''execution_plan_id'', PStr (intent_execution_plan_id i)),
      (''risk_decision_id'', PStr (intent_risk_decision_id i)),
      (''experiment_hash'', PStr (intent_experiment_hash i)),
      (''correlation_id'', PStr (intent_correlation_id i)),
      (''client_order_id'', PStr (intent_client_order_id i)),
      (''symbol'', PStr (intent_symbol i)),
      (''side'', PEnum (side_value (intent_side i))),
      (''position_effect'', PEnum (effect_value (intent_position_effect i))),
      (''phase'', PEnum (phase_value (intent_phase i))),
      (''sequence'', PInt (intent_sequence i)),
      (''target_version'', PInt (intent_target_version i)),
      (''quantity'', PDec (intent_quantity i)),
      (''notional'', PDec (intent_notional i)),
      (''reference_price'', PDec (intent_reference_price i)),
      (''final_target_quantity'', PDec (intent_final_target_quantity i)),
      (''forced_flat'', PBool (intent_forced_flat i)),
      (''created_at'', PTime (intent_created_at i)),
      (''deadline_at'', PTime (intent_deadline_at i)),
      (''target_hash'', PStr (intent_target_hash i))])"

definition create_intent :: "sha256 \<Rightarrow> OrderIntent \<Rightarrow> OrderIntent res" where
  "create_intent sha i =
     guarded [guard_hash (intent_experiment_hash i) ''experiment hash'',
              guard_hash (intent_target_hash i) ''target hash'']
     (bindE (identifier_digest sha (intent_risk_decision_id i)) (\<lambda>decision.
      let values = i\<lparr>intent_client_order_id := make_client_order_id i decision,
                     intent_notional := dmul 28 (intent_quantity i) (intent_reference_price i)\<rparr>
      in bindE (intent_values_digest sha values) (\<lambda>digest.
         bindE (deterministic_id ''intent'' digest) (\<lambda>iid.
           validate_intent sha (values\<lparr>order_intent_id := iid, intent_content_hash := digest\<rparr>)))))"


section \<open>Hashes of a record do not depend on the order of the keyword dictionary\<close>

lemma intent_values_digest_eq [simp]:
  "intent_values_digest sha i = Inr h \<longleftrightarrow> intent_digest sha i = Inr h"
  unfolding intent_values_digest_def intent_digest_def
  by (rule sha256_hex_keys) simp

section \<open>Client order identifiers\<close>

lemma is_hex_no_sep: "is_hex c \<Longrightarrow> c \<noteq> CHR ''-'' \<and> c \<noteq> CHR ''_''"
  by (auto simp: is_hex_def is_digit_def less_eq_char_def)

lemma is_digit_no_sep: "is_digit c \<Longrightarrow> c \<noteq> CHR ''-''"
  by (auto simp: is_digit_def less_eq_char_def)

lemma list_all_hex_no_hyphen: "list_all is_hex s \<Longrightarrow> CHR ''-'' \<notin> set s"
  using is_hex_no_sep by (fastforce simp: list_all_iff)

lemma is_symbol_no_hyphen: "is_symbol s \<Longrightarrow> CHR ''-'' \<notin> set s"
  by (cases s) (auto simp: is_symbol_def head_tail_def list_all_iff is_upper_def is_digit_def less_eq_char_def)

lemma hex_char_is_hex: "n < 16 \<Longrightarrow> is_hex (hex_char n)"
  by (auto simp: hex_char_def is_hex_def is_digit_def less_eq_char_def)

lemma format_02x_small:
  assumes "0 \<le> n" "n < 16"
  shows "format_02x n = [CHR ''0'', hex_char (nat n)]"
proof -
  have "nat n < 16" using assms by simp
  then show ?thesis using assms by (simp add: format_02x_def hex_text.simps)
qed

lemma hex_char_inj: "m < 16 \<Longrightarrow> n < 16 \<Longrightarrow> hex_char m = hex_char n \<Longrightarrow> m = n"
  by (auto simp: hex_char_def split: if_splits dest!: arg_cong [of "char_of _" _ "of_char :: char \<Rightarrow> nat"])

lemma int_text_version:
  assumes "1 \<le> n" "n \<le> 999999"
  shows "list_all is_digit (int_text n)" "1 \<le> length (int_text n)" "length (int_text n) \<le> 6"
    "CHR ''-'' \<notin> set (int_text n)"
proof -
  have v: "is_digits (nat_text n)" "nat_text n \<noteq> []" using nat_text_value [of n] assms by simp_all
  have "ndigits n \<le> 6" using assms by (simp add: ndigits_le_iff p10_def)
  then have "length (nat_text n) \<le> 6" using length_nat_text [of n] assms by simp
  moreover have "int_text n = nat_text n" using assms by (simp add: int_text_def)
  ultimately show "list_all is_digit (int_text n)" "1 \<le> length (int_text n)" "length (int_text n) \<le> 6"
      "CHR ''-'' \<notin> set (int_text n)"
    using v is_digits_no_dot [OF v(1)] by (auto simp: is_digits_def Suc_le_eq)
qed

lemma int_text_inj: "1 \<le> m \<Longrightarrow> 1 \<le> n \<Longrightarrow> int_text m = int_text n \<Longrightarrow> m = n"
proof -
  assume "1 \<le> m" "1 \<le> n" "int_text m = int_text n"
  then have "nat_text m = nat_text n" by (simp add: int_text_def)
  then have "digits_value (nat_text m) = digits_value (nat_text n)" by (rule arg_cong)
  then show "m = n" using nat_text_value [of m] nat_text_value [of n] \<open>1 \<le> m\<close> \<open>1 \<le> n\<close> by linarith
qed

text \<open>What \<open>create\<close> and its callers establish about the parts of the identifier.\<close>

definition client_id_inputs :: "OrderIntent \<Rightarrow> string \<Rightarrow> bool" where
  "client_id_inputs i d \<longleftrightarrow> is_hash (intent_experiment_hash i) \<and> is_hash d \<and>
     is_hash (intent_target_hash i) \<and> is_symbol (intent_symbol i) \<and>
     0 \<le> intent_sequence i \<and> intent_sequence i < 16 \<and>
     1 \<le> intent_target_version i \<and> intent_target_version i \<le> 999999"

lemma is_hash_take: "is_hash h \<Longrightarrow> n \<le> 64 \<Longrightarrow> length (take n h) = n \<and> list_all is_hex (take n h)"
  by (auto simp: is_hash_def list_all_iff dest: in_set_takeD)

lemma split_client_order_id:
  assumes "client_id_inputs i d"
  shows "split_on CHR ''-'' (make_client_order_id i d) =
    [''aqa'', take 5 (intent_experiment_hash i), take 5 d, intent_symbol i, client_id_code (intent_phase i),
     [CHR ''0'', hex_char (nat (intent_sequence i))], int_text (intent_target_version i),
     take 6 (intent_target_hash i)]"
proof -
  have h: "CHR ''-'' \<notin> set (take 5 (intent_experiment_hash i))" "CHR ''-'' \<notin> set (take 5 d)"
      "CHR ''-'' \<notin> set (take 6 (intent_target_hash i))"
    using assms is_hash_take list_all_hex_no_hyphen by (auto simp: client_id_inputs_def)
  have s: "CHR ''-'' \<notin> set (intent_symbol i)" "CHR ''-'' \<notin> set (int_text (intent_target_version i))"
    using assms is_symbol_no_hyphen int_text_version(4) by (auto simp: client_id_inputs_def)
  have p: "CHR ''-'' \<notin> set (client_id_code (intent_phase i))" by (cases "intent_phase i") auto
  have "nat (intent_sequence i) < 16" using assms by (auto simp: client_id_inputs_def)
  then have q: "hex_char (nat (intent_sequence i)) \<noteq> CHR ''-''"
    using hex_char_is_hex is_hex_no_sep by blast
  have f: "format_02x (intent_sequence i) = [CHR ''0'', hex_char (nat (intent_sequence i))]"
    using assms by (simp add: client_id_inputs_def format_02x_small)
  show ?thesis using h s p q
    by (simp add: make_client_order_id_def f split_on_append split_on_none)
qed

text \<open>
  C38. The client order identifier that \<open>OrderIntent.create\<close> derives always satisfies the
  deterministic contract that the constructor checks (its pattern and its bound of 48
  characters); it is at most 45 characters long.
\<close>

theorem derived_client_order_id_valid:
  assumes "client_id_inputs i d"
  shows "is_client_order_id (make_client_order_id i d) \<and> length (make_client_order_id i d) \<le> 45"
proof -
  note parts = assms [unfolded client_id_inputs_def]
  have h: "length (take 5 (intent_experiment_hash i)) = 5" "list_all is_hex (take 5 (intent_experiment_hash i))"
      "length (take 5 d) = 5" "list_all is_hex (take 5 d)"
      "length (take 6 (intent_target_hash i)) = 6" "list_all is_hex (take 6 (intent_target_hash i))"
    using parts is_hash_take by auto
  have q: "is_hex (hex_char (nat (intent_sequence i)))"
    by (rule hex_char_is_hex) (use parts in auto)
  have z: "is_hex CHR ''0''" by (simp add: is_hex_def is_digit_def)
  have v: "list_all is_digit (int_text (intent_target_version i))"
      "1 \<le> length (int_text (intent_target_version i))" "length (int_text (intent_target_version i)) \<le> 6"
    using parts int_text_version by auto
  have c: "client_id_code (intent_phase i) \<in> {''x'', ''e'', ''f''}" by (cases "intent_phase i") auto
  have "matches_client_order_id (make_client_order_id i d)"
    unfolding matches_client_order_id_def split_client_order_id [OF assms] using parts h q z v c by simp
  moreover have "length (intent_symbol i) \<le> 10"
    using parts by (cases "intent_symbol i") (auto simp: is_symbol_def head_tail_def)
  moreover have "length (client_id_code (intent_phase i)) = 1" by (cases "intent_phase i") auto
  moreover have "length (format_02x (intent_sequence i)) = 2" using parts by (simp add: format_02x_small)
  ultimately show ?thesis using h v
    by (simp add: is_client_order_id_def make_client_order_id_def)
qed

text \<open>A concrete intent for the witnesses below.\<close>

definition sample_intent :: "OrderSide \<Rightarrow> PositionEffect \<Rightarrow> IntentPhase \<Rightarrow> int \<Rightarrow> OrderIntent" where
  "sample_intent sd eff ph sq = \<lparr>order_intent_id = '''', intent_execution_plan_id = ''execution_'' @ sample_hash,
     intent_risk_decision_id = ''risk_'' @ sample_hash, intent_experiment_hash = sample_hash,
     intent_correlation_id = ''corr-1'', intent_client_order_id = '''', intent_symbol = ''SPY'',
     intent_side = sd, intent_position_effect = eff, intent_phase = ph, intent_sequence = sq,
     intent_target_version = 7, intent_quantity = Dec 10 0, intent_notional = dzero,
     intent_reference_price = Dec 45025 (- 2), intent_final_target_quantity = Dec 10 0,
     intent_forced_flat = False, intent_created_at = 1000000, intent_deadline_at = 2000000,
     intent_target_hash = sample_hash, intent_content_hash = ''''\<rparr>"

lemma sample_client_id_inputs:
  "0 \<le> sq \<Longrightarrow> sq < 16 \<Longrightarrow> client_id_inputs (sample_intent sd eff ph sq) sample_hash"
  by (simp add: client_id_inputs_def sample_intent_def is_symbol_def head_tail_def is_upper_def)

theorem derived_client_order_id_valid_witness:
  "is_client_order_id (make_client_order_id (sample_intent BUY OPEN_LONG ENTRY 3) sample_hash) \<and>
   length (make_client_order_id (sample_intent BUY OPEN_LONG ENTRY 3) sample_hash) \<le> 45"
  by (rule derived_client_order_id_valid) (simp add: sample_client_id_inputs)

lemma client_order_id_eqD:
  assumes "client_id_inputs i d" and "client_id_inputs j e"
    and "make_client_order_id i d = make_client_order_id j e"
  shows "intent_symbol i = intent_symbol j \<and> intent_phase i = intent_phase j \<and>
    intent_sequence i = intent_sequence j \<and> intent_target_version i = intent_target_version j \<and>
    take 5 d = take 5 e \<and> take 6 (intent_target_hash i) = take 6 (intent_target_hash j)"
proof -
  have eq: "hex_char (nat (intent_sequence i)) = hex_char (nat (intent_sequence j))"
      "int_text (intent_target_version i) = int_text (intent_target_version j)"
      "client_id_code (intent_phase i) = client_id_code (intent_phase j)"
      "intent_symbol i = intent_symbol j" "take 5 d = take 5 e"
      "take 6 (intent_target_hash i) = take 6 (intent_target_hash j)"
    using assms(3) split_client_order_id [OF assms(1)] split_client_order_id [OF assms(2)] by simp_all
  have "nat (intent_sequence i) = nat (intent_sequence j)"
    using eq(1) assms(1,2) by (intro hex_char_inj) (auto simp: client_id_inputs_def)
  then have "intent_sequence i = intent_sequence j" using assms(1,2) by (auto simp: client_id_inputs_def)
  moreover have "intent_target_version i = intent_target_version j"
    using eq(2) assms(1,2) int_text_inj by (auto simp: client_id_inputs_def)
  moreover have "intent_phase i = intent_phase j"
    using eq(3) by (cases "intent_phase i"; cases "intent_phase j") auto
  ultimately show ?thesis using eq by simp
qed

text \<open>
  C30. The client order identifier is an idempotency key: equal identifiers come from the same
  symbol, phase, sequence number and target version (and from equal prefixes of the three
  hashes), so the legs of one plan never share an identifier.
\<close>

theorem client_order_id_injective:
  assumes "client_id_inputs i d" and "client_id_inputs j e"
    and "make_client_order_id i d = make_client_order_id j e"
  shows "intent_symbol i = intent_symbol j \<and> intent_phase i = intent_phase j \<and>
    intent_sequence i = intent_sequence j \<and> intent_target_version i = intent_target_version j \<and>
    take 5 d = take 5 e \<and> take 6 (intent_target_hash i) = take 6 (intent_target_hash j)"
  using assms by (rule client_order_id_eqD)

theorem client_order_id_injective_witness:
  "make_client_order_id (sample_intent BUY OPEN_LONG ENTRY 3) sample_hash \<noteq>
   make_client_order_id (sample_intent BUY INCREASE_LONG ENTRY 4) sample_hash"
proof
  assume "make_client_order_id (sample_intent BUY OPEN_LONG ENTRY 3) sample_hash =
    make_client_order_id (sample_intent BUY INCREASE_LONG ENTRY 4) sample_hash"
  from client_order_id_injective [OF sample_client_id_inputs sample_client_id_inputs this]
  show False by (simp add: sample_intent_def)
qed

section \<open>Constructors agree with their own checks\<close>

lemma intent_digest_frame [simp]:
  "intent_digest sha (i\<lparr>order_intent_id := a, intent_content_hash := h\<rparr>) = intent_digest sha i"
  by (simp add: intent_digest_def)

lemma deterministic_id_Inr [simp, guard_simps]:
  "deterministic_id p h = Inr x \<longleftrightarrow> is_id_prefix p \<and> is_hash h \<and> x = p @ ''_'' @ h"
  by (auto simp: deterministic_id_def)

lemma validate_intent_Inr:
  "validate_intent sha i = Inr j \<longleftrightarrow> j = i \<and> guards_ok (intent_guards i) \<and>
     intent_digest sha i = Inr (intent_content_hash i) \<and>
     order_intent_id i = ''intent_'' @ intent_content_hash i"
  by (auto simp: validate_intent_def)

lemma validate_plan_Inr:
  "validate_plan sha p = Inr q \<longleftrightarrow> q = p \<and> guards_ok (plan_guards p) \<and>
     execution_plan_digest sha p = Inr (plan_content_hash p) \<and>
     execution_plan_id p = ''execution_'' @ plan_content_hash p"
  by (auto simp: validate_plan_def)

lemma create_intent_Inr:
  "create_intent sha i = Inr j \<Longrightarrow> validate_intent sha j = Inr j"
  by (auto simp: create_intent_def Let_def validate_intent_Inr)

lemma create_plan_Inr:
  "create_plan sha p = Inr q \<Longrightarrow> validate_plan sha q = Inr q \<and>
     (\<exists>a h. q = p\<lparr>execution_plan_id := a, plan_content_hash := h\<rparr>)"
  by (auto simp: create_plan_def validate_plan_Inr)

lemma create_intent_frame:
  assumes "create_intent sha i = Inr j"
  shows "validate_intent sha j = Inr j \<and> intent_symbol j = intent_symbol i \<and> intent_side j = intent_side i \<and>
    intent_phase j = intent_phase i \<and> intent_position_effect j = intent_position_effect i \<and>
    intent_quantity j = intent_quantity i \<and> intent_sequence j = intent_sequence i \<and>
    intent_risk_decision_id j = intent_risk_decision_id i \<and> intent_execution_plan_id j = intent_execution_plan_id i"
    and "\<exists>d. identifier_digest sha (intent_risk_decision_id i) = Inr d \<and>
      intent_client_order_id j = make_client_order_id j d"
  using create_intent_Inr [OF assms] assms
  by (auto simp: create_intent_def Let_def validate_intent_Inr make_client_order_id_def)

lemma risk_id_digest: "is_hash h \<Longrightarrow> identifier_digest sha (''risk_'' @ h) = Inr h"
proof -
  assume h: "is_hash h"
  have n: "CHR ''_'' \<notin> set h" using h is_hex_no_sep by (fastforce simp: is_hash_def list_all_iff)
  have "split_on CHR ''_'' (''risk'' @ CHR ''_'' # h) = ''risk'' # split_on CHR ''_'' h"
    by (rule split_on_append) simp
  then have s: "split_on CHR ''_'' (''risk_'' @ h) = [''risk'', h]" using split_on_none [OF n] by simp
  have hex: "is_hex c \<Longrightarrow> is_lower c \<or> is_digit c" for c
    by (auto simp: is_hex_def is_lower_def less_eq_char_def)
  have "is_identifier (''risk_'' @ h)" using h hex
    by (auto simp: is_identifier_def head_tail_def is_hash_def list_all_iff is_lower_def)
  then show ?thesis using h by (simp only: identifier_digest_def s) (simp add: guard_identifier_def)
qed

lemma intent_guards_inputs:
  assumes "validate_intent sha i = Inr i" and "is_hash d"
  shows "client_id_inputs i d"
  using assms by (auto simp: validate_intent_Inr intent_guards_def guard_defs client_id_inputs_def)

lemma identifier_digest_error:
  "identifier_digest sha i = Inl e \<Longrightarrow> e \<noteq> exec_error ''order intent identity or hash is invalid''"
  by (auto simp: identifier_digest_def guard_defs guarded_Inl_iff dest: sha256_hex_error split: if_splits)

lemma intent_values_digest_error:
  "intent_values_digest sha i = Inl e \<Longrightarrow> e \<noteq> exec_error m"
  by (auto simp: intent_values_digest_def dest: sha256_hex_error)

text \<open>
  \<open>OrderIntent.create\<close> never trips over its own identity check: the digest it computes from
  its keyword dictionary is the one the constructor recomputes, so the error of that check is
  unreachable through \<open>create\<close>, for every hash function.
\<close>

lemma create_intent_identity_check_unreachable:
  "create_intent sha i \<noteq> Inl (exec_error ''order intent identity or hash is invalid'')"
proof
  let ?msg = "exec_error ''order intent identity or hash is invalid''"
  assume "create_intent sha i = Inl ?msg"
  then obtain j h where j: "validate_intent sha (j\<lparr>order_intent_id := ''intent_'' @ h, intent_content_hash := h\<rparr>) = Inl ?msg"
      and h: "intent_digest sha j = Inr h"
    by (auto simp: create_intent_def Let_def bindE_Inl_iff deterministic_id_def guarded_Inl_iff guard_defs
        dest: identifier_digest_error intent_values_digest_error split: if_splits)
  then show False
    by (auto simp: validate_intent_def bindE_Inl_iff intent_guards_def effect_guards_def guard_defs
        dest!: guarded_Inl_dest)
qed

end
