(* ===== verification/Risk_Latches.thy ===== *)
theory Risk_Latches
  imports Canonical "HOL-Library.Product_Lexorder"
begin

text \<open>
  The append-only risk latches of \<open>risk/latches.py\<close>: hash-bound events per latch stream, the state
  reconstructed from them after a restart, the assessment of the loss and drawdown triggers, and
  the two ways an event comes into being, an engagement and an authenticated clear.
\<close>

section \<open>Validation helpers\<close>

abbreviation latch_error :: "string \<Rightarrow> error" where
  "latch_error \<equiv> RiskLatchError"

definition LATCH_CLEAR_ACKNOWLEDGEMENT :: string where
  "LATCH_CLEAR_ACKNOWLEDGEMENT = ''I_HAVE_REVIEWED_AQA_PAPER_STATE''"

definition SESSION_LOSS_TRIGGER :: decimal where
  "SESSION_LOSS_TRIGGER = Dec (- 2) (- 2)"

definition DEPLOYMENT_DRAWDOWN_TRIGGER :: decimal where
  "DEPLOYMENT_DRAWDOWN_TRIGGER = Dec (- 15) (- 2)"

definition latch_guard_hash :: "string \<Rightarrow> string \<Rightarrow> bool \<times> error" where
  "latch_guard_hash s field = (\<not> is_hash s, latch_error (field @ '' must be lowercase SHA-256''))"

definition latch_guard_identifier :: "string \<Rightarrow> string \<Rightarrow> bool \<times> error" where
  "latch_guard_identifier s field =
     (\<not> is_safe_code s, latch_error (field @ '' must be a lowercase ASCII identifier''))"

definition latch_guard_sequence :: "int \<Rightarrow> bool \<times> error" where
  "latch_guard_sequence n = (n < 1, latch_error ''latch sequence must be a positive integer'')"

definition latch_guard_correlation :: "string \<Rightarrow> bool \<times> error" where
  "latch_guard_correlation s = (\<not> is_tagged_hash ''correlation'' s, latch_error ''correlation ID is invalid'')"

definition latch_guard_decimal :: "decimal \<Rightarrow> string \<Rightarrow> bool \<times> error" where
  "latch_guard_decimal d field =
     (\<not> domain_decimal d, latch_error (field @ '' must be a finite exact decimal''))"

definition latch_guards_positive :: "decimal \<Rightarrow> string \<Rightarrow> (bool \<times> error) list" where
  "latch_guards_positive d field =
     [latch_guard_decimal d field, (dle d dzero, latch_error (field @ '' must be positive''))]"

definition latch_guards_nonnegative :: "decimal \<Rightarrow> string \<Rightarrow> (bool \<times> error) list" where
  "latch_guards_nonnegative d field =
     [latch_guard_decimal d field, (dlt d dzero, latch_error (field @ '' cannot be negative''))]"

definition latch_guards_trigger :: "decimal \<Rightarrow> string \<Rightarrow> (bool \<times> error) list" where
  "latch_guards_trigger d field =
     [latch_guard_decimal d field,
      (\<not> (dle (Dec (- 1) 0) d \<and> dlt d dzero), latch_error (field @ '' must be in [-1, 0)''))]"

lemmas latch_guard_defs =
  latch_guard_hash_def latch_guard_identifier_def latch_guard_sequence_def latch_guard_correlation_def
  latch_guard_decimal_def latch_guards_positive_def latch_guards_nonnegative_def latch_guards_trigger_def

section \<open>Events\<close>

datatype RiskLatchKind = DEPLOYMENT_DRAWDOWN | OPERATOR_HALT | RECONCILIATION | SESSION_LOSS

datatype RiskLatchAction = ENGAGED | CLEARED

fun kind_value :: "RiskLatchKind \<Rightarrow> string" where
  "kind_value DEPLOYMENT_DRAWDOWN = ''deployment_drawdown''"
| "kind_value OPERATOR_HALT = ''operator_halt''"
| "kind_value RECONCILIATION = ''reconciliation''"
| "kind_value SESSION_LOSS = ''session_loss''"

fun action_value :: "RiskLatchAction \<Rightarrow> string" where
  "action_value ENGAGED = ''ENGAGED''"
| "action_value CLEARED = ''CLEARED''"

record RiskLatchEvent =
  latch_event_id :: string
  ev_experiment_hash :: string
  ev_latch_type :: RiskLatchKind
  ev_sequence :: int
  ev_action :: RiskLatchAction
  ev_reason_code :: string
  ev_actor :: string
  ev_occurred_at :: int
  ev_correlation_id :: string
  ev_idempotency_key :: string
  ev_payload_hash :: string
  ev_content_hash :: string

definition latch_payload :: "RiskLatchEvent \<Rightarrow> pval" where
  "latch_payload e = PMap
     [(''action'', PEnum (action_value (ev_action e))),
      (''actor'', PStr (ev_actor e)),
      (''correlation_id'', PStr (ev_correlation_id e)),
      (''experiment_hash'', PStr (ev_experiment_hash e)),
      (''idempotency_key'', PStr (ev_idempotency_key e)),
      (''latch_type'', PEnum (kind_value (ev_latch_type e))),
      (''occurred_at'', PTime (ev_occurred_at e)),
      (''reason_code'', PStr (ev_reason_code e)),
      (''schema'', PStr ''risk-latch-event-v1''),
      (''sequence'', PInt (ev_sequence e))]"

definition latch_identity :: "sha256 \<Rightarrow> string \<Rightarrow> string res" where
  "latch_identity sha payload_hash =
     deterministic_id_from sha ''latch'' (PSeq [PStr ''risk-latch-id-v1'', PStr payload_hash])"

definition latch_content :: "sha256 \<Rightarrow> string \<Rightarrow> string \<Rightarrow> string res" where
  "latch_content sha event_id payload_hash = sha256_hex sha (PMap
     [(''latch_event_id'', PStr event_id), (''payload_hash'', PStr payload_hash),
      (''schema'', PStr ''risk-latch-content-v1'')])"

text \<open>The checks \<open>create\<close> and \<open>_validate_event\<close> share.\<close>

definition latch_field_guards :: "RiskLatchEvent \<Rightarrow> (bool \<times> error) list" where
  "latch_field_guards e =
     [latch_guard_hash (ev_experiment_hash e) ''experiment_hash'',
      latch_guard_sequence (ev_sequence e),
      latch_guard_identifier (ev_reason_code e) ''reason_code'',
      latch_guard_identifier (ev_actor e) ''actor'',
      latch_guard_identifier (ev_idempotency_key e) ''idempotency_key'',
      latch_guard_correlation (ev_correlation_id e)]"

definition validate_latch_event :: "sha256 \<Rightarrow> RiskLatchEvent \<Rightarrow> RiskLatchEvent res" where
  "validate_latch_event sha e =
     guarded ((\<not> is_tagged_hash ''latch'' (latch_event_id e), latch_error ''latch event ID is invalid'') #
       latch_field_guards e @
       [latch_guard_hash (ev_payload_hash e) ''payload_hash'',
        latch_guard_hash (ev_content_hash e) ''content_hash''])
     (bindE (sha256_hex sha (latch_payload e)) (\<lambda>payload_hash.
      guarded [(ev_payload_hash e \<noteq> payload_hash, latch_error ''latch event payload hash is invalid'')]
     (bindE (latch_identity sha payload_hash) (\<lambda>expected_id.
      guarded [(latch_event_id e \<noteq> expected_id, latch_error ''latch event ID is invalid'')]
     (bindE (latch_content sha (latch_event_id e) (ev_payload_hash e)) (\<lambda>content.
      guarded [(ev_content_hash e \<noteq> content, latch_error ''latch event content hash is invalid'')]
        (Inr e)))))))"

definition create_latch_event :: "sha256 \<Rightarrow> RiskLatchEvent \<Rightarrow> RiskLatchEvent res" where
  "create_latch_event sha e =
     guarded (latch_field_guards e)
     (bindE (sha256_hex sha (latch_payload e)) (\<lambda>payload_hash.
      bindE (latch_identity sha payload_hash) (\<lambda>event_id.
      bindE (latch_content sha event_id payload_hash) (\<lambda>content.
        validate_latch_event sha (e\<lparr>latch_event_id := event_id, ev_payload_hash := payload_hash,
          ev_content_hash := content\<rparr>)))))"

section \<open>State\<close>

record RiskLatchState =
  st_experiment_hash :: string
  st_active :: "RiskLatchKind list"
  st_last_sequences :: "(RiskLatchKind \<times> int) list"
  st_event_count :: int
  st_source_hash :: string
  st_content_hash :: string

definition latch_state_hash :: "sha256 \<Rightarrow> RiskLatchState \<Rightarrow> string res" where
  "latch_state_hash sha st = sha256_hex sha (PMap
     [(''active'', PSeq (map (\<lambda>k. PEnum (kind_value k)) (st_active st))),
      (''event_count'', PInt (st_event_count st)),
      (''experiment_hash'', PStr (st_experiment_hash st)),
      (''last_sequences'', PSeq (map (\<lambda>(k, n). PSeq [PEnum (kind_value k), PInt n]) (st_last_sequences st))),
      (''schema'', PStr ''risk-latch-state-v1''),
      (''source_hash'', PStr (st_source_hash st))])"

fun sequence_guards :: "string option \<Rightarrow> (RiskLatchKind \<times> int) list \<Rightarrow> (bool \<times> error) list" where
  "sequence_guards previous [] = []"
| "sequence_guards previous ((k, n) # rest) =
     (case previous of Some p \<Rightarrow> kind_value k \<le> p | None \<Rightarrow> False,
        latch_error ''latch sequences must be unique and ordered'') #
     latch_guard_sequence n # sequence_guards (Some (kind_value k)) rest"

definition latch_state_guards :: "RiskLatchState \<Rightarrow> (bool \<times> error) list" where
  "latch_state_guards st =
     [latch_guard_hash (st_experiment_hash st) ''experiment_hash'',
      (st_active st \<noteq> sort_key kind_value (remdups (st_active st)),
        latch_error ''active latch state must be unique and ordered'')] @
     sequence_guards None (st_last_sequences st) @
     [(st_event_count st < 0, latch_error ''latch event count is invalid''),
      (sum_list (map snd (st_last_sequences st)) \<noteq> st_event_count st,
        latch_error ''latch event count does not match stream sequences''),
      latch_guard_hash (st_source_hash st) ''source_hash'',
      latch_guard_hash (st_content_hash st) ''content_hash'']"

definition validate_latch_state :: "sha256 \<Rightarrow> RiskLatchState \<Rightarrow> RiskLatchState res" where
  "validate_latch_state sha st =
     guarded (latch_state_guards st)
     (bindE (latch_state_hash sha st) (\<lambda>expected.
       guarded [(st_content_hash st \<noteq> expected, latch_error ''latch state hash is invalid'')] (Inr st)))"

text \<open>The first loop of \<open>from_events\<close>: one list per latch type, in the order of arrival.\<close>

definition stream_append :: "RiskLatchEvent \<Rightarrow> (RiskLatchKind, RiskLatchEvent list) dict \<Rightarrow>
    (RiskLatchKind, RiskLatchEvent list) dict" where
  "stream_append e = dict_append (ev_latch_type e) e"

fun collect_streams :: "string \<Rightarrow> string set \<Rightarrow> (RiskLatchKind, RiskLatchEvent list) dict \<Rightarrow>
    RiskLatchEvent list \<Rightarrow> (RiskLatchKind, RiskLatchEvent list) dict res" where
  "collect_streams eh seen streams [] = Inr streams"
| "collect_streams eh seen streams (e # es) =
     guarded [(ev_experiment_hash e \<noteq> eh, latch_error ''latch history contains another experiment''),
              (latch_event_id e \<in> seen, latch_error ''latch history contains a duplicate event'')]
       (collect_streams eh (insert (latch_event_id e) seen) (stream_append e streams) es)"

fun replay :: "bool \<Rightarrow> RiskLatchEvent list \<Rightarrow> bool res" where
  "replay engaged [] = Inr engaged"
| "replay engaged (e # es) =
     (if ev_action e = ENGAGED
      then (if engaged then Inl (latch_error ''an active latch cannot be engaged again'')
            else replay True es)
      else (if \<not> engaged then Inl (latch_error ''an inactive latch cannot be cleared'')
            else replay False es))"

text \<open>The body of the second loop, for one latch type: whether it ends engaged, and its last sequence.\<close>

definition replay_stream :: "(RiskLatchKind, RiskLatchEvent list) dict \<Rightarrow> RiskLatchKind \<Rightarrow>
    (RiskLatchKind \<times> bool \<times> int) res" where
  "replay_stream streams k =
     (let stream = sort_key ev_sequence (dict_get streams k []) in
      guarded [(map ev_sequence stream \<noteq> [1..int (length stream)],
          latch_error ''latch event sequence is not contiguous'')]
      (bindE (replay False stream) (\<lambda>engaged. Inr (k, engaged, ev_sequence (last stream)))))"

definition latch_source_hash :: "sha256 \<Rightarrow> string \<Rightarrow> string list \<Rightarrow> string res" where
  "latch_source_hash sha eh hashes =
     sha256_hex sha (PSeq [PStr ''risk-latch-events-v1'', PStr eh, PSeq (map PStr hashes)])"

definition create_latch_state :: "sha256 \<Rightarrow> RiskLatchState \<Rightarrow> RiskLatchState res" where
  "create_latch_state sha st =
     bindE (latch_state_hash sha st) (\<lambda>h. validate_latch_state sha (st\<lparr>st_content_hash := h\<rparr>))"

definition empty_latch_state :: "sha256 \<Rightarrow> string \<Rightarrow> RiskLatchState res" where
  "empty_latch_state sha eh =
     guarded [latch_guard_hash eh ''experiment_hash'']
     (bindE (latch_source_hash sha eh []) (\<lambda>source.
       create_latch_state sha \<lparr>st_experiment_hash = eh, st_active = [], st_last_sequences = [],
         st_event_count = 0, st_source_hash = source, st_content_hash = ''''\<rparr>))"

definition from_events :: "sha256 \<Rightarrow> string \<Rightarrow> RiskLatchEvent list \<Rightarrow> RiskLatchState res" where
  "from_events sha eh events =
     guarded [latch_guard_hash eh ''experiment_hash'']
     (bindE (collect_streams eh {} [] events) (\<lambda>streams.
      bindE (mapE (replay_stream streams) (sort_key kind_value (map fst streams))) (\<lambda>replayed.
      let ordered = sort_key (\<lambda>e. (kind_value (ev_latch_type e), ev_sequence e)) events
      in bindE (latch_source_hash sha eh (map ev_content_hash ordered)) (\<lambda>source.
        create_latch_state sha \<lparr>st_experiment_hash = eh,
          st_active = sort_key kind_value (map fst (filter (\<lambda>(k, engaged, n). engaged) replayed)),
          st_last_sequences = map (\<lambda>(k, engaged, n). (k, n)) replayed,
          st_event_count = int (length events), st_source_hash = source, st_content_hash = ''''\<rparr>))))"

definition latch_is_active :: "RiskLatchState \<Rightarrow> RiskLatchKind \<Rightarrow> bool" where
  "latch_is_active st k \<longleftrightarrow> k \<in> set (st_active st)"

definition next_sequence :: "RiskLatchState \<Rightarrow> RiskLatchKind \<Rightarrow> int" where
  "next_sequence st k = dict_get (st_last_sequences st) k 0 + 1"

section \<open>Appending\<close>

record latch_request =
  rq_reason_code :: string
  rq_actor :: string
  rq_occurred_at :: int
  rq_correlation_id :: string
  rq_idempotency_key :: string

definition latch_event_of :: "RiskLatchState \<Rightarrow> RiskLatchKind \<Rightarrow> RiskLatchAction \<Rightarrow> string \<Rightarrow> latch_request \<Rightarrow> RiskLatchEvent" where
  "latch_event_of st k a reason r =
     \<lparr>latch_event_id = '''', ev_experiment_hash = st_experiment_hash st, ev_latch_type = k,
      ev_sequence = next_sequence st k, ev_action = a, ev_reason_code = reason,
      ev_actor = rq_actor r, ev_occurred_at = rq_occurred_at r,
      ev_correlation_id = rq_correlation_id r, ev_idempotency_key = rq_idempotency_key r,
      ev_payload_hash = '''', ev_content_hash = ''''\<rparr>"

definition create_latch_engagement ::
  "sha256 \<Rightarrow> RiskLatchState \<Rightarrow> RiskLatchKind \<Rightarrow> latch_request \<Rightarrow> RiskLatchEvent res" where
  "create_latch_engagement sha st k r =
     guarded [(latch_is_active st k, latch_error ''an active latch cannot be engaged again'')]
       (create_latch_event sha (latch_event_of st k ENGAGED (rq_reason_code r) r))"

definition create_authenticated_latch_clear ::
  "sha256 \<Rightarrow> RiskLatchState \<Rightarrow> RiskLatchKind \<Rightarrow> bool \<Rightarrow> string \<Rightarrow> latch_request \<Rightarrow> RiskLatchEvent res" where
  "create_authenticated_latch_clear sha st k authenticated acknowledgement r =
     guarded
       [(\<not> authenticated, latch_error ''latch clear requires an authenticated operator''),
        (acknowledgement \<noteq> LATCH_CLEAR_ACKNOWLEDGEMENT, latch_error ''latch clear acknowledgement is invalid''),
        (\<not> latch_is_active st k, latch_error ''an inactive latch cannot be cleared'')]
       (create_latch_event sha (latch_event_of st k CLEARED ''operator_reviewed_state'' r))"

section \<open>Financial triggers\<close>

record FinancialLatchAssessment =
  fa_session_return :: decimal
  fa_deployment_drawdown :: decimal
  fa_engage :: "RiskLatchKind list"
  fa_content_hash :: string

definition assessment_hash :: "sha256 \<Rightarrow> FinancialLatchAssessment \<Rightarrow> string res" where
  "assessment_hash sha a = sha256_hex sha (PMap
     [(''deployment_drawdown'', PDec (fa_deployment_drawdown a)),
      (''engage'', PSeq (map (\<lambda>k. PEnum (kind_value k)) (fa_engage a))),
      (''schema'', PStr ''financial-latch-assessment-v1''),
      (''session_return'', PDec (fa_session_return a))])"

definition validate_assessment :: "sha256 \<Rightarrow> FinancialLatchAssessment \<Rightarrow> FinancialLatchAssessment res" where
  "validate_assessment sha a =
     guarded
       [latch_guard_decimal (fa_session_return a) ''session_return'',
        latch_guard_decimal (fa_deployment_drawdown a) ''deployment_drawdown'',
        (\<not> set (fa_engage a) \<subseteq> {SESSION_LOSS, DEPLOYMENT_DRAWDOWN},
          latch_error ''financial latch assessment contains an invalid latch'')]
     (bindE (assessment_hash sha a) (\<lambda>expected.
       guarded [(fa_content_hash a \<noteq> expected, latch_error ''financial latch assessment hash is invalid'')]
         (Inr a)))"

text \<open>\<open>(equity - base) / base\<close> in the context of 50 digits.\<close>

definition relative_change :: "decimal \<Rightarrow> decimal \<Rightarrow> decimal res" where
  "relative_change equity base =
     (case ddiv 50 (dsub 50 equity base) base of
        None \<Rightarrow> Inl (latch_error ''financial latch levels could not be calculated'')
      | Some q \<Rightarrow> Inr q)"

definition assess_financial_latches ::
  "sha256 \<Rightarrow> decimal \<Rightarrow> decimal \<Rightarrow> decimal \<Rightarrow> RiskLatchState \<Rightarrow> decimal \<Rightarrow> decimal \<Rightarrow>
     FinancialLatchAssessment res" where
  "assess_financial_latches sha equity session_start high_water st session_trigger drawdown_trigger =
     guarded
       (latch_guards_nonnegative equity ''account_equity'' @
        latch_guards_positive session_start ''session_start_equity'' @
        latch_guards_positive high_water ''deployment_high_water_equity'' @
        latch_guards_trigger session_trigger ''session_loss_trigger'' @
        latch_guards_trigger drawdown_trigger ''deployment_drawdown_trigger'')
     (bindE (relative_change equity session_start) (\<lambda>session_return.
      bindE (relative_change equity high_water) (\<lambda>drawdown.
      let engage =
            (if dle session_return session_trigger \<and> \<not> latch_is_active st SESSION_LOSS
             then [SESSION_LOSS] else []) @
            (if dle drawdown drawdown_trigger \<and> \<not> latch_is_active st DEPLOYMENT_DRAWDOWN
             then [DEPLOYMENT_DRAWDOWN] else []);
          a = \<lparr>fa_session_return = session_return, fa_deployment_drawdown = drawdown,
               fa_engage = sort_key kind_value engage, fa_content_hash = ''''\<rparr>
      in bindE (assessment_hash sha a) (\<lambda>h. validate_assessment sha (a\<lparr>fa_content_hash := h\<rparr>)))))"

section \<open>Streams\<close>

definition KINDS :: "RiskLatchKind list" where
  "KINDS = [DEPLOYMENT_DRAWDOWN, OPERATOR_HALT, RECONCILIATION, SESSION_LOSS]"

definition stream :: "RiskLatchKind \<Rightarrow> RiskLatchEvent list \<Rightarrow> RiskLatchEvent list" where
  "stream k es = sort_key ev_sequence (filter (\<lambda>e. ev_latch_type e = k) es)"

lemma set_KINDS [simp]: "k \<in> set KINDS"
  by (cases k) (simp_all add: KINDS_def)

lemma sorted_KINDS: "sorted (map kind_value (filter P KINDS))" "distinct (filter P KINDS)"
  by (simp_all add: KINDS_def less_char_def)

lemma inj_kind_value: "inj_on kind_value A"
proof (rule inj_onI)
  fix x y assume "kind_value x = kind_value y"
  then show "x = y" by (cases x; cases y) simp_all
qed

lemma sort_kinds:
  assumes "distinct ks" shows "sort_key kind_value ks = filter (\<lambda>k. k \<in> set ks) KINDS"
proof (rule sort_key_inj_key_eq [OF _ inj_kind_value sorted_KINDS(1)])
  show "mset ks = mset (filter (\<lambda>k. k \<in> set ks) KINDS)"
    using assms sorted_KINDS(2) [of "\<lambda>k. k \<in> set ks"] by (subst set_eq_iff_mset_eq_distinct [symmetric]) auto
qed

lemma fold_stream_append: "fold stream_append es s = fold (\<lambda>e. dict_append (ev_latch_type e) e) es s"
  by (rule fold_cong) (simp_all add: stream_append_def)

lemma collect_streams_Inr:
  "collect_streams eh seen s es = Inr t \<longleftrightarrow> (\<forall>e \<in> set es. ev_experiment_hash e = eh) \<and>
     distinct (map latch_event_id es) \<and> latch_event_id ` set es \<inter> seen = {} \<and> t = fold stream_append es s"
  by (induction es arbitrary: seen s) auto

section \<open>What a reconstruction means\<close>

definition contiguous :: "RiskLatchEvent list \<Rightarrow> bool" where
  "contiguous es \<longleftrightarrow> map ev_sequence es = [1..int (length es)]"

text \<open>The first event engages, the second clears, and so on; the last one says how it ends.\<close>

definition alternates :: "RiskLatchEvent list \<Rightarrow> bool" where
  "alternates es \<longleftrightarrow> (\<forall>i < length es. ev_action (es ! i) = (if even i then ENGAGED else CLEARED))"

definition engaged_after :: "RiskLatchEvent list \<Rightarrow> bool" where
  "engaged_after es \<longleftrightarrow> es \<noteq> [] \<and> ev_action (last es) = ENGAGED"

definition history_ok :: "string \<Rightarrow> RiskLatchEvent list \<Rightarrow> bool" where
  "history_ok eh es \<longleftrightarrow> (\<forall>e \<in> set es. ev_experiment_hash e = eh) \<and> distinct (map latch_event_id es) \<and>
     (\<forall>k. contiguous (stream k es) \<and> alternates (stream k es))"

definition latch_state_of :: "string \<Rightarrow> RiskLatchEvent list \<Rightarrow> string \<Rightarrow> RiskLatchState" where
  "latch_state_of eh es source = \<lparr>st_experiment_hash = eh,
     st_active = filter (\<lambda>k. engaged_after (stream k es)) KINDS,
     st_last_sequences = map (\<lambda>k. (k, int (length (stream k es)))) (filter (\<lambda>k. stream k es \<noteq> []) KINDS),
     st_event_count = int (length es), st_source_hash = source, st_content_hash = ''''\<rparr>"

definition ordered_hashes :: "RiskLatchEvent list \<Rightarrow> string list" where
  "ordered_hashes es =
     map ev_content_hash (sort_key (\<lambda>e. (kind_value (ev_latch_type e), ev_sequence e)) es)"

lemma contiguous_last: "contiguous es \<Longrightarrow> es \<noteq> [] \<Longrightarrow> ev_sequence (last es) = int (length es)"
  by (metis contiguous_def last_map upto_rec2 last_snoc length_greater_0_conv of_nat_0_less_iff int_one_le_iff_zero_less)

lemma not_ENGAGED: "a \<noteq> ENGAGED \<longleftrightarrow> a = CLEARED"
  by (cases a) simp_all

lemma replay_Inr:
  "replay b es = Inr c \<longleftrightarrow> (\<forall>i < length es. ev_action (es ! i) = (if even i = b then CLEARED else ENGAGED)) \<and>
     (c \<longleftrightarrow> (if es = [] then b else ev_action (last es) = ENGAGED))"
proof (induction es arbitrary: b)
  case (Cons e es)
  show ?case by (cases "ev_action e"; cases b) (auto simp: Cons.IH All_less_Suc2 not_ENGAGED)
qed auto

lemma replay_False: "replay False es = Inr c \<longleftrightarrow> alternates es \<and> (c \<longleftrightarrow> engaged_after es)"
  by (auto simp: replay_Inr alternates_def engaged_after_def)

lemma replay_stream_Inr:
  assumes "dict_get streams k [] = filter (\<lambda>e. ev_latch_type e = k) es" and "stream k es \<noteq> []"
  shows "replay_stream streams k = Inr y \<longleftrightarrow> (contiguous (stream k es) \<and> alternates (stream k es)) \<and>
    y = (k, engaged_after (stream k es), int (length (stream k es)))"
  using assms contiguous_last [of "stream k es"]
  by (auto simp: replay_stream_def stream_def [symmetric] Let_def contiguous_def replay_False)

lemma stream_Nil_iff: "stream k es = [] \<longleftrightarrow> k \<notin> ev_latch_type ` set es"
  by (auto simp: stream_def filter_empty_conv simp flip: set_empty)

lemma from_events_Inr:
  "from_events sha eh es = Inr st \<longleftrightarrow> is_hash eh \<and> history_ok eh es \<and>
     (\<exists>source. latch_source_hash sha eh (ordered_hashes es) = Inr source \<and>
        create_latch_state sha (latch_state_of eh es source) = Inr st)"
proof -
  define streams where "streams = fold stream_append es []"
  let ?used = "filter (\<lambda>k. stream k es \<noteq> []) KINDS"
  have get: "dict_get streams k [] = filter (\<lambda>e. ev_latch_type e = k) es" for k
    by (simp add: streams_def fold_stream_append dict_get_grouped) (simp add: dict_get_def)
  have keys: "sort_key kind_value (map fst streams) = ?used"
    using sort_kinds [OF distinct_grouped [of "[]" ev_latch_type es]] keys_grouped [of ev_latch_type es "[]"]
    by (simp add: streams_def fold_stream_append stream_Nil_iff)
  have rep: "mapE (replay_stream streams) ?used = Inr rs \<longleftrightarrow>
      (\<forall>k. contiguous (stream k es) \<and> alternates (stream k es)) \<and>
      rs = map (\<lambda>k. (k, engaged_after (stream k es), int (length (stream k es)))) ?used" for rs
  proof -
    have "mapE (replay_stream streams) ?used = Inr rs \<longleftrightarrow>
        (\<forall>k \<in> set ?used. contiguous (stream k es) \<and> alternates (stream k es)) \<and>
        rs = map (\<lambda>k. (k, engaged_after (stream k es), int (length (stream k es)))) ?used"
      by (rule mapE_map) (simp add: replay_stream_Inr [OF get])
    moreover have "contiguous [] \<and> alternates []" by (auto simp: contiguous_def alternates_def)
    then have "(\<forall>k \<in> set ?used. contiguous (stream k es) \<and> alternates (stream k es)) \<longleftrightarrow>
        (\<forall>k. contiguous (stream k es) \<and> alternates (stream k es))"
      by (simp only: set_filter mem_Collect_eq set_KINDS Ball_def simp_thms) metis
    ultimately show ?thesis by simp
  qed
  have act: "sort_key kind_value (map fst (filter (\<lambda>(k, engaged, n). engaged)
      (map (\<lambda>k. (k, engaged_after (stream k es), int (length (stream k es)))) ?used))) =
      filter (\<lambda>k. engaged_after (stream k es)) KINDS"
  proof -
    have "map fst (filter (\<lambda>(k, engaged, n). engaged)
        (map (\<lambda>k. (k, engaged_after (stream k es), int (length (stream k es)))) ?used)) =
        filter (\<lambda>k. engaged_after (stream k es)) ?used"
      by (simp add: filter_map comp_def)
    also have "\<dots> = filter (\<lambda>k. engaged_after (stream k es)) KINDS"
      by (rule trans [OF filter_filter]) (rule filter_cong, auto simp: engaged_after_def)
    finally show ?thesis using sorted_KINDS(1) by (simp add: sorted_sort_id sort_key_inj_key_eq [OF refl inj_kind_value])
  qed
  show ?thesis
    unfolding from_events_def history_ok_def latch_state_of_def ordered_hashes_def
    by (auto simp: collect_streams_Inr streams_def [symmetric] keys rep act Let_def latch_guard_hash_def comp_def)
qed

section \<open>Reconstruction succeeds exactly on well-formed histories within the node budget\<close>

lemma length_streams: "(\<Sum>k \<leftarrow> KINDS. length (stream k es)) = length es"
proof (induction es)
  case Nil
  show ?case by (simp add: stream_def KINDS_def)
next
  case (Cons e es)
  then show ?case by (cases "ev_latch_type e") (simp_all add: stream_def KINDS_def)
qed

lemma sum_list_used: "sum_list (map (\<lambda>k. int (f k)) (filter (\<lambda>k. f k \<noteq> 0) ks)) = int (sum_list (map f ks))"
  by (induction ks) auto

lemma sequence_guards_ok:
  "sorted_wrt (<) (map kind_value ks) \<Longrightarrow> (\<forall>k \<in> set ks. 1 \<le> n k) \<Longrightarrow> (\<forall>p. previous = Some p \<longrightarrow> (\<forall>k \<in> set ks. p < kind_value k)) \<Longrightarrow>
     guards_ok (sequence_guards previous (map (\<lambda>k. (k, n k)) ks))"
  by (induction ks arbitrary: previous) (auto simp: latch_guard_sequence_def not_le split: option.splits)

lemma latch_state_of_guards:
  assumes "is_hash eh" "is_hash source" "is_hash content"
  shows "guards_ok (latch_state_guards ((latch_state_of eh es source)\<lparr>st_content_hash := content\<rparr>))"
proof -
  let ?used = "filter (\<lambda>k. stream k es \<noteq> []) KINDS"
  have "sorted_wrt (<) (map kind_value ?used)" by (simp add: KINDS_def less_char_def)
  then have "guards_ok (sequence_guards None (map (\<lambda>k. (k, int (length (stream k es)))) ?used))"
    by (rule sequence_guards_ok) (auto simp: Suc_le_eq)
  moreover have "sum_list (map snd (map (\<lambda>k. (k, int (length (stream k es)))) ?used)) = int (length es)"
    using sum_list_used [of "\<lambda>k. length (stream k es)" KINDS] by (simp add: comp_def length_streams)
  moreover have "sort_key kind_value (remdups (filter P KINDS)) = filter P KINDS" for P
    using sorted_KINDS [of P] by (simp add: distinct_remdups_id sort_key_inj_key_eq [OF refl inj_kind_value])
  ultimately show ?thesis
    using assms by (simp add: latch_state_guards_def latch_state_of_def latch_guard_hash_def comp_def)
qed

text \<open>The budget of nodes leaves room for 4092 event hashes.\<close>

definition LATCH_HISTORY_CAPACITY :: nat where
  "LATCH_HISTORY_CAPACITY = 4092"

lemma source_hash_limits:
  assumes "is_hash eh" and "\<forall>h \<in> set hs. is_hash h"
  shows "within_limits (PSeq [PStr ''risk-latch-events-v1'', PStr eh, PSeq (map PStr hs)]) \<longleftrightarrow>
    length hs \<le> LATCH_HISTORY_CAPACITY"
proof -
  have "sum_list (map (\<lambda>h. int (length h)) hs) = 64 * int (length hs)"
    using assms(2) by (induction hs) (auto simp: is_hash_def)
  moreover have "sum_list (map (\<lambda>h. 1 :: int) hs) = int (length hs)" by (induction hs) auto
  moreover have "\<forall>h \<in> set hs. length h = 64" using assms(2) by (auto simp: is_hash_def)
  ultimately show ?thesis
    using assms(1) by (auto simp: within_limits_def comp_def is_hash_def MAX_DEPTH_def MAX_STRING_BYTES_def
        MAX_NODES_def MAX_TEXT_BYTES_def LATCH_HISTORY_CAPACITY_def)
qed

lemma sum_list_le_mult:
  fixes f :: "'a \<Rightarrow> int"
  shows "\<forall>x \<in> set xs. f x \<le> c \<Longrightarrow> sum_list (map f xs) \<le> int (length xs) * c"
  by (induction xs) (auto simp: algebra_simps)

lemma length_filter_KINDS: "int (length (filter P KINDS)) \<le> 4"
  using length_filter_le [of P KINDS] by (simp add: KINDS_def)

lemma length_kind_value: "length (kind_value k) \<le> 19"
  by (cases k) simp_all

lemma length_stream: "length (stream k es) \<le> length es"
  by (simp add: stream_def)

lemma state_hash_limits:
  assumes "is_hash eh" "is_hash source" and "length es \<le> LATCH_HISTORY_CAPACITY"
  shows "\<exists>h. latch_state_hash sha (latch_state_of eh es source) = Inr h"
proof -
  let ?act = "filter (\<lambda>k. engaged_after (stream k es)) KINDS"
  let ?used = "filter (\<lambda>k. stream k es \<noteq> []) KINDS"
  have n: "\<forall>k. int (length (stream k es)) \<le> 4092"
    using length_stream assms(3) by (auto simp: LATCH_HISTORY_CAPACITY_def intro: order_trans)
  have bytes: "sum_list (map (\<lambda>k. int (length (kind_value k))) (filter P KINDS)) \<le> 76" for P
    using sum_list_le_mult [of "filter P KINDS" "\<lambda>k. int (length (kind_value k))" 19] length_kind_value
      length_filter_KINDS [of P] by simp
  have nodes: "sum_list (map (\<lambda>k. c) (filter P KINDS)) \<le> 4 * c" if "0 \<le> c" for P and c :: int
    using that length_filter_KINDS [of P] mult_right_mono [of "int (length (filter P KINDS))" 4 c]
    by (simp add: sum_list_triv)
  have "\<forall>k. int (length (kind_value k)) \<le> 65536"
  proof
    show "int (length (kind_value k)) \<le> 65536" for k using length_kind_value [of k] by simp
  qed
  then have "within_limits (PMap
     [(''active'', PSeq (map (\<lambda>k. PEnum (kind_value k)) ?act)),
      (''event_count'', PInt (int (length es))), (''experiment_hash'', PStr eh),
      (''last_sequences'', PSeq (map (\<lambda>(k, n). PSeq [PEnum (kind_value k), PInt n])
         (map (\<lambda>k. (k, int (length (stream k es)))) ?used))),
      (''schema'', PStr ''risk-latch-state-v1''), (''source_hash'', PStr source)])"
    using assms n bytes [of "\<lambda>k. engaged_after (stream k es)"] bytes [of "\<lambda>k. stream k es \<noteq> []"]
      nodes [of 2 "\<lambda>k. engaged_after (stream k es)"] nodes [of 4 "\<lambda>k. stream k es \<noteq> []"]
    by (auto simp: within_limits_def comp_def is_hash_def MAX_DEPTH_def MAX_STRING_BYTES_def
        MAX_NODES_def MAX_TEXT_BYTES_def LATCH_HISTORY_CAPACITY_def MIN_SIGNED_64_BIT_INTEGER_def
        MAX_SIGNED_64_BIT_INTEGER_def intro: order_trans)
  from sha256_hex_Inr [OF this] show ?thesis by (simp add: latch_state_hash_def latch_state_of_def)
qed

lemma create_latch_state_Inr:
  assumes "\<forall>s. is_hash (sha s)" "is_hash eh" "is_hash source" and "length es \<le> LATCH_HISTORY_CAPACITY"
  shows "\<exists>h. create_latch_state sha (latch_state_of eh es source) =
    Inr ((latch_state_of eh es source)\<lparr>st_content_hash := h\<rparr>)"
proof -
  let ?st = "latch_state_of eh es source"
  obtain h where h: "latch_state_hash sha ?st = Inr h" using state_hash_limits assms by blast
  then have "is_hash h" using assms(1) by (auto simp: latch_state_hash_def sha256_hex_def)
  moreover have "latch_state_hash sha (?st\<lparr>st_content_hash := h\<rparr>) = Inr h"
    using h by (simp add: latch_state_hash_def)
  ultimately show ?thesis
    using h latch_state_of_guards [OF assms(2,3)]
    by (auto simp: create_latch_state_def validate_latch_state_def)
qed

lemma valid_event_hash: "validate_latch_event sha e = Inr e \<Longrightarrow> is_hash (ev_content_hash e)"
  by (auto simp: validate_latch_event_def latch_guard_hash_def)

lemma from_events_iff:
  assumes sha: "\<forall>s. is_hash (sha s)" and eh: "is_hash eh"
    and valid: "\<forall>e \<in> set es. validate_latch_event sha e = Inr e"
  shows "(\<exists>st. from_events sha eh es = Inr st) \<longleftrightarrow> history_ok eh es \<and> length es \<le> LATCH_HISTORY_CAPACITY"
proof -
  have hs: "\<forall>h \<in> set (ordered_hashes es). is_hash h" and len: "length (ordered_hashes es) = length es"
    using valid valid_event_hash by (auto simp: ordered_hashes_def)
  have "(\<exists>source. latch_source_hash sha eh (ordered_hashes es) = Inr source) \<longleftrightarrow> length es \<le> LATCH_HISTORY_CAPACITY"
    using source_hash_limits [OF eh hs] len
    by (auto simp: latch_source_hash_def sha256_hex_def canonical_json_bytes_iff)
  moreover have "latch_source_hash sha eh (ordered_hashes es) = Inr source \<Longrightarrow> is_hash source" for source
    using sha by (auto simp: latch_source_hash_def sha256_hex_def)
  ultimately show ?thesis
    unfolding from_events_Inr using create_latch_state_Inr [OF sha eh] eh by blast
qed

section \<open>Order of arrival\<close>

lemma stream_perm:
  assumes "mset es = mset es'" and "contiguous (stream k es)"
  shows "stream k es' = stream k es"
  unfolding stream_def [of k es']
proof (rule sort_key_inj_key_eq)
  show m: "mset (filter (\<lambda>e. ev_latch_type e = k) es') = mset (stream k es)"
    using assms(1) by (simp add: stream_def)
  have "distinct (map ev_sequence (stream k es))"
    using assms(2) unfolding contiguous_def by (metis distinct_upto)
  then show "inj_on ev_sequence (set (filter (\<lambda>e. ev_latch_type e = k) es'))"
    using m by (metis distinct_map mset_eq_setD)
  show "sorted (map ev_sequence (stream k es))" by (simp add: stream_def)
qed

lemma history_key_inj:
  assumes "history_ok eh es"
  shows "inj_on (\<lambda>e. (kind_value (ev_latch_type e), ev_sequence e)) (set es)"
proof (rule inj_onI)
  fix x y assume xy: "x \<in> set es" "y \<in> set es"
    and "(kind_value (ev_latch_type x), ev_sequence x) = (kind_value (ev_latch_type y), ev_sequence y)"
  then have k: "ev_latch_type y = ev_latch_type x" and s: "ev_sequence x = ev_sequence y"
    using inj_onD [OF inj_kind_value [of UNIV]] by auto
  let ?s = "stream (ev_latch_type x) es"
  have "distinct (map ev_sequence ?s)"
    using assms unfolding history_ok_def contiguous_def by (metis distinct_upto)
  moreover have "x \<in> set ?s" "y \<in> set ?s" using xy k by (simp_all add: stream_def)
  ultimately show "x = y" using s by (auto simp: distinct_map dest: inj_onD)
qed

lemma history_ok_perm:
  assumes "mset es = mset es'" and "history_ok eh es"
  shows "history_ok eh es'" and "ordered_hashes es' = ordered_hashes es"
    and "latch_state_of eh es' source = latch_state_of eh es source"
proof -
  have st: "stream k es' = stream k es" for k
    using stream_perm [OF assms(1)] assms(2) by (simp add: history_ok_def)
  have sets: "set es' = set es" and ids: "mset (map latch_event_id es') = mset (map latch_event_id es)"
    using assms(1) by (metis mset_eq_setD, metis mset_map)
  then have "distinct (map latch_event_id es')"
    using assms(2) by (metis history_ok_def mset_eq_imp_distinct_iff)
  with assms(2) sets st show "history_ok eh es'" by (simp add: history_ok_def)
  have "sort_key (\<lambda>e. (kind_value (ev_latch_type e), ev_sequence e)) es' =
      sort_key (\<lambda>e. (kind_value (ev_latch_type e), ev_sequence e)) es"
    using assms history_key_inj [OF assms(2)] by (intro sort_key_inj_key_eq) (simp_all add: sets)
  then show "ordered_hashes es' = ordered_hashes es" by (simp add: ordered_hashes_def)
  have "length es' = length es" using assms(1) by (metis size_mset)
  with st show "latch_state_of eh es' source = latch_state_of eh es source" by (simp add: latch_state_of_def)
qed

section \<open>Appending to a history\<close>

lemma replay_append: "replay b (xs @ ys) = bindE (replay b xs) (\<lambda>b. replay b ys)"
  by (induction b xs rule: replay.induct) auto

lemma from_events_state:
  assumes "from_events sha eh es = Inr st"
  shows "st_experiment_hash st = eh" and "latch_is_active st k \<longleftrightarrow> engaged_after (stream k es)"
    and "next_sequence st k = int (length (stream k es)) + 1"
proof -
  obtain source h where st: "st = (latch_state_of eh es source)\<lparr>st_content_hash := h\<rparr>"
    using assms by (auto simp: from_events_Inr create_latch_state_def validate_latch_state_def)
  show "st_experiment_hash st = eh" "latch_is_active st k \<longleftrightarrow> engaged_after (stream k es)"
    by (simp_all add: st latch_state_of_def latch_is_active_def)
  show "next_sequence st k = int (length (stream k es)) + 1"
    by (cases k) (simp_all add: st latch_state_of_def next_sequence_def dict_get_def KINDS_def)
qed

lemma create_latch_event_Inr:
  assumes "create_latch_event sha x = Inr e"
  shows "validate_latch_event sha e = Inr e \<and> ev_experiment_hash e = ev_experiment_hash x \<and>
    ev_latch_type e = ev_latch_type x \<and> ev_sequence e = ev_sequence x \<and> ev_action e = ev_action x"
  using assms by (auto simp: create_latch_event_def validate_latch_event_def)

text \<open>An event appended by an engagement or by an authenticated clear.\<close>

inductive appends :: "sha256 \<Rightarrow> RiskLatchState \<Rightarrow> RiskLatchKind \<Rightarrow> RiskLatchEvent \<Rightarrow> bool" for sha st k where
  engage: "create_latch_engagement sha st k r = Inr e \<Longrightarrow> appends sha st k e"
| clear: "create_authenticated_latch_clear sha st k authenticated acknowledgement r = Inr e \<Longrightarrow> appends sha st k e"

lemma appends_event:
  assumes "appends sha st k e"
  shows "validate_latch_event sha e = Inr e \<and> ev_experiment_hash e = st_experiment_hash st \<and>
    ev_latch_type e = k \<and> ev_sequence e = next_sequence st k \<and>
    (ev_action e = ENGAGED \<longleftrightarrow> \<not> latch_is_active st k)"
  using assms
  by cases (auto simp: create_latch_engagement_def create_authenticated_latch_clear_def latch_event_of_def
      dest!: create_latch_event_Inr)

lemma stream_append_event:
  assumes "contiguous (stream k es)" and "ev_latch_type e = k" and "ev_sequence e = int (length (stream k es)) + 1"
  shows "stream k (es @ [e]) = stream k es @ [e]" and "contiguous (stream k es @ [e])"
proof -
  have up: "map ev_sequence (stream k es @ [e]) = [1..int (length (stream k es)) + 1]"
    using assms by (simp add: contiguous_def upto_rec2)
  then show "contiguous (stream k es @ [e])" by (simp add: contiguous_def add.commute)
  have m: "mset (filter (\<lambda>e. ev_latch_type e = k) (es @ [e])) = mset (stream k es @ [e])"
    using assms(2) by (simp add: stream_def)
  have "distinct (map ev_sequence (stream k es @ [e]))" by (simp only: up distinct_upto)
  then have "inj_on ev_sequence (set (filter (\<lambda>e. ev_latch_type e = k) (es @ [e])))"
    unfolding mset_eq_setD [OF m] by (simp only: distinct_map)
  moreover have "sorted (map ev_sequence (stream k es @ [e]))" by (simp only: up sorted_upto)
  ultimately show "stream k (es @ [e]) = stream k es @ [e]"
    unfolding stream_def [of k "es @ [e]"] by (rule sort_key_inj_key_eq [OF m])
qed

lemma history_ok_append:
  assumes ok: "history_ok eh es" and e: "ev_experiment_hash e = eh" "ev_latch_type e = k"
      "ev_sequence e = int (length (stream k es)) + 1" "ev_action e = ENGAGED \<longleftrightarrow> \<not> engaged_after (stream k es)"
    and fresh: "latch_event_id e \<notin> latch_event_id ` set es"
  shows "history_ok eh (es @ [e])" and "engaged_after (stream k (es @ [e])) \<longleftrightarrow> \<not> engaged_after (stream k es)"
    and "j \<noteq> k \<Longrightarrow> stream j (es @ [e]) = stream j es"
proof -
  have c: "contiguous (stream k es)" and "alternates (stream k es)" using ok by (auto simp: history_ok_def)
  then obtain b where b: "replay False (stream k es) = Inr b" by (auto simp: replay_False)
  note s = stream_append_event [OF c e(2,3)]
  have "replay False (stream k (es @ [e])) = Inr (\<not> b)"
    using b e(4) by (auto simp: s(1) replay_append replay_False)
  then have new: "alternates (stream k (es @ [e]))"
      and eng: "engaged_after (stream k (es @ [e])) \<longleftrightarrow> \<not> b" by (auto simp: replay_False)
  show "engaged_after (stream k (es @ [e])) \<longleftrightarrow> \<not> engaged_after (stream k es)"
    using eng b by (simp add: replay_False)
  show other: "stream j (es @ [e]) = stream j es" if "j \<noteq> k" for j
    using that e(2) by (simp add: stream_def)
  have "contiguous (stream j (es @ [e])) \<and> alternates (stream j (es @ [e]))" for j
    using other [of j] ok s new by (cases "j = k") (auto simp: history_ok_def)
  then show "history_ok eh (es @ [e])" using ok e(1) fresh by (auto simp: history_ok_def)
qed

lemma latch_append_ok:
  assumes sha: "\<forall>s. is_hash (sha s)" and valid: "\<forall>x \<in> set es. validate_latch_event sha x = Inr x"
    and st: "from_events sha eh es = Inr st" and e: "appends sha st k e"
    and fresh: "latch_event_id e \<notin> latch_event_id ` set es" and room: "length es < LATCH_HISTORY_CAPACITY"
  shows "\<exists>st'. from_events sha eh (es @ [e]) = Inr st' \<and>
    (\<forall>j. latch_is_active st' j \<longleftrightarrow> (if j = k then ev_action e = ENGAGED else latch_is_active st j)) \<and>
    (\<forall>j. next_sequence st' j = next_sequence st j + (if j = k then 1 else 0))"
proof -
  note now = from_events_state [OF st]
  have eh: "is_hash eh" and ok: "history_ok eh es" using st by (simp_all add: from_events_Inr)
  note ev = appends_event [OF e]
  have "history_ok eh (es @ [e])" and flip: "engaged_after (stream k (es @ [e])) \<longleftrightarrow> \<not> engaged_after (stream k es)"
      and other: "\<And>j. j \<noteq> k \<Longrightarrow> stream j (es @ [e]) = stream j es"
    using history_ok_append [OF ok _ _ _ _ fresh, of k] ev now by auto
  then obtain st' where st': "from_events sha eh (es @ [e]) = Inr st'"
    using from_events_iff [OF sha eh, of "es @ [e]"] valid ev room by auto
  have "stream k (es @ [e]) = stream k es @ [e]"
    using stream_append_event(1) [of k es e] ok ev now by (simp add: history_ok_def)
  then show ?thesis
    using st' from_events_state [OF st'] now flip other ev by (intro exI [of _ st']) auto
qed

section \<open>Triggers\<close>

lemma relative_change_bounds:
  assumes base: "0 < dval base" and q: "relative_change equity base = Inr q"
    and t: "drepr 50 t" "drepr 50 (Dec (coeff t * coeff base) (expo t + expo base))"
  shows "dval equity - dval base \<le> dval t * dval base \<Longrightarrow> dval q \<le> dval t"
    and "dval base \<le> dval equity \<Longrightarrow> 0 \<le> dval q"
proof -
  have div: "ddiv 50 (dsub 50 equity base) base = Some q"
    using q by (simp add: relative_change_def split: option.splits)
  obtain s where s: "dsub 50 equity base = dfix 50 s" "dval s = dval equity - dval base"
    using dsub_val by blast
  have prod: "dval (Dec (coeff t * coeff base) (expo t + expo base)) = dval t * dval base"
    by (simp add: dval_def powi_add)
  show "dval q \<le> dval t" if "dval equity - dval base \<le> dval t * dval base"
  proof (rule ddiv_bounds(1) [OF _ base div t(1)])
    have "dval (dsub 50 equity base) \<le> dval t * dval base"
      using c50.rnd_le_fits [OF t(2), of s] that by (simp add: s prod)
    then show "dval (dsub 50 equity base) / dval base \<le> dval t" using base by (simp add: divide_le_eq)
  qed simp
  show "0 \<le> dval q" if "dval base \<le> dval equity"
    using ddiv_bounds(2) [OF _ base div c50.fits_zero] c50.rnd_nonneg [of s] that base by (simp add: s)
qed

text \<open>A breach that exceeds the trigger by one rounding unit of the base is not lost in the rounding.\<close>

lemma relative_change_margin:
  assumes base: "0 < dval base" and q: "relative_change equity base = Inr q"
    and t: "drepr 50 t" "ulp50 - 1 \<le> dval t" "dval t \<le> 0"
    and breach: "dval equity - dval base \<le> (dval t - ulp50) * dval base"
  shows "dval q \<le> dval t"
proof (rule ddiv_bounds(1) [OF _ base _ t(1)])
  show "ddiv 50 (dsub 50 equity base) base = Some q" using q by (simp add: relative_change_def split: option.splits)
  obtain s where s: "dsub 50 equity base = dfix 50 s" "dval s = dval equity - dval base"
    using dsub_val by blast
  have "dval s / dval base \<le> dval t - ulp50" using breach base by (simp add: s(2) divide_le_eq)
  moreover have "(dval t - ulp50) * dval base \<le> 0" using base t(3) ulp50_bounds(1) by (intro mult_nonpos_nonneg) simp_all
  then have "dval s \<le> 0" using breach by (simp add: s(2))
  then have "dval (dsub 50 equity base) / dval base \<le> (1 - ulp50) * (dval s / dval base)"
    unfolding s(1) times_divide_eq_right using a50.rnd_below [of s] base by (intro divide_right_mono) simp_all
  moreover have "(1 - ulp50) * (dval s / dval base) \<le> (1 - ulp50) * (dval t - ulp50)"
    using calculation(1) ulp50_bounds by (intro mult_left_mono) auto
  moreover have "(1 - ulp50) * (dval t - ulp50) \<le> dval t"
  proof -
    have "0 \<le> ulp50 * (1 + dval t - ulp50)" using ulp50_bounds t(2) by simp
    then show ?thesis by (simp add: algebra_simps)
  qed
  ultimately show "dval (dsub 50 equity base) / dval base \<le> dval t" by linarith
qed simp

lemma small_trigger:
  assumes "ndigits \<bar>coeff base\<bar> \<le> 48" and "\<bar>c\<bar> < 100"
  shows "drepr 50 (Dec c e)" and "drepr 50 (Dec (c * coeff base) x)"
proof -
  have b: "\<bar>coeff base\<bar> < p10 48" using assms(1) by (simp add: ndigits_le_iff)
  have "\<bar>c * coeff base\<bar> \<le> 99 * p10 48"
    unfolding abs_mult using assms(2) b by (intro mult_mono) auto
  also have "\<dots> < p10 50" by (simp add: p10_def)
  finally show "drepr 50 (Dec (c * coeff base) x)" by (simp add: drepr_def ndigits_le_iff)
  have "\<bar>c\<bar> < p10 50" using assms(2) by (simp add: p10_def)
  then show "drepr 50 (Dec c e)" by (simp add: drepr_def ndigits_le_iff)
qed

lemma relative_change_nonneg:
  assumes "0 < dval base" "relative_change equity base = Inr q" "dval base \<le> dval equity"
  shows "0 \<le> dval q"
  using relative_change_bounds(2) [OF assms(1,2), of dzero] assms(3) by (simp add: drepr_def ndigits.simps)

lemma breach_not_rounded:
  assumes base: "0 < dval base" and q: "relative_change equity base = Inr q"
    and t: "\<bar>coeff t\<bar> < 100" "ulp50 - 1 \<le> dval t" "dval t \<le> 0"
    and breach: "dval equity \<le> (1 + dval t - (if ndigits \<bar>coeff base\<bar> \<le> 48 then 0 else ulp50)) * dval base"
  shows "dval q \<le> dval t"
proof (cases "ndigits \<bar>coeff base\<bar> \<le> 48")
  case True
  obtain c e where ce: "t = Dec c e" by (cases t)
  have "dval equity - dval base \<le> dval t * dval base" using breach True by (simp add: algebra_simps)
  then show ?thesis
    using relative_change_bounds(1) [OF base q, of t] small_trigger [OF True, of c] t(1) by (simp add: ce)
next
  case False
  have "\<bar>coeff t\<bar> < p10 50" using t(1) by (simp add: p10_def)
  then have "drepr 50 t" by (simp add: drepr_def ndigits_le_iff)
  moreover have "dval equity - dval base \<le> (dval t - ulp50) * dval base" using breach False by (simp add: algebra_simps)
  ultimately show ?thesis using relative_change_margin [OF base q _ t(2,3)] by blast
qed

section \<open>The guarantees\<close>

text \<open>
  C10. Restart recovery: given digests of the right shape and validated events of one experiment,
  \<open>from_events\<close> succeeds exactly if the identifiers are distinct, every latch stream is numbered
  1, 2, ..., n and alternates between engaged and cleared, and there are at most 4092 events (the
  canonical encoder's node budget). The recovered state reports a latch active exactly if its
  last event engages it, and hands out the next sequence number of every stream.
\<close>

theorem latch_recovery:
  assumes "\<forall>s. is_hash (sha s)" and "is_hash eh" and "\<forall>e \<in> set es. validate_latch_event sha e = Inr e"
  shows "((\<exists>st. from_events sha eh es = Inr st) \<longleftrightarrow> history_ok eh es \<and> length es \<le> LATCH_HISTORY_CAPACITY) \<and>
    (\<forall>st k. from_events sha eh es = Inr st \<longrightarrow>
       (latch_is_active st k \<longleftrightarrow> engaged_after (stream k es)) \<and>
       next_sequence st k = int (length (stream k es)) + 1)"
  using from_events_iff [OF assms] from_events_state by blast

text \<open>An engagement of the session-loss latch on an empty history, under a constant digest.\<close>

definition sample_request :: latch_request where
  "sample_request = \<lparr>rq_reason_code = ''session_loss'', rq_actor = ''risk'', rq_occurred_at = 1000000,
     rq_correlation_id = ''correlation_'' @ sample_hash, rq_idempotency_key = ''k1''\<rparr>"

definition sample_engagement :: "RiskLatchEvent res" where
  "sample_engagement = bindE (from_events (\<lambda>_. sample_hash) sample_hash [])
     (\<lambda>st. create_latch_engagement (\<lambda>_. sample_hash) st SESSION_LOSS sample_request)"

lemma sample_engagement_ok: "case sample_engagement of Inr e \<Rightarrow> ev_action e = ENGAGED | Inl _ \<Rightarrow> False"
  by code_simp

lemma sample_engagement_event:
  obtains e st where "from_events (\<lambda>_. sample_hash) sample_hash [] = Inr st"
    and "create_latch_engagement (\<lambda>_. sample_hash) st SESSION_LOSS sample_request = Inr e"
    and "ev_action e = ENGAGED"
  using res_evaluates [OF sample_engagement_ok] unfolding sample_engagement_def bindE_Inr_iff
  by (elim exE conjE) (rule that)

text \<open>
  A history of two events: the session-loss latch is engaged and cleared again. The digest looks at
  one character of the encoding: the first letter of an event's action, or of the hash its identifier
  is made from.
\<close>

definition action_digest :: sha256 where
  "action_digest s = replicate 64 (if take 1 (drop 11 s) = ''C'' \<or> take 1 (drop 21 s) = ''b'' then CHR ''b'' else CHR ''a'')"

definition sample_event :: "int \<Rightarrow> RiskLatchAction \<Rightarrow> RiskLatchEvent" where
  "sample_event n a = \<lparr>latch_event_id = '''', ev_experiment_hash = sample_hash, ev_latch_type = SESSION_LOSS,
     ev_sequence = n, ev_action = a, ev_reason_code = ''session_loss'', ev_actor = ''risk'', ev_occurred_at = 1000000,
     ev_correlation_id = ''correlation_'' @ sample_hash, ev_idempotency_key = ''k1'', ev_payload_hash = '''',
     ev_content_hash = ''''\<rparr>"

lemma sample_events:
  obtains e c where "create_latch_event action_digest (sample_event 1 ENGAGED) = Inr e"
    "create_latch_event action_digest (sample_event 2 CLEARED) = Inr c" "latch_event_id e \<noteq> latch_event_id c"
proof -
  have "case create_latch_event action_digest (sample_event 1 ENGAGED) of
      Inr e \<Rightarrow> hd (drop 6 (latch_event_id e)) = CHR ''a'' | Inl _ \<Rightarrow> False"
    "case create_latch_event action_digest (sample_event 2 CLEARED) of
      Inr e \<Rightarrow> hd (drop 6 (latch_event_id e)) = CHR ''b'' | Inl _ \<Rightarrow> False"
    by code_simp+
  then obtain e c where e: "create_latch_event action_digest (sample_event 1 ENGAGED) = Inr e"
      "hd (drop 6 (latch_event_id e)) = CHR ''a''"
    and c: "create_latch_event action_digest (sample_event 2 CLEARED) = Inr c" "hd (drop 6 (latch_event_id c)) = CHR ''b''"
    by (auto split: sum.splits)
  then have "latch_event_id e \<noteq> latch_event_id c" by auto
  with e(1) c(1) show thesis by (rule that)
qed

theorem latch_recovery_witness:
  "\<exists>e c st. from_events action_digest sample_hash [e, c] = Inr st \<and> ev_action e = ENGAGED \<and> ev_action c = CLEARED \<and>
     \<not> latch_is_active st SESSION_LOSS \<and> next_sequence st SESSION_LOSS = 3"
proof -
  obtain e c where make: "create_latch_event action_digest (sample_event 1 ENGAGED) = Inr e"
    "create_latch_event action_digest (sample_event 2 CLEARED) = Inr c" and ids: "latch_event_id e \<noteq> latch_event_id c"
    by (rule sample_events)
  have f: "ev_experiment_hash e = sample_hash" "ev_latch_type e = SESSION_LOSS" "ev_sequence e = 1" "ev_action e = ENGAGED"
    "ev_experiment_hash c = sample_hash" "ev_latch_type c = SESSION_LOSS" "ev_sequence c = 2" "ev_action c = CLEARED"
    and valid: "\<forall>x \<in> set [e, c]. validate_latch_event action_digest x = Inr x"
    using create_latch_event_Inr [OF make(1)] create_latch_event_Inr [OF make(2)] by (simp_all add: sample_event_def)
  have d: "\<forall>s. is_hash (action_digest s)" by (simp add: action_digest_def is_hash_def is_hex_def list_all_iff)
  have eh: "is_hash sample_hash" by code_simp
  note r = latch_recovery [OF d eh valid]
  have stream: "stream k [e, c] = (if k = SESSION_LOSS then [e, c] else [])" for k
    using f by (simp add: stream_def)
  have "history_ok sample_hash [e, c]"
    using f ids by (simp add: history_ok_def stream contiguous_def alternates_def All_less_Suc2 upto_rec1)
  then obtain st where "from_events action_digest sample_hash [e, c] = Inr st"
    using r by (auto simp: LATCH_HISTORY_CAPACITY_def)
  then show ?thesis using r f by (intro exI [of _ e] exI [of _ c] exI [of _ st]) (simp add: stream engaged_after_def)
qed

text \<open>
  Recovery does not depend on the order in which the events are read: any rearrangement of a
  history reconstructs the same state, hashes included.
\<close>

lemma latch_recovery_order_free:
  assumes "mset es = mset es'"
  shows "from_events sha eh es = Inr st \<longleftrightarrow> from_events sha eh es' = Inr st"
  using history_ok_perm [OF assms] history_ok_perm [OF assms [symmetric]] unfolding from_events_Inr by metis

text \<open>
  C22. Appending preserves recoverability: an event made by an engagement or by an authenticated
  clear from the state of a history extends it to a history that reconstructs again, in which
  exactly the latch of the event has changed its state, and only its stream moved on by one.
  A fresh identifier is what the hash function provides; the room is the bound of the history.
\<close>

theorem latch_append_preserves_history:
  assumes "\<forall>s. is_hash (sha s)" and "\<forall>x \<in> set es. validate_latch_event sha x = Inr x"
    and "from_events sha eh es = Inr st" and "appends sha st k e"
    and "latch_event_id e \<notin> latch_event_id ` set es" and "length es < LATCH_HISTORY_CAPACITY"
  shows "\<exists>st'. from_events sha eh (es @ [e]) = Inr st' \<and>
    (\<forall>j. latch_is_active st' j \<longleftrightarrow> (if j = k then ev_action e = ENGAGED else latch_is_active st j)) \<and>
    (\<forall>j. next_sequence st' j = next_sequence st j + (if j = k then 1 else 0))"
  using latch_append_ok [OF assms] .

theorem latch_append_preserves_history_witness:
  "\<exists>st e st'. from_events (\<lambda>_. sample_hash) sample_hash [] = Inr st \<and> appends (\<lambda>_. sample_hash) st SESSION_LOSS e \<and>
     from_events (\<lambda>_. sample_hash) sample_hash [e] = Inr st' \<and> latch_is_active st' SESSION_LOSS"
proof -
  obtain e st where e: "from_events (\<lambda>_. sample_hash) sample_hash [] = Inr st"
      "create_latch_engagement (\<lambda>_. sample_hash) st SESSION_LOSS sample_request = Inr e" "ev_action e = ENGAGED"
    by (rule sample_engagement_event)
  from e(2) have "appends (\<lambda>_. sample_hash) st SESSION_LOSS e" by (rule appends.engage)
  then show ?thesis
    using latch_append_preserves_history [of "\<lambda>_. sample_hash" "[]" sample_hash st SESSION_LOSS e] e(1,3)
    by (auto simp: LATCH_HISTORY_CAPACITY_def)
qed

text \<open>
  C23. A breach of the loss and drawdown limits is reported: whenever an assessment is computed and
  the equity is down by 2% of the session's start or 15% of the high-water mark, and by one rounding
  unit of that base more (\<open>ulp50\<close>, 1e-49), the latch is reported unless it is active already. For
  bases of at most 48 digits this holds from the limit itself, so no rounding is felt; and equity at
  or above the base never engages a latch. The comparison is with the exact quotient.
\<close>

theorem financial_breach_engages:
  assumes "assess_financial_latches sha equity session_start high_water st SESSION_LOSS_TRIGGER
      DEPLOYMENT_DRAWDOWN_TRIGGER = Inr a"
  shows "(dval equity \<le> (98 / 100 - (if ndigits \<bar>coeff session_start\<bar> \<le> 48 then 0 else ulp50)) * dval session_start \<longrightarrow>
      SESSION_LOSS \<in> set (fa_engage a) \<or> latch_is_active st SESSION_LOSS) \<and>
    (dval equity \<le> (85 / 100 - (if ndigits \<bar>coeff high_water\<bar> \<le> 48 then 0 else ulp50)) * dval high_water \<longrightarrow>
      DEPLOYMENT_DRAWDOWN \<in> set (fa_engage a) \<or> latch_is_active st DEPLOYMENT_DRAWDOWN) \<and>
    (dval session_start \<le> dval equity \<longrightarrow> SESSION_LOSS \<notin> set (fa_engage a)) \<and>
    (dval high_water \<le> dval equity \<longrightarrow> DEPLOYMENT_DRAWDOWN \<notin> set (fa_engage a))"
proof -
  obtain s d where pos: "0 < dval session_start" "0 < dval high_water"
      and s: "relative_change equity session_start = Inr s" and d: "relative_change equity high_water = Inr d"
      and e: "SESSION_LOSS \<in> set (fa_engage a) \<longleftrightarrow> dle s SESSION_LOSS_TRIGGER \<and> \<not> latch_is_active st SESSION_LOSS"
        "DEPLOYMENT_DRAWDOWN \<in> set (fa_engage a) \<longleftrightarrow>
           dle d DEPLOYMENT_DRAWDOWN_TRIGGER \<and> \<not> latch_is_active st DEPLOYMENT_DRAWDOWN"
    using assms
    by (auto simp: assess_financial_latches_def validate_assessment_def Let_def latch_guard_defs dle_iff not_le)
  have t: "dval SESSION_LOSS_TRIGGER = - (2 / 100)" "dval DEPLOYMENT_DRAWDOWN_TRIGGER = - (15 / 100)"
    by (simp_all add: SESSION_LOSS_TRIGGER_def DEPLOYMENT_DRAWDOWN_TRIGGER_def dval_def power_int_minus field_simps)
  have u: "ulp50 \<le> 1 / 10" by (simp add: ulp50_def)
  have "dval s \<le> - (2 / 100)"
    if "dval equity \<le> (98 / 100 - (if ndigits \<bar>coeff session_start\<bar> \<le> 48 then 0 else ulp50)) * dval session_start"
    using breach_not_rounded [OF pos(1) s, of SESSION_LOSS_TRIGGER] that u unfolding t
    by (simp add: SESSION_LOSS_TRIGGER_def)
  moreover have "dval d \<le> - (15 / 100)"
    if "dval equity \<le> (85 / 100 - (if ndigits \<bar>coeff high_water\<bar> \<le> 48 then 0 else ulp50)) * dval high_water"
    using breach_not_rounded [OF pos(2) d, of DEPLOYMENT_DRAWDOWN_TRIGGER] that u unfolding t
    by (simp add: DEPLOYMENT_DRAWDOWN_TRIGGER_def)
  moreover have "dval session_start \<le> dval equity \<Longrightarrow> 0 \<le> dval s" "dval high_water \<le> dval equity \<Longrightarrow> 0 \<le> dval d"
    using relative_change_nonneg [OF pos(1) s] relative_change_nonneg [OF pos(2) d] by blast+
  ultimately show ?thesis using e t by (auto simp: dle_iff)
qed

definition sample_assessment :: "FinancialLatchAssessment res" where
  "sample_assessment = bindE (from_events (\<lambda>_. sample_hash) sample_hash [])
     (\<lambda>st. assess_financial_latches (\<lambda>_. sample_hash) (Dec 98 3) (Dec 1 5) (Dec 1 5) st
        SESSION_LOSS_TRIGGER DEPLOYMENT_DRAWDOWN_TRIGGER)"

theorem financial_breach_engages_witness:
  "\<exists>st a. assess_financial_latches (\<lambda>_. sample_hash) (Dec 98 3) (Dec 1 5) (Dec 1 5) st
     SESSION_LOSS_TRIGGER DEPLOYMENT_DRAWDOWN_TRIGGER = Inr a \<and> SESSION_LOSS \<in> set (fa_engage a)"
proof -
  have "case sample_assessment of Inr a \<Rightarrow> True | Inl _ \<Rightarrow> False" by code_simp
  then obtain st a where st: "from_events (\<lambda>_. sample_hash) sample_hash [] = Inr st"
      and a: "assess_financial_latches (\<lambda>_. sample_hash) (Dec 98 3) (Dec 1 5) (Dec 1 5) st
        SESSION_LOSS_TRIGGER DEPLOYMENT_DRAWDOWN_TRIGGER = Inr a"
    by (auto simp: sample_assessment_def dest!: res_evaluates)
  have "\<not> latch_is_active st SESSION_LOSS"
    using from_events_state(2) [OF st] by (simp add: stream_def engaged_after_def)
  then show ?thesis
    using a financial_breach_engages [OF a] by (auto simp: dval_def ndigits.simps)
qed














end
