(* ===== verification/Risk_Decisions.thy ===== *)
theory Risk_Decisions
  imports Risk_Latches Risk_Policy
begin

text \<open>
  The hash-bound inputs and the receipt of the signed-risk boundary (\<open>risk/models.py\<close>): account,
  positions, prices, security metadata, the three hashed snapshots, and \<open>RiskDecision\<close> with the
  consistency rules of \<open>_validate_risk_decision\<close>. \<open>RiskEvaluationRequest\<close> is in \<open>Risk_Engine\<close>.
\<close>

section \<open>Validation helpers\<close>

abbreviation risk_error :: "string \<Rightarrow> error" where
  "risk_error \<equiv> SignedRiskValidationError"

definition risk_guard_hash :: "string \<Rightarrow> string \<Rightarrow> bool \<times> error" where
  "risk_guard_hash s field = (\<not> is_hash s, risk_error (field @ '' must be lowercase SHA-256''))"

definition risk_guard_symbol :: "string \<Rightarrow> bool \<times> error" where
  "risk_guard_symbol s = (\<not> is_symbol s, risk_error ''symbol is invalid'')"

definition risk_guard_decimal :: "decimal \<Rightarrow> string \<Rightarrow> bool \<times> error" where
  "risk_guard_decimal d field = (\<not> domain_decimal d, risk_error (field @ '' must be a finite exact decimal''))"

lemmas risk_guard_defs = risk_guard_hash_def risk_guard_symbol_def risk_guard_decimal_def

definition symbols_out_of_order :: "string list \<Rightarrow> bool" where
  "symbols_out_of_order ss \<longleftrightarrow> ss \<noteq> sort ss \<or> \<not> distinct ss"

definition named_decimal_guards :: "(string \<times> decimal) list \<Rightarrow> string \<Rightarrow> string \<Rightarrow> (bool \<times> error) list" where
  "named_decimal_guards ws field label =
     concat (map (\<lambda>(s, v). [risk_guard_symbol s, risk_guard_decimal v label]) ws) @
     [(symbols_out_of_order (map fst ws), risk_error (field @ '' symbols must be unique and ordered''))]"

definition symbol_tuple_guards :: "string list \<Rightarrow> bool \<Rightarrow> (bool \<times> error) list" where
  "symbol_tuple_guards ss allow_empty =
     map risk_guard_symbol ss @
     [(\<not> allow_empty \<and> ss = [], risk_error ''symbols must not be empty''),
      (symbols_out_of_order ss, risk_error ''symbols must be unique and alphabetically ordered'')]"

section \<open>Snapshots\<close>

datatype RiskExecutionScope = FULL | NONE_SCOPE | RISK_REDUCING_ONLY

fun scope_value :: "RiskExecutionScope \<Rightarrow> string" where
  "scope_value FULL = ''FULL''"
| "scope_value NONE_SCOPE = ''NONE''"
| "scope_value RISK_REDUCING_ONLY = ''RISK_REDUCING_ONLY''"

record AccountSnapshot =
  as_account_id_hash :: string
  as_equity :: decimal
  as_cash :: decimal
  as_buying_power :: decimal
  as_observed_at :: int

definition account_snapshot_guards :: "AccountSnapshot \<Rightarrow> (bool \<times> error) list" where
  "account_snapshot_guards a =
     [risk_guard_hash (as_account_id_hash a) ''account_id_hash'',
      risk_guard_decimal (as_equity a) ''account_equity'',
      risk_guard_decimal (as_cash a) ''account_cash'',
      risk_guard_decimal (as_buying_power a) ''buying_power'',
      (dlt (as_equity a) dzero, risk_error ''account equity cannot be negative''),
      (dlt (as_buying_power a) dzero, risk_error ''buying power cannot be negative'')]"

record SignedPosition =
  sp_symbol :: string
  sp_quantity :: decimal

definition signed_position_guards :: "SignedPosition \<Rightarrow> (bool \<times> error) list" where
  "signed_position_guards p = [risk_guard_symbol (sp_symbol p), risk_guard_decimal (sp_quantity p) ''position_quantity'']"

record PlanningPrice =
  pp_symbol :: string
  pp_price :: decimal
  pp_observed_at :: int
  pp_validated :: bool

definition planning_price_guards :: "PlanningPrice \<Rightarrow> (bool \<times> error) list" where
  "planning_price_guards p =
     [risk_guard_symbol (pp_symbol p), risk_guard_decimal (pp_price p) ''planning_price'',
      (dle (pp_price p) dzero, risk_error ''planning price must be positive'')]"

record SecurityMetadataSnapshot =
  sm_symbol :: string
  sm_asset_active :: bool
  sm_tradable :: bool
  sm_shortable :: bool
  sm_easy_to_borrow :: bool
  sm_primary_listing_eligible :: bool
  sm_broker_capability_known :: bool
  sm_observed_at :: int

definition security_metadata_guards :: "SecurityMetadataSnapshot \<Rightarrow> (bool \<times> error) list" where
  "security_metadata_guards m = [risk_guard_symbol (sm_symbol m)]"

record OpenOrderSnapshot =
  oo_reserved_signed_notional :: "(string \<times> decimal) list"
  oo_conflicting_symbols :: "string list"
  oo_ambiguous_order_exists :: bool
  oo_observed_at :: int
  oo_content_hash :: string

definition open_order_digest :: "sha256 \<Rightarrow> OpenOrderSnapshot \<Rightarrow> string res" where
  "open_order_digest sha x = sha256_hex sha (PMap
     [(''ambiguous_order_exists'', PBool (oo_ambiguous_order_exists x)),
      (''conflicting_symbols'', PSeq (map PStr (oo_conflicting_symbols x))),
      (''observed_at'', PTime (oo_observed_at x)),
      (''reserved_signed_notional'', pval_weights (oo_reserved_signed_notional x)),
      (''schema'', PStr ''open-order-risk-snapshot-v1'')])"

definition validate_open_orders :: "sha256 \<Rightarrow> OpenOrderSnapshot \<Rightarrow> OpenOrderSnapshot res" where
  "validate_open_orders sha x =
     guarded (named_decimal_guards (oo_reserved_signed_notional x) ''reserved exposure'' ''reserved_exposure'' @
       symbol_tuple_guards (oo_conflicting_symbols x) True @
       [(\<not> set (oo_conflicting_symbols x) \<subseteq> fst ` set (oo_reserved_signed_notional x),
          risk_error ''open-order conflicts must reference reserved symbols''),
        risk_guard_hash (oo_content_hash x) ''open_order_hash''])
     (bindE (open_order_digest sha x) (\<lambda>h.
       guarded [(oo_content_hash x \<noteq> h, risk_error ''open-order snapshot hash is invalid'')] (Inr x)))"

text \<open>\<open>create\<close> freezes a mapping: its items in the order of the symbols.\<close>

definition create_open_orders :: "sha256 \<Rightarrow> (string, decimal) dict \<Rightarrow> string list \<Rightarrow> bool \<Rightarrow> int \<Rightarrow> OpenOrderSnapshot res" where
  "create_open_orders sha reserved conflicting ambiguous_order observed =
     guarded (concat (map (\<lambda>(s, v). [risk_guard_symbol s, risk_guard_decimal v ''reserved_notional'']) reserved))
     (let x = \<lparr>oo_reserved_signed_notional = sort_key fst reserved, oo_conflicting_symbols = conflicting,
         oo_ambiguous_order_exists = ambiguous_order, oo_observed_at = observed, oo_content_hash = ''''\<rparr>
      in bindE (open_order_digest sha x) (\<lambda>h. validate_open_orders sha (x\<lparr>oo_content_hash := h\<rparr>)))"

record ReconciliationSnapshot =
  rs_reconciled :: bool
  rs_ambiguous_order_exists :: bool
  rs_observed_at :: int
  rs_content_hash :: string

definition reconciliation_snapshot_digest :: "sha256 \<Rightarrow> ReconciliationSnapshot \<Rightarrow> string res" where
  "reconciliation_snapshot_digest sha x = sha256_hex sha (PMap
     [(''ambiguous_order_exists'', PBool (rs_ambiguous_order_exists x)),
      (''observed_at'', PTime (rs_observed_at x)),
      (''reconciled'', PBool (rs_reconciled x)),
      (''schema'', PStr ''risk-reconciliation-snapshot-v1'')])"

definition validate_reconciliation_snapshot :: "sha256 \<Rightarrow> ReconciliationSnapshot \<Rightarrow> ReconciliationSnapshot res" where
  "validate_reconciliation_snapshot sha x =
     guarded [risk_guard_hash (rs_content_hash x) ''reconciliation_hash'']
     (bindE (reconciliation_snapshot_digest sha x) (\<lambda>h.
       guarded [(rs_content_hash x \<noteq> h, risk_error ''reconciliation snapshot hash is invalid'')] (Inr x)))"

definition create_reconciliation_snapshot :: "sha256 \<Rightarrow> bool \<Rightarrow> bool \<Rightarrow> int \<Rightarrow> ReconciliationSnapshot res" where
  "create_reconciliation_snapshot sha reconciled ambiguous_order observed =
     (let x = \<lparr>rs_reconciled = reconciled, rs_ambiguous_order_exists = ambiguous_order, rs_observed_at = observed,
         rs_content_hash = ''''\<rparr>
      in bindE (reconciliation_snapshot_digest sha x) (\<lambda>h.
           validate_reconciliation_snapshot sha (x\<lparr>rs_content_hash := h\<rparr>)))"

record MarketIntegritySnapshot =
  mi_active_basket_complete :: bool
  mi_unresolved_gap :: bool
  mi_correction_uncertainty :: bool
  mi_supported_session :: bool
  mi_content_hash :: string

definition market_integrity_digest :: "sha256 \<Rightarrow> MarketIntegritySnapshot \<Rightarrow> string res" where
  "market_integrity_digest sha x = sha256_hex sha (PMap
     [(''active_basket_complete'', PBool (mi_active_basket_complete x)),
      (''correction_uncertainty'', PBool (mi_correction_uncertainty x)),
      (''schema'', PStr ''market-integrity-risk-snapshot-v1''),
      (''supported_session'', PBool (mi_supported_session x)),
      (''unresolved_gap'', PBool (mi_unresolved_gap x))])"

definition validate_market_integrity :: "sha256 \<Rightarrow> MarketIntegritySnapshot \<Rightarrow> MarketIntegritySnapshot res" where
  "validate_market_integrity sha x =
     bindE (market_integrity_digest sha x) (\<lambda>h.
       guarded [(mi_content_hash x \<noteq> h, risk_error ''market-integrity snapshot hash is invalid'')] (Inr x))"

definition create_market_integrity :: "sha256 \<Rightarrow> bool \<Rightarrow> bool \<Rightarrow> bool \<Rightarrow> bool \<Rightarrow> MarketIntegritySnapshot res" where
  "create_market_integrity sha basket gap uncertain supported =
     (let x = \<lparr>mi_active_basket_complete = basket, mi_unresolved_gap = gap, mi_correction_uncertainty = uncertain,
         mi_supported_session = supported, mi_content_hash = ''''\<rparr>
      in bindE (market_integrity_digest sha x) (\<lambda>h. validate_market_integrity sha (x\<lparr>mi_content_hash := h\<rparr>)))"

section \<open>Decisions\<close>

record RiskDecision =
  risk_decision_id :: string
  rd_slot_id :: string
  rd_signal_id :: string
  rd_signal_hash :: string
  rd_experiment_hash :: string
  rd_policy_id :: string
  rd_policy_version :: int
  rd_policy_hash :: string
  rd_correlation_id :: string
  rd_decided_at :: int
  rd_input_hash :: string
  rd_statistics_hash :: string
  rd_account_snapshot :: AccountSnapshot
  rd_planning_positions :: "SignedPosition list"
  rd_planning_prices :: "PlanningPrice list"
  rd_security_metadata :: "SecurityMetadataSnapshot list"
  rd_original_proposal :: "(string \<times> string \<times> decimal option \<times> decimal option) list"
  rd_proposed_targets :: "(string \<times> decimal) list"
  rd_final_targets :: "(string \<times> decimal) list"
  rd_before_exposure :: ExposureSnapshot
  rd_after_exposure :: ExposureSnapshot
  rd_ordered_controls :: "AppliedRiskControl list"
  rd_block_reasons :: "string list"
  rd_flatten_reasons :: "string list"
  rd_source_timestamps :: "(string \<times> int) list"
  rd_latch_state_hash :: string
  rd_active_latches :: "RiskLatchKind list"
  rd_required_latch_events :: "RiskLatchEvent list"
  rd_execution_scope :: RiskExecutionScope
  rd_content_hash :: string

definition cash_weight :: "RiskDecision \<Rightarrow> decimal" where
  "cash_weight d = dsub 50 dunit (ex_gross (rd_after_exposure d))"

definition proposal_guards :: "(string \<times> string \<times> decimal option \<times> decimal option) list \<Rightarrow> (bool \<times> error) list" where
  "proposal_guards ps =
     concat (map (\<lambda>(s, action, edge, target).
       [risk_guard_symbol s,
        (action \<notin> {''LONG'', ''SHORT'', ''FLAT''}, risk_error ''original proposal action is invalid'')] @
       (case edge of None \<Rightarrow> [] | Some v \<Rightarrow> [risk_guard_decimal v ''proposal_value'']) @
       (case target of None \<Rightarrow> [] | Some v \<Rightarrow> [risk_guard_decimal v ''proposal_value''])) ps) @
     [(symbols_out_of_order (map fst ps), risk_error ''original proposal symbols must be unique and ordered'')]"

definition reason_guards :: "string list \<Rightarrow> (bool \<times> error) list" where
  "reason_guards rs =
     [(\<not> list_all is_safe_code rs, risk_error ''risk reasons must be immutable reason codes''),
      (\<not> distinct rs, risk_error ''risk reasons must not contain duplicates'')]"

fun timestamp_guards :: "string option \<Rightarrow> (string \<times> int) list \<Rightarrow> (bool \<times> error) list" where
  "timestamp_guards previous [] = []"
| "timestamp_guards previous ((name, t) # rest) =
     (name = '''' \<or> (case previous of Some p \<Rightarrow> name \<le> p | None \<Rightarrow> False),
        risk_error ''risk source timestamp names must be unique and ordered'') #
     timestamp_guards (Some name) rest"

definition exposure_mismatch :: "(string \<times> decimal) list \<Rightarrow> ExposureSnapshot \<Rightarrow> bool" where
  "exposure_mismatch ws x \<longleftrightarrow>
     (let positive = positive_sum (map snd ws); short_abs = short_sum (map snd ws) in
      \<not> deq (ex_positive x) positive \<or> \<not> deq (ex_short_abs x) short_abs \<or>
      \<not> deq (ex_gross x) (dadd 50 positive short_abs) \<or> \<not> deq (ex_net x) (dsub 50 positive short_abs))"

definition exposure_match_guard :: "(string \<times> decimal) list \<Rightarrow> ExposureSnapshot \<Rightarrow> bool \<times> error" where
  "exposure_match_guard ws x = (exposure_mismatch ws x, risk_error ''risk exposure does not match its target weights'')"

definition record_guard :: "string list \<Rightarrow> string list \<Rightarrow> string \<Rightarrow> bool \<times> error" where
  "record_guard record_symbols symbols field =
     (record_symbols \<noteq> symbols, risk_error (field @ '' must contain exactly active symbols''))"

definition final_is_flat :: "RiskDecision \<Rightarrow> bool" where
  "final_is_flat d \<longleftrightarrow> (\<forall>(s, v) \<in> set (rd_final_targets d). deq v dzero)"

definition scope_guard :: "RiskDecision \<Rightarrow> bool \<times> error" where
  "scope_guard d =
     (case rd_execution_scope d of
        FULL \<Rightarrow> (rd_block_reasons d \<noteq> [] \<or> rd_active_latches d \<noteq> [],
          risk_error ''full execution scope cannot contain a block or latch'')
      | NONE_SCOPE \<Rightarrow> (rd_block_reasons d = [] \<or> rd_flatten_reasons d \<noteq> [] \<or> \<not> final_is_flat d,
          risk_error ''no-execution receipt is internally inconsistent'')
      | RISK_REDUCING_ONLY \<Rightarrow> (rd_block_reasons d = [] \<or> rd_flatten_reasons d = [] \<or> \<not> final_is_flat d,
          risk_error ''risk-reducing receipt is internally inconsistent''))"

definition latch_event_guard :: "RiskDecision \<Rightarrow> RiskLatchEvent \<Rightarrow> bool \<times> error" where
  "latch_event_guard d e =
     (ev_experiment_hash e \<noteq> rd_experiment_hash d \<or> ev_correlation_id e \<noteq> rd_correlation_id d \<or>
        ev_action e \<noteq> ENGAGED \<or> ev_latch_type e \<notin> set (rd_active_latches d),
      risk_error ''required latch event does not match the decision'')"

definition decision_guards :: "RiskDecision \<Rightarrow> (bool \<times> error) list" where
  "decision_guards d =
     [(\<not> is_tagged_hash ''risk'' (risk_decision_id d), risk_error ''risk decision ID is invalid''),
      (\<not> is_tagged_hash ''slot'' (rd_slot_id d), risk_error ''risk decision slot ID is invalid''),
      (\<not> is_tagged_hash ''signal'' (rd_signal_id d), risk_error ''risk decision signal ID is invalid''),
      (\<not> is_tagged_hash ''correlation'' (rd_correlation_id d), risk_error ''risk decision correlation ID is invalid''),
      risk_guard_hash (rd_signal_hash d) ''signal_hash'',
      risk_guard_hash (rd_experiment_hash d) ''experiment_hash'',
      risk_guard_hash (rd_policy_hash d) ''policy_hash'',
      risk_guard_hash (rd_input_hash d) ''input_hash'',
      risk_guard_hash (rd_statistics_hash d) ''statistics_hash'',
      risk_guard_hash (rd_latch_state_hash d) ''latch_state_hash'',
      risk_guard_hash (rd_content_hash d) ''content_hash'',
      (rd_policy_id d = '''', risk_error ''risk policy ID is invalid''),
      (rd_policy_version d < 1, risk_error ''risk policy version is invalid'')] @
     proposal_guards (rd_original_proposal d) @
     named_decimal_guards (rd_proposed_targets d) ''proposed targets'' ''proposed_targets'' @
     named_decimal_guards (rd_final_targets d) ''final targets'' ''final_targets'' @
     [(fst ` set (rd_proposed_targets d) \<noteq> fst ` set (rd_final_targets d),
        risk_error ''risk target symbols do not match''),
      (map ordinal (rd_ordered_controls d) \<noteq> [1..int (length (rd_ordered_controls d))],
        risk_error ''risk control ordinals must be contiguous'')] @
     reason_guards (rd_block_reasons d) @ reason_guards (rd_flatten_reasons d) @
     timestamp_guards None (rd_source_timestamps d) @
     [(rd_active_latches d \<noteq> sort_key kind_value (remdups (rd_active_latches d)),
        risk_error ''active latches must be unique and ordered'')] @
     map (latch_event_guard d) (rd_required_latch_events d) @
     [exposure_match_guard (rd_proposed_targets d) (rd_before_exposure d),
      exposure_match_guard (rd_final_targets d) (rd_after_exposure d),
      record_guard (map sp_symbol (rd_planning_positions d)) (map fst (rd_final_targets d)) ''planning positions'',
      record_guard (map pp_symbol (rd_planning_prices d)) (map fst (rd_final_targets d)) ''planning prices'',
      record_guard (map sm_symbol (rd_security_metadata d)) (map fst (rd_final_targets d)) ''security metadata'',
      scope_guard d]"

definition pval_metadata :: "SecurityMetadataSnapshot \<Rightarrow> pval" where
  "pval_metadata m = PSeq [PStr (sm_symbol m), PBool (sm_asset_active m), PBool (sm_tradable m),
     PBool (sm_shortable m), PBool (sm_easy_to_borrow m), PBool (sm_primary_listing_eligible m),
     PBool (sm_broker_capability_known m), PTime (sm_observed_at m)]"

definition pval_proposal :: "string \<times> string \<times> decimal option \<times> decimal option \<Rightarrow> pval" where
  "pval_proposal = (\<lambda>(s, action, edge, target). PSeq [PStr s, PStr action,
     case edge of None \<Rightarrow> PNone | Some v \<Rightarrow> PDec v, case target of None \<Rightarrow> PNone | Some v \<Rightarrow> PDec v])"

definition risk_decision_digest :: "sha256 \<Rightarrow> RiskDecision \<Rightarrow> string res" where
  "risk_decision_digest sha d = sha256_hex sha (PMap
     [(''active_latches'', PSeq (map (\<lambda>k. PEnum (kind_value k)) (rd_active_latches d))),
      (''after_exposure'', exposure_payload (rd_after_exposure d)),
      (''before_exposure'', exposure_payload (rd_before_exposure d)),
      (''block_reasons'', PSeq (map PStr (rd_block_reasons d))),
      (''correlation_id'', PStr (rd_correlation_id d)),
      (''decided_at'', PTime (rd_decided_at d)),
      (''execution_scope'', PEnum (scope_value (rd_execution_scope d))),
      (''experiment_hash'', PStr (rd_experiment_hash d)),
      (''final_targets'', pval_weights (rd_final_targets d)),
      (''flatten_reasons'', PSeq (map PStr (rd_flatten_reasons d))),
      (''input_hash'', PStr (rd_input_hash d)),
      (''account_snapshot'', PMap
         [(''account_id_hash'', PStr (as_account_id_hash (rd_account_snapshot d))),
          (''buying_power'', PDec (as_buying_power (rd_account_snapshot d))),
          (''cash'', PDec (as_cash (rd_account_snapshot d))),
          (''equity'', PDec (as_equity (rd_account_snapshot d))),
          (''observed_at'', PTime (as_observed_at (rd_account_snapshot d)))]),
      (''latch_state_hash'', PStr (rd_latch_state_hash d)),
      (''ordered_controls'', PSeq (map control_payload (rd_ordered_controls d))),
      (''original_proposal'', PSeq (map pval_proposal (rd_original_proposal d))),
      (''policy_hash'', PStr (rd_policy_hash d)),
      (''policy_id'', PStr (rd_policy_id d)),
      (''policy_version'', PInt (rd_policy_version d)),
      (''planning_positions'', PSeq (map (\<lambda>p. PSeq [PStr (sp_symbol p), PDec (sp_quantity p)]) (rd_planning_positions d))),
      (''planning_prices'', PSeq (map (\<lambda>p. PSeq [PStr (pp_symbol p), PDec (pp_price p), PTime (pp_observed_at p),
         PBool (pp_validated p)]) (rd_planning_prices d))),
      (''security_metadata'', PSeq (map pval_metadata (rd_security_metadata d))),
      (''proposed_targets'', pval_weights (rd_proposed_targets d)),
      (''required_latch_events'', PSeq (map (\<lambda>e. PStr (ev_content_hash e)) (rd_required_latch_events d))),
      (''schema'', PStr ''signed-risk-decision-v2''),
      (''signal_hash'', PStr (rd_signal_hash d)),
      (''signal_id'', PStr (rd_signal_id d)),
      (''slot_id'', PStr (rd_slot_id d)),
      (''source_timestamps'', PSeq (map (\<lambda>(n, t). PSeq [PStr n, PTime t]) (rd_source_timestamps d))),
      (''statistics_hash'', PStr (rd_statistics_hash d))])"

definition validate_risk_decision :: "sha256 \<Rightarrow> RiskDecision \<Rightarrow> RiskDecision res" where
  "validate_risk_decision sha d =
     guarded (decision_guards d)
     (bindE (risk_decision_digest sha d) (\<lambda>expected_digest.
      bindE (deterministic_id ''risk'' expected_digest) (\<lambda>expected_id.
       guarded [(risk_decision_id d \<noteq> expected_id \<or> rd_content_hash d \<noteq> expected_digest,
         risk_error ''risk decision identity or content hash is invalid'')] (Inr d))))"

definition create_risk_decision :: "sha256 \<Rightarrow> RiskDecision \<Rightarrow> RiskDecision res" where
  "create_risk_decision sha d =
     bindE (risk_decision_digest sha d) (\<lambda>digest.
     bindE (deterministic_id ''risk'' digest) (\<lambda>did.
       validate_risk_decision sha (d\<lparr>risk_decision_id := did, rd_content_hash := digest\<rparr>)))"

section \<open>What a valid decision guarantees\<close>

lemma validate_risk_decision_Inr:
  "validate_risk_decision sha d = Inr e \<longleftrightarrow> e = d \<and> guards_ok (decision_guards d) \<and>
     risk_decision_digest sha d = Inr (rd_content_hash d) \<and> is_id_prefix ''risk'' \<and> is_hash (rd_content_hash d) \<and>
     risk_decision_id d = ''risk_'' @ rd_content_hash d"
  by (auto simp: validate_risk_decision_def deterministic_id_def)

lemma decision_guards_scope:
  assumes "guards_ok (decision_guards d)"
  shows "rd_execution_scope d \<noteq> FULL \<longrightarrow> final_is_flat d"
    and "rd_execution_scope d = FULL \<longrightarrow> rd_block_reasons d = [] \<and> rd_active_latches d = []"
    and "\<not> exposure_mismatch (rd_final_targets d) (rd_after_exposure d)"
    and "map sp_symbol (rd_planning_positions d) = map fst (rd_final_targets d)"
    and "map pp_symbol (rd_planning_prices d) = map fst (rd_final_targets d)"
  using assms by (cases "rd_execution_scope d";
      auto simp: decision_guards_def scope_guard_def exposure_match_guard_def record_guard_def)+

lemma decision_guards_symbols:
  assumes "guards_ok (decision_guards d)"
  shows "sorted (map fst (rd_final_targets d))" and "distinct (map fst (rd_final_targets d))"
proof -
  have "\<not> symbols_out_of_order (map fst (rd_final_targets d))"
    using assms by (simp add: decision_guards_def named_decimal_guards_def)
  then show "sorted (map fst (rd_final_targets d))" "distinct (map fst (rd_final_targets d))"
    unfolding symbols_out_of_order_def by (metis sorted_sort, blast)
qed

end
