(* ===== verification/Quantity_Grid.thy ===== *)
theory Quantity_Grid
  imports Order_State Decimals
begin

text \<open>
  Broker quantities are multiples of a millionth of a share. Below ten to the 22 of them, sums
  and differences of such quantities are exact in the default context of 28 digits, which is
  what lets the planner and the reconciliation be specified over the rationals.
\<close>

section \<open>The grid\<close>

definition on_grid :: "decimal \<Rightarrow> bool" where
  "on_grid d \<longleftrightarrow> (case dalign d (Dec 1 (- 6)) of (c, u) \<Rightarrow> u dvd c \<and> \<bar>c\<bar> < p10 28 * u)"

lemma on_grid_iff: "on_grid d \<longleftrightarrow> (\<exists>k. dval d = of_int k * 10 powi (- 6) \<and> \<bar>k\<bar> < p10 28)"
proof -
  define m where "m = min (expo d) (- 6)"
  define c where "c = coeff d * p10 (expo d - m)"
  define u where "u = p10 (- 6 - m)"
  have al: "dalign d (Dec 1 (- 6)) = (c, u)"
    by (simp add: dalign_def c_def u_def m_def Let_def)
  have d: "dval d = of_int c * 10 powi m" using dval_align [of m d] by (simp add: c_def m_def)
  have g: "of_int k * 10 powi (- 6) = of_int (k * u) * (10 powi m :: rat)" for k
    using dval_align [of m "Dec k (- 6)"] by (simp add: u_def m_def dval_def)
  have u: "0 < u" by (simp add: u_def)
  have "dval d = of_int k * 10 powi (- 6) \<longleftrightarrow> c = k * u" for k
    unfolding d g powi_cancel ..
  moreover have "\<bar>k * u\<bar> < p10 28 * u \<longleftrightarrow> \<bar>k\<bar> < p10 28" for k
    using u by (simp add: abs_mult)
  ultimately show ?thesis
    unfolding on_grid_def al by (auto simp: dvd_def mult.commute)
qed

lemma grid_rounded:
  assumes "dval s = of_int k * 10 powi (- 6)" and "\<bar>k\<bar> < p10 28"
  shows "dval (dfix 28 s) = of_int k * 10 powi (- 6)"
proof -
  have "drepr 28 (Dec k (- 6))" using assms(2) by (simp add: drepr_def ndigits_le_iff)
  from c28.rnd_exact [OF this] show ?thesis using assms(1) by (simp add: dval_def)
qed

lemma grid_dabs: "on_grid a \<Longrightarrow> dval (dabs 28 a) = \<bar>dval a\<bar>"
proof -
  assume "on_grid a"
  then obtain k where k: "dval a = of_int k * 10 powi (- 6)" "\<bar>k\<bar> < p10 28" by (auto simp: on_grid_iff)
  obtain s where s: "dabs 28 a = dfix 28 s" "dval s = \<bar>dval a\<bar>" using dabs_val by blast
  have "dval s = of_int \<bar>k\<bar> * 10 powi (- 6)" using s k by (simp add: abs_mult)
  from grid_rounded [OF this] show ?thesis using s k by (simp add: abs_mult)
qed

lemma grid_dsub:
  assumes "on_grid a" and "on_grid b" and "0 \<le> dval a \<and> 0 \<le> dval b \<or> dval a \<le> 0 \<and> dval b \<le> 0"
  shows "dval (dsub 28 a b) = dval a - dval b" and "on_grid (dsub 28 a b)"
proof -
  obtain k where k: "dval a = of_int k * 10 powi (- 6)" "\<bar>k\<bar> < p10 28" using assms(1) by (auto simp: on_grid_iff)
  obtain l where l: "dval b = of_int l * 10 powi (- 6)" "\<bar>l\<bar> < p10 28" using assms(2) by (auto simp: on_grid_iff)
  have "0 \<le> k \<and> 0 \<le> l \<or> k \<le> 0 \<and> l \<le> 0"
    using assms(3) unfolding k l by (auto simp: zero_le_mult_iff mult_le_0_iff)
  then have kl: "\<bar>k - l\<bar> < p10 28" using k l by auto
  obtain s where s: "dsub 28 a b = dfix 28 s" "dval s = dval a - dval b" using dsub_val by blast
  have "dval s = of_int (k - l) * 10 powi (- 6)" using s k l by (simp add: algebra_simps)
  from grid_rounded [OF this kl] show r: "dval (dsub 28 a b) = dval a - dval b" using s k l by (simp add: algebra_simps)
  show "on_grid (dsub 28 a b)"
    unfolding on_grid_iff r by (rule exI [of _ "k - l"]) (use k l kl in \<open>simp add: algebra_simps\<close>)
qed

lemma on_grid_cong: "dval a = dval b \<Longrightarrow> on_grid a \<longleftrightarrow> on_grid b"
  by (simp add: on_grid_iff)

lemma on_grid_dabs: "on_grid a \<Longrightarrow> on_grid (dabs 28 a)"
proof -
  assume a: "on_grid a"
  then obtain k where k: "dval a = of_int k * 10 powi (- 6)" "\<bar>k\<bar> < p10 28" by (auto simp: on_grid_iff)
  show "on_grid (dabs 28 a)"
    unfolding on_grid_iff grid_dabs [OF a] by (rule exI [of _ "\<bar>k\<bar>"]) (use k in \<open>simp add: abs_mult\<close>)
qed

text \<open>What an order does to a position when it fills completely.\<close>

fun signed_effect :: "OrderSide \<Rightarrow> decimal \<Rightarrow> rat" where
  "signed_effect BUY q = dval q"
| "signed_effect SELL q = - dval q"

section \<open>Sums on the grid\<close>

lemma on_grid_bound: "on_grid d \<longleftrightarrow> (\<exists>k. dval d = of_int k * 10 powi (- 6)) \<and> \<bar>dval d\<bar> < 10 ^ 22"
proof -
  have p: "(10 :: rat) powi (- 6) = 1 / 1000000" by (simp add: power_int_minus)
  have "\<bar>k\<bar> < p10 28 \<longleftrightarrow> \<bar>of_int k * 10 powi (- 6) :: rat\<bar> < 10 ^ 22" for k
  proof -
    have "\<bar>k\<bar> < p10 28 \<longleftrightarrow> (of_int \<bar>k\<bar> :: rat) < of_int (10 ^ 28)" unfolding of_int_less_iff p10_def by simp
    also have "\<dots> \<longleftrightarrow> \<bar>of_int k * 10 powi (- 6) :: rat\<bar> < 10 ^ 22" by (simp add: p abs_mult)
    finally show ?thesis .
  qed
  then show ?thesis unfolding on_grid_iff by auto
qed

lemma grid_dadd:
  assumes "on_grid a" and "on_grid b" and "\<bar>dval a\<bar> + \<bar>dval b\<bar> < 10 ^ 22"
  shows "dval (dadd 28 a b) = dval a + dval b" and "on_grid (dadd 28 a b)"
proof -
  obtain k l where k: "dval a = of_int k * 10 powi (- 6)" and l: "dval b = of_int l * 10 powi (- 6)"
    using assms(1,2) by (auto simp: on_grid_bound)
  obtain s where s: "dadd 28 a b = dfix 28 s" "dval s = dval a + dval b" using dadd_val by blast
  have kl: "dval s = of_int (k + l) * 10 powi (- 6)" using s k l by (simp add: algebra_simps)
  have "\<bar>dval s\<bar> < 10 ^ 22" using assms(3) s(2) by linarith
  with kl have "on_grid s" unfolding on_grid_bound by blast
  then have "\<bar>k + l\<bar> < p10 28"
    unfolding on_grid_iff kl powi_cancel by auto
  from grid_rounded [OF kl this] show r: "dval (dadd 28 a b) = dval a + dval b" using s kl by simp
  show "on_grid (dadd 28 a b)" using \<open>on_grid s\<close> on_grid_cong [of s "dadd 28 a b"] r s(2) by simp
qed

lemma grid_dneg:
  assumes "on_grid a"
  shows "dval (dneg 28 a) = - dval a" and "on_grid (dneg 28 a)"
proof -
  obtain k where k: "dval a = of_int k * 10 powi (- 6)" "\<bar>k\<bar> < p10 28" using assms by (auto simp: on_grid_iff)
  obtain s where s: "dneg 28 a = dfix 28 s" "dval s = - dval a" using dneg_val by blast
  have kl: "dval s = of_int (- k) * 10 powi (- 6)" using s k by simp
  from grid_rounded [OF this] show r: "dval (dneg 28 a) = - dval a" using s k by simp
  show "on_grid (dneg 28 a)" unfolding on_grid_iff r by (rule exI [of _ "- k"]) (use k in simp)
qed

end
