(* ===== verification/Planner.thy ===== *)
theory Planner
  imports Execution_Models Risk_Decisions Quantity_Grid
begin

text \<open>
  The signed order planner (\<open>execution/planner.py\<close>): the validated planning request, the
  conversion of a signed weight into a broker quantity, the transition of one symbol from its
  current to its target quantity with the barrier at zero, the splitting of a transition that
  exceeds the notional limit, and the plan as a whole. Decimal arithmetic of this module runs
  in the default context of 28 digits.
\<close>

section \<open>Requests and results\<close>

definition LONG_QUANTUM :: decimal where "LONG_QUANTUM = Dec 1 (- 6)"

definition SHORT_QUANTUM :: decimal where "SHORT_QUANTUM = Dec 1 0"

definition MINIMUM_ORDER_NOTIONAL :: decimal where "MINIMUM_ORDER_NOTIONAL = Dec 2500 (- 2)"

definition MAXIMUM_SINGLE_INTENT_EQUITY_FRACTION :: decimal where
  "MAXIMUM_SINGLE_INTENT_EQUITY_FRACTION = Dec 15 (- 2)"

definition MAXIMUM_INTENTS_PER_PLAN :: nat where "MAXIMUM_INTENTS_PER_PLAN = 16"

record ExecutionPlanningRequest =
  req_risk_decision :: RiskDecision
  req_current_positions :: "Position list"
  req_reference_prices :: "(string \<times> decimal) list"
  req_equity :: decimal
  req_target_version :: int
  req_created_at :: int
  req_deadline_at :: int
  req_forced_flat :: bool

text \<open>The checks before and after the authorized positions are rebuilt from the risk decision.\<close>

definition request_shape_guards :: "ExecutionPlanningRequest \<Rightarrow> (bool \<times> error) list" where
  "request_shape_guards r =
     (let symbols = map fst (rd_final_targets (req_risk_decision r)) in
     [(map pos_symbol (req_current_positions r) \<noteq> symbols,
        exec_error ''current positions must contain exactly risk symbols''),
      (map fst (req_reference_prices r) \<noteq> symbols,
        exec_error ''reference prices must contain exactly risk symbols''),
      (list_ex (\<lambda>(s, p). dle p dzero) (req_reference_prices r),
        exec_error ''reference prices must be positive finite Decimals''),
      (dle (req_equity r) dzero, exec_error ''planning equity must be a positive finite Decimal'')])"

definition request_match_guards :: "ExecutionPlanningRequest \<Rightarrow> Position list \<Rightarrow> (bool \<times> error) list" where
  "request_match_guards r authorized_positions =
     (let d = req_risk_decision r in
     [(\<not> list_all2 position_eq (req_current_positions r) authorized_positions,
        exec_error ''planning positions do not match the signed risk snapshot''),
      (\<not> list_all2 price_eq (req_reference_prices r) (map (\<lambda>p. (pp_symbol p, pp_price p)) (rd_planning_prices d)),
        exec_error ''planning prices do not match the signed risk snapshot''),
      (\<not> deq (req_equity r) (as_equity (rd_account_snapshot d)),
        exec_error ''planning equity does not match the signed risk snapshot''),
      (list_ex (\<lambda>p. \<not> pp_validated p) (rd_planning_prices d),
        exec_error ''planning prices are not validated for execution''),
      (\<not> (1 \<le> req_target_version r \<and> req_target_version r \<le> 999999),
        exec_error ''target version must be between one and 999999''),
      (req_created_at r \<ge> req_deadline_at r, exec_error ''planning deadline must follow creation time''),
      (req_forced_flat r \<and> list_ex (\<lambda>(s, w). \<not> deq w dzero) (rd_final_targets d),
        exec_error ''forced-flat planning requires exact zero risk targets'')])"

definition validate_request :: "ExecutionPlanningRequest \<Rightarrow> ExecutionPlanningRequest res" where
  "validate_request r =
     guarded (request_shape_guards r)
     (bindE (mapE (\<lambda>p. validate_position \<lparr>pos_symbol = sp_symbol p, pos_quantity = sp_quantity p\<rparr>)
         (rd_planning_positions (req_risk_decision r))) (\<lambda>authorized_positions.
       guarded (request_match_guards r authorized_positions) (Inr r)))"

record ExecutionPlanningResult =
  res_risk_decision :: RiskDecision
  res_plan :: ExecutionPlan
  res_intents :: "OrderIntent list"
  res_reversal_symbols :: "string list"

definition planning_result_guards :: "ExecutionPlanningResult \<Rightarrow> (bool \<times> error) list" where
  "planning_result_guards x =
     [(plan_risk_decision_id (res_plan x) \<noteq> risk_decision_id (res_risk_decision x) \<or>
       plan_risk_decision_hash (res_plan x) \<noteq> rd_content_hash (res_risk_decision x) \<or>
       plan_experiment_hash (res_plan x) \<noteq> rd_experiment_hash (res_risk_decision x) \<or>
       plan_correlation_id (res_plan x) \<noteq> rd_correlation_id (res_risk_decision x),
        exec_error ''planning result is not bound to its risk decision''),
      (list_ex (\<lambda>i. intent_execution_plan_id i \<noteq> execution_plan_id (res_plan x)) (res_intents x),
        exec_error ''planning result contains an intent from another plan'')]"

definition validate_planning_result :: "ExecutionPlanningResult \<Rightarrow> ExecutionPlanningResult res" where
  "validate_planning_result x = guarded (planning_result_guards x) (Inr x)"

definition reversal_barrier_required :: "ExecutionPlanningResult \<Rightarrow> bool" where
  "reversal_barrier_required x \<longleftrightarrow> res_reversal_symbols x \<noteq> []"

section \<open>Quantities\<close>

definition signed_target_quantity :: "decimal \<Rightarrow> decimal \<Rightarrow> decimal \<Rightarrow> decimal res" where
  "signed_target_quantity weight equity price =
     guarded [(dle equity dzero \<or> dle price dzero, exec_error ''quantity equity and price must be positive'')]
     (case ddiv 28 (dmul 28 weight equity) price of
        None \<Rightarrow> Inl (DecimalException ''DivisionByZero'')
      | Some raw \<Rightarrow>
          if deq raw dzero then Inr dzero
          else bindE (quantize_decimal (dabs 28 raw) (if dlt dzero raw then LONG_QUANTUM else SHORT_QUANTUM) DOWN)
            (\<lambda>magnitude. Inr (if dlt dzero raw then magnitude else dneg 28 magnitude)))"

section \<open>Transitions\<close>

record IntentDraft =
  draft_symbol :: string
  draft_side :: OrderSide
  draft_effect :: PositionEffect
  draft_phase :: IntentPhase
  draft_quantity :: decimal
  draft_stage_target :: decimal
  draft_part :: nat

fun phase_order :: "IntentPhase \<Rightarrow> nat" where
  "phase_order EXIT = 0"
| "phase_order FLATTEN = 0"
| "phase_order ENTRY = 1"

definition entry_draft :: "string \<Rightarrow> decimal \<Rightarrow> bool \<Rightarrow> bool \<Rightarrow> IntentDraft" where
  "entry_draft symbol quantity long increase =
     (if long then
        \<lparr>draft_symbol = symbol, draft_side = BUY, draft_effect = (if increase then INCREASE_LONG else OPEN_LONG),
         draft_phase = ENTRY, draft_quantity = quantity, draft_stage_target = quantity, draft_part = 0\<rparr>
      else
        \<lparr>draft_symbol = symbol, draft_side = SELL, draft_effect = (if increase then INCREASE_SHORT else OPEN_SHORT),
         draft_phase = ENTRY, draft_quantity = quantity, draft_stage_target = dneg 28 quantity, draft_part = 0\<rparr>)"

definition exit_draft :: "string \<Rightarrow> decimal \<Rightarrow> PositionEffect \<Rightarrow> decimal \<Rightarrow> IntentDraft" where
  "exit_draft symbol quantity effect stage_target =
     \<lparr>draft_symbol = symbol, draft_side = (if effect \<in> {REDUCE_LONG, CLOSE_LONG} then SELL else BUY),
      draft_effect = effect, draft_phase = EXIT, draft_quantity = quantity, draft_stage_target = stage_target,
      draft_part = 0\<rparr>"

definition flatten_draft :: "string \<Rightarrow> OrderSide \<Rightarrow> PositionEffect \<Rightarrow> decimal \<Rightarrow> IntentDraft" where
  "flatten_draft symbol side effect quantity =
     \<lparr>draft_symbol = symbol, draft_side = side, draft_effect = effect, draft_phase = FLATTEN,
      draft_quantity = quantity, draft_stage_target = dzero, draft_part = 0\<rparr>"

definition transition_draft :: "string \<Rightarrow> decimal \<Rightarrow> decimal \<Rightarrow> bool \<Rightarrow> (IntentDraft option \<times> bool) res" where
  "transition_draft symbol current target forced_flat =
     (if deq current target then Inr (None, False)
      else if forced_flat then
        (if \<not> deq target dzero then Inl (exec_error ''forced-flat target must be exact zero'')
         else if dlt dzero current then Inr (Some (flatten_draft symbol SELL FORCED_FLAT_LONG current), False)
         else if dlt current dzero then
           Inr (Some (flatten_draft symbol BUY FORCED_FLAT_SHORT (dabs 28 current)), False)
         else Inr (None, False))
      else if deq current dzero \<and> dlt dzero target then Inr (Some (entry_draft symbol target True False), False)
      else if deq current dzero \<and> dlt target dzero then
        Inr (Some (entry_draft symbol (dabs 28 target) False False), False)
      else if dlt dzero current \<and> dle dzero target then
        (if dlt current target then Inr (Some (entry_draft symbol (dsub 28 target current) True True), False)
         else Inr (Some (exit_draft symbol (dsub 28 current target)
           (if deq target dzero then CLOSE_LONG else REDUCE_LONG) target), False))
      else if dlt current dzero \<and> dle target dzero then
        (if dlt target current then
           Inr (Some (entry_draft symbol (dabs 28 (dsub 28 target current)) False True), False)
         else Inr (Some (exit_draft symbol (dsub 28 target current)
           (if deq target dzero then CLOSE_SHORT else REDUCE_SHORT) target), False))
      else if dlt dzero current \<and> dlt target dzero then Inr (Some (exit_draft symbol current CLOSE_LONG dzero), True)
      else if dlt current dzero \<and> dlt dzero target then
        Inr (Some (exit_draft symbol (dabs 28 current) CLOSE_SHORT dzero), True)
      else Inl (exec_error ''signed transition could not be classified''))"

section \<open>Splitting\<close>

fun split_effect :: "PositionEffect \<Rightarrow> bool \<Rightarrow> bool \<Rightarrow> PositionEffect" where
  "split_effect OPEN_LONG fst_part lst_part = (if fst_part then OPEN_LONG else INCREASE_LONG)"
| "split_effect OPEN_SHORT fst_part lst_part = (if fst_part then OPEN_SHORT else INCREASE_SHORT)"
| "split_effect CLOSE_LONG fst_part lst_part = (if lst_part then CLOSE_LONG else REDUCE_LONG)"
| "split_effect CLOSE_SHORT fst_part lst_part = (if lst_part then CLOSE_SHORT else REDUCE_SHORT)"
| "split_effect effect fst_part lst_part = effect"

text \<open>
  The loop of \<open>_split_draft\<close>: the argument counts the parts that may still be appended, so the
  part after the sixteenth raises as in the source.
\<close>

fun split_quantities :: "nat \<Rightarrow> decimal \<Rightarrow> decimal \<Rightarrow> decimal list res" where
  "split_quantities n remaining maximum =
     (if dle remaining dzero then Inr []
      else case n of
        0 \<Rightarrow> Inl (exec_error ''one transition exceeds the 16-intent limit'')
      | Suc m \<Rightarrow> (let quantity = dmin remaining maximum in
          bindE (split_quantities m (dsub 28 remaining quantity) maximum) (\<lambda>qs. Inr (quantity # qs))))"

declare split_quantities.simps [simp del]

definition draft_quantum :: "PositionEffect \<Rightarrow> decimal" where
  "draft_quantum effect =
     (if effect \<in> {OPEN_LONG, INCREASE_LONG, REDUCE_LONG, CLOSE_LONG, FORCED_FLAT_LONG}
      then LONG_QUANTUM else SHORT_QUANTUM)"

definition maximum_quantity :: "PositionEffect \<Rightarrow> decimal \<Rightarrow> decimal \<Rightarrow> decimal res" where
  "maximum_quantity effect price maximum_notional =
     (case ddiv 28 maximum_notional price of
        None \<Rightarrow> Inl (DecimalException ''DivisionByZero'')
      | Some q \<Rightarrow> quantize_decimal q (draft_quantum effect) DOWN)"

definition split_parts :: "IntentDraft \<Rightarrow> decimal list \<Rightarrow> IntentDraft list" where
  "split_parts draft quantities =
     map (\<lambda>(part, quantity). draft\<lparr>
        draft_effect := split_effect (draft_effect draft) (part = 0) (part = length quantities - 1),
        draft_quantity := quantity, draft_part := part\<rparr>)
       (List.enumerate 0 quantities)"

definition split_draft :: "IntentDraft \<Rightarrow> decimal \<Rightarrow> decimal \<Rightarrow> IntentDraft list res" where
  "split_draft draft price maximum_notional =
     (if dle (dmul 28 (draft_quantity draft) price) maximum_notional then Inr [draft]
      else bindE (maximum_quantity (draft_effect draft) price maximum_notional) (\<lambda>maximum.
        guarded [(dle maximum dzero, exec_error ''maximum intent notional cannot support one quantity unit'')]
        (bindE (split_quantities MAXIMUM_INTENTS_PER_PLAN (draft_quantity draft) maximum) (\<lambda>quantities.
          Inr (split_parts draft quantities)))))"

section \<open>Planning\<close>

definition target_position :: "ExecutionPlanningRequest \<Rightarrow> (string, decimal) dict \<Rightarrow> (string, decimal) dict \<Rightarrow> string \<Rightarrow> Position res" where
  "target_position r weights prices symbol =
     bindE (if req_forced_flat r then Inr dzero
            else bindE (dict_item weights symbol) (\<lambda>w. bindE (dict_item prices symbol) (\<lambda>p.
              signed_target_quantity w (req_equity r) p)))
       (\<lambda>q. validate_position \<lparr>pos_symbol = symbol, pos_quantity = q\<rparr>)"

definition draft_step :: "ExecutionPlanningRequest \<Rightarrow> (string, decimal) dict \<Rightarrow> (string, decimal) dict \<Rightarrow> Position \<Rightarrow>
    IntentDraft list \<times> string list \<Rightarrow> (IntentDraft list \<times> string list) res" where
  "draft_step r current prices target = (\<lambda>(drafts, reversal_symbols).
     bindE (dict_item current (pos_symbol target)) (\<lambda>current_quantity.
     bindE (dict_item prices (pos_symbol target)) (\<lambda>price.
     bindE (transition_draft (pos_symbol target) current_quantity (pos_quantity target) (req_forced_flat r))
       (\<lambda>(draft, reversal).
         bindE (case draft of None \<Rightarrow> Inr []
                | Some d \<Rightarrow> split_draft d price (dmul 28 (req_equity r) MAXIMUM_SINGLE_INTENT_EQUITY_FRACTION))
           (\<lambda>parts. Inr (drafts @ parts, reversal_symbols @ (if reversal then [pos_symbol target] else [])))))))"

definition draft_key :: "IntentDraft \<Rightarrow> nat \<times> string \<times> nat" where
  "draft_key d = (phase_order (draft_phase d), draft_symbol d, draft_part d)"

definition intent_of_draft :: "ExecutionPlanningRequest \<Rightarrow> ExecutionPlan \<Rightarrow> string \<Rightarrow> nat \<Rightarrow> IntentDraft \<Rightarrow> decimal \<Rightarrow> OrderIntent" where
  "intent_of_draft r plan target_hash sequence d price = \<lparr>order_intent_id = '''',
     intent_execution_plan_id = execution_plan_id plan, intent_risk_decision_id = plan_risk_decision_id plan,
     intent_experiment_hash = plan_experiment_hash plan, intent_correlation_id = plan_correlation_id plan,
     intent_client_order_id = '''', intent_symbol = draft_symbol d, intent_side = draft_side d,
     intent_position_effect = draft_effect d, intent_phase = draft_phase d, intent_sequence = int sequence,
     intent_target_version = plan_target_version plan, intent_quantity = draft_quantity d,
     intent_notional = dzero, intent_reference_price = price,
     intent_final_target_quantity = draft_stage_target d, intent_forced_flat = req_forced_flat r,
     intent_created_at = req_created_at r, intent_deadline_at = req_deadline_at r,
     intent_target_hash = target_hash, intent_content_hash = ''''\<rparr>"

definition plan_of_request :: "ExecutionPlanningRequest \<Rightarrow> Position list \<Rightarrow> ExecutionPlan" where
  "plan_of_request r targets = (let d = req_risk_decision r in
     \<lparr>execution_plan_id = '''', plan_risk_decision_id = risk_decision_id d, plan_risk_decision_hash = rd_content_hash d,
      plan_experiment_hash = rd_experiment_hash d, plan_correlation_id = rd_correlation_id d,
      plan_target_version = req_target_version r, plan_forced_flat = req_forced_flat r,
      plan_target_quantities = targets, plan_current_positions = req_current_positions r,
      plan_reference_prices = req_reference_prices r, plan_equity = req_equity r,
      plan_created_at = req_created_at r, plan_deadline_at = req_deadline_at r, plan_content_hash = ''''\<rparr>)"

definition minimum_notional_guards :: "ExecutionPlanningRequest \<Rightarrow> OrderIntent list \<Rightarrow> (bool \<times> error) list" where
  "minimum_notional_guards r intents = map (\<lambda>i.
     (\<not> req_forced_flat r \<and> dlt (intent_notional i) MINIMUM_ORDER_NOTIONAL,
      exec_error ''non-flattening intent is below minimum notional'')) intents"

definition plan_signed_orders :: "sha256 \<Rightarrow> ExecutionPlanningRequest \<Rightarrow> ExecutionPlanningResult res" where
  "plan_signed_orders sha r =
     (let decision = req_risk_decision r;
          weights = dict_of_pairs (rd_final_targets decision);
          prices = dict_of_pairs (req_reference_prices r);
          current = dict_of_pairs (map (\<lambda>p. (pos_symbol p, pos_quantity p)) (req_current_positions r)) in
     guarded
      [(rd_execution_scope decision = NONE_SCOPE, exec_error ''risk decision grants no execution authority''),
       (rd_decided_at decision > req_created_at r, exec_error ''risk decision cannot postdate the execution plan''),
       (rd_execution_scope decision = RISK_REDUCING_ONLY \<and> list_ex (\<lambda>w. \<not> deq w dzero) (dict_values weights),
         exec_error ''risk-reducing scope cannot authorize nonzero targets'')]
     (bindE (mapE (target_position r weights prices) (sort (dict_keys weights))) (\<lambda>targets.
      bindE (create_plan sha (plan_of_request r targets)) (\<lambda>plan.
      bindE (sha256_hex sha (PSeq [PStr ''signed-quantity-target-v1'', pval_positions targets])) (\<lambda>target_hash.
      bindE (foldE (draft_step r current prices) targets ([], [])) (\<lambda>(drafts, reversal_symbols).
      let ordered = sort_key draft_key drafts in
      guarded [(length ordered > MAXIMUM_INTENTS_PER_PLAN, exec_error ''execution plan exceeds the 16-intent limit'')]
      (bindE (mapE (\<lambda>(sequence, d). bindE (dict_item prices (draft_symbol d)) (\<lambda>price.
          create_intent sha (intent_of_draft r plan target_hash sequence d price))) (List.enumerate 0 ordered)) (\<lambda>intents.
       guarded (minimum_notional_guards r intents)
       (validate_planning_result \<lparr>res_risk_decision = decision, res_plan = plan, res_intents = intents,
          res_reversal_symbols = sort reversal_symbols\<rparr>)))))))))"

section \<open>Transitions\<close>

definition draft_ok :: "string \<Rightarrow> bool \<Rightarrow> IntentDraft \<Rightarrow> bool" where
  "draft_ok symbol forced_flat d \<longleftrightarrow> draft_symbol d = symbol \<and> 0 < dval (draft_quantity d) \<and>
     on_grid (draft_quantity d) \<and> (draft_side d, draft_phase d) = expected_side_phase (draft_effect d) \<and>
     (draft_phase d = FLATTEN \<longleftrightarrow> forced_flat)"

lemma transition_lands:
  assumes c: "on_grid c" and t: "on_grid t" and ff: "forced_flat \<longrightarrow> dval t = 0"
  shows "\<exists>od. transition_draft s c t forced_flat = Inr (od, dval c * dval t < 0) \<and>
    (case od of None \<Rightarrow> dval c = dval t
     | Some d \<Rightarrow> draft_ok s forced_flat d \<and> draft_part d = 0 \<and>
         dval c + signed_effect (draft_side d) (draft_quantity d) = (if dval c * dval t < 0 then 0 else dval t) \<and>
         (draft_phase d = ENTRY \<longrightarrow> 0 \<le> dval c * dval t \<and> \<bar>dval c\<bar> < \<bar>dval t\<bar>))"
proof -
  note [simp] = grid_dabs [OF c] grid_dabs [OF t] on_grid_dabs [OF c] on_grid_dabs [OF t] c t
  have ab: "dval (dabs 28 (dsub 28 t c)) = \<bar>dval t - dval c\<bar>" "on_grid (dabs 28 (dsub 28 t c))"
    if "dval t \<le> 0" "dval c \<le> 0"
    using grid_dabs [OF grid_dsub(2) [OF t c]] on_grid_dabs [OF grid_dsub(2) [OF t c]] grid_dsub(1) [OF t c] that by auto
  consider "dval c = dval t" | "forced_flat" "dval c \<noteq> 0" | "\<not> forced_flat" "dval c = 0" "dval t \<noteq> 0"
    | "\<not> forced_flat" "0 < dval c" "0 \<le> dval t" "dval c \<noteq> dval t"
    | "\<not> forced_flat" "dval c < 0" "dval t \<le> 0" "dval c \<noteq> dval t"
    | "\<not> forced_flat" "0 < dval c" "dval t < 0" | "\<not> forced_flat" "dval c < 0" "0 < dval t"
    using ff by linarith
  then show ?thesis
  proof cases
    case 1
    then show ?thesis by (simp add: transition_draft_def dec_simps not_less)
  next
    case 2
    then show ?thesis using ff
      by (cases "0 < dval c") (auto simp: transition_draft_def dec_simps draft_ok_def flatten_draft_def)
  next
    case 3
    then show ?thesis
      by (cases "0 < dval t") (auto simp: transition_draft_def dec_simps draft_ok_def entry_draft_def)
  next
    case 4
    then show ?thesis using grid_dsub [OF c t] grid_dsub [OF t c]
      by (auto simp: transition_draft_def dec_simps draft_ok_def entry_draft_def exit_draft_def not_less)
  next
    case 5
    then show ?thesis using grid_dsub [OF t c] ab
      by (auto simp: transition_draft_def dec_simps draft_ok_def entry_draft_def exit_draft_def not_less
          zero_le_mult_iff)
  next
    case 6
    then show ?thesis by (auto simp: transition_draft_def dec_simps draft_ok_def exit_draft_def mult_pos_neg)
  next
    case 7
    then show ?thesis by (auto simp: transition_draft_def dec_simps draft_ok_def exit_draft_def mult_neg_pos)
  qed
qed

section \<open>Splitting\<close>

lemma split_quantities_ok:
  assumes "on_grid remaining" and "0 \<le> dval remaining" and "0 < dval maximum"
    and "dval maximum = of_int k * 10 powi (- 6)"
  shows "(\<exists>qs. split_quantities n remaining maximum = Inr qs) \<longleftrightarrow> dval remaining \<le> of_nat n * dval maximum"
    and "split_quantities n remaining maximum = Inr qs \<Longrightarrow> length qs \<le> n \<and> sum_list (map dval qs) = dval remaining \<and>
      (\<forall>q \<in> set qs. 0 < dval q \<and> dval q \<le> dval maximum \<and> on_grid q)"
proof -
  have "((\<exists>qs. split_quantities n remaining maximum = Inr qs) \<longleftrightarrow> dval remaining \<le> of_nat n * dval maximum) \<and>
    (\<forall>qs. split_quantities n remaining maximum = Inr qs \<longrightarrow> length qs \<le> n \<and> sum_list (map dval qs) = dval remaining \<and>
      (\<forall>q \<in> set qs. 0 < dval q \<and> dval q \<le> dval maximum \<and> on_grid q))"
    using assms(1,2)
  proof (induction n arbitrary: remaining)
    case 0
    then show ?case by (subst (1 2) split_quantities.simps) (auto simp: dec_simps)
  next
    case (Suc n)
    show ?case
    proof (cases "dval remaining = 0")
      case True
      then have "split_quantities (Suc n) remaining maximum = Inr []"
        by (subst split_quantities.simps) (simp add: dec_simps)
      with True assms(3) show ?thesis by simp
    next
      case False
      let ?q = "dmin remaining maximum"
      let ?r = "dsub 28 remaining ?q"
      have eq: "split_quantities (Suc n) remaining maximum =
          bindE (split_quantities n ?r maximum) (\<lambda>qs. Inr (?q # qs))"
        using False Suc.prems(2) by (subst split_quantities.simps) (simp add: dec_simps Let_def)
      have q: "0 < dval ?q" "dval ?q \<le> dval maximum" "dval ?q \<le> dval remaining"
        using False Suc.prems(2) assms(3) by (auto simp: dec_simps)
      have gq: "on_grid ?q"
      proof (cases "dval maximum < dval remaining")
        case True
        obtain l where l: "dval remaining = of_int l * 10 powi (- 6)" "\<bar>l\<bar> < p10 28"
          using Suc.prems(1) by (auto simp: on_grid_iff)
        have "0 < k" using assms(3,4) by (simp add: zero_less_mult_iff)
        moreover have "k < l" using True unfolding l(1) assms(4) powi_cancel .
        ultimately have "\<bar>k\<bar> < p10 28" using l(2) by simp
        then show ?thesis using True assms(4) by (auto simp: on_grid_iff dmin_def dec_simps)
      next
        case False
        then show ?thesis using Suc.prems(1) by (simp add: dmin_def dec_simps)
      qed
      have r: "dval ?r = dval remaining - dval ?q" "on_grid ?r"
        using grid_dsub [OF Suc.prems(1) gq] q(1) Suc.prems(2) by auto
      note IH = Suc.IH [OF r(2)]
      have "dval ?r \<le> of_nat n * dval maximum \<longleftrightarrow> dval remaining \<le> of_nat (Suc n) * dval maximum"
        unfolding r(1) using assms(3) by (auto simp: dec_simps algebra_simps min_def add_increasing2)
      then show ?thesis using IH r(1) q gq unfolding eq by auto
    qed
  qed
  then show "(\<exists>qs. split_quantities n remaining maximum = Inr qs) \<longleftrightarrow> dval remaining \<le> of_nat n * dval maximum"
    and "split_quantities n remaining maximum = Inr qs \<Longrightarrow> length qs \<le> n \<and> sum_list (map dval qs) = dval remaining \<and>
      (\<forall>q \<in> set qs. 0 < dval q \<and> dval q \<le> dval maximum \<and> on_grid q)"
    by blast+
qed

lemma quantize_down_result:
  assumes "quantize_decimal d (Dec 1 u) DOWN = Inr m" and "- 64 \<le> u" and "u \<le> 64"
  shows "m = quantized_down d u"
proof -
  have "domain_decimal d" using assms(1) by (auto simp: quantize_decimal_def require_finite_decimal_def split: if_splits)
  from quantize_down [OF this assms(2,3)] show ?thesis
    using assms(1) by (auto simp: require_finite_decimal_def split: if_splits)
qed

lemma quantize_down_lattice:
  assumes "quantize_decimal d (Dec 1 u) DOWN = Inr m" and "- 64 \<le> u" and "u \<le> 64"
  shows "\<exists>k. dval m = of_int k * 10 powi u"
  by (rule exI [of _ "coeff m"]) (simp add: quantize_down_result [OF assms] dval_def quantized_down_def)

lemma maximum_quantity_lattice:
  assumes "maximum_quantity effect price notional = Inr m"
  shows "\<exists>k. dval m = of_int k * 10 powi (- 6)"
proof -
  obtain q where "quantize_decimal q (draft_quantum effect) DOWN = Inr m"
    using assms by (auto simp: maximum_quantity_def split: option.splits)
  then obtain u where u: "u \<in> {- 6, 0}" "quantize_decimal q (Dec 1 u) DOWN = Inr m"
    by (auto simp: draft_quantum_def LONG_QUANTUM_def SHORT_QUANTUM_def split: if_splits)
  then obtain k where k: "dval m = of_int k * 10 powi u" using quantize_down_lattice [OF u(2)] by auto
  show ?thesis
  proof (cases "u = - 6")
    case True then show ?thesis using k by blast
  next
    case False
    have "(10 :: rat) powi (- 6) = 1 / 1000000" by (simp add: power_int_minus)
    with False have "dval m = of_int (k * 1000000) * 10 powi (- 6)" using u(1) k by simp
    then show ?thesis ..
  qed
qed

lemma split_effect_side: "expected_side_phase (split_effect e f l) = expected_side_phase e"
  by (cases e) simp_all

lemma split_parts_props:
  shows "map draft_quantity (split_parts d qs) = qs"
    and "x \<in> set (split_parts d qs) \<Longrightarrow> draft_symbol x = draft_symbol d \<and> draft_side x = draft_side d \<and>
      draft_phase x = draft_phase d \<and> draft_stage_target x = draft_stage_target d \<and>
      expected_side_phase (draft_effect x) = expected_side_phase (draft_effect d) \<and> draft_quantity x \<in> set qs"
    and "map draft_part (split_parts d qs) = [0..<length qs]"
proof -
  show "map draft_quantity (split_parts d qs) = qs"
    by (simp add: split_parts_def case_prod_unfold comp_def)
  show "map draft_part (split_parts d qs) = [0..<length qs]"
    by (simp add: split_parts_def case_prod_unfold comp_def)
  show "x \<in> set (split_parts d qs) \<Longrightarrow> draft_symbol x = draft_symbol d \<and> draft_side x = draft_side d \<and>
      draft_phase x = draft_phase d \<and> draft_stage_target x = draft_stage_target d \<and>
      expected_side_phase (draft_effect x) = expected_side_phase (draft_effect d) \<and> draft_quantity x \<in> set qs"
    by (auto simp: split_parts_def split_effect_side in_set_enumerate_eq)
qed

lemma split_draft_ok:
  assumes "split_draft d price notional = Inr ds" and ok: "draft_ok s ff d" and "draft_part d = 0"
  shows "(\<forall>x \<in> set ds. draft_ok s ff x \<and> draft_side x = draft_side d \<and> draft_phase x = draft_phase d) \<and>
    sum_list (map (\<lambda>x. dval (draft_quantity x)) ds) = dval (draft_quantity d) \<and>
    length ds \<le> 16 \<and> map draft_part ds = [0..<length ds]"
proof (cases "dle (dmul 28 (draft_quantity d) price) notional")
  case True
  with assms show ?thesis by (auto simp: split_draft_def)
next
  case False
  with assms(1) obtain m qs where m: "maximum_quantity (draft_effect d) price notional = Inr m" "\<not> dle m dzero"
    and qs: "split_quantities 16 (draft_quantity d) m = Inr qs" and ds: "ds = split_parts d qs"
    by (auto simp: split_draft_def MAXIMUM_INTENTS_PER_PLAN_def)
  obtain k where k: "dval m = of_int k * 10 powi (- 6)" using maximum_quantity_lattice [OF m(1)] by blast
  have dq: "on_grid (draft_quantity d)" "0 \<le> dval (draft_quantity d)" using ok by (auto simp: draft_ok_def)
  have "0 < dval m" using m(2) by (simp add: dec_simps)
  note sq = split_quantities_ok(2) [OF dq this k qs]
  have "map (\<lambda>x. dval (draft_quantity x)) ds = map dval (map draft_quantity ds)" by simp
  then have sum: "sum_list (map (\<lambda>x. dval (draft_quantity x)) ds) = dval (draft_quantity d)"
    unfolding ds split_parts_props(1) using sq by simp
  have len: "length ds = length qs" by (simp add: ds split_parts_def)
  have part: "draft_ok s ff x \<and> draft_side x = draft_side d \<and> draft_phase x = draft_phase d" if "x \<in> set ds" for x
  proof -
    note p = split_parts_props(2) [OF that [unfolded ds]]
    with sq have "0 < dval (draft_quantity x)" "on_grid (draft_quantity x)" by blast+
    with p ok show ?thesis by (simp add: draft_ok_def)
  qed
  show ?thesis using sum len part sq split_parts_props(3) [of d qs] ds by simp
qed

section \<open>Properties of transitions and quantities\<close>

text \<open>
  C25. A transition of one symbol is classified for every pair of quantities on the grid, and its
  one draft never crosses zero: the position after a complete fill is the target, or zero if the
  target has the opposite sign (which is reported as a reversal). The draft has a positive
  quantity and the side and phase of its effect, and opens exposure only towards a target of
  larger magnitude.
\<close>

theorem transition_never_crosses_zero:
  assumes "on_grid c" and "on_grid t" and "forced_flat \<longrightarrow> dval t = 0"
  shows "\<exists>od. transition_draft s c t forced_flat = Inr (od, dval c * dval t < 0) \<and>
    (case od of None \<Rightarrow> dval c = dval t
     | Some d \<Rightarrow> draft_ok s forced_flat d \<and> draft_part d = 0 \<and>
         dval c + signed_effect (draft_side d) (draft_quantity d) = (if dval c * dval t < 0 then 0 else dval t) \<and>
         (draft_phase d = ENTRY \<longrightarrow> 0 \<le> dval c * dval t \<and> \<bar>dval c\<bar> < \<bar>dval t\<bar>))"
  using assms by (rule transition_lands)

theorem transition_never_crosses_zero_witness:
  "\<exists>od. transition_draft ''SPY'' (Dec 10 0) (Dec (- 3) 0) False = Inr (od, True) \<and>
    (case od of None \<Rightarrow> False | Some d \<Rightarrow> 10 + signed_effect (draft_side d) (draft_quantity d) = 0)"
proof -
  have "on_grid (Dec 10 0)" "on_grid (Dec (- 3) 0)" by code_simp+
  from transition_never_crosses_zero [OF this, of False "''SPY''"] show ?thesis
    by (auto split: option.splits)
qed

text \<open>
  C24. Splitting a transition loses nothing: for a positive quantity on the grid that exceeds the
  notional limit and a positive cap, the split succeeds exactly if sixteen parts of the cap
  suffice; the parts are then numbered from zero, positive, at most the cap, keep symbol, side
  and phase, and add up to the quantity exactly.
\<close>

theorem split_adds_up:
  assumes "draft_ok s ff d" and "draft_part d = 0" and "\<not> dle (dmul 28 (draft_quantity d) price) notional"
    and "maximum_quantity (draft_effect d) price notional = Inr m" and "\<not> dle m dzero"
  shows "((\<exists>ds. split_draft d price notional = Inr ds) \<longleftrightarrow> dval (draft_quantity d) \<le> 16 * dval m) \<and>
    (\<forall>ds. split_draft d price notional = Inr ds \<longrightarrow>
       map draft_part ds = [0..<length ds] \<and> length ds \<le> 16 \<and>
       (\<forall>x \<in> set ds. draft_ok s ff x \<and> draft_side x = draft_side d \<and> draft_phase x = draft_phase d \<and>
          dval (draft_quantity x) \<le> dval m) \<and>
       sum_list (map (\<lambda>x. dval (draft_quantity x)) ds) = dval (draft_quantity d))"
proof -
  obtain k where k: "dval m = of_int k * 10 powi (- 6)" using maximum_quantity_lattice [OF assms(4)] by blast
  have m: "0 < dval m" using assms(5) by (simp add: dec_simps)
  have q: "on_grid (draft_quantity d)" "0 \<le> dval (draft_quantity d)" using assms(1) by (auto simp: draft_ok_def)
  have eq: "split_draft d price notional = bindE (split_quantities 16 (draft_quantity d) m) (\<lambda>qs. Inr (split_parts d qs))"
    using assms(3-5) by (simp add: split_draft_def MAXIMUM_INTENTS_PER_PLAN_def)
  have "(\<exists>ds. split_draft d price notional = Inr ds) \<longleftrightarrow> (\<exists>qs. split_quantities 16 (draft_quantity d) m = Inr qs)"
    unfolding eq by auto
  then have "(\<exists>ds. split_draft d price notional = Inr ds) \<longleftrightarrow> dval (draft_quantity d) \<le> 16 * dval m"
    using split_quantities_ok(1) [OF q m k, of 16] by simp
  moreover have "dval (draft_quantity x) \<le> dval m" if "split_draft d price notional = Inr ds" "x \<in> set ds" for ds x
  proof -
    from that obtain qs where qs: "split_quantities 16 (draft_quantity d) m = Inr qs" "x \<in> set (split_parts d qs)"
      unfolding eq by auto
    then show ?thesis using split_quantities_ok(2) [OF q m k qs(1)] split_parts_props(2) [OF qs(2)] by blast
  qed
  ultimately show ?thesis using split_draft_ok [OF _ assms(1,2), of price notional] by blast
qed

theorem split_adds_up_witness:
  "\<exists>ds. split_draft (entry_draft ''QQQ'' (Dec 200000000 (- 6)) True False) (Dec 100 0) (Dec 15000 0) = Inr ds \<and>
     sum_list (map (\<lambda>x. dval (draft_quantity x)) ds) = 200"
proof -
  let ?d = "entry_draft ''QQQ'' (Dec 200000000 (- 6)) True False"
  have "on_grid (Dec 200000000 (- 6))" by code_simp
  then have ok: "draft_ok ''QQQ'' False ?d" by (simp add: draft_ok_def entry_draft_def dval_sign)
  have p: "draft_part ?d = 0" by (simp add: entry_draft_def)
  have n: "\<not> dle (dmul 28 (draft_quantity ?d) (Dec 100 0)) (Dec 15000 0)" by code_simp
  have m: "maximum_quantity (draft_effect ?d) (Dec 100 0) (Dec 15000 0) = Inr (Dec 150000000 (- 6))" by code_simp
  have z: "\<not> dle (Dec 150000000 (- 6)) dzero" by code_simp
  have v: "dval (draft_quantity ?d) = 200" "dval (Dec 150000000 (- 6)) = 150"
    by (simp_all add: entry_draft_def dval_def power_int_minus)
  from split_adds_up [OF ok p n m z] v show ?thesis by auto
qed

text \<open>
  The stage target of an increase is the traded difference, not the position the order leads
  to: raising a long position of 5 to 8 records 3 as the final target quantity, whereas reducing
  8 to 5 records 5.
\<close>

lemma increase_records_difference:
  "(\<exists>d. transition_draft ''SPY'' (Dec 5 0) (Dec 8 0) False = Inr (Some d, False) \<and>
      draft_effect d = INCREASE_LONG \<and> draft_quantity d = Dec 3 0 \<and> draft_stage_target d = Dec 3 0) \<and>
   (\<exists>d. transition_draft ''SPY'' (Dec 8 0) (Dec 5 0) False = Inr (Some d, False) \<and>
      draft_effect d = REDUCE_LONG \<and> draft_quantity d = Dec 3 0 \<and> draft_stage_target d = Dec 5 0)"
proof -
  have "transition_draft ''SPY'' (Dec 5 0) (Dec 8 0) False = Inr (Some (entry_draft ''SPY'' (Dec 3 0) True True), False)"
    "transition_draft ''SPY'' (Dec 8 0) (Dec 5 0) False = Inr (Some (exit_draft ''SPY'' (Dec 3 0) REDUCE_LONG (Dec 5 0)), False)"
    by code_simp+
  then show ?thesis by (simp add: entry_draft_def exit_draft_def)
qed

text \<open>Negating a truncated quantity is exact in the precision the quantity was computed in.\<close>

lemma dneg_quantized_down:
  assumes "drepr 28 d"
  shows "dval (dneg 28 (quantized_down d u)) = - dval (quantized_down d u)"
proof (cases "u \<le> expo d")
  case True
  then have v: "dval (quantized_down d u) = dval d"
    using dval_align [OF True] by (simp add: quantized_down_def dval_def [of "Dec _ _"])
  obtain s where s: "dneg 28 (quantized_down d u) = dfix 28 s" "dval s = - dval d"
    using dneg_val [of 28 "quantized_down d u"] v by auto
  have "drepr 28 (Dec (- coeff d) (expo d))" using assms by (simp add: drepr_def)
  from c28.rnd_exact [OF this] s v show ?thesis by (simp add: dval_def)
next
  case False
  have "\<bar>coeff d\<bar> div p10 (u - expo d) \<le> \<bar>coeff d\<bar>"
    using zdiv_mono2 [of "\<bar>coeff d\<bar>" 1 "p10 (u - expo d)"] p10_pos [of "u - expo d"] by simp
  moreover have "0 \<le> \<bar>coeff d\<bar> div p10 (u - expo d)" by (simp add: pos_imp_zdiv_nonneg_iff)
  moreover have "\<bar>coeff (quantized_down d u)\<bar> = \<bar>coeff d\<bar> div p10 (u - expo d)"
    using False calculation(2) by (cases "coeff d = 0") (simp_all add: quantized_down_def abs_mult abs_sgn_eq)
  ultimately have "drepr 28 (quantized_down d u)"
    using assms ndigits_mono [of "\<bar>coeff (quantized_down d u)\<bar>" "\<bar>coeff d\<bar>"] by (simp add: drepr_def)
  then show ?thesis by (rule c28.neg_fits)
qed

text \<open>
  A target quantity never exceeds what the approved weight buys: it has the sign of the
  weight (or is zero), is a multiple of the quantum (a millionth of a share long, a whole share
  short), and is the truncation of the quotient that the module computes in 28 digits.
\<close>

lemma target_quantity_truncates:
  assumes "signed_target_quantity weight equity price = Inr q"
  shows "\<exists>raw. ddiv 28 (dmul 28 weight equity) price = Some raw \<and>
    \<bar>dval q\<bar> \<le> \<bar>dval raw\<bar> \<and> \<bar>dval raw\<bar> < \<bar>dval q\<bar> + (if 0 < dval raw then 1 / 1000000 else 1) \<and>
    0 \<le> dval q * dval raw \<and> (\<exists>k. dval q = of_int k * (if 0 < dval raw then 1 / 1000000 else 1))"
proof -
  obtain raw where raw: "ddiv 28 (dmul 28 weight equity) price = Some raw"
    and q: "(if deq raw dzero then Inr dzero
      else bindE (quantize_decimal (dabs 28 raw) (if dlt dzero raw then LONG_QUANTUM else SHORT_QUANTUM) DOWN)
        (\<lambda>magnitude. Inr (if dlt dzero raw then magnitude else dneg 28 magnitude))) = Inr q"
    using assms by (auto simp: signed_target_quantity_def split: option.splits simp del: bindE_Inr_iff)
  have fits: "drepr 28 raw" using raw by (intro drepr_ddiv) simp_all
  have a: "dval (dabs 28 raw) = \<bar>dval raw\<bar>" using fits by (rule c28.mag_fits)
  show ?thesis
  proof (cases "dval raw = 0")
    case True
    then show ?thesis using raw q by (auto simp: dec_simps intro!: exI [of _ 0])
  next
    case False
    define u :: int where "u = (if 0 < dval raw then - 6 else 0)"
    have uu: "(10 :: rat) powi u = (if 0 < dval raw then 1 / 1000000 else 1)" "- 64 \<le> u" "u \<le> 64" "u \<le> 0"
      by (simp_all add: u_def power_int_minus)
    have "(if dlt dzero raw then LONG_QUANTUM else SHORT_QUANTUM) = Dec 1 u"
      by (simp add: u_def dec_simps LONG_QUANTUM_def SHORT_QUANTUM_def)
    with q False obtain m where m: "quantize_decimal (dabs 28 raw) (Dec 1 u) DOWN = Inr m"
      and qm: "q = (if 0 < dval raw then m else dneg 28 m)" by (auto simp: dec_simps)
    have mq: "m = quantized_down (dabs 28 raw) u" using quantize_down_result [OF m uu(2,3)] .
    have ab: "0 \<le> dval (dabs 28 raw)" by (simp add: a)
    note b = quantized_down_bounds [OF ab, of u, folded mq, unfolded a uu(1)]
    have n: "dval (dneg 28 m) = - dval m"
      unfolding mq by (rule dneg_quantized_down) (use c28.fits_ops(5) in simp)
    obtain k where k: "dval m = of_int k * 10 powi u" using quantize_down_lattice [OF m uu(2,3)] by blast
    have lattice: "\<exists>k. dval q = of_int k * (if 0 < dval raw then 1 / 1000000 else 1)"
      unfolding uu(1) [symmetric] by (rule exI [of _ "if 0 < dval raw then k else - k"]) (simp add: qm n k)
    have "dval q = (if 0 < dval raw then dval m else - dval m)" using qm n by simp
    then have "\<bar>dval q\<bar> = dval m" "0 \<le> dval q * dval raw"
      using b(1) by (auto simp: zero_le_mult_iff not_less)
    with b raw lattice show ?thesis by auto
  qed
qed


end
