(* ===== verification/Plan_Batches.thy ===== *)
theory Plan_Batches
  imports Planner
begin

text \<open>
  What a plan of \<open>plan_signed_orders\<close> is: the intents of every symbol move the position to its
  target or to zero, nothing exceeds the authority of the risk decision, and the intents form
  one numbered batch with closing legs first.
\<close>

section \<open>Drafts\<close>

definition draft_shape :: "string \<Rightarrow> bool \<Rightarrow> IntentDraft \<Rightarrow> bool" where
  "draft_shape symbol forced_flat d \<longleftrightarrow> draft_symbol d = symbol \<and>
     (draft_side d, draft_phase d) = expected_side_phase (draft_effect d) \<and>
     (draft_phase d = FLATTEN \<longleftrightarrow> forced_flat)"

lemma transition_shape:
  assumes "transition_draft s c t ff = Inr (od, rv)"
  shows "rv \<longleftrightarrow> dval c * dval t < 0"
    and "od = Some d \<Longrightarrow> draft_shape s ff d \<and> draft_part d = 0 \<and>
      (draft_phase d = ENTRY \<longrightarrow> \<not> rv \<and> \<bar>dval c\<bar> < \<bar>dval t\<bar>)"
proof -
  have "od = Some d \<Longrightarrow> draft_shape s ff d \<and> draft_part d = 0" 
    using assms by (auto simp: transition_draft_def draft_shape_def flatten_draft_def entry_draft_def exit_draft_def split: if_splits)
  moreover have "od = Some d \<Longrightarrow> draft_phase d = ENTRY \<Longrightarrow> \<not> rv \<and> \<bar>dval c\<bar> < \<bar>dval t\<bar>" 
    using assms by (auto simp: transition_draft_def flatten_draft_def entry_draft_def exit_draft_def dec_simps split: if_splits)
  ultimately show "od = Some d \<Longrightarrow> draft_shape s ff d \<and> draft_part d = 0 \<and>
      (draft_phase d = ENTRY \<longrightarrow> \<not> rv \<and> \<bar>dval c\<bar> < \<bar>dval t\<bar>)" by blast
  show "rv \<longleftrightarrow> dval c * dval t < 0" 
    using assms by (auto simp: transition_draft_def dec_simps mult_less_0_iff split: if_splits)
qed

lemma split_draft_shape:
  assumes "split_draft d price notional = Inr ds" and "x \<in> set ds"
  shows "draft_side x = draft_side d \<and> draft_phase x = draft_phase d \<and> (draft_shape s ff d \<longrightarrow> draft_shape s ff x)"
proof -
  consider "ds = [d]" | qs where "ds = split_parts d qs"
    using assms(1) by (auto simp: split_draft_def split: if_splits)
  then show ?thesis
  proof cases
    case 1 with assms(2) show ?thesis by simp
  next
    case 2
    from split_parts_props(2) [OF assms(2) [unfolded 2]] show ?thesis by (simp add: draft_shape_def)
  qed
qed

section \<open>The loop over the targets\<close>

lemma draft_step_appends:
  "draft_step r cur pr t (a, b) = bindE (draft_step r cur pr t ([], [])) (\<lambda>(x, y). Inr (a @ x, b @ y))"
  by (simp add: draft_step_def bindE_assoc case_prod_unfold)

lemma draft_step_cases:
  assumes "draft_step r cur pr t ([], []) = Inr (ds, rs)"
  obtains c p od rv where "map_of cur (pos_symbol t) = Some c"
    and "transition_draft (pos_symbol t) c (pos_quantity t) (req_forced_flat r) = Inr (od, rv)"
    and "rs = (if rv then [pos_symbol t] else [])"
    and "od = None \<and> ds = [] \<or> (\<exists>d. od = Some d \<and>
      split_draft d p (dmul 28 (req_equity r) MAXIMUM_SINGLE_INTENT_EQUITY_FRACTION) = Inr ds)"
proof -
  obtain c p where cp: "map_of cur (pos_symbol t) = Some c" "map_of pr (pos_symbol t) = Some p"
    using assms by (auto simp: draft_step_def dict_item_def split: option.splits)
  obtain od rv where od: "transition_draft (pos_symbol t) c (pos_quantity t) (req_forced_flat r) = Inr (od, rv)"
    using assms cp by (auto simp: draft_step_def dict_item_def)
  with assms cp show thesis by (intro that [OF cp(1) od]) (cases od; auto simp: draft_step_def dict_item_def)+
qed

lemma draft_step_shape:
  assumes "draft_step r cur pr t ([], []) = Inr (ds, rs)"
  shows "\<exists>c. map_of cur (pos_symbol t) = Some c \<and>
    rs = (if dval c * dval (pos_quantity t) < 0 then [pos_symbol t] else []) \<and>
    (\<forall>d \<in> set ds. draft_shape (pos_symbol t) (req_forced_flat r) d \<and>
      (draft_phase d = ENTRY \<longrightarrow> rs = [] \<and> \<bar>dval c\<bar> < \<bar>dval (pos_quantity t)\<bar>))"
proof -
  obtain c p od rv where c: "map_of cur (pos_symbol t) = Some c"
    and tr: "transition_draft (pos_symbol t) c (pos_quantity t) (req_forced_flat r) = Inr (od, rv)"
    and rs: "rs = (if rv then [pos_symbol t] else [])"
    and ds: "od = None \<and> ds = [] \<or> (\<exists>d. od = Some d \<and>
      split_draft d p (dmul 28 (req_equity r) MAXIMUM_SINGLE_INTENT_EQUITY_FRACTION) = Inr ds)"
    by (rule draft_step_cases [OF assms])
  show ?thesis
  proof (intro exI conjI ballI)
    show "map_of cur (pos_symbol t) = Some c" by fact
    show "rs = (if dval c * dval (pos_quantity t) < 0 then [pos_symbol t] else [])"
      unfolding rs transition_shape(1) [OF tr] ..
  next
    fix x assume x: "x \<in> set ds"
    with ds obtain d where d: "od = Some d" "split_draft d p (dmul 28 (req_equity r) MAXIMUM_SINGLE_INTENT_EQUITY_FRACTION) = Inr ds"
      by auto
    from split_draft_shape [OF d(2) x, of "pos_symbol t" "req_forced_flat r"] transition_shape(2) [OF tr d(1)]
    show "draft_shape (pos_symbol t) (req_forced_flat r) x"
      and "draft_phase x = ENTRY \<longrightarrow> rs = [] \<and> \<bar>dval c\<bar> < \<bar>dval (pos_quantity t)\<bar>" by (auto simp: rs)
  qed
qed

definition draft_move :: "IntentDraft \<Rightarrow> rat" where
  "draft_move d = signed_effect (draft_side d) (draft_quantity d)"

lemma signed_effect_sum:
  "\<forall>x \<in> set ds. draft_side x = sd \<Longrightarrow> sum_list (map draft_move ds) =
     (case sd of BUY \<Rightarrow> 1 | SELL \<Rightarrow> - 1) * sum_list (map (\<lambda>x. dval (draft_quantity x)) ds)"
  by (induction ds) (auto simp: draft_move_def algebra_simps split: OrderSide.splits)

lemma draft_step_lands:
  assumes step: "draft_step r cur pr t ([], []) = Inr (ds, rs)" and cur: "map_of cur (pos_symbol t) = Some c"
    and c: "on_grid c" and t: "on_grid (pos_quantity t)" and ff: "req_forced_flat r \<longrightarrow> dval (pos_quantity t) = 0"
  shows "dval c + sum_list (map draft_move ds) = (if dval c * dval (pos_quantity t) < 0 then 0 else dval (pos_quantity t))"
proof -
  obtain od where od: "transition_draft (pos_symbol t) c (pos_quantity t) (req_forced_flat r) =
      Inr (od, dval c * dval (pos_quantity t) < 0)"
    and lands: "case od of None \<Rightarrow> dval c = dval (pos_quantity t)
      | Some d \<Rightarrow> draft_ok (pos_symbol t) (req_forced_flat r) d \<and> draft_part d = 0 \<and>
         dval c + signed_effect (draft_side d) (draft_quantity d) =
           (if dval c * dval (pos_quantity t) < 0 then 0 else dval (pos_quantity t)) \<and>
         (draft_phase d = ENTRY \<longrightarrow> 0 \<le> dval c * dval (pos_quantity t) \<and> \<bar>dval c\<bar> < \<bar>dval (pos_quantity t)\<bar>)"
    using transition_lands [OF c t ff] by blast
  show ?thesis
  proof (cases od)
    case None
    then show ?thesis using lands step cur od by (auto simp: draft_step_def dict_item_def not_less split: option.splits)
  next
    case (Some d)
    then obtain p where "split_draft d p (dmul 28 (req_equity r) MAXIMUM_SINGLE_INTENT_EQUITY_FRACTION) = Inr ds"
      using step cur od by (auto simp: draft_step_def dict_item_def split: option.splits)
    from split_draft_ok [OF this] Some lands
    have "sum_list (map draft_move ds) = signed_effect (draft_side d) (draft_quantity d)"
      using signed_effect_sum [of ds "draft_side d"] by (cases "draft_side d") auto
    then show ?thesis using Some lands by simp
  qed
qed

lemma plan_signed_orders_cases:
  assumes "plan_signed_orders sha r = Inr x" and W: "W = dict_of_pairs (rd_final_targets (req_risk_decision r))"
    and P: "P = dict_of_pairs (req_reference_prices r)"
    and C: "C = dict_of_pairs (map (\<lambda>p. (pos_symbol p, pos_quantity p)) (req_current_positions r))"
  obtains targets th xs ordered where
    "rd_execution_scope (req_risk_decision r) \<noteq> NONE_SCOPE"
    and "mapE (target_position r W P) (sort (dict_keys W)) = Inr targets"
    and "create_plan sha (plan_of_request r targets) = Inr (res_plan x)"
    and "mapE (\<lambda>t. draft_step r C P t ([], [])) targets = Inr xs"
    and "ordered = sort_key draft_key (concat (map fst xs))" and "length ordered \<le> 16"
    and "mapE (\<lambda>(n, d). bindE (dict_item P (draft_symbol d)) (\<lambda>price.
          create_intent sha (intent_of_draft r (res_plan x) th n d price))) (List.enumerate 0 ordered) = Inr (res_intents x)"
    and "res_reversal_symbols x = sort (concat (map snd xs))"
    and "guards_ok (minimum_notional_guards r (res_intents x))"
    and "guards_ok (planning_result_guards x)" and "res_risk_decision x = req_risk_decision r"
proof -
  obtain targets th drafts rvs where
    sc: "rd_execution_scope (req_risk_decision r) \<noteq> NONE_SCOPE"
    and t: "mapE (target_position r W P) (sort (dict_keys W)) = Inr targets"
    and p: "create_plan sha (plan_of_request r targets) = Inr (res_plan x)"
    and f: "foldE (draft_step r C P) targets ([], []) = Inr (drafts, rvs)"
    and l: "length drafts \<le> 16"
    and i: "mapE (\<lambda>(n, d). bindE (dict_item P (draft_symbol d)) (\<lambda>price.
          create_intent sha (intent_of_draft r (res_plan x) th n d price))) (List.enumerate 0 (sort_key draft_key drafts)) =
        Inr (res_intents x)"
    and rr: "res_reversal_symbols x = sort rvs"
    and g: "guards_ok (minimum_notional_guards r (res_intents x))" "guards_ok (planning_result_guards x)"
      "res_risk_decision x = req_risk_decision r"
    using assms(1) unfolding W P C
    by (auto simp: plan_signed_orders_def Let_def MAXIMUM_INTENTS_PER_PLAN_def validate_planning_result_def)
  from foldE_appends [OF draft_step_appends f] obtain xs where
    xs: "mapE (\<lambda>t. draft_step r C P t ([], [])) targets = Inr xs" "drafts = concat (map fst xs)" "rvs = concat (map snd xs)"
    by auto
  show thesis
    by (rule that [OF sc t p xs(1) refl _ _ _ g]) (use l i rr xs in simp_all)
qed

lemma intents_of_ordered:
  assumes "mapE (\<lambda>(n, d). bindE (dict_item P (draft_symbol d)) (\<lambda>price.
          create_intent sha (intent_of_draft r plan th n d price))) (List.enumerate 0 ordered) = Inr is"
  shows "list_all2 (\<lambda>d i. validate_intent sha i = Inr i \<and> intent_symbol i = draft_symbol d \<and>
      intent_side i = draft_side d \<and> intent_phase i = draft_phase d \<and> intent_position_effect i = draft_effect d \<and>
      intent_quantity i = draft_quantity d \<and> intent_risk_decision_id i = plan_risk_decision_id plan \<and>
      (\<exists>h. identifier_digest sha (plan_risk_decision_id plan) = Inr h \<and>
        intent_client_order_id i = make_client_order_id i h)) ordered is"
    and "map intent_sequence is = map int [0..<length ordered]"
proof -
  have len: "length is = length ordered" using mapE_length [OF assms] by simp
  have nth: "\<exists>price. create_intent sha (intent_of_draft r plan th n (ordered ! n) price) = Inr (is ! n)"
    if "n < length ordered" for n
    using mapE_nth [OF assms, of n] that by (auto simp: nth_enumerate_eq)
  show "map intent_sequence is = map int [0..<length ordered]"
  proof (rule nth_equalityI)
    fix n assume "n < length (map intent_sequence is)"
    then obtain price where "create_intent sha (intent_of_draft r plan th n (ordered ! n) price) = Inr (is ! n)"
      using nth len by auto
    from create_intent_frame(1) [OF this] \<open>n < _\<close> len
    show "map intent_sequence is ! n = map int [0..<length ordered] ! n" by (simp add: intent_of_draft_def)
  qed (simp add: len)
  show "list_all2 (\<lambda>d i. validate_intent sha i = Inr i \<and> intent_symbol i = draft_symbol d \<and>
      intent_side i = draft_side d \<and> intent_phase i = draft_phase d \<and> intent_position_effect i = draft_effect d \<and>
      intent_quantity i = draft_quantity d \<and> intent_risk_decision_id i = plan_risk_decision_id plan \<and>
      (\<exists>h. identifier_digest sha (plan_risk_decision_id plan) = Inr h \<and>
        intent_client_order_id i = make_client_order_id i h)) ordered is"
  proof (rule list_all2_all_nthI)
    fix n assume "n < length ordered"
    then obtain price where c: "create_intent sha (intent_of_draft r plan th n (ordered ! n) price) = Inr (is ! n)"
      using nth by auto
    from create_intent_frame [OF c]
    show "validate_intent sha (is ! n) = Inr (is ! n) \<and> intent_symbol (is ! n) = draft_symbol (ordered ! n) \<and>
      intent_side (is ! n) = draft_side (ordered ! n) \<and> intent_phase (is ! n) = draft_phase (ordered ! n) \<and>
      intent_position_effect (is ! n) = draft_effect (ordered ! n) \<and>
      intent_quantity (is ! n) = draft_quantity (ordered ! n) \<and>
      intent_risk_decision_id (is ! n) = plan_risk_decision_id plan \<and>
      (\<exists>h. identifier_digest sha (plan_risk_decision_id plan) = Inr h \<and>
        intent_client_order_id (is ! n) = make_client_order_id (is ! n) h)"
      by (simp add: intent_of_draft_def)
  qed (simp add: len)
qed

definition intent_move :: "OrderIntent \<Rightarrow> rat" where
  "intent_move i = signed_effect (intent_side i) (intent_quantity i)"

lemma target_position_Inr:
  assumes "target_position r W P s = Inr t"
  shows "pos_symbol t = s" and "req_forced_flat r \<Longrightarrow> dval (pos_quantity t) = 0"
    and "(\<And>w. map_of W s = Some w \<Longrightarrow> dval w = 0) \<Longrightarrow> dval (pos_quantity t) = 0"
proof -
  show "pos_symbol t = s" using assms by (auto simp: target_position_def validate_position_def)
  show "req_forced_flat r \<Longrightarrow> dval (pos_quantity t) = 0"
    using assms by (auto simp: target_position_def validate_position_def)
  have z: "signed_target_quantity w e p = Inr q \<Longrightarrow> dval w = 0 \<Longrightarrow> dval q = 0" for w e p q
  proof -
    assume q: "signed_target_quantity w e p = Inr q" and "dval w = 0"
    then have "coeff w = 0" by (simp add: dval_sign)
    then have "coeff (dmul 28 w e) = 0" by (cases w; cases e) (simp add: dfix.simps ndigits.simps)
    then show "dval q = 0" using q
      by (cases "dmul 28 w e"; cases p) (auto simp: signed_target_quantity_def dec_simps split: if_splits)
  qed
  show "(\<And>w. map_of W s = Some w \<Longrightarrow> dval w = 0) \<Longrightarrow> dval (pos_quantity t) = 0"
    using assms z by (auto simp: target_position_def validate_position_def dict_item_def split: if_splits option.splits)
qed

text \<open>The lists of a result, for a validated request and decision.\<close>

abbreviation current_of :: "ExecutionPlanningRequest \<Rightarrow> (string, decimal) dict" where
  "current_of r \<equiv> map (\<lambda>p. (pos_symbol p, pos_quantity p)) (req_current_positions r)"

lemma request_dicts:
  assumes "validate_request r = Inr r'" and "validate_risk_decision sha (req_risk_decision r) = Inr d'"
  shows "dict_of_pairs (rd_final_targets (req_risk_decision r)) = rd_final_targets (req_risk_decision r)"
    and "dict_of_pairs (req_reference_prices r) = req_reference_prices r"
    and "dict_of_pairs (current_of r) = current_of r"
    and "map pos_symbol (req_current_positions r) = map fst (rd_final_targets (req_risk_decision r))"
    and "distinct (map fst (rd_final_targets (req_risk_decision r)))"
proof -
  have g: "guards_ok (decision_guards (req_risk_decision r))" using assms(2) by (simp add: validate_risk_decision_Inr)
  show d: "distinct (map fst (rd_final_targets (req_risk_decision r)))" using decision_guards_symbols(2) [OF g] .
  show s: "map pos_symbol (req_current_positions r) = map fst (rd_final_targets (req_risk_decision r))"
    using assms(1) by (auto simp: validate_request_def request_shape_guards_def Let_def)
  have "map fst (req_reference_prices r) = map fst (rd_final_targets (req_risk_decision r))"
    using assms(1) by (auto simp: validate_request_def request_shape_guards_def Let_def)
  with d s show "dict_of_pairs (rd_final_targets (req_risk_decision r)) = rd_final_targets (req_risk_decision r)"
    "dict_of_pairs (req_reference_prices r) = req_reference_prices r" "dict_of_pairs (current_of r) = current_of r"
    by (simp_all add: dict_of_pairs_distinct comp_def)
qed

definition intent_summary :: "OrderIntent \<Rightarrow> string \<times> IntentPhase \<times> rat" where
  "intent_summary i = (intent_symbol i, intent_phase i, intent_move i)"

definition draft_summary :: "IntentDraft \<Rightarrow> string \<times> IntentPhase \<times> rat" where
  "draft_summary d = (draft_symbol d, draft_phase d, draft_move d)"

lemma plan_lists:
  assumes plan: "plan_signed_orders sha r = Inr x" and req: "validate_request r = Inr r'"
    and dec: "validate_risk_decision sha (req_risk_decision r) = Inr d'"
  obtains xs where
    "list_all2 (\<lambda>t y. draft_step r (current_of r) (req_reference_prices r) t ([], []) = Inr y)
       (plan_target_quantities (res_plan x)) xs"
    and "distinct (map pos_symbol (plan_target_quantities (res_plan x)))"
    and "\<forall>t \<in> set (plan_target_quantities (res_plan x)).
       target_position r (rd_final_targets (req_risk_decision r)) (req_reference_prices r) (pos_symbol t) = Inr t"
    and "plan_current_positions (res_plan x) = req_current_positions r"
    and "mset (map intent_summary (res_intents x)) = mset (map draft_summary (concat (map fst xs)))"
    and "set (res_reversal_symbols x) = set (concat (map snd xs))"
proof -
  let ?W = "rd_final_targets (req_risk_decision r)" and ?P = "req_reference_prices r"
  note rd = request_dicts [OF req dec]
  obtain targets th xs ordered where
    tg: "mapE (target_position r ?W ?P) (sort (dict_keys ?W)) = Inr targets"
    and pl: "create_plan sha (plan_of_request r targets) = Inr (res_plan x)"
    and xs: "mapE (\<lambda>t. draft_step r (current_of r) ?P t ([], [])) targets = Inr xs"
    and ord: "ordered = sort_key draft_key (concat (map fst xs))"
    and its: "mapE (\<lambda>(n, d). bindE (dict_item ?P (draft_symbol d)) (\<lambda>price.
          create_intent sha (intent_of_draft r (res_plan x) th n d price))) (List.enumerate 0 ordered) = Inr (res_intents x)"
    and rr: "res_reversal_symbols x = sort (concat (map snd xs))"
    by (rule plan_signed_orders_cases [OF plan rd(1-3) [symmetric]]) blast
  have tq: "plan_target_quantities (res_plan x) = targets" "plan_current_positions (res_plan x) = req_current_positions r"
    using create_plan_Inr [OF pl] by (auto simp: plan_of_request_def Let_def)
  have la: "list_all2 (\<lambda>s t. target_position r ?W ?P s = Inr t) (sort (map fst ?W)) targets"
    using tg by (simp add: mapE_Inr_list_all2 dict_keys_def)
  then have "list_all2 (\<lambda>s t. s = pos_symbol t) (sort (map fst ?W)) targets"
    by (rule list_all2_mono) (use target_position_Inr(1) in simp)
  then have ts: "map pos_symbol targets = sort (map fst ?W)"
    by (simp add: list_all2_conv_all_nth list_eq_iff_nth_eq)
  have tp: "\<forall>t \<in> set targets. target_position r ?W ?P (pos_symbol t) = Inr t"
    using la by (fastforce simp: list_all2_conv_all_nth in_set_conv_nth target_position_Inr(1))
  have "map intent_summary (res_intents x) = map draft_summary ordered"
    using intents_of_ordered(1) [OF its] by (auto simp: list_all2_conv_all_nth list_eq_iff_nth_eq
        intent_summary_def draft_summary_def intent_move_def draft_move_def)
  then have "mset (map intent_summary (res_intents x)) = mset (map draft_summary (concat (map fst xs)))"
    by (simp add: ord)
  then show thesis
    using xs ts rd(5) tp rr by (intro that) (simp_all add: tq mapE_Inr_list_all2)
qed

lemma plan_structure:
  assumes plan: "plan_signed_orders sha r = Inr x" and req: "validate_request r = Inr r'"
    and dec: "validate_risk_decision sha (req_risk_decision r) = Inr d'"
    and t: "t \<in> set (plan_target_quantities (res_plan x))" and p: "p \<in> set (plan_current_positions (res_plan x))"
    and eq: "pos_symbol p = pos_symbol t"
  obtains ds rs where "draft_step r (current_of r) (req_reference_prices r) t ([], []) = Inr (ds, rs)"
    and "map_of (current_of r) (pos_symbol t) = Some (pos_quantity p)"
    and "pos_symbol t \<in> set (res_reversal_symbols x) \<longleftrightarrow> rs \<noteq> []"
    and "mset (filter (\<lambda>d. fst d = pos_symbol t) (map intent_summary (res_intents x))) = mset (map draft_summary ds)"
    and "target_position r (rd_final_targets (req_risk_decision r)) (req_reference_prices r) (pos_symbol t) = Inr t"
proof -
  let ?T = "plan_target_quantities (res_plan x)" and ?step = "\<lambda>t. draft_step r (current_of r) (req_reference_prices r) t ([], [])"
  obtain xs where all: "list_all2 (\<lambda>t y. ?step t = Inr y) ?T xs" and ds: "distinct (map pos_symbol ?T)"
    and tp: "\<forall>t \<in> set ?T. target_position r (rd_final_targets (req_risk_decision r)) (req_reference_prices r) (pos_symbol t) = Inr t"
    and pc: "plan_current_positions (res_plan x) = req_current_positions r"
    and ms: "mset (map intent_summary (res_intents x)) = mset (map draft_summary (concat (map fst xs)))"
    and rr: "set (res_reversal_symbols x) = set (concat (map snd xs))"
    by (rule plan_lists [OF plan req dec])
  obtain n where n: "n < length ?T" "?T ! n = t" using t unfolding in_set_conv_nth by blast
  obtain dd rs where dr: "xs ! n = (dd, rs)" by (cases "xs ! n")
  have step: "?step t = Inr (dd, rs)" using list_all2_nthD [OF all n(1)] n(2) dr by simp
  have cur: "map_of (current_of r) (pos_symbol t) = Some (pos_quantity p)"
    using p eq request_dicts(4,5) [OF req dec] unfolding pc
    by (intro map_of_is_SomeI) (auto simp: comp_def intro!: image_eqI [of _ _ p])
  have keyed: "list_all2 (\<lambda>t ys. \<forall>y \<in> set ys. draft_symbol y = pos_symbol t) ?T (map fst xs)"
      "list_all2 (\<lambda>t ys. \<forall>y \<in> set ys. y = pos_symbol t) ?T (map snd xs)"
    unfolding list_all2_map2 using all
    by (auto elim!: list_all2_mono simp: draft_shape_def dest!: draft_step_shape split: if_splits)
  have z: "(t, dd) \<in> set (zip ?T (map fst xs))" "(t, rs) \<in> set (zip ?T (map snd xs))"
    using n dr list_all2_lengthD [OF all] by (auto simp: set_zip)
  have fd: "filter (\<lambda>d. draft_symbol d = pos_symbol t) (concat (map fst xs)) = dd"
    by (rule filter_concat_keyed [OF keyed(1) ds z(1)])
  have fr: "filter (\<lambda>s. s = pos_symbol t) (concat (map snd xs)) = rs"
    by (rule filter_concat_keyed [OF keyed(2) ds z(2)])
  have rv: "pos_symbol t \<in> set (res_reversal_symbols x) \<longleftrightarrow> rs \<noteq> []"
    unfolding rr fr [symmetric] by (auto simp: filter_empty_conv)
  have "mset (filter (\<lambda>d. fst d = pos_symbol t) (map intent_summary (res_intents x))) =
      filter_mset (\<lambda>d. fst d = pos_symbol t) (mset (map draft_summary (concat (map fst xs))))"
    unfolding ms [symmetric] by simp
  also have "\<dots> = mset (filter (\<lambda>d. fst d = pos_symbol t) (map draft_summary (concat (map fst xs))))"
    by (rule mset_filter [symmetric])
  also have "\<dots> = mset (map draft_summary dd)"
    unfolding fd [symmetric] filter_map by (simp add: comp_def draft_summary_def del: filter_concat)
  finally show thesis using step cur rv tp t by (intro that) blast+
qed

text \<open>
  C6. The planner moves every position to its target and never through zero: for quantities on
  the broker's grid of millionths, the complete fill of the intents of a symbol takes the
  current position exactly to the planned target, or exactly to zero when the target has the
  opposite sign, and the symbols of the second kind are exactly the reversal symbols.
\<close>

theorem planned_orders_land_on_target:
  assumes "plan_signed_orders sha r = Inr x" and "validate_request r = Inr r"
    and "validate_risk_decision sha (req_risk_decision r) = Inr (req_risk_decision r)"
    and "p \<in> set (plan_current_positions (res_plan x))" and "t \<in> set (plan_target_quantities (res_plan x))"
    and "pos_symbol p = pos_symbol t" and "on_grid (pos_quantity p)" and "on_grid (pos_quantity t)"
  shows "dval (pos_quantity p) + sum_list (map intent_move (filter (\<lambda>i. intent_symbol i = pos_symbol p) (res_intents x))) =
      (if pos_symbol p \<in> set (res_reversal_symbols x) then 0 else dval (pos_quantity t)) \<and>
    (pos_symbol p \<in> set (res_reversal_symbols x) \<longleftrightarrow> dval (pos_quantity p) * dval (pos_quantity t) < 0)"
proof -
  obtain ds rs where step: "draft_step r (current_of r) (req_reference_prices r) t ([], []) = Inr (ds, rs)"
    and cur: "map_of (current_of r) (pos_symbol t) = Some (pos_quantity p)"
    and rv: "pos_symbol t \<in> set (res_reversal_symbols x) \<longleftrightarrow> rs \<noteq> []"
    and ms: "mset (filter (\<lambda>d. fst d = pos_symbol t) (map intent_summary (res_intents x))) = mset (map draft_summary ds)"
    and tp: "target_position r (rd_final_targets (req_risk_decision r)) (req_reference_prices r) (pos_symbol t) = Inr t"
    by (rule plan_structure [OF assms(1-3) assms(5,4,6)])
  have ff: "req_forced_flat r \<longrightarrow> dval (pos_quantity t) = 0" using target_position_Inr(2) [OF tp] by blast
  have sum: "sum_list (map intent_move (filter (\<lambda>i. intent_symbol i = pos_symbol t) (res_intents x))) =
      sum_list (map draft_move ds)"
    using arg_cong [OF ms, of "\<lambda>m. sum_mset (image_mset (\<lambda>d. snd (snd d)) m)"]
    by (simp add: filter_map comp_def sum_mset_sum_list [symmetric] image_mset.compositionality
        intent_summary_def draft_summary_def)
  have rs: "rs \<noteq> [] \<longleftrightarrow> dval (pos_quantity p) * dval (pos_quantity t) < 0"
    using draft_step_shape [OF step] cur by auto
  from draft_step_lands [OF step cur assms(7,8) ff] show ?thesis unfolding assms(6) sum rv rs by simp
qed

lemma opens_iff_entry: "expected_side_phase e = (sd, ph) \<Longrightarrow> opens_exposure e \<longleftrightarrow> ph = ENTRY"
  by (cases e) (auto simp: opens_exposure_def)

lemma planned_intents_valid:
  assumes "plan_signed_orders sha r = Inr x"
  shows "length (res_intents x) \<le> 16" and "map intent_sequence (res_intents x) = map int [0..<length (res_intents x)]"
    and "\<forall>i \<in> set (res_intents x). validate_intent sha i = Inr i \<and> intent_risk_decision_id i = risk_decision_id (req_risk_decision r) \<and>
      intent_execution_plan_id i = execution_plan_id (res_plan x) \<and>
      (\<exists>h. identifier_digest sha (risk_decision_id (req_risk_decision r)) = Inr h \<and> intent_client_order_id i = make_client_order_id i h)"
    and "sorted (map (\<lambda>i. phase_order (intent_phase i)) (res_intents x))"
    and "validate_plan sha (res_plan x) = Inr (res_plan x)"
    and "plan_risk_decision_id (res_plan x) = risk_decision_id (req_risk_decision r)"
    and "plan_risk_decision_hash (res_plan x) = rd_content_hash (req_risk_decision r)"
    and "\<forall>i \<in> set (res_intents x). req_forced_flat r \<or> 25 \<le> dval (intent_notional i)"
proof -
  let ?P = "dict_of_pairs (req_reference_prices r)"
  obtain targets th xs ordered where
    "rd_execution_scope (req_risk_decision r) \<noteq> NONE_SCOPE"
    and "mapE (target_position r (dict_of_pairs (rd_final_targets (req_risk_decision r))) ?P)
      (sort (dict_keys (dict_of_pairs (rd_final_targets (req_risk_decision r))))) = Inr targets"
    and pl: "create_plan sha (plan_of_request r targets) = Inr (res_plan x)"
    and "mapE (\<lambda>t. draft_step r (dict_of_pairs (current_of r)) ?P t ([], [])) targets = Inr xs"
    and ord: "ordered = sort_key draft_key (concat (map fst xs))" and len: "length ordered \<le> 16"
    and its: "mapE (\<lambda>(n, d). bindE (dict_item ?P (draft_symbol d)) (\<lambda>price.
          create_intent sha (intent_of_draft r (res_plan x) th n d price))) (List.enumerate 0 ordered) = Inr (res_intents x)"
    and "res_reversal_symbols x = sort (concat (map snd xs))"
    and mn: "guards_ok (minimum_notional_guards r (res_intents x))" and pr: "guards_ok (planning_result_guards x)"
    and "res_risk_decision x = req_risk_decision r"
    by (rule plan_signed_orders_cases [OF assms refl refl refl])
  note io = intents_of_ordered [OF its]
  have l: "length (res_intents x) = length ordered" using list_all2_lengthD [OF io(1)] by simp
  show "length (res_intents x) \<le> 16" using l len by simp
  show "map intent_sequence (res_intents x) = map int [0..<length (res_intents x)]" using io(2) l by simp
  show id: "plan_risk_decision_id (res_plan x) = risk_decision_id (req_risk_decision r)"
    and "plan_risk_decision_hash (res_plan x) = rd_content_hash (req_risk_decision r)"
    using create_plan_Inr [OF pl] by (auto simp: plan_of_request_def Let_def)
  show "validate_plan sha (res_plan x) = Inr (res_plan x)" using create_plan_Inr [OF pl] by simp
  show "\<forall>i \<in> set (res_intents x). validate_intent sha i = Inr i \<and> intent_risk_decision_id i = risk_decision_id (req_risk_decision r) \<and>
      intent_execution_plan_id i = execution_plan_id (res_plan x) \<and>
      (\<exists>h. identifier_digest sha (risk_decision_id (req_risk_decision r)) = Inr h \<and> intent_client_order_id i = make_client_order_id i h)"
  proof
    fix i assume i: "i \<in> set (res_intents x)"
    then obtain n where n: "n < length ordered" "i = res_intents x ! n" unfolding in_set_conv_nth l by blast
    have "intent_execution_plan_id i = execution_plan_id (res_plan x)"
      using pr i by (simp add: planning_result_guards_def list_ex_iff)
    then show "validate_intent sha i = Inr i \<and> intent_risk_decision_id i = risk_decision_id (req_risk_decision r) \<and>
      intent_execution_plan_id i = execution_plan_id (res_plan x) \<and>
      (\<exists>h. identifier_digest sha (risk_decision_id (req_risk_decision r)) = Inr h \<and> intent_client_order_id i = make_client_order_id i h)"
      using list_all2_nthD [OF io(1) n(1)] unfolding n(2) [symmetric] id by blast
  qed
  have "map (\<lambda>i. phase_order (intent_phase i)) (res_intents x) = map fst (map draft_key ordered)"
    using list_all2_nthD [OF io(1)] by (auto simp: l list_eq_iff_nth_eq draft_key_def)
  moreover have "sorted (map fst ps)" if "sorted (ps :: (nat \<times> string \<times> nat) list)" for ps
    using that by (induction ps) (auto simp: less_eq_prod_def)
  ultimately show "sorted (map (\<lambda>i. phase_order (intent_phase i)) (res_intents x))"
    using sorted_sort_key [of draft_key "concat (map fst xs)"] by (simp add: ord del: map_map)
  have m: "dval MINIMUM_ORDER_NOTIONAL = 25" by (simp add: MINIMUM_ORDER_NOTIONAL_def dval_def power_int_minus)
  show "\<forall>i \<in> set (res_intents x). req_forced_flat r \<or> 25 \<le> dval (intent_notional i)"
    using mn by (auto simp: minimum_notional_guards_def guards_ok_def dec_simps m not_less)
qed

lemma planned_intent_origin:
  assumes plan: "plan_signed_orders sha r = Inr x" and req: "validate_request r = Inr r"
    and dec: "validate_risk_decision sha (req_risk_decision r) = Inr (req_risk_decision r)" and i: "i \<in> set (res_intents x)"
  shows "intent_phase i = FLATTEN \<longleftrightarrow> req_forced_flat r"
    and "intent_phase i = ENTRY \<Longrightarrow> intent_symbol i \<notin> set (res_reversal_symbols x) \<and>
      (\<exists>w. (intent_symbol i, w) \<in> set (rd_final_targets (req_risk_decision r)) \<and> dval w \<noteq> 0)"
proof -
  let ?T = "plan_target_quantities (res_plan x)" and ?step = "\<lambda>t. draft_step r (current_of r) (req_reference_prices r) t ([], [])"
  obtain xs where all: "list_all2 (\<lambda>t y. ?step t = Inr y) ?T xs"
    and tp: "\<forall>t \<in> set ?T. target_position r (rd_final_targets (req_risk_decision r)) (req_reference_prices r) (pos_symbol t) = Inr t"
    and ms: "mset (map intent_summary (res_intents x)) = mset (map draft_summary (concat (map fst xs)))"
    and pc: "plan_current_positions (res_plan x) = req_current_positions r"
    by (rule plan_lists [OF plan req dec])
  have "intent_summary i \<in> set (map intent_summary (res_intents x))" using i by simp
  then have "intent_summary i \<in> set (map draft_summary (concat (map fst xs)))" using mset_eq_setD [OF ms] by blast
  then obtain y d where y: "y \<in> set xs" "d \<in> set (fst y)" "intent_summary i = draft_summary d" by auto
  then obtain n where n: "n < length xs" "xs ! n = y" unfolding in_set_conv_nth by blast
  define t where "t = ?T ! n"
  have t: "t \<in> set ?T" "?step t = Inr (fst y, snd y)"
    using n list_all2_lengthD [OF all] list_all2_nthD2 [OF all n(1)] by (simp_all add: t_def)
  obtain c where c: "map_of (current_of r) (pos_symbol t) = Some c" "snd y = (if dval c * dval (pos_quantity t) < 0 then [pos_symbol t] else [])"
    and sh: "draft_shape (pos_symbol t) (req_forced_flat r) d" "draft_phase d = ENTRY \<longrightarrow> snd y = [] \<and> \<bar>dval c\<bar> < \<bar>dval (pos_quantity t)\<bar>"
    using draft_step_shape [OF t(2)] y(2) by blast
  have eq: "intent_symbol i = pos_symbol t" "intent_phase i = draft_phase d"
    using y(3) sh(1) by (simp_all add: intent_summary_def draft_summary_def draft_shape_def)
  show "intent_phase i = FLATTEN \<longleftrightarrow> req_forced_flat r" using sh(1) eq by (simp add: draft_shape_def)
  assume e: "intent_phase i = ENTRY"
  obtain p where p: "p \<in> set (plan_current_positions (res_plan x))" "pos_symbol p = pos_symbol t"
    using map_of_SomeD [OF c(1)] pc by auto
  obtain ds rs where "?step t = Inr (ds, rs)" "pos_symbol t \<in> set (res_reversal_symbols x) \<longleftrightarrow> rs \<noteq> []"
    by (rule plan_structure [OF plan req dec t(1) p])
  with e sh(2) t(2) eq have nr: "intent_symbol i \<notin> set (res_reversal_symbols x)" by simp
  have nz: "dval (pos_quantity t) \<noteq> 0" using e sh(2) eq by auto
  have tt: "target_position r (rd_final_targets (req_risk_decision r)) (req_reference_prices r) (pos_symbol t) = Inr t"
    using tp t(1) by blast
  obtain w where "map_of (rd_final_targets (req_risk_decision r)) (pos_symbol t) = Some w" "dval w \<noteq> 0"
    using target_position_Inr(3) [OF tt] nz by blast
  then show "intent_symbol i \<notin> set (res_reversal_symbols x) \<and>
      (\<exists>w. (intent_symbol i, w) \<in> set (rd_final_targets (req_risk_decision r)) \<and> dval w \<noteq> 0)"
    using nr eq map_of_SomeD by metis
qed

text \<open>
  C7. The planner stays within its authority: a forced-flat request produces only flattening
  intents and no other request produces any; a symbol whose sign reverses gets no intent that
  opens exposure; and a decision whose scope is not full gets no such intent at all.
\<close>

theorem planner_respects_authority:
  assumes "plan_signed_orders sha r = Inr x" and "validate_request r = Inr r"
    and "validate_risk_decision sha (req_risk_decision r) = Inr (req_risk_decision r)"
    and "i \<in> set (res_intents x)"
  shows "(intent_phase i = FLATTEN \<longleftrightarrow> req_forced_flat r) \<and>
    (opens_exposure (intent_position_effect i) \<longrightarrow> intent_symbol i \<notin> set (res_reversal_symbols x) \<and>
       rd_execution_scope (req_risk_decision r) = FULL \<and> \<not> req_forced_flat r)"
proof -
  note o = planned_intent_origin [OF assms]
  have "expected_side_phase (intent_position_effect i) = (intent_side i, intent_phase i)"
    using planned_intents_valid(3) [OF assms(1)] assms(4)
    by (auto simp: validate_intent_Inr intent_guards_def effect_guards_def)
  note op = opens_iff_entry [OF this]
  have "guards_ok (decision_guards (req_risk_decision r))" using assms(3) by (simp add: validate_risk_decision_Inr)
  from decision_guards_scope(1) [OF this]
  have "rd_execution_scope (req_risk_decision r) \<noteq> FULL \<longrightarrow> intent_phase i \<noteq> ENTRY"
    using o(2) by (fastforce simp: final_is_flat_def dec_simps)
  then show ?thesis using o op by auto
qed

text \<open>
  C19. The intents of a plan form one batch: at most sixteen validated intents of the plan,
  numbered 0, 1, 2, ... with closing legs before opening ones, no two with the same client order
  identifier, and, unless the request is forced flat, each worth at least 25.
\<close>

theorem planned_intents_batch:
  assumes "plan_signed_orders sha r = Inr x"
    and "validate_risk_decision sha (req_risk_decision r) = Inr (req_risk_decision r)"
  shows "length (res_intents x) \<le> 16 \<and>
    map intent_sequence (res_intents x) = map int [0..<length (res_intents x)] \<and>
    (\<forall>i \<in> set (res_intents x). validate_intent sha i = Inr i \<and>
       intent_execution_plan_id i = execution_plan_id (res_plan x) \<and>
       intent_risk_decision_id i = risk_decision_id (req_risk_decision r) \<and>
       (req_forced_flat r \<or> 25 \<le> dval (intent_notional i))) \<and>
    sorted (map (\<lambda>i. phase_order (intent_phase i)) (res_intents x)) \<and>
    distinct (map intent_client_order_id (res_intents x))"
proof -
  note v = planned_intents_valid [OF assms(1)]
  have hash: "is_hash (rd_content_hash (req_risk_decision r))" and
    rid: "risk_decision_id (req_risk_decision r) = ''risk_'' @ rd_content_hash (req_risk_decision r)"
    using assms(2) by (auto simp: validate_risk_decision_Inr)
  have cid: "intent_client_order_id i = make_client_order_id i (rd_content_hash (req_risk_decision r))"
    if "i \<in> set (res_intents x)" for i
    using v(3) that risk_id_digest [OF hash, of sha] unfolding rid by fastforce
  have "inj_on intent_client_order_id (set (res_intents x))"
  proof (rule inj_onI)
    fix i j assume ij: "i \<in> set (res_intents x)" "j \<in> set (res_intents x)" "intent_client_order_id i = intent_client_order_id j"
    have "client_id_inputs i (rd_content_hash (req_risk_decision r))" "client_id_inputs j (rd_content_hash (req_risk_decision r))"
      using v(3) ij(1,2) intent_guards_inputs [OF _ hash] by blast+
    from client_order_id_eqD [OF this] have "intent_sequence i = intent_sequence j"
      using ij(3) cid [OF ij(1)] cid [OF ij(2)] by simp
    moreover have "distinct (map intent_sequence (res_intents x))" unfolding v(2) by (simp add: distinct_map)
    ultimately show "i = j" using ij(1,2) by (simp add: distinct_map inj_on_def)
  qed
  moreover have "distinct (map intent_sequence (res_intents x))" unfolding v(2) by (simp add: distinct_map)
  ultimately have "distinct (map intent_client_order_id (res_intents x))" by (simp add: distinct_map)
  then show ?thesis using v by blast
qed

section \<open>A concrete plan\<close>

text \<open>An increase of one symbol and the first stage of a reversal of another.\<close>

definition sample_exposure :: ExposureSnapshot where
  "sample_exposure = \<lparr>ex_gross = Dec 11 (- 3), ex_net = Dec 5 (- 3), ex_positive = Dec 8 (- 3),
     ex_short_abs = Dec 3 (- 3), ex_group_gross = [], ex_cluster_gross = []\<rparr>"

definition sample_weights :: "(string \<times> decimal) list" where
  "sample_weights = [(''AAPL'', Dec 8 (- 3)), (''SPY'', Dec (- 3) (- 3))]"

definition sample_decision :: RiskDecision where
  "sample_decision = \<lparr>risk_decision_id = ''risk_'' @ sample_hash, rd_slot_id = ''slot_'' @ sample_hash,
     rd_signal_id = ''signal_'' @ sample_hash, rd_signal_hash = sample_hash, rd_experiment_hash = sample_hash,
     rd_policy_id = ''signed-v1'', rd_policy_version = 1, rd_policy_hash = sample_hash,
     rd_correlation_id = ''correlation_'' @ sample_hash, rd_decided_at = 1000000, rd_input_hash = sample_hash,
     rd_statistics_hash = sample_hash,
     rd_account_snapshot = \<lparr>as_account_id_hash = sample_hash, as_equity = Dec 100000 0, as_cash = Dec 50000 0,
       as_buying_power = Dec 50000 0, as_observed_at = 1000000\<rparr>,
     rd_planning_positions = [\<lparr>sp_symbol = ''AAPL'', sp_quantity = Dec 5 0\<rparr>,
       \<lparr>sp_symbol = ''SPY'', sp_quantity = Dec 10 0\<rparr>],
     rd_planning_prices = map (\<lambda>s. \<lparr>pp_symbol = s, pp_price = Dec 100 0, pp_observed_at = 1000000, pp_validated = True\<rparr>)
       [''AAPL'', ''SPY''],
     rd_security_metadata = map (\<lambda>s. \<lparr>sm_symbol = s, sm_asset_active = True, sm_tradable = True, sm_shortable = True,
       sm_easy_to_borrow = True, sm_primary_listing_eligible = True, sm_broker_capability_known = True,
       sm_observed_at = 1000000\<rparr>) [''AAPL'', ''SPY''],
     rd_original_proposal = [], rd_proposed_targets = sample_weights, rd_final_targets = sample_weights,
     rd_before_exposure = sample_exposure, rd_after_exposure = sample_exposure, rd_ordered_controls = [],
     rd_block_reasons = [], rd_flatten_reasons = [], rd_source_timestamps = [(''account'', 1000000)],
     rd_latch_state_hash = sample_hash, rd_active_latches = [], rd_required_latch_events = [],
     rd_execution_scope = FULL, rd_content_hash = sample_hash\<rparr>"

definition sample_planning_request :: ExecutionPlanningRequest where
  "sample_planning_request = \<lparr>req_risk_decision = sample_decision,
     req_current_positions = [\<lparr>pos_symbol = ''AAPL'', pos_quantity = Dec 5 0\<rparr>,
       \<lparr>pos_symbol = ''SPY'', pos_quantity = Dec 10 0\<rparr>],
     req_reference_prices = [(''AAPL'', Dec 100 0), (''SPY'', Dec 100 0)],
     req_equity = Dec 100000 0, req_target_version = 1, req_created_at = 2000000, req_deadline_at = 3000000,
     req_forced_flat = False\<rparr>"

lemma sample_decision_valid:
  "validate_risk_decision (\<lambda>_. sample_hash) sample_decision = Inr sample_decision"
proof -
  have "case validate_risk_decision (\<lambda>_. sample_hash) sample_decision of Inr _ \<Rightarrow> True | Inl _ \<Rightarrow> False"
    by code_simp
  from res_evaluates [OF this] show ?thesis by (auto simp: validate_risk_decision_Inr)
qed

lemma sample_request_valid: "validate_request sample_planning_request = Inr sample_planning_request"
proof -
  have "case validate_request sample_planning_request of Inr _ \<Rightarrow> True | Inl _ \<Rightarrow> False" by code_simp
  from res_evaluates [OF this] show ?thesis by (auto simp: validate_request_def)
qed

lemma sample_plan_evaluates:
  "case plan_signed_orders (\<lambda>_. sample_hash) sample_planning_request of Inl _ \<Rightarrow> False
   | Inr x \<Rightarrow> map (\<lambda>i. (intent_symbol i, intent_position_effect i, intent_quantity i)) (res_intents x) =
       [(''SPY'', CLOSE_LONG, Dec 10 0), (''AAPL'', INCREASE_LONG, Dec 3000000 (- 6))] \<and>
     res_reversal_symbols x = [''SPY''] \<and>
     plan_current_positions (res_plan x) = req_current_positions sample_planning_request \<and>
     plan_target_quantities (res_plan x) = [\<lparr>pos_symbol = ''AAPL'', pos_quantity = Dec 8000000 (- 6)\<rparr>,
       \<lparr>pos_symbol = ''SPY'', pos_quantity = Dec (- 3) 0\<rparr>]"
  by code_simp


lemma sample_plan:
  obtains x where "plan_signed_orders (\<lambda>_. sample_hash) sample_planning_request = Inr x"
    and "map (\<lambda>i. (intent_symbol i, intent_position_effect i, intent_quantity i)) (res_intents x) =
       [(''SPY'', CLOSE_LONG, Dec 10 0), (''AAPL'', INCREASE_LONG, Dec 3000000 (- 6))]"
    and "res_reversal_symbols x = [''SPY'']"
    and "plan_current_positions (res_plan x) = req_current_positions sample_planning_request"
    and "plan_target_quantities (res_plan x) = [\<lparr>pos_symbol = ''AAPL'', pos_quantity = Dec 8000000 (- 6)\<rparr>,
       \<lparr>pos_symbol = ''SPY'', pos_quantity = Dec (- 3) 0\<rparr>]"
  using res_evaluates [OF sample_plan_evaluates] by (elim exE conjE) (rule that)

lemma sample_request_decision: "req_risk_decision sample_planning_request = sample_decision"
  by (simp add: sample_planning_request_def)

theorem planned_orders_land_on_target_witness:
  "\<exists>x. plan_signed_orders (\<lambda>_. sample_hash) sample_planning_request = Inr x \<and>
     10 + sum_list (map intent_move (filter (\<lambda>i. intent_symbol i = ''SPY'') (res_intents x))) = 0"
proof -
  let ?p = "\<lparr>pos_symbol = ''SPY'', pos_quantity = Dec 10 0\<rparr>" and ?t = "\<lparr>pos_symbol = ''SPY'', pos_quantity = Dec (- 3) 0\<rparr>"
  obtain x where x: "plan_signed_orders (\<lambda>_. sample_hash) sample_planning_request = Inr x"
    and r: "res_reversal_symbols x = [''SPY'']"
    and c: "plan_current_positions (res_plan x) = req_current_positions sample_planning_request"
    and t: "plan_target_quantities (res_plan x) = [\<lparr>pos_symbol = ''AAPL'', pos_quantity = Dec 8000000 (- 6)\<rparr>, ?t]"
    by (rule sample_plan)
  have "?p \<in> set (plan_current_positions (res_plan x))" by (simp add: c sample_planning_request_def)
  moreover have "?t \<in> set (plan_target_quantities (res_plan x))" by (simp add: t)
  moreover have "on_grid (Dec 10 0)" "on_grid (Dec (- 3) 0)" by code_simp+
  ultimately show ?thesis
    using planned_orders_land_on_target [OF x sample_request_valid _ _ _ _ _ _, of ?p ?t] x r
    by (simp add: sample_request_decision sample_decision_valid)
qed

theorem planner_respects_authority_witness:
  "\<exists>x i. plan_signed_orders (\<lambda>_. sample_hash) sample_planning_request = Inr x \<and> i \<in> set (res_intents x) \<and>
     intent_phase i \<noteq> FLATTEN \<and> intent_symbol i \<notin> set (res_reversal_symbols x)"
proof -
  obtain x where x: "plan_signed_orders (\<lambda>_. sample_hash) sample_planning_request = Inr x"
    and m: "map (\<lambda>i. (intent_symbol i, intent_position_effect i, intent_quantity i)) (res_intents x) =
       [(''SPY'', CLOSE_LONG, Dec 10 0), (''AAPL'', INCREASE_LONG, Dec 3000000 (- 6))]"
    by (rule sample_plan)
  obtain j i where ji: "res_intents x = [j, i]" and e: "intent_position_effect i = INCREASE_LONG"
    using m by (auto simp: map_eq_Cons_conv)
  then have i: "i \<in> set (res_intents x)" by simp
  from planner_respects_authority [OF x sample_request_valid _ i] x i e show ?thesis
    by (auto simp: sample_request_decision sample_decision_valid opens_exposure_def sample_planning_request_def
        simp del: not_None_eq)
qed

theorem planned_intents_batch_witness:
  "\<exists>x. plan_signed_orders (\<lambda>_. sample_hash) sample_planning_request = Inr x \<and> length (res_intents x) = 2 \<and>
     map intent_sequence (res_intents x) = [0, 1] \<and> distinct (map intent_client_order_id (res_intents x))"
proof -
  obtain x where x: "plan_signed_orders (\<lambda>_. sample_hash) sample_planning_request = Inr x"
    and m: "map (\<lambda>i. (intent_symbol i, intent_position_effect i, intent_quantity i)) (res_intents x) =
       [(''SPY'', CLOSE_LONG, Dec 10 0), (''AAPL'', INCREASE_LONG, Dec 3000000 (- 6))]"
    by (rule sample_plan)
  have l: "length (res_intents x) = 2" using arg_cong [OF m, of length] by simp
  have "map int [0..<2] = [0, 1]" by code_simp
  with planned_intents_batch [OF x] l x show ?thesis by (auto simp: sample_request_decision sample_decision_valid)
qed

end
