(* ===== verification/Broker_Orders.thy ===== *)
theory Broker_Orders
  imports Execution_Models
begin

text \<open>
  The versioned projection of an order at the broker and the append-only evidence about it:
  \<open>BrokerOrder\<close> with \<open>committed\<close> and \<open>evolve\<close>, \<open>OrderEvent\<close>, \<open>Fill\<close>.
\<close>

section \<open>Broker orders\<close>

record BrokerOrder =
  order_client_order_id :: string
  order_order_intent_id :: string
  order_broker_order_id :: "string option"
  order_state :: OrderState
  order_submitted_at :: "int option"
  order_accepted_at :: "int option"
  order_updated_at :: int
  order_cumulative_filled_quantity :: decimal
  order_average_fill_price :: "decimal option"
  order_last_event_sequence :: int
  order_safe_error_code :: "string option"
  order_version :: int
  order_content_hash :: string

definition broker_order_digest :: "sha256 \<Rightarrow> BrokerOrder \<Rightarrow> string res" where
  "broker_order_digest sha x = sha256_hex sha (PMap
     [(''accepted_at'', pval_opt PTime (order_accepted_at x)),
      (''average_fill_price'', pval_opt PDec (order_average_fill_price x)),
      (''broker_order_id'', pval_opt PStr (order_broker_order_id x)),
      (''client_order_id'', PStr (order_client_order_id x)),
      (''cumulative_filled_quantity'', PDec (order_cumulative_filled_quantity x)),
      (''last_event_sequence'', PInt (order_last_event_sequence x)),
      (''order_intent_id'', PStr (order_order_intent_id x)),
      (''safe_error_code'', pval_opt PStr (order_safe_error_code x)),
      (''schema'', PStr ''broker-order-v1''),
      (''state'', PEnum (state_value (order_state x))),
      (''submitted_at'', pval_opt PTime (order_submitted_at x)),
      (''updated_at'', PTime (order_updated_at x)),
      (''version'', PInt (order_version x))])"

text \<open>The same fields in the insertion order of the \<open>values\<close> dictionaries, behind the schema tag.\<close>

definition broker_order_values_digest :: "sha256 \<Rightarrow> BrokerOrder \<Rightarrow> string res" where
  "broker_order_values_digest sha x = sha256_hex sha (PMap
     [(''schema'', PStr ''broker-order-v1''),
      (''client_order_id'', PStr (order_client_order_id x)),
      (''order_intent_id'', PStr (order_order_intent_id x)),
      (''broker_order_id'', pval_opt PStr (order_broker_order_id x)),
      (''state'', PEnum (state_value (order_state x))),
      (''submitted_at'', pval_opt PTime (order_submitted_at x)),
      (''accepted_at'', pval_opt PTime (order_accepted_at x)),
      (''updated_at'', PTime (order_updated_at x)),
      (''cumulative_filled_quantity'', PDec (order_cumulative_filled_quantity x)),
      (''average_fill_price'', pval_opt PDec (order_average_fill_price x)),
      (''last_event_sequence'', PInt (order_last_event_sequence x)),
      (''safe_error_code'', pval_opt PStr (order_safe_error_code x)),
      (''version'', PInt (order_version x))])"

definition price_guards :: "BrokerOrder \<Rightarrow> (bool \<times> error) list" where
  "price_guards x =
     (case order_average_fill_price x of
        Some p \<Rightarrow> guards_positive_decimal p ''average fill price'' @
          [(deq (order_cumulative_filled_quantity x) dzero,
            exec_error ''zero-filled order cannot have an average price'')]
      | None \<Rightarrow> [(\<not> deq (order_cumulative_filled_quantity x) dzero,
            exec_error ''filled order must have an average price'')])"

definition order_guards :: "BrokerOrder \<Rightarrow> (bool \<times> error) list" where
  "order_guards x =
     [guard_client_order_id (order_client_order_id x),
      guard_content_id (order_order_intent_id x) ''intent''] @
     guards_optional (\<lambda>b. guard_identifier b ''broker order ID'') (order_broker_order_id x) @
     guards_nonnegative_decimal (order_cumulative_filled_quantity x) ''cumulative filled quantity'' @
     price_guards x @
     [(order_last_event_sequence x < 0, exec_error ''order event sequence cannot be negative'')] @
     guards_optional guard_safe_code (order_safe_error_code x) @
     [(order_version x < 1, exec_error ''broker order version must be positive''),
      (order_state x = INTENT_COMMITTED \<and>
         (order_broker_order_id x \<noteq> None \<or> order_submitted_at x \<noteq> None),
        exec_error ''committed intent cannot already contain broker state''),
      (order_accepted_at x \<noteq> None \<and> order_submitted_at x = None,
        exec_error ''accepted order requires submission time''),
      (case (order_accepted_at x, order_submitted_at x) of (Some a, Some s) \<Rightarrow> a < s | _ \<Rightarrow> False,
        exec_error ''acceptance time cannot precede submission time'')]"

definition late_order_guards :: "BrokerOrder \<Rightarrow> (bool \<times> error) list" where
  "late_order_guards x =
     [(case order_submitted_at x of Some s \<Rightarrow> s > order_updated_at x | None \<Rightarrow> False,
        exec_error ''submission time cannot follow update time''),
      (case order_accepted_at x of Some a \<Rightarrow> a > order_updated_at x | None \<Rightarrow> False,
        exec_error ''acceptance time cannot follow update time'')]"

definition validate_order :: "sha256 \<Rightarrow> BrokerOrder \<Rightarrow> BrokerOrder res" where
  "validate_order sha x =
     guarded (order_guards x)
       (bindE (broker_order_digest sha x) (\<lambda>expected.
         guarded ((order_content_hash x \<noteq> expected,
             exec_error ''broker order content hash is invalid'') # late_order_guards x)
           (Inr x)))"

definition committed :: "sha256 \<Rightarrow> OrderIntent \<Rightarrow> BrokerOrder res" where
  "committed sha i =
     (let values = \<lparr>order_client_order_id = intent_client_order_id i,
          order_order_intent_id = order_intent_id i, order_broker_order_id = None,
          order_state = INTENT_COMMITTED, order_submitted_at = None, order_accepted_at = None,
          order_updated_at = intent_created_at i, order_cumulative_filled_quantity = dzero,
          order_average_fill_price = None, order_last_event_sequence = 0,
          order_safe_error_code = None, order_version = 1, order_content_hash = ''''\<rparr>
      in bindE (broker_order_values_digest sha values) (\<lambda>h.
           validate_order sha (values\<lparr>order_content_hash := h\<rparr>)))"

text \<open>The keyword arguments of \<open>evolve\<close>.\<close>

record evolution =
  to_state :: OrderState
  at_time :: int
  new_broker_order_id :: "string option"
  new_submitted_at :: "int option"
  new_accepted_at :: "int option"
  new_filled :: "decimal option"
  new_price :: "decimal option"
  new_error_code :: "string option"

definition or_else :: "'a option \<Rightarrow> 'a option \<Rightarrow> 'a option" where
  "or_else x y = (case x of Some v \<Rightarrow> Some v | None \<Rightarrow> y)"

definition evolved_values :: "BrokerOrder \<Rightarrow> evolution \<Rightarrow> BrokerOrder" where
  "evolved_values x u = x\<lparr>
     order_broker_order_id := or_else (new_broker_order_id u) (order_broker_order_id x),
     order_state := to_state u,
     order_submitted_at := or_else (new_submitted_at u) (order_submitted_at x),
     order_accepted_at := or_else (new_accepted_at u) (order_accepted_at x),
     order_updated_at := at_time u,
     order_cumulative_filled_quantity :=
       (case new_filled u of Some q \<Rightarrow> q | None \<Rightarrow> order_cumulative_filled_quantity x),
     order_average_fill_price := or_else (new_price u) (order_average_fill_price x),
     order_last_event_sequence := order_last_event_sequence x + 1,
     order_safe_error_code := new_error_code u,
     order_version := order_version x + 1\<rparr>"

definition evolve :: "sha256 \<Rightarrow> BrokerOrder \<Rightarrow> evolution \<Rightarrow> BrokerOrder res" where
  "evolve sha x u =
     bindE (validate_order_transition (order_state x) (to_state u)) (\<lambda>_.
     guarded
       [(at_time u < order_updated_at x, exec_error ''order update time cannot move backward''),
        (order_broker_order_id x \<noteq> None \<and> new_broker_order_id u \<noteq> None \<and>
           new_broker_order_id u \<noteq> order_broker_order_id x,
         exec_error ''broker order ID cannot change once assigned''),
        (dlt (order_cumulative_filled_quantity (evolved_values x u))
             (order_cumulative_filled_quantity x),
         exec_error ''cumulative fill quantity cannot decrease'')]
     (bindE (broker_order_values_digest sha (evolved_values x u)) (\<lambda>h.
        validate_order sha ((evolved_values x u)\<lparr>order_content_hash := h\<rparr>))))"

section \<open>Order events\<close>

record OrderEvent =
  order_event_id :: string
  event_client_order_id :: string
  event_sequence :: int
  event_from_state :: OrderState
  event_to_state :: OrderState
  event_broker_event_id :: "string option"
  event_occurred_at :: int
  event_safe_error_code :: "string option"
  event_content_hash :: string

definition order_event_digest :: "sha256 \<Rightarrow> OrderEvent \<Rightarrow> string res" where
  "order_event_digest sha e = sha256_hex sha (PMap
     [(''broker_event_id'', pval_opt PStr (event_broker_event_id e)),
      (''client_order_id'', PStr (event_client_order_id e)),
      (''from_state'', PEnum (state_value (event_from_state e))),
      (''occurred_at'', PTime (event_occurred_at e)),
      (''safe_error_code'', pval_opt PStr (event_safe_error_code e)),
      (''schema'', PStr ''order-event-v1''),
      (''sequence'', PInt (event_sequence e)),
      (''to_state'', PEnum (state_value (event_to_state e)))])"

definition order_event_values_digest :: "sha256 \<Rightarrow> OrderEvent \<Rightarrow> string res" where
  "order_event_values_digest sha e = sha256_hex sha (PMap
     [(''schema'', PStr ''order-event-v1''),
      (''client_order_id'', PStr (event_client_order_id e)),
      (''sequence'', PInt (event_sequence e)),
      (''from_state'', PEnum (state_value (event_from_state e))),
      (''to_state'', PEnum (state_value (event_to_state e))),
      (''broker_event_id'', pval_opt PStr (event_broker_event_id e)),
      (''occurred_at'', PTime (event_occurred_at e)),
      (''safe_error_code'', pval_opt PStr (event_safe_error_code e))])"

definition event_guards :: "OrderEvent \<Rightarrow> (bool \<times> error) list" where
  "event_guards e =
     [guard_content_id (order_event_id e) ''order_event'',
      guard_client_order_id (event_client_order_id e),
      (event_sequence e < 1, exec_error ''order event sequence must be positive'')] @
     guards_optional (\<lambda>b. guard_identifier b ''broker event ID'') (event_broker_event_id e) @
     guards_optional guard_safe_code (event_safe_error_code e)"

definition validate_event :: "sha256 \<Rightarrow> OrderEvent \<Rightarrow> OrderEvent res" where
  "validate_event sha e =
     guarded (event_guards e)
       (bindE (order_event_digest sha e) (\<lambda>expected.
         guarded [(event_content_hash e \<noteq> expected \<or> order_event_id e \<noteq> ''order_event_'' @ expected,
           exec_error ''order event identity or hash is invalid'')] (Inr e)))"

definition event_from_orders ::
  "sha256 \<Rightarrow> BrokerOrder \<Rightarrow> BrokerOrder \<Rightarrow> string option \<Rightarrow> OrderEvent res" where
  "event_from_orders sha previous current broker_event_id =
     guarded
       [(order_client_order_id previous \<noteq> order_client_order_id current,
          exec_error ''order event cannot cross client order IDs''),
        (order_version current \<noteq> order_version previous + 1,
          exec_error ''order event requires adjacent order versions'')]
     (let values = \<lparr>order_event_id = '''', event_client_order_id = order_client_order_id current,
          event_sequence = order_last_event_sequence current,
          event_from_state = order_state previous, event_to_state = order_state current,
          event_broker_event_id = broker_event_id, event_occurred_at = order_updated_at current,
          event_safe_error_code = order_safe_error_code current, event_content_hash = ''''\<rparr>
      in bindE (order_event_values_digest sha values) (\<lambda>digest.
         bindE (deterministic_id ''order_event'' digest) (\<lambda>eid.
           validate_event sha (values\<lparr>order_event_id := eid, event_content_hash := digest\<rparr>))))"

section \<open>Fills\<close>

record Fill =
  fill_id :: string
  fill_client_order_id :: string
  fill_broker_execution_id :: string
  fill_symbol :: string
  fill_side :: OrderSide
  fill_quantity :: decimal
  fill_price :: decimal
  fill_fee :: decimal
  fill_occurred_at :: int
  fill_content_hash :: string

definition fill_digest :: "sha256 \<Rightarrow> Fill \<Rightarrow> string res" where
  "fill_digest sha f = sha256_hex sha (PMap
     [(''broker_execution_id'', PStr (fill_broker_execution_id f)),
      (''client_order_id'', PStr (fill_client_order_id f)),
      (''fee'', PDec (fill_fee f)),
      (''occurred_at'', PTime (fill_occurred_at f)),
      (''price'', PDec (fill_price f)),
      (''quantity'', PDec (fill_quantity f)),
      (''schema'', PStr ''fill-v1''),
      (''side'', PEnum (side_value (fill_side f))),
      (''symbol'', PStr (fill_symbol f))])"

definition fill_values_digest :: "sha256 \<Rightarrow> Fill \<Rightarrow> string res" where
  "fill_values_digest sha f = sha256_hex sha (PMap
     [(''schema'', PStr ''fill-v1''),
      (''client_order_id'', PStr (fill_client_order_id f)),
      (''broker_execution_id'', PStr (fill_broker_execution_id f)),
      (''symbol'', PStr (fill_symbol f)),
      (''side'', PEnum (side_value (fill_side f))),
      (''quantity'', PDec (fill_quantity f)),
      (''price'', PDec (fill_price f)),
      (''fee'', PDec (fill_fee f)),
      (''occurred_at'', PTime (fill_occurred_at f))])"

definition fill_guards :: "Fill \<Rightarrow> (bool \<times> error) list" where
  "fill_guards f =
     [guard_content_id (fill_id f) ''fill'',
      guard_client_order_id (fill_client_order_id f),
      guard_identifier (fill_broker_execution_id f) ''broker execution ID'',
      guard_symbol (fill_symbol f)] @
     guards_positive_decimal (fill_quantity f) ''fill quantity'' @
     guards_positive_decimal (fill_price f) ''fill price'' @
     guards_nonnegative_decimal (fill_fee f) ''fill fee''"

definition validate_fill :: "sha256 \<Rightarrow> Fill \<Rightarrow> Fill res" where
  "validate_fill sha f =
     guarded (fill_guards f)
       (bindE (fill_digest sha f) (\<lambda>expected.
         guarded [(fill_content_hash f \<noteq> expected \<or> fill_id f \<noteq> ''fill_'' @ expected,
           exec_error ''fill identity or hash is invalid'')] (Inr f)))"

definition create_fill :: "sha256 \<Rightarrow> Fill \<Rightarrow> Fill res" where
  "create_fill sha f =
     bindE (fill_values_digest sha f) (\<lambda>digest.
     bindE (deterministic_id ''fill'' digest) (\<lambda>fid.
       validate_fill sha (f\<lparr>fill_id := fid, fill_content_hash := digest\<rparr>)))"

section \<open>What the constructors establish\<close>

lemma broker_order_values_digest_eq [simp]:
  "broker_order_values_digest sha x = Inr h \<longleftrightarrow> broker_order_digest sha x = Inr h"
  unfolding broker_order_values_digest_def broker_order_digest_def by (rule sha256_hex_keys) simp

lemma order_event_values_digest_eq [simp]:
  "order_event_values_digest sha e = Inr h \<longleftrightarrow> order_event_digest sha e = Inr h"
  unfolding order_event_values_digest_def order_event_digest_def by (rule sha256_hex_keys) simp

lemma fill_values_digest_eq [simp]:
  "fill_values_digest sha f = Inr h \<longleftrightarrow> fill_digest sha f = Inr h"
  unfolding fill_values_digest_def fill_digest_def by (rule sha256_hex_keys) simp

lemma order_hash_frame [simp]:
  "broker_order_digest sha (x\<lparr>order_content_hash := h\<rparr>) = broker_order_digest sha x"
  "order_guards (x\<lparr>order_content_hash := h\<rparr>) = order_guards x"
  "late_order_guards (x\<lparr>order_content_hash := h\<rparr>) = late_order_guards x"
  by (simp_all add: broker_order_digest_def order_guards_def price_guards_def late_order_guards_def
      cong: option.case_cong)

lemma event_hash_frame [simp]:
  "order_event_digest sha (e\<lparr>order_event_id := i, event_content_hash := h\<rparr>) = order_event_digest sha e"
  by (simp add: order_event_digest_def)

lemma fill_hash_frame [simp]:
  "fill_digest sha (f\<lparr>fill_id := i, fill_content_hash := h\<rparr>) = fill_digest sha f"
  by (simp add: fill_digest_def)

definition valid_order :: "sha256 \<Rightarrow> BrokerOrder \<Rightarrow> bool" where
  "valid_order sha x \<longleftrightarrow> guards_ok (order_guards x) \<and> guards_ok (late_order_guards x) \<and>
     broker_order_digest sha x = Inr (order_content_hash x)"

lemma validate_order_Inr: "validate_order sha x = Inr y \<longleftrightarrow> y = x \<and> valid_order sha x"
  by (auto simp: validate_order_def valid_order_def)

lemma committed_Inr:
  "committed sha i = Inr x \<Longrightarrow> valid_order sha x \<and> order_state x = INTENT_COMMITTED \<and>
     order_version x = 1 \<and> order_last_event_sequence x = 0 \<and> order_broker_order_id x = None \<and>
     order_client_order_id x = intent_client_order_id i \<and> order_order_intent_id x = order_intent_id i \<and>
     order_cumulative_filled_quantity x = dzero \<and> order_updated_at x = intent_created_at i"
  by (auto simp: committed_def validate_order_Inr)

text \<open>A successful \<open>evolve\<close>, read as a relation between the two versions.\<close>

lemma evolve_Inr:
  "evolve sha x u = Inr y \<longleftrightarrow>
     transition_is_permitted (order_state x) (to_state u) \<and> order_updated_at x \<le> at_time u \<and>
     (order_broker_order_id x = None \<or> new_broker_order_id u = None \<or>
        new_broker_order_id u = order_broker_order_id x) \<and>
     dval (order_cumulative_filled_quantity x) \<le>
       dval (order_cumulative_filled_quantity (evolved_values x u)) \<and>
     (\<exists>h. broker_order_digest sha (evolved_values x u) = Inr h \<and>
        y = (evolved_values x u)\<lparr>order_content_hash := h\<rparr> \<and> valid_order sha y)"
  by (auto simp: evolve_def validate_order_transition_iff validate_order_Inr dlt_iff not_less)

lemma or_else_simps [simp]:
  "or_else None y = y" "or_else x None = x" "or_else (Some a) y = Some a"
  "or_else x y = None \<longleftrightarrow> x = None \<and> y = None" "\<exists>z. or_else x (Some a) = Some z"
  by (cases x; simp add: or_else_def)+

lemma evolved_fields [simp]:
  "order_state (evolved_values x u) = to_state u" "order_updated_at (evolved_values x u) = at_time u"
  "order_version (evolved_values x u) = order_version x + 1"
  "order_last_event_sequence (evolved_values x u) = order_last_event_sequence x + 1"
  "order_client_order_id (evolved_values x u) = order_client_order_id x"
  "order_order_intent_id (evolved_values x u) = order_order_intent_id x"
  "order_broker_order_id (evolved_values x u) = or_else (new_broker_order_id u) (order_broker_order_id x)"
  "order_submitted_at (evolved_values x u) = or_else (new_submitted_at u) (order_submitted_at x)"
  "order_accepted_at (evolved_values x u) = or_else (new_accepted_at u) (order_accepted_at x)"
  by (simp_all add: evolved_values_def)

definition successor :: "BrokerOrder \<Rightarrow> BrokerOrder \<Rightarrow> bool" where
  "successor x y \<longleftrightarrow>
     transition_is_permitted (order_state x) (order_state y) \<and>
     order_version y = order_version x + 1 \<and>
     order_last_event_sequence y = order_last_event_sequence x + 1 \<and>
     order_client_order_id y = order_client_order_id x \<and>
     order_order_intent_id y = order_order_intent_id x \<and>
     order_updated_at x \<le> order_updated_at y \<and>
     dval (order_cumulative_filled_quantity x) \<le> dval (order_cumulative_filled_quantity y) \<and>
     (order_broker_order_id x \<noteq> None \<longrightarrow> order_broker_order_id y = order_broker_order_id x) \<and>
     (order_submitted_at x \<noteq> None \<longrightarrow> order_submitted_at y \<noteq> None) \<and>
     (order_accepted_at x \<noteq> None \<longrightarrow> order_accepted_at y \<noteq> None)"

lemma evolve_successor: "evolve sha x u = Inr y \<Longrightarrow> successor x y \<and> valid_order sha y"
  by (auto simp: evolve_Inr successor_def)

lemma successor_nonterminal: "successor x y \<Longrightarrow> \<not> terminal (order_state x)"
  by (auto simp: successor_def terminal_iff_stuck)

section \<open>Histories\<close>

text \<open>
  The versions of one order, newest first: \<open>committed\<close> starts a history and every later version
  comes from the one before it by \<open>evolve\<close>.
\<close>

inductive order_history :: "sha256 \<Rightarrow> BrokerOrder list \<Rightarrow> bool" for sha where
  start: "committed sha i = Inr x \<Longrightarrow> order_history sha [x]"
| step: "order_history sha (x # xs) \<Longrightarrow> evolve sha x u = Inr y \<Longrightarrow> order_history sha (y # x # xs)"

lemma order_history_nonempty: "order_history sha xs \<Longrightarrow> xs \<noteq> []"
  by (erule order_history.cases) auto

lemma order_history_valid: "order_history sha xs \<Longrightarrow> x \<in> set xs \<Longrightarrow> valid_order sha x"
proof (induction rule: order_history.induct)
  case (start i x)
  then show ?case using committed_Inr by auto
next
  case (step x xs u y)
  then show ?case using evolve_successor by auto
qed

lemma order_history_version:
  "order_history sha xs \<Longrightarrow> order_version (hd xs) = int (length xs) \<and>
     order_last_event_sequence (hd xs) = int (length xs) - 1"
proof (induction rule: order_history.induct)
  case (start i x)
  then show ?case using committed_Inr by auto
next
  case (step x xs u y)
  then show ?case using evolve_successor by (auto simp: successor_def)
qed

lemma order_history_path:
  "order_history sha xs \<Longrightarrow>
     (\<exists>ss. map order_state (rev xs) = INTENT_COMMITTED # ss \<and> order_path INTENT_COMMITTED ss)"
proof (induction rule: order_history.induct)
  case (start i x)
  then show ?case using committed_Inr by auto
next
  case (step x xs u y)
  then obtain ss where ss: "map order_state (rev xs) @ [order_state x] = INTENT_COMMITTED # ss"
      "order_path INTENT_COMMITTED ss" by auto
  have "last (INTENT_COMMITTED # ss) = order_state x"
    using arg_cong [OF ss(1), of last] by simp
  then have "order_path INTENT_COMMITTED (ss @ [order_state y])"
    using ss(2) evolve_successor [OF step.hyps(2)] by (simp add: order_path_append successor_def)
  then show ?case using ss by (intro exI [of _ "ss @ [order_state y]"]) simp
qed

text \<open>What only ever grows, and what never changes once set, along a history.\<close>

definition older :: "BrokerOrder \<Rightarrow> BrokerOrder \<Rightarrow> bool" where
  "older x y \<longleftrightarrow>
     order_version x < order_version y \<and> \<not> terminal (order_state x) \<and>
     order_client_order_id y = order_client_order_id x \<and>
     order_order_intent_id y = order_order_intent_id x \<and>
     order_updated_at x \<le> order_updated_at y \<and>
     dval (order_cumulative_filled_quantity x) \<le> dval (order_cumulative_filled_quantity y) \<and>
     (order_broker_order_id x \<noteq> None \<longrightarrow> order_broker_order_id y = order_broker_order_id x)"

lemma successor_older: "successor x y \<Longrightarrow> older x y"
  using successor_nonterminal by (auto simp: successor_def older_def)

lemma older_trans: "older x y \<Longrightarrow> older y z \<Longrightarrow> older x z"
  by (auto simp: older_def)

lemma order_history_older: "order_history sha xs \<Longrightarrow> sorted_wrt (\<lambda>y x. older x y) xs"
proof (induction rule: order_history.induct)
  case (start i x)
  then show ?case by simp
next
  case (step x xs u y)
  then have "older x y" using evolve_successor successor_older by blast
  with step.IH show ?case by (auto intro: older_trans)
qed

text \<open>
  C11. Optimistic versions and monotone evidence: in every history built from \<open>committed\<close> by
  \<open>evolve\<close>, each version is a valid record whose hash is the digest of its contents, the n-th
  version carries version n and event sequence n - 1, the states form a path of the transition
  table from \<open>INTENT_COMMITTED\<close>, and of any two versions the later one keeps the client order ID,
  the intent and an assigned broker ID, never moves time or the filled quantity backward, and
  follows a version that was not terminal.
\<close>

theorem order_history_monotone:
  assumes "order_history sha xs"
  shows "(\<forall>x \<in> set xs. valid_order sha x) \<and>
    order_version (hd xs) = int (length xs) \<and>
    order_last_event_sequence (hd xs) = int (length xs) - 1 \<and>
    (\<exists>ss. map order_state (rev xs) = INTENT_COMMITTED # ss \<and> order_path INTENT_COMMITTED ss) \<and>
    sorted_wrt (\<lambda>y x. older x y) xs"
  using assms order_history_valid order_history_version order_history_path order_history_older
  by blast

text \<open>A submitted and filled order, under a constant hash function.\<close>

definition sample_order_intent :: OrderIntent where
  "sample_order_intent = (sample_intent BUY OPEN_LONG ENTRY 3)\<lparr>
     order_intent_id := ''intent_'' @ sample_hash,
     intent_client_order_id := make_client_order_id (sample_intent BUY OPEN_LONG ENTRY 3) sample_hash\<rparr>"

definition sample_evolution :: "OrderState \<Rightarrow> int \<Rightarrow> evolution" where
  "sample_evolution s t = \<lparr>to_state = s, at_time = t, new_broker_order_id = None, new_submitted_at = None,
     new_accepted_at = None, new_filled = None, new_price = None, new_error_code = None\<rparr>"

definition evolve_twice :: "sha256 \<Rightarrow> OrderIntent \<Rightarrow> evolution \<Rightarrow> evolution \<Rightarrow> BrokerOrder list res" where
  "evolve_twice sha i u v = bindE (committed sha i) (\<lambda>a. bindE (evolve sha a u) (\<lambda>b.
     bindE (evolve sha b v) (\<lambda>c. Inr [c, b, a])))"

definition sample_versions :: "BrokerOrder list res" where
  "sample_versions = evolve_twice (\<lambda>_. sample_hash) sample_order_intent
     (sample_evolution SUBMISSION_STARTED 1000001)
     ((sample_evolution FILLED 1000002)\<lparr>new_broker_order_id := Some ''broker-1'',
        new_submitted_at := Some 1000001, new_filled := Some (Dec 25 (-1)), new_price := Some (Dec 10 0)\<rparr>)"

lemma evolve_twice_history: "evolve_twice sha i u v = Inr xs \<Longrightarrow> order_history sha xs"
  by (auto simp: evolve_twice_def intro!: order_history.intros)

lemma sample_versions_evaluates:
  "case sample_versions of Inr xs \<Rightarrow>
     map order_state xs = [FILLED, SUBMISSION_STARTED, INTENT_COMMITTED] | Inl _ \<Rightarrow> False"
  by code_simp

lemma sample_versions_history:
  obtains xs where "sample_versions = Inr xs" and "order_history (\<lambda>_. sample_hash) xs"
    and "map order_state xs = [FILLED, SUBMISSION_STARTED, INTENT_COMMITTED]"
proof -
  obtain xs where xs: "sample_versions = Inr xs"
      and st: "map order_state xs = [FILLED, SUBMISSION_STARTED, INTENT_COMMITTED]"
    using res_evaluates [OF sample_versions_evaluates] by (elim exE conjE) (rule that)
  show thesis by (rule that [OF xs evolve_twice_history [OF xs [unfolded sample_versions_def]] st])
qed

theorem order_history_monotone_witness:
  "\<exists>xs. sample_versions = Inr xs \<and> order_version (hd xs) = 3 \<and> order_last_event_sequence (hd xs) = 2 \<and>
     sorted_wrt (\<lambda>y x. older x y) xs"
proof -
  obtain xs where xs: "sample_versions = Inr xs" "order_history (\<lambda>_. sample_hash) xs"
      "map order_state xs = [FILLED, SUBMISSION_STARTED, INTENT_COMMITTED]"
    by (rule sample_versions_history)
  have "length xs = 3" using arg_cong [OF xs(3), of length] by simp
  then show ?thesis using xs(1) order_history_monotone [OF xs(2)] by auto
qed

section \<open>The event log\<close>

text \<open>One event per pair of adjacent versions, newest first, as the service appends them.\<close>

fun history_events :: "sha256 \<Rightarrow> (string option) list \<Rightarrow> BrokerOrder list \<Rightarrow> OrderEvent list res" where
  "history_events sha (b # bs) (y # x # xs) =
     bindE (event_from_orders sha x y b) (\<lambda>e.
     bindE (history_events sha bs (x # xs)) (\<lambda>es. Inr (e # es)))"
| "history_events sha _ _ = Inr []"

definition event_of :: "BrokerOrder \<Rightarrow> BrokerOrder \<Rightarrow> OrderEvent \<Rightarrow> bool" where
  "event_of x y e \<longleftrightarrow> event_client_order_id e = order_client_order_id y \<and>
     event_sequence e = order_last_event_sequence y \<and> event_from_state e = order_state x \<and>
     event_to_state e = order_state y \<and> event_occurred_at e = order_updated_at y"

lemma event_from_orders_Inr:
  "event_from_orders sha x y b = Inr e \<Longrightarrow> event_of x y e \<and> event_broker_event_id e = b \<and>
     validate_event sha e = Inr e"
  by (auto simp: event_from_orders_def validate_event_def event_of_def Let_def order_event_digest_def)

text \<open>
  C29. The event log is gapless: the events derived from the adjacent versions of a history are
  numbered n - 1, ..., 1 without gap or repetition, each names the client order ID of the
  history, records a transition the table permits, and starts in the state where its
  predecessor ended.
\<close>

theorem event_log_gapless:
  assumes "order_history sha xs" and "length bs = length xs - 1" and "history_events sha bs xs = Inr es"
  shows "map event_sequence es = rev [1..int (length xs) - 1] \<and>
    (\<forall>e \<in> set es. event_client_order_id e = order_client_order_id (hd xs) \<and>
       transition_is_permitted (event_from_state e) (event_to_state e)) \<and>
    map event_to_state es @ [INTENT_COMMITTED] = order_state (hd xs) # map event_from_state es"
  using assms
proof (induction arbitrary: bs es rule: order_history.induct)
  case (start i x)
  then show ?case using committed_Inr by auto
next
  case (step x xs u y)
  from step.prems obtain b bs' where bs: "bs = b # bs'" "length bs' = length (x # xs) - 1"
    by (cases bs) auto
  with step.prems obtain e es' where es: "es = e # es'" "event_from_orders sha x y b = Inr e"
      "history_events sha bs' (x # xs) = Inr es'" by auto
  note IH = step.IH [OF bs(2) es(3)]
  have e: "event_of x y e" using event_from_orders_Inr [OF es(2)] by simp
  have xy: "successor x y" using evolve_successor step.hyps(2) by blast
  have seq: "order_last_event_sequence y = int (length (x # xs))"
    using order_history_version [OF step.hyps(1)] xy by (simp add: successor_def)
  have rev: "rev [1..int (length (y # x # xs)) - 1] = int (length (x # xs)) # rev [1..int (length (x # xs)) - 1]"
    by (simp add: upto_rec2)
  show ?case using IH e xy seq unfolding es(1) rev by (auto simp: event_of_def successor_def)
qed

theorem event_log_gapless_witness:
  "\<exists>xs es. sample_versions = Inr xs \<and> history_events (\<lambda>_. sample_hash) [Some ''fill-1'', None] xs = Inr es \<and>
     map event_sequence es = [2, 1]"
proof -
  obtain xs where xs: "sample_versions = Inr xs" "order_history (\<lambda>_. sample_hash) xs"
      "map order_state xs = [FILLED, SUBMISSION_STARTED, INTENT_COMMITTED]"
    by (rule sample_versions_history)
  have "case bindE sample_versions (history_events (\<lambda>_. sample_hash) [Some ''fill-1'', None]) of
      Inr es \<Rightarrow> True | Inl _ \<Rightarrow> False" by code_simp
  from res_evaluates [OF this]
  obtain es where es: "history_events (\<lambda>_. sample_hash) [Some ''fill-1'', None] xs = Inr es"
    unfolding xs(1) by auto
  have len: "length xs = 3" using arg_cong [OF xs(3), of length] by simp
  have "rev [1..3 - 1] = [2, 1 :: int]" by code_simp
  then show ?thesis using xs(1) es event_log_gapless [OF xs(2) _ es] len by auto
qed

end
