(* ===== verification/Receipts.thy ===== *)
theory Receipts
  imports Broker_Orders
begin

text \<open>
  The records reconciliation produces and consumes (\<open>execution/models.py\<close>): the account state of
  the broker, the closed taxonomy of discrepancies, the hash-bound receipt and the incident.
\<close>

section \<open>Account state\<close>

record AccountState =
  account_id :: string
  account_cash :: decimal
  account_equity :: decimal
  account_buying_power :: decimal
  account_restricted_short_proceeds :: decimal
  account_observed_at :: int

definition account_guards :: "AccountState \<Rightarrow> (bool \<times> error) list" where
  "account_guards a =
     [(\<not> is_account_id (account_id a), exec_error ''broker account ID is invalid''),
      guard_decimal (account_cash a) ''account cash'', guard_decimal (account_equity a) ''account equity''] @
     guards_nonnegative_decimal (account_buying_power a) ''buying power'' @
     guards_nonnegative_decimal (account_restricted_short_proceeds a) ''restricted short proceeds''"

definition account_id_hash :: "sha256 \<Rightarrow> AccountState \<Rightarrow> string res" where
  "account_id_hash sha a = sha256_hex sha (PSeq [PStr ''broker-account-v1'', PStr (account_id a)])"

section \<open>Discrepancies\<close>

datatype ReconciliationSeverity = SEVERITY_BLOCKING | SEVERITY_CRITICAL

datatype ReconciliationStatus = CLEAN | BLOCKING

fun status_value :: "ReconciliationStatus \<Rightarrow> string" where
  "status_value CLEAN = ''CLEAN''"
| "status_value BLOCKING = ''BLOCKING''"

datatype DiscrepancyCode =
    DUPLICATE_CLIENT_ORDER_ID | UNKNOWN_BROKER_ORDER | MISSING_BROKER_ORDER | FILLED_QUANTITY_MISMATCH
  | ORDER_STATE_MISMATCH | UNEXPECTED_POSITION | POSITION_SIGN_MISMATCH | POSITION_QUANTITY_MISMATCH
  | UNTRACEABLE_SHORT_POSITION | INELIGIBLE_SHORT_INCREASE | ACCOUNT_ID_MISMATCH | CASH_MISMATCH
  | EQUITY_MISMATCH | SUBMISSION_UNKNOWN_CODE | LIVE_ENDPOINT_DETECTED | PAPER_FALSE_DETECTED
  | NON_ACTIVE_SYMBOL_POSITION | NON_ACTIVE_SYMBOL_ORDER | DUPLICATE_EXECUTION_ID
  | REQUIRED_FLAT_NOT_PROVEN | FORCED_FLAT_DEADLINE_MISSED

fun code_value :: "DiscrepancyCode \<Rightarrow> string" where
  "code_value DUPLICATE_CLIENT_ORDER_ID = ''duplicate_client_order_id''"
| "code_value UNKNOWN_BROKER_ORDER = ''unknown_broker_order''"
| "code_value MISSING_BROKER_ORDER = ''missing_broker_order''"
| "code_value FILLED_QUANTITY_MISMATCH = ''filled_quantity_mismatch''"
| "code_value ORDER_STATE_MISMATCH = ''order_state_mismatch''"
| "code_value UNEXPECTED_POSITION = ''unexpected_position''"
| "code_value POSITION_SIGN_MISMATCH = ''position_sign_mismatch''"
| "code_value POSITION_QUANTITY_MISMATCH = ''position_quantity_mismatch''"
| "code_value UNTRACEABLE_SHORT_POSITION = ''untraceable_short_position''"
| "code_value INELIGIBLE_SHORT_INCREASE = ''ineligible_short_increase''"
| "code_value ACCOUNT_ID_MISMATCH = ''account_id_mismatch''"
| "code_value CASH_MISMATCH = ''cash_mismatch''"
| "code_value EQUITY_MISMATCH = ''equity_mismatch''"
| "code_value SUBMISSION_UNKNOWN_CODE = ''submission_unknown''"
| "code_value LIVE_ENDPOINT_DETECTED = ''live_endpoint_detected''"
| "code_value PAPER_FALSE_DETECTED = ''paper_false_detected''"
| "code_value NON_ACTIVE_SYMBOL_POSITION = ''non_active_symbol_position''"
| "code_value NON_ACTIVE_SYMBOL_ORDER = ''non_active_symbol_order''"
| "code_value DUPLICATE_EXECUTION_ID = ''duplicate_execution_id''"
| "code_value REQUIRED_FLAT_NOT_PROVEN = ''required_flat_not_proven''"
| "code_value FORCED_FLAT_DEADLINE_MISSED = ''forced_flat_deadline_missed''"

definition severity :: "DiscrepancyCode \<Rightarrow> ReconciliationSeverity" where
  "severity c =
     (if c \<in> {LIVE_ENDPOINT_DETECTED, PAPER_FALSE_DETECTED, NON_ACTIVE_SYMBOL_POSITION, NON_ACTIVE_SYMBOL_ORDER,
        DUPLICATE_EXECUTION_ID} then SEVERITY_CRITICAL else SEVERITY_BLOCKING)"

record ReconciliationDiscrepancy =
  dc_code :: DiscrepancyCode
  dc_symbol :: "string option"
  dc_client_order_id :: "string option"
  dc_expected :: "decimal option"
  dc_observed :: "decimal option"

definition discrepancy_guards :: "ReconciliationDiscrepancy \<Rightarrow> (bool \<times> error) list" where
  "discrepancy_guards d =
     guards_optional guard_symbol (dc_symbol d) @
     guards_optional guard_client_order_id (dc_client_order_id d) @
     guards_optional (\<lambda>v. guard_decimal v ''expected reconciliation value'') (dc_expected d) @
     guards_optional (\<lambda>v. guard_decimal v ''observed reconciliation value'') (dc_observed d)"

definition validate_discrepancy :: "ReconciliationDiscrepancy \<Rightarrow> ReconciliationDiscrepancy res" where
  "validate_discrepancy d = guarded (discrepancy_guards d) (Inr d)"

text \<open>Equality of the dataclass: decimals compare by value.\<close>

definition opt_deq :: "decimal option \<Rightarrow> decimal option \<Rightarrow> bool" where
  "opt_deq x y = (case (x, y) of (None, None) \<Rightarrow> True | (Some a, Some b) \<Rightarrow> deq a b | _ \<Rightarrow> False)"

definition discrepancy_eq :: "ReconciliationDiscrepancy \<Rightarrow> ReconciliationDiscrepancy \<Rightarrow> bool" where
  "discrepancy_eq c d \<longleftrightarrow> dc_code c = dc_code d \<and> dc_symbol c = dc_symbol d \<and>
     dc_client_order_id c = dc_client_order_id d \<and> opt_deq (dc_expected c) (dc_expected d) \<and>
     opt_deq (dc_observed c) (dc_observed d)"

text \<open>\<open>value or ""\<close>.\<close>

definition or_empty :: "string option \<Rightarrow> string" where
  "or_empty x = (case x of None \<Rightarrow> '''' | Some s \<Rightarrow> s)"

definition discrepancy_key :: "ReconciliationDiscrepancy \<Rightarrow> string \<times> string \<times> string" where
  "discrepancy_key d = (code_value (dc_code d), or_empty (dc_symbol d), or_empty (dc_client_order_id d))"

section \<open>Receipts\<close>

record ReconciliationReceipt =
  reconciliation_id :: string
  rc_experiment_hash :: string
  rc_slot_id :: "string option"
  rc_execution_plan_id :: "string option"
  rc_correlation_id :: string
  rc_account_id_hash :: string
  rc_account_observed_at :: int
  rc_started_at :: int
  rc_completed_at :: int
  rc_status :: ReconciliationStatus
  rc_expected_positions :: "Position list"
  rc_observed_positions :: "Position list"
  rc_expected_cash :: decimal
  rc_observed_cash :: decimal
  rc_expected_equity :: decimal
  rc_observed_equity :: decimal
  rc_mark_prices :: "(string \<times> decimal) list"
  rc_fill_hashes :: "string list"
  rc_order_hashes :: "string list"
  rc_require_flat :: bool
  rc_required_flat_at :: "int option"
  rc_discrepancies :: "ReconciliationDiscrepancy list"
  rc_content_hash :: string

definition pval_discrepancy :: "ReconciliationDiscrepancy \<Rightarrow> pval" where
  "pval_discrepancy d = PSeq [PEnum (code_value (dc_code d)), pval_opt PStr (dc_symbol d),
     pval_opt PStr (dc_client_order_id d), pval_opt PDec (dc_expected d), pval_opt PDec (dc_observed d)]"

definition reconciliation_digest :: "sha256 \<Rightarrow> ReconciliationReceipt \<Rightarrow> string res" where
  "reconciliation_digest sha r = sha256_hex sha (PMap
     [(''schema'', PStr ''reconciliation-v2''),
      (''experiment_hash'', PStr (rc_experiment_hash r)),
      (''slot_id'', pval_opt PStr (rc_slot_id r)),
      (''execution_plan_id'', pval_opt PStr (rc_execution_plan_id r)),
      (''correlation_id'', PStr (rc_correlation_id r)),
      (''account_id_hash'', PStr (rc_account_id_hash r)),
      (''account_observed_at'', PTime (rc_account_observed_at r)),
      (''started_at'', PTime (rc_started_at r)),
      (''completed_at'', PTime (rc_completed_at r)),
      (''status'', PEnum (status_value (rc_status r))),
      (''expected_positions'', pval_positions (rc_expected_positions r)),
      (''observed_positions'', pval_positions (rc_observed_positions r)),
      (''expected_cash'', PDec (rc_expected_cash r)),
      (''observed_cash'', PDec (rc_observed_cash r)),
      (''expected_equity'', PDec (rc_expected_equity r)),
      (''observed_equity'', PDec (rc_observed_equity r)),
      (''mark_prices'', pval_prices (rc_mark_prices r)),
      (''fill_hashes'', PSeq (map PStr (rc_fill_hashes r))),
      (''order_hashes'', PSeq (map PStr (rc_order_hashes r))),
      (''require_flat'', PBool (rc_require_flat r)),
      (''required_flat_at'', pval_opt PTime (rc_required_flat_at r)),
      (''discrepancies'', PSeq (map pval_discrepancy (rc_discrepancies r)))])"

definition hash_tuple_guards :: "string list \<Rightarrow> string \<Rightarrow> (bool \<times> error) list" where
  "hash_tuple_guards hs field =
     (hs \<noteq> sorted_set hs, exec_error (field @ '' must be unique and ordered'')) # map (\<lambda>h. guard_hash h field) hs"

definition status_of :: "ReconciliationDiscrepancy list \<Rightarrow> ReconciliationStatus" where
  "status_of ds = (if ds = [] then CLEAN else BLOCKING)"

definition receipt_guards :: "ReconciliationReceipt \<Rightarrow> (bool \<times> error) list" where
  "receipt_guards r =
     [guard_content_id (reconciliation_id r) ''reconciliation'',
      guard_hash (rc_experiment_hash r) ''experiment hash''] @
     guards_optional (\<lambda>s. guard_identifier s ''slot ID'') (rc_slot_id r) @
     guards_optional (\<lambda>p. guard_content_id p ''execution'') (rc_execution_plan_id r) @
     [guard_identifier (rc_correlation_id r) ''correlation ID'',
      guard_hash (rc_account_id_hash r) ''account ID hash'',
      (rc_completed_at r < rc_started_at r, exec_error ''reconciliation completion precedes start''),
      (\<not> (rc_started_at r \<le> rc_account_observed_at r \<and> rc_account_observed_at r \<le> rc_completed_at r),
        exec_error ''account observation must occur during reconciliation'')] @
     guards_positions (rc_expected_positions r) True @
     guards_positions (rc_observed_positions r) True @
     [guard_decimal (rc_expected_cash r) ''expected cash'', guard_decimal (rc_observed_cash r) ''observed cash'',
      guard_decimal (rc_expected_equity r) ''expected equity'', guard_decimal (rc_observed_equity r) ''observed equity''] @
     guards_prices (rc_mark_prices r) ''mark price'' ''mark prices must be unique and ordered'' @
     hash_tuple_guards (rc_fill_hashes r) ''fill hashes'' @
     hash_tuple_guards (rc_order_hashes r) ''order hashes'' @
     [(rc_require_flat r \<noteq> (rc_required_flat_at r \<noteq> None), exec_error ''required-flat deadline and flag disagree''),
      (\<not> list_all2 discrepancy_eq (sort_key discrepancy_key (rc_discrepancies r)) (rc_discrepancies r),
        exec_error ''reconciliation discrepancies must be ordered''),
      (rc_status r \<noteq> status_of (rc_discrepancies r),
        exec_error ''reconciliation status disagrees with discrepancies'')]"

definition validate_receipt :: "sha256 \<Rightarrow> ReconciliationReceipt \<Rightarrow> ReconciliationReceipt res" where
  "validate_receipt sha r =
     guarded (receipt_guards r)
       (bindE (reconciliation_digest sha r) (\<lambda>expected.
         guarded [(rc_content_hash r \<noteq> expected \<or> reconciliation_id r \<noteq> ''reconciliation_'' @ expected,
           exec_error ''reconciliation identity or hash is invalid'')] (Inr r)))"

definition create_receipt :: "sha256 \<Rightarrow> ReconciliationReceipt \<Rightarrow> ReconciliationReceipt res" where
  "create_receipt sha r =
     (let ordered = sort_key discrepancy_key (rc_discrepancies r);
          values = r\<lparr>rc_status := status_of ordered, rc_discrepancies := ordered\<rparr>
      in bindE (reconciliation_digest sha values) (\<lambda>digest.
         bindE (deterministic_id ''reconciliation'' digest) (\<lambda>rid.
           validate_receipt sha (values\<lparr>reconciliation_id := rid, rc_content_hash := digest\<rparr>))))"

section \<open>Incidents\<close>

record Incident =
  incident_id :: string
  inc_idempotency_key :: string
  inc_experiment_hash :: string
  inc_correlation_id :: string
  inc_reason_code :: string
  inc_opened_at :: int
  inc_content_hash :: string

definition incident_digest :: "sha256 \<Rightarrow> Incident \<Rightarrow> string res" where
  "incident_digest sha i = sha256_hex sha (PMap
     [(''correlation_id'', PStr (inc_correlation_id i)),
      (''experiment_hash'', PStr (inc_experiment_hash i)),
      (''idempotency_key'', PStr (inc_idempotency_key i)),
      (''opened_at'', PTime (inc_opened_at i)),
      (''reason_code'', PStr (inc_reason_code i)),
      (''schema'', PStr ''execution-incident-v1'')])"

definition incident_guards :: "Incident \<Rightarrow> (bool \<times> error) list" where
  "incident_guards i =
     [guard_content_id (incident_id i) ''incident'',
      guard_identifier (inc_idempotency_key i) ''incident idempotency key'',
      guard_hash (inc_experiment_hash i) ''experiment hash'',
      guard_identifier (inc_correlation_id i) ''correlation ID'',
      guard_safe_code (inc_reason_code i)]"

definition validate_incident :: "sha256 \<Rightarrow> Incident \<Rightarrow> Incident res" where
  "validate_incident sha i =
     guarded (incident_guards i)
       (bindE (incident_digest sha i) (\<lambda>expected.
         guarded [(inc_content_hash i \<noteq> expected \<or> incident_id i \<noteq> ''incident_'' @ expected,
           exec_error ''incident identity or hash is invalid'')] (Inr i)))"

definition create_incident :: "sha256 \<Rightarrow> Incident \<Rightarrow> Incident res" where
  "create_incident sha i =
     bindE (incident_digest sha i) (\<lambda>digest.
     bindE (deterministic_id ''incident'' digest) (\<lambda>iid.
       validate_incident sha (i\<lparr>incident_id := iid, inc_content_hash := digest\<rparr>)))"

section \<open>What creation establishes\<close>

lemma create_receipt_Inr:
  assumes "create_receipt sha r = Inr s"
  shows "validate_receipt sha s = Inr s"
    and "rc_discrepancies s = sort_key discrepancy_key (rc_discrepancies r)"
    and "rc_status s = status_of (rc_discrepancies r)"
    and "\<exists>rid h. s = r\<lparr>rc_status := status_of (rc_discrepancies r),
      rc_discrepancies := sort_key discrepancy_key (rc_discrepancies r), reconciliation_id := rid, rc_content_hash := h\<rparr>"
proof -
  have st: "status_of (sort_key discrepancy_key (rc_discrepancies r)) = status_of (rc_discrepancies r)"
    by (metis status_of_def length_0_conv length_sort)
  show "validate_receipt sha s = Inr s" using assms by (auto simp: create_receipt_def Let_def validate_receipt_def)
  show "\<exists>rid h. s = r\<lparr>rc_status := status_of (rc_discrepancies r),
      rc_discrepancies := sort_key discrepancy_key (rc_discrepancies r), reconciliation_id := rid, rc_content_hash := h\<rparr>"
    using assms unfolding create_receipt_def Let_def st by (auto simp: validate_receipt_def)
  then show "rc_discrepancies s = sort_key discrepancy_key (rc_discrepancies r)"
    and "rc_status s = status_of (rc_discrepancies r)" by auto
qed

lemma create_incident_Inr:
  "create_incident sha i = Inr j \<Longrightarrow> validate_incident sha j = Inr j \<and>
     (\<exists>a h. j = i\<lparr>incident_id := a, inc_content_hash := h\<rparr>)"
  by (auto simp: create_incident_def validate_incident_def)

end
