(* ===== verification/Reconciliation.thy ===== *)
theory Reconciliation
  imports Receipts Risk_Latches
begin

text \<open>
  Reconciliation of the durable ledger with the broker (\<open>execution/reconciliation.py\<close>): the
  validated request, the reconstruction of signed positions from fills, the comparison
  \<open>reconcile\<close> as an ordered sequence of checks that each contribute discrepancies, the receipt
  and the blocking controls. The arithmetic of the module runs in 28 digits.
\<close>

section \<open>Requests\<close>

definition QUANTITY_TOLERANCE :: decimal where "QUANTITY_TOLERANCE = Dec 1 (- 6)"

definition CASH_TOLERANCE :: decimal where "CASH_TOLERANCE = Dec 1 (- 2)"

definition EQUITY_TOLERANCE :: decimal where "EQUITY_TOLERANCE = Dec 1 (- 2)"

record ReconciliationRequest =
  rq_experiment_hash :: string
  rq_slot_id :: "string option"
  rq_execution_plan_id :: "string option"
  rq_request_correlation_id :: string
  rq_active_symbols :: "string list"
  rq_short_eligible_symbols :: "string list"
  rq_baseline_positions :: "Position list"
  rq_baseline_cash :: decimal
  rq_fills :: "Fill list"
  rq_order_fills :: "Fill list"
  rq_intents :: "OrderIntent list"
  rq_durable_orders :: "BrokerOrder list"
  rq_broker_orders :: "BrokerOrder list"
  rq_broker_positions :: "Position list"
  rq_broker_account :: AccountState
  rq_expected_account_id_hash :: string
  rq_mark_prices :: "(string \<times> decimal) list"
  rq_started_at :: int
  rq_completed_at :: int
  rq_live_endpoint_detected :: bool
  rq_paper_false_detected :: bool
  rq_require_flat :: bool
  rq_required_flat_at :: "int option"

definition reconciliation_request_guards :: "ReconciliationRequest \<Rightarrow> (bool \<times> error) list" where
  "reconciliation_request_guards q =
     [(rq_active_symbols q \<noteq> sorted_set (rq_active_symbols q),
        exec_error ''active reconciliation symbols must be ordered''),
      (rq_short_eligible_symbols q \<noteq> sorted_set (rq_short_eligible_symbols q),
        exec_error ''short eligibility symbols must be ordered''),
      (\<not> set (rq_short_eligible_symbols q) \<subseteq> set (rq_active_symbols q),
        exec_error ''short eligibility must be a subset of active symbols''),
      (map fst (rq_mark_prices q) \<noteq> sorted_set (map fst (rq_mark_prices q)),
        exec_error ''mark prices must be unique and ordered''),
      (list_ex (\<lambda>(s, p). dle p dzero) (rq_mark_prices q),
        exec_error ''mark prices must be positive finite Decimals''),
      (fst ` set (rq_mark_prices q) \<noteq> set (rq_active_symbols q),
        exec_error ''mark prices must contain exactly active symbols''),
      (\<not> is_hash (rq_expected_account_id_hash q), exec_error ''expected account ID hash is invalid''),
      (rq_completed_at q < rq_started_at q, exec_error ''reconciliation completion precedes start''),
      (\<not> (rq_started_at q \<le> account_observed_at (rq_broker_account q) \<and>
          account_observed_at (rq_broker_account q) \<le> rq_completed_at q),
        exec_error ''broker account observation must occur during reconciliation''),
      (list_ex (\<lambda>f. fill_occurred_at f > rq_completed_at q) (rq_fills q @ rq_order_fills q),
        exec_error ''reconciliation cannot include a future fill''),
      (list_ex (\<lambda>i. intent_created_at i > rq_completed_at q) (rq_intents q),
        exec_error ''reconciliation cannot include a future intent''),
      (list_ex (\<lambda>x. order_updated_at x > rq_completed_at q) (rq_durable_orders q @ rq_broker_orders q),
        exec_error ''reconciliation cannot include a future order state''),
      (rq_require_flat q \<noteq> (rq_required_flat_at q \<noteq> None),
        exec_error ''required-flat deadline and flag disagree'')]"

definition validate_reconciliation_request :: "ReconciliationRequest \<Rightarrow> ReconciliationRequest res" where
  "validate_reconciliation_request q = guarded (reconciliation_request_guards q) (Inr q)"

section \<open>Signed positions from fills\<close>

fun baseline_quantities :: "Position list \<Rightarrow> (string, decimal) dict \<Rightarrow> (string, decimal) dict res" where
  "baseline_quantities [] d = Inr d"
| "baseline_quantities (p # ps) d =
     (if pos_symbol p \<in> fst ` set d then Inl (exec_error ''baseline contains a duplicate position'')
      else baseline_quantities ps (AList.update (pos_symbol p) (pos_quantity p) d))"

definition fill_delta :: "Fill \<Rightarrow> decimal" where
  "fill_delta f = (if fill_side f = BUY then fill_quantity f else dneg 28 (fill_quantity f))"

fun apply_fills :: "Fill list \<Rightarrow> string list \<Rightarrow> (string, decimal) dict \<Rightarrow> (string, decimal) dict" where
  "apply_fills [] seen d = d"
| "apply_fills (f # fs) seen d =
     (if fill_broker_execution_id f \<in> set seen then apply_fills fs seen d
      else apply_fills fs (fill_broker_execution_id f # seen)
        (AList.update (fill_symbol f) (dadd 28 (dict_get d (fill_symbol f) dzero) (fill_delta f)) d))"

definition positions_of :: "(string, decimal) dict \<Rightarrow> Position list res" where
  "positions_of d = mapE (\<lambda>(s, v). validate_position \<lparr>pos_symbol = s, pos_quantity = v\<rparr>)
     (filter (\<lambda>(s, v). \<not> deq v dzero) (sort_key fst d))"

definition reconstruct_signed_positions :: "Position list \<Rightarrow> Fill list \<Rightarrow> Position list res" where
  "reconstruct_signed_positions baseline fills =
     bindE (baseline_quantities baseline []) (\<lambda>quantities. positions_of (apply_fills fills [] quantities))"

section \<open>Discrepancies of the single checks\<close>

definition difference :: "DiscrepancyCode \<Rightarrow> string option \<Rightarrow> string option \<Rightarrow> decimal option \<Rightarrow> decimal option \<Rightarrow>
    ReconciliationDiscrepancy res" where
  "difference code symbol cid expected observed = validate_discrepancy
     \<lparr>dc_code = code, dc_symbol = symbol, dc_client_order_id = cid, dc_expected = expected, dc_observed = observed\<rparr>"

text \<open>\<open>if condition: discrepancies.append(...)\<close> and a sequence of such statements.\<close>

definition note_if :: "bool \<Rightarrow> 'a res \<Rightarrow> 'a list res" where
  "note_if b m = (if b then bindE m (\<lambda>x. Inr [x]) else Inr [])"

fun concatE :: "'a list res list \<Rightarrow> 'a list res" where
  "concatE [] = Inr []"
| "concatE (m # ms) = bindE m (\<lambda>xs. bindE (concatE ms) (\<lambda>ys. Inr (xs @ ys)))"

definition duplicates :: "string list \<Rightarrow> string list" where
  "duplicates vs = sorted_set (repeated [] vs)"

definition difference_text :: "decimal option \<Rightarrow> string" where
  "difference_text x = (case x of None \<Rightarrow> ''''
     | Some d \<Rightarrow> (if coeff d < 0 then ''-'' else '''') @
         plain_text \<bar>coeff d\<bar> (if coeff d = 0 then min 0 (expo d) else expo d))"

definition difference_key :: "ReconciliationDiscrepancy \<Rightarrow> string \<times> string \<times> string \<times> string \<times> string" where
  "difference_key d = (code_value (dc_code d), or_empty (dc_symbol d), or_empty (dc_client_order_id d),
     difference_text (dc_expected d), difference_text (dc_observed d))"

text \<open>\<open>set(discrepancies)\<close>: of equal elements the first one stays.\<close>

fun unique_discrepancies :: "ReconciliationDiscrepancy list \<Rightarrow> ReconciliationDiscrepancy list" where
  "unique_discrepancies [] = []"
| "unique_discrepancies (d # ds) = d # unique_discrepancies (filter (\<lambda>e. \<not> discrepancy_eq d e) ds)"

text \<open>
  The loop of \<open>_position_map\<close> and \<open>_order_map\<close>: the first item of a key is kept, every further one
  is reported.
\<close>

fun index_first :: "('a \<Rightarrow> string) \<Rightarrow> ('a \<Rightarrow> 'v) \<Rightarrow> ('v \<Rightarrow> 'a \<Rightarrow> ReconciliationDiscrepancy res) \<Rightarrow> 'a list \<Rightarrow>
    (string, 'v) dict \<Rightarrow> ReconciliationDiscrepancy list \<Rightarrow> ((string, 'v) dict \<times> ReconciliationDiscrepancy list) res" where
  "index_first key val report [] d out = Inr (d, out)"
| "index_first key val report (x # xs) d out =
     (case map_of d (key x) of
        Some v \<Rightarrow> bindE (report v x) (\<lambda>e. index_first key val report xs d (out @ [e]))
      | None \<Rightarrow> index_first key val report xs (AList.update (key x) (val x) d) out)"

definition position_map :: "Position list \<Rightarrow> ((string, decimal) dict \<times> ReconciliationDiscrepancy list) res" where
  "position_map ps = index_first pos_symbol pos_quantity
     (\<lambda>v p. difference UNEXPECTED_POSITION (Some (pos_symbol p)) None (Some v) (Some (pos_quantity p))) ps [] []"

definition order_map :: "BrokerOrder list \<Rightarrow> ((string, BrokerOrder) dict \<times> ReconciliationDiscrepancy list) res" where
  "order_map xs = index_first order_client_order_id (\<lambda>x. x)
     (\<lambda>_ x. difference DUPLICATE_CLIENT_ORDER_ID None (Some (order_client_order_id x)) None None) xs [] []"

definition intent_map :: "OrderIntent list \<Rightarrow> (string, OrderIntent) dict" where
  "intent_map is = fold (\<lambda>i. dict_setdefault (intent_client_order_id i) i) is []"

definition inventory_step :: "(string, OrderIntent) dict \<Rightarrow> (string, BrokerOrder) dict \<Rightarrow> Fill \<Rightarrow>
    (string, decimal) dict \<Rightarrow> (string, decimal) dict" where
  "inventory_step intents orders f inventory =
     (case (map_of intents (fill_client_order_id f), map_of orders (fill_client_order_id f)) of
        (Some i, Some x) \<Rightarrow>
          if order_order_intent_id x \<noteq> order_intent_id i \<or> fill_symbol f \<noteq> intent_symbol i \<or>
             fill_side f \<noteq> intent_side i then inventory
          else if intent_position_effect i \<in> {OPEN_SHORT, INCREASE_SHORT} then
            AList.update (fill_symbol f) (dadd 28 (dict_get inventory (fill_symbol f) dzero) (fill_quantity f)) inventory
          else if intent_position_effect i \<in> {REDUCE_SHORT, CLOSE_SHORT, FORCED_FLAT_SHORT} then
            AList.update (fill_symbol f)
              (dmax dzero (dsub 28 (dict_get inventory (fill_symbol f) dzero) (fill_quantity f))) inventory
          else inventory
      | _ \<Rightarrow> inventory)"

definition traceable_short_inventory :: "(string, OrderIntent) dict \<Rightarrow> (string, BrokerOrder) dict \<Rightarrow> Fill list \<Rightarrow>
    (string, decimal) dict" where
  "traceable_short_inventory intents orders fills =
     fold (inventory_step intents orders)
       (dict_values (dict_by fill_broker_execution_id
         (sort_key (\<lambda>f. (fill_occurred_at f, fill_broker_execution_id f)) fills))) []"

definition identity_checks :: "ReconciliationRequest \<Rightarrow> ReconciliationDiscrepancy list res" where
  "identity_checks q = concatE
     ([note_if (rq_live_endpoint_detected q) (difference LIVE_ENDPOINT_DETECTED None None None None),
       note_if (rq_paper_false_detected q) (difference PAPER_FALSE_DETECTED None None None None)] @
      map (\<lambda>_. note_if True (difference DUPLICATE_EXECUTION_ID None None None None))
        (sorted_set (duplicates (map fill_broker_execution_id (rq_fills q)) @
          duplicates (map fill_broker_execution_id (rq_order_fills q)))) @
      map (\<lambda>c. note_if True (difference DUPLICATE_CLIENT_ORDER_ID None (Some c) None None))
        (duplicates (map intent_client_order_id (rq_intents q))))"

definition position_check :: "ReconciliationRequest \<Rightarrow> (string, decimal) dict \<Rightarrow> (string, decimal) dict \<Rightarrow> string \<Rightarrow>
    ReconciliationDiscrepancy list res" where
  "position_check q expected_map observed_map s =
     (let expected = dict_get expected_map s dzero; observed = dict_get observed_map s dzero;
          report = (\<lambda>code. note_if True (difference code (Some s) None (Some expected) (Some observed))) in
      if s \<notin> set (rq_active_symbols q) \<and> (\<not> deq expected dzero \<or> \<not> deq observed dzero)
      then report NON_ACTIVE_SYMBOL_POSITION
      else if deq expected dzero \<and> \<not> deq observed dzero then report UNEXPECTED_POSITION
      else if dlt (dmul 28 expected observed) dzero then report POSITION_SIGN_MISMATCH
      else if dlt QUANTITY_TOLERANCE (dabs 28 (dsub 28 expected observed)) then report POSITION_QUANTITY_MISMATCH
      else Inr [])"

definition flat_checks :: "ReconciliationRequest \<Rightarrow> (string, decimal) dict \<Rightarrow> ReconciliationDiscrepancy list res" where
  "flat_checks q observed_map =
     (if rq_require_flat q then concatE
        (map (\<lambda>(s, v). note_if (dlt QUANTITY_TOLERANCE (dabs 28 v))
           (difference REQUIRED_FLAT_NOT_PROVEN (Some s) None (Some dzero) (Some v))) (sort_key fst observed_map) @
         [note_if (case rq_required_flat_at q of None \<Rightarrow> False | Some t \<Rightarrow> rq_completed_at q > t)
           (difference FORCED_FLAT_DEADLINE_MISSED None None None None)])
      else Inr [])"

definition short_checks :: "(string, decimal) dict \<Rightarrow> (string, decimal) dict \<Rightarrow> (string, decimal) dict \<Rightarrow>
    ReconciliationDiscrepancy list res" where
  "short_checks shorts expected_map observed_map = concatE (map (\<lambda>(s, v).
     if dle dzero v then Inr []
     else note_if (dlt QUANTITY_TOLERANCE (dabs 28 (dsub 28 (dict_get shorts s dzero) (dabs 28 v))))
       (difference UNTRACEABLE_SHORT_POSITION (Some s) None (Some v) (map_of observed_map s))) (sort_key fst expected_map))"

definition intent_checks :: "ReconciliationRequest \<Rightarrow> ReconciliationDiscrepancy list res" where
  "intent_checks q = concatE (concat (map (\<lambda>i.
     [note_if (intent_symbol i \<notin> set (rq_active_symbols q))
        (difference NON_ACTIVE_SYMBOL_ORDER (Some (intent_symbol i)) (Some (intent_client_order_id i)) None None),
      note_if (intent_position_effect i \<in> {OPEN_SHORT, INCREASE_SHORT} \<and>
          intent_symbol i \<notin> set (rq_short_eligible_symbols q))
        (difference INELIGIBLE_SHORT_INCREASE (Some (intent_symbol i)) (Some (intent_client_order_id i)) None None)])
     (rq_intents q)))"

definition open_order_checks :: "ReconciliationRequest \<Rightarrow> (string, OrderIntent) dict \<Rightarrow> (string, BrokerOrder) dict \<Rightarrow>
    ReconciliationDiscrepancy list res" where
  "open_order_checks q intents durable =
     (if rq_require_flat q then concatE (map (\<lambda>(c, x).
        note_if (case map_of intents c of None \<Rightarrow> False
            | Some i \<Rightarrow> opens_exposure (intent_position_effect i) \<and> \<not> terminal (order_state x))
          (difference REQUIRED_FLAT_NOT_PROVEN None (Some c) None None)) durable)
      else Inr [])"

definition unknown_order_checks :: "(string, OrderIntent) dict \<Rightarrow> (string, BrokerOrder) dict \<Rightarrow>
    ReconciliationDiscrepancy list res" where
  "unknown_order_checks intents observed_orders = concatE (map (\<lambda>(c, x).
     if c \<notin> fst ` set intents then concatE
       [note_if True (difference UNKNOWN_BROKER_ORDER None (Some c) None None),
        note_if (ambiguous (order_state x)) (difference SUBMISSION_UNKNOWN_CODE None (Some c) None None)]
     else Inr []) observed_orders)"

definition persisted_fill_quantity :: "Fill list \<Rightarrow> string \<Rightarrow> decimal" where
  "persisted_fill_quantity fills c = dsum 28 (map fill_quantity (dict_values
     (dict_by fill_broker_execution_id (filter (\<lambda>f. fill_client_order_id f = c) fills))))"

definition order_check :: "ReconciliationRequest \<Rightarrow> (string, OrderIntent) dict \<Rightarrow> (string, BrokerOrder) dict \<Rightarrow>
    string \<times> BrokerOrder \<Rightarrow> ReconciliationDiscrepancy list res" where
  "order_check q intents observed_orders = (\<lambda>(c, x).
     (let persisted = persisted_fill_quantity (rq_order_fills q) c; matching = map_of observed_orders c;
          is_current_plan = (case map_of intents c of None \<Rightarrow> False
            | Some i \<Rightarrow> Some (intent_execution_plan_id i) = rq_execution_plan_id q) in
      concatE
       [note_if (\<not> deq (order_cumulative_filled_quantity x) persisted)
          (difference FILLED_QUANTITY_MISMATCH None (Some c) (Some (order_cumulative_filled_quantity x)) (Some persisted)),
        if terminal (order_state x) \<and> \<not> is_current_plan \<and> matching = None then Inr []
        else if order_state x = INTENT_COMMITTED \<and> matching = None then Inr []
        else concatE
         [note_if (ambiguous (order_state x)) (difference SUBMISSION_UNKNOWN_CODE None (Some c) None None),
          case matching of
            None \<Rightarrow> note_if True (difference MISSING_BROKER_ORDER None (Some c) None None)
          | Some y \<Rightarrow> concatE
             [note_if (\<not> deq (order_cumulative_filled_quantity x) (order_cumulative_filled_quantity y))
                (difference FILLED_QUANTITY_MISMATCH None (Some c) (Some (order_cumulative_filled_quantity x))
                  (Some (order_cumulative_filled_quantity y))),
              note_if (order_state x \<noteq> order_state y) (difference ORDER_STATE_MISMATCH None (Some c) None None),
              note_if (order_broker_order_id x \<noteq> order_broker_order_id y)
                (difference ORDER_STATE_MISMATCH None (Some c) None None)]]]))"

definition cash_step :: "Fill \<Rightarrow> decimal \<Rightarrow> decimal" where
  "cash_step f cash =
     (let notional = dmul 28 (fill_quantity f) (fill_price f) in
      dadd 28 cash (if fill_side f = SELL then dsub 28 notional (fill_fee f)
        else dneg 28 (dadd 28 notional (fill_fee f))))"

definition expected_cash_of :: "ReconciliationRequest \<Rightarrow> decimal" where
  "expected_cash_of q = fold cash_step (dict_values (dict_by fill_broker_execution_id (rq_fills q))) (rq_baseline_cash q)"

definition expected_equity_of :: "ReconciliationRequest \<Rightarrow> (string, decimal) dict \<Rightarrow> decimal" where
  "expected_equity_of q expected_map = dadd 28 (expected_cash_of q) (dsum 28
     (map (\<lambda>(s, v). dmul 28 v (dict_get (dict_of_pairs (rq_mark_prices q)) s dzero)) expected_map))"

definition account_checks :: "sha256 \<Rightarrow> ReconciliationRequest \<Rightarrow> (string, decimal) dict \<Rightarrow> ReconciliationDiscrepancy list res" where
  "account_checks sha q expected_map =
     (let account = rq_broker_account q; cash = expected_cash_of q; equity = expected_equity_of q expected_map in
      bindE (account_id_hash sha account) (\<lambda>observed_hash. concatE
       [note_if (observed_hash \<noteq> rq_expected_account_id_hash q) (difference ACCOUNT_ID_MISMATCH None None None None),
        note_if (dlt CASH_TOLERANCE (dabs 28 (dsub 28 cash (account_cash account))))
          (difference CASH_MISMATCH None None (Some cash) (Some (account_cash account))),
        note_if (dlt EQUITY_TOLERANCE (dabs 28 (dsub 28 equity (account_equity account))))
          (difference EQUITY_MISMATCH None None (Some equity) (Some (account_equity account)))]))"

section \<open>The comparison\<close>

definition position_dict :: "Position list \<Rightarrow> (string, decimal) dict" where
  "position_dict ps = dict_of_pairs (map (\<lambda>p. (pos_symbol p, pos_quantity p)) ps)"

definition receipt_of :: "ReconciliationRequest \<Rightarrow> string \<Rightarrow> Position list \<Rightarrow> Position list \<Rightarrow>
    ReconciliationDiscrepancy list \<Rightarrow> ReconciliationReceipt" where
  "receipt_of q account_hash expected_positions observed_positions discrepancies =
     \<lparr>reconciliation_id = '''', rc_experiment_hash = rq_experiment_hash q, rc_slot_id = rq_slot_id q,
      rc_execution_plan_id = rq_execution_plan_id q, rc_correlation_id = rq_request_correlation_id q,
      rc_account_id_hash = account_hash, rc_account_observed_at = account_observed_at (rq_broker_account q),
      rc_started_at = rq_started_at q, rc_completed_at = rq_completed_at q, rc_status = CLEAN,
      rc_expected_positions = expected_positions, rc_observed_positions = observed_positions,
      rc_expected_cash = expected_cash_of q, rc_observed_cash = account_cash (rq_broker_account q),
      rc_expected_equity = expected_equity_of q (position_dict expected_positions),
      rc_observed_equity = account_equity (rq_broker_account q), rc_mark_prices = rq_mark_prices q,
      rc_fill_hashes = sorted_set (map fill_content_hash (rq_fills q @ rq_order_fills q)),
      rc_order_hashes = sorted_set (map order_content_hash (rq_durable_orders q @ rq_broker_orders q)),
      rc_require_flat = rq_require_flat q, rc_required_flat_at = rq_required_flat_at q,
      rc_discrepancies = discrepancies, rc_content_hash = ''''\<rparr>"

definition reconcile :: "sha256 \<Rightarrow> ReconciliationRequest \<Rightarrow> ReconciliationReceipt res" where
  "reconcile sha q =
     bindE (identity_checks q) (\<lambda>d1.
     bindE (reconstruct_signed_positions (rq_baseline_positions q) (rq_fills q)) (\<lambda>expected_positions.
     let expected_map = position_dict expected_positions in
     bindE (position_map (rq_broker_positions q)) (\<lambda>(observed_map, d2).
     bindE (concatE (map (position_check q expected_map observed_map)
       (sorted_set (dict_keys expected_map @ dict_keys observed_map)))) (\<lambda>d3.
     bindE (flat_checks q observed_map) (\<lambda>d4.
     let intents = intent_map (rq_intents q) in
     bindE (order_map (rq_durable_orders q)) (\<lambda>(durable, d5).
     bindE (short_checks (traceable_short_inventory intents durable (rq_order_fills q)) expected_map observed_map) (\<lambda>d6.
     bindE (intent_checks q) (\<lambda>d7.
     bindE (order_map (rq_broker_orders q)) (\<lambda>(observed_orders, d8).
     bindE (open_order_checks q intents durable) (\<lambda>d9.
     bindE (unknown_order_checks intents observed_orders) (\<lambda>d10.
     bindE (concatE (map (order_check q intents observed_orders) durable)) (\<lambda>d11.
     bindE (account_checks sha q expected_map) (\<lambda>d12.
     bindE (account_id_hash sha (rq_broker_account q)) (\<lambda>account_hash.
     bindE (positions_of observed_map) (\<lambda>observed_positions.
       create_receipt sha (receipt_of q account_hash expected_positions observed_positions
         (sort_key difference_key (unique_discrepancies
           (d1 @ d2 @ d3 @ d4 @ d5 @ d6 @ d7 @ d8 @ d9 @ d10 @ d11 @ d12)))))))))))))))))))"

section \<open>Blocking controls\<close>

record ReconciliationOutcome =
  out_receipt :: ReconciliationReceipt
  out_latch_event :: "RiskLatchEvent option"
  out_incident :: "Incident option"

text \<open>
  The repository is the argument \<open>record_bundle\<close>: it stores the receipt with its controls in one
  transaction or raises.
\<close>

definition reconcile_and_persist :: "sha256 \<Rightarrow>
    (ReconciliationReceipt \<Rightarrow> ReconciliationRequest \<Rightarrow> RiskLatchEvent option \<Rightarrow> Incident option \<Rightarrow> 'repo \<Rightarrow> 'repo res) \<Rightarrow>
    'repo \<Rightarrow> ReconciliationRequest \<Rightarrow> RiskLatchState \<Rightarrow> ('repo \<times> ReconciliationOutcome) res" where
  "reconcile_and_persist sha record_bundle repo q st =
     bindE (reconcile sha q) (\<lambda>receipt.
     bindE (if rc_discrepancies receipt \<noteq> [] \<and> \<not> latch_is_active st RECONCILIATION
            then bindE (create_latch_engagement sha st RECONCILIATION
              \<lparr>rq_reason_code = ''reconciliation_blocking'', rq_actor = ''execution_worker'',
               rq_occurred_at = rq_completed_at q, rq_correlation_id = rq_request_correlation_id q,
               rq_idempotency_key = ''reconciliation_'' @ take 32 (rc_content_hash receipt)\<rparr>) (\<lambda>e. Inr (Some e))
            else Inr None) (\<lambda>latch_event.
     bindE (if rc_discrepancies receipt \<noteq> []
            then bindE (create_incident sha
              \<lparr>incident_id = '''', inc_idempotency_key = ''reconciliation:'' @ take 32 (rc_content_hash receipt),
               inc_experiment_hash = rq_experiment_hash q, inc_correlation_id = rq_request_correlation_id q,
               inc_reason_code = ''reconciliation_blocking'', inc_opened_at = rq_completed_at q,
               inc_content_hash = ''''\<rparr>) (\<lambda>i. Inr (Some i))
            else Inr None) (\<lambda>incident.
     bindE (record_bundle receipt q latch_event incident repo) (\<lambda>repo'.
       Inr (repo', \<lparr>out_receipt = receipt, out_latch_event = latch_event, out_incident = incident\<rparr>)))))"

definition reconciliation_input_hash :: "sha256 \<Rightarrow> ReconciliationRequest \<Rightarrow> string res" where
  "reconciliation_input_hash sha q =
     (let a = rq_broker_account q in
      bindE (account_id_hash sha a) (\<lambda>h. sha256_hex sha (PMap
        [(''account_buying_power'', PDec (account_buying_power a)),
         (''account_cash'', PDec (account_cash a)),
         (''account_equity'', PDec (account_equity a)),
         (''account_id_hash'', PStr h),
         (''account_observed_at'', PTime (account_observed_at a)),
         (''account_restricted_short_proceeds'', PDec (account_restricted_short_proceeds a)),
         (''broker_order_hashes'', PSeq (map (\<lambda>x. PStr (order_content_hash x)) (rq_broker_orders q))),
         (''broker_positions'', pval_positions (rq_broker_positions q)),
         (''completed_at'', PTime (rq_completed_at q)),
         (''durable_order_hashes'', PSeq (map (\<lambda>x. PStr (order_content_hash x)) (rq_durable_orders q))),
         (''expected_account_id_hash'', PStr (rq_expected_account_id_hash q)),
         (''mark_prices'', pval_prices (rq_mark_prices q)),
         (''order_fill_hashes'', PSeq (map (\<lambda>f. PStr (fill_content_hash f)) (rq_order_fills q))),
         (''plan_fill_hashes'', PSeq (map (\<lambda>f. PStr (fill_content_hash f)) (rq_fills q))),
         (''require_flat'', PBool (rq_require_flat q)),
         (''required_flat_at'', pval_opt PTime (rq_required_flat_at q)),
         (''schema'', PStr ''reconciliation-input-v3''),
         (''started_at'', PTime (rq_started_at q))])))"

end
