(* ===== verification/Clean_Receipts.thy ===== *)
theory Clean_Receipts
  imports Reconciliation Quantity_Grid
begin

text \<open>
  What a reconciliation receipt certifies: the status is clean exactly if the ledger and the
  broker agree on every identity, position, order, short, and on the account; positions are
  rebuilt exactly from the distinct fills; and a blocking receipt is never recorded without its
  incident and an engaged reconciliation latch.
\<close>

section \<open>Discrepancy lists\<close>

lemma note_if_Inr: "note_if b m = Inr xs \<Longrightarrow> xs = [] \<longleftrightarrow> \<not> b"
  by (auto simp: note_if_def split: if_splits)

lemma concatE_empty: "concatE ms = Inr xs \<Longrightarrow> xs = [] \<longleftrightarrow> (\<forall>m \<in> set ms. m = Inr [])"
  by (induction ms arbitrary: xs) auto

lemma concatE_parts: "concatE ms = Inr xs \<Longrightarrow> m \<in> set ms \<Longrightarrow> \<exists>ys. m = Inr ys"
  by (induction ms arbitrary: xs) auto

lemma note_if_Nil: "note_if b m = Inr ys \<Longrightarrow> note_if b m = Inr [] \<longleftrightarrow> \<not> b"
  by (auto simp: note_if_def split: if_splits)

lemma concatE_notes:
  assumes "concatE (map (\<lambda>x. note_if (P x) (f x)) xs) = Inr ys"
  shows "ys = [] \<longleftrightarrow> (\<forall>x \<in> set xs. \<not> P x)"
proof -
  have "note_if (P x) (f x) = Inr [] \<longleftrightarrow> \<not> P x" if "x \<in> set xs" for x
  proof -
    have "note_if (P x) (f x) \<in> set (map (\<lambda>x. note_if (P x) (f x)) xs)" using that by simp
    then obtain ys where "note_if (P x) (f x) = Inr ys" using concatE_parts [OF assms] by blast
    then show ?thesis by (rule note_if_Nil)
  qed
  then show ?thesis using concatE_empty [OF assms] by simp
qed

lemma concatE_append:
  "concatE (ms @ ns) = bindE (concatE ms) (\<lambda>xs. bindE (concatE ns) (\<lambda>ys. Inr (xs @ ys)))"
proof (induction ms)
  case Nil
  then show ?case by (cases "concatE ns") simp_all
next
  case (Cons m ms)
  then show ?case by (cases m; cases "concatE ms"; cases "concatE ns") simp_all
qed

lemma index_first_Inr:
  assumes "index_first key val report xs d out = Inr (d', out')" and "distinct (map fst d)"
  shows "(out' = [] \<longleftrightarrow> out = [] \<and> distinct (map fst d @ map key xs)) \<and>
    (distinct (map fst d @ map key xs) \<longrightarrow> d' = d @ map (\<lambda>x. (key x, val x)) xs)"
  using assms
proof (induction xs arbitrary: d out)
  case Nil
  then show ?case by simp
next
  case (Cons x xs)
  show ?case
  proof (cases "map_of d (key x)")
    case None
    then have new: "key x \<notin> fst ` set d" by (simp add: map_of_eq_None_iff)
    then have up: "AList.update (key x) (val x) d = d @ [(key x, val x)]" by (rule update_nonkey)
    have run: "index_first key val report xs (d @ [(key x, val x)]) out = Inr (d', out')"
      using Cons.prems(1) None up by simp
    show ?thesis using Cons.IH [OF run] Cons.prems(2) new by auto
  next
    case (Some v)
    then have old: "key x \<in> fst ` set d" using map_of_SomeD by force
    obtain e where "index_first key val report xs d (out @ [e]) = Inr (d', out')" using Cons.prems(1) Some by auto
    then show ?thesis using Cons.IH Cons.prems(2) old by auto
  qed
qed

lemma position_map_Inr:
  assumes "position_map ps = Inr (d, out)"
  shows "out = [] \<longleftrightarrow> distinct (map pos_symbol ps)"
    and "distinct (map pos_symbol ps) \<Longrightarrow> d = map (\<lambda>p. (pos_symbol p, pos_quantity p)) ps"
  using index_first_Inr [OF assms [unfolded position_map_def]] by simp_all

lemma order_map_Inr:
  assumes "order_map xs = Inr (d, out)"
  shows "out = [] \<longleftrightarrow> distinct (map order_client_order_id xs)"
    and "distinct (map order_client_order_id xs) \<Longrightarrow> d = map (\<lambda>x. (order_client_order_id x, x)) xs"
  using index_first_Inr [OF assms [unfolded order_map_def]] by simp_all

lemma duplicates_empty: "duplicates vs = [] \<longleftrightarrow> distinct vs"
proof -
  have "duplicates vs = [] \<longleftrightarrow> repeated [] vs = []" by (metis duplicates_def set_sorted_set set_empty)
  then show ?thesis by (simp add: repeated_empty_iff_distinct)
qed

lemma unique_discrepancies_empty: "unique_discrepancies ds = [] \<longleftrightarrow> ds = []"
  by (cases ds) simp_all

lemma intent_map_distinct:
  "distinct (map intent_client_order_id is) \<Longrightarrow> intent_map is = map (\<lambda>i. (intent_client_order_id i, i)) is"
proof -
  have "distinct (map intent_client_order_id (js @ is)) \<Longrightarrow>
    fold (\<lambda>i. dict_setdefault (intent_client_order_id i) i) is (map (\<lambda>i. (intent_client_order_id i, i)) js) =
      map (\<lambda>i. (intent_client_order_id i, i)) (js @ is)" for js
  proof (induction "is" arbitrary: js)
    case (Cons i "is")
    have "map_of (map (\<lambda>i. (intent_client_order_id i, i)) js) (intent_client_order_id i) = None"
      using Cons.prems by (auto simp: map_of_eq_None_iff)
    then show ?case using Cons.IH [of "js @ [i]"] Cons.prems by (simp add: dict_setdefault_def)
  qed simp
  from this [of "[]"] show "distinct (map intent_client_order_id is) \<Longrightarrow> intent_map is = map (\<lambda>i. (intent_client_order_id i, i)) is"
    by (simp add: intent_map_def)
qed

section \<open>What a clean receipt certifies\<close>

definition close_to :: "decimal \<Rightarrow> decimal \<Rightarrow> decimal \<Rightarrow> bool" where
  "close_to tolerance a b \<longleftrightarrow> dle (dabs 28 (dsub 28 a b)) tolerance"

definition quantity_in :: "Position list \<Rightarrow> string \<Rightarrow> decimal" where
  "quantity_in ps s = dict_get (map (\<lambda>p. (pos_symbol p, pos_quantity p)) ps) s dzero"

abbreviation intents_by_id :: "OrderIntent list \<Rightarrow> (string, OrderIntent) dict" where
  "intents_by_id \<equiv> map (\<lambda>i. (intent_client_order_id i, i))"

abbreviation orders_by_id :: "BrokerOrder list \<Rightarrow> (string, BrokerOrder) dict" where
  "orders_by_id \<equiv> map (\<lambda>x. (order_client_order_id x, x))"

definition identities_agree :: "ReconciliationRequest \<Rightarrow> bool" where
  "identities_agree q \<longleftrightarrow> \<not> rq_live_endpoint_detected q \<and> \<not> rq_paper_false_detected q \<and>
     distinct (map fill_broker_execution_id (rq_fills q)) \<and> distinct (map fill_broker_execution_id (rq_order_fills q)) \<and>
     distinct (map intent_client_order_id (rq_intents q)) \<and> distinct (map pos_symbol (rq_broker_positions q)) \<and>
     distinct (map order_client_order_id (rq_durable_orders q)) \<and> distinct (map order_client_order_id (rq_broker_orders q))"

definition position_agrees :: "bool \<Rightarrow> decimal \<Rightarrow> decimal \<Rightarrow> bool" where
  "position_agrees active e ob \<longleftrightarrow> (\<not> active \<longrightarrow> dval e = 0 \<and> dval ob = 0) \<and> (dval e = 0 \<longrightarrow> dval ob = 0) \<and>
     0 \<le> dval e * dval ob \<and> close_to QUANTITY_TOLERANCE e ob"

definition flat_agrees :: "ReconciliationRequest \<Rightarrow> bool" where
  "flat_agrees q \<longleftrightarrow> (rq_require_flat q \<longrightarrow>
     (\<forall>p \<in> set (rq_broker_positions q). dle (dabs 28 (pos_quantity p)) QUANTITY_TOLERANCE) \<and>
     (\<forall>t. rq_required_flat_at q = Some t \<longrightarrow> rq_completed_at q \<le> t) \<and>
     (\<forall>x \<in> set (rq_durable_orders q). \<forall>i \<in> set (rq_intents q).
        intent_client_order_id i = order_client_order_id x \<longrightarrow> opens_exposure (intent_position_effect i) \<longrightarrow>
        terminal (order_state x)))"

definition shorts_agree :: "ReconciliationRequest \<Rightarrow> Position list \<Rightarrow> bool" where
  "shorts_agree q es \<longleftrightarrow> (\<forall>p \<in> set es. dval (pos_quantity p) < 0 \<longrightarrow>
     close_to QUANTITY_TOLERANCE (dict_get (traceable_short_inventory (intents_by_id (rq_intents q))
       (orders_by_id (rq_durable_orders q)) (rq_order_fills q)) (pos_symbol p) dzero) (dabs 28 (pos_quantity p)))"

definition intents_agree :: "ReconciliationRequest \<Rightarrow> bool" where
  "intents_agree q \<longleftrightarrow> (\<forall>i \<in> set (rq_intents q). intent_symbol i \<in> set (rq_active_symbols q) \<and>
     (intent_position_effect i \<in> {OPEN_SHORT, INCREASE_SHORT} \<longrightarrow> intent_symbol i \<in> set (rq_short_eligible_symbols q)))"

definition order_agrees :: "ReconciliationRequest \<Rightarrow> BrokerOrder \<Rightarrow> bool" where
  "order_agrees q x \<longleftrightarrow>
     deq (order_cumulative_filled_quantity x) (persisted_fill_quantity (rq_order_fills q) (order_client_order_id x)) \<and>
     (case map_of (orders_by_id (rq_broker_orders q)) (order_client_order_id x) of
        None \<Rightarrow> order_state x = INTENT_COMMITTED \<or> terminal (order_state x) \<and>
          (\<forall>i \<in> set (rq_intents q). intent_client_order_id i = order_client_order_id x \<longrightarrow>
             rq_execution_plan_id q \<noteq> Some (intent_execution_plan_id i))
      | Some y \<Rightarrow> \<not> ambiguous (order_state x) \<and> order_state x = order_state y \<and>
          order_broker_order_id x = order_broker_order_id y \<and>
          deq (order_cumulative_filled_quantity x) (order_cumulative_filled_quantity y))"

definition orders_agree :: "ReconciliationRequest \<Rightarrow> bool" where
  "orders_agree q \<longleftrightarrow>
     order_client_order_id ` set (rq_broker_orders q) \<subseteq> intent_client_order_id ` set (rq_intents q) \<and>
     (\<forall>x \<in> set (rq_durable_orders q). order_agrees q x)"

definition account_agrees :: "sha256 \<Rightarrow> ReconciliationRequest \<Rightarrow> Position list \<Rightarrow> bool" where
  "account_agrees sha q es \<longleftrightarrow>
     account_id_hash sha (rq_broker_account q) = Inr (rq_expected_account_id_hash q) \<and>
     close_to CASH_TOLERANCE (expected_cash_of q) (account_cash (rq_broker_account q)) \<and>
     close_to EQUITY_TOLERANCE (expected_equity_of q (position_dict es)) (account_equity (rq_broker_account q))"

definition agrees :: "sha256 \<Rightarrow> ReconciliationRequest \<Rightarrow> Position list \<Rightarrow> bool" where
  "agrees sha q es \<longleftrightarrow> identities_agree q \<and>
     (\<forall>s. position_agrees (s \<in> set (rq_active_symbols q)) (quantity_in es s) (quantity_in (rq_broker_positions q) s)) \<and>
     flat_agrees q \<and> shorts_agree q es \<and> intents_agree q \<and> orders_agree q \<and> account_agrees sha q es"

lemma not_dlt_close_to: "\<not> dlt t (dabs 28 (dsub 28 a b)) \<longleftrightarrow> close_to t a b"
  by (auto simp: close_to_def dec_simps)

lemma dmul_sign: "dval (dmul 28 a b) < 0 \<longleftrightarrow> dval a * dval b < 0"
proof -
  obtain s where s: "dmul 28 a b = dfix 28 s" "dval s = dval a * dval b" using dmul_val by blast
  have neg: "dval (dfix 28 s) < 0" if "dval s < 0"
  proof -
    have "coeff s \<le> - 1" using that dval_sign(2) [of s] by simp
    then have "dval s \<le> dval (Dec (- 1) (expo s))" unfolding dval_def decimal.sel powi_cancel .
    moreover have "drepr 28 (Dec (- 1) (expo s))" by (simp add: drepr_def ndigits.simps)
    ultimately have "dval (dfix 28 s) \<le> dval (Dec (- 1) (expo s))" by (intro c28.rnd_le_fits)
    also have "\<dots> < 0" by (simp add: dval_sign)
    finally show ?thesis .
  qed
  show ?thesis
  proof (cases "dval s < 0")
    case True
    then show ?thesis using neg s by auto
  next
    case False
    then have "0 \<le> dval (dfix 28 s)" by (intro c28.rnd_nonneg) simp
    then show ?thesis using False s by auto
  qed
qed

lemma identity_checks_empty:
  assumes "identity_checks q = Inr d"
  shows "d = [] \<longleftrightarrow> \<not> rq_live_endpoint_detected q \<and> \<not> rq_paper_false_detected q \<and>
     distinct (map fill_broker_execution_id (rq_fills q)) \<and> distinct (map fill_broker_execution_id (rq_order_fills q)) \<and>
     distinct (map intent_client_order_id (rq_intents q))"
proof -
  obtain a b c e where ab: "note_if (rq_live_endpoint_detected q) (difference LIVE_ENDPOINT_DETECTED None None None None) = Inr a"
      "note_if (rq_paper_false_detected q) (difference PAPER_FALSE_DETECTED None None None None) = Inr b"
    and c: "concatE (map (\<lambda>_. note_if True (difference DUPLICATE_EXECUTION_ID None None None None))
        (sorted_set (duplicates (map fill_broker_execution_id (rq_fills q)) @
          duplicates (map fill_broker_execution_id (rq_order_fills q))))) = Inr c"
    and e: "concatE (map (\<lambda>c. note_if True (difference DUPLICATE_CLIENT_ORDER_ID None (Some c) None None))
        (duplicates (map intent_client_order_id (rq_intents q)))) = Inr e"
    and d: "d = a @ b @ c @ e"
    using assms by (auto simp: identity_checks_def concatE_append)
  have "c = [] \<longleftrightarrow> duplicates (map fill_broker_execution_id (rq_fills q)) = [] \<and>
      duplicates (map fill_broker_execution_id (rq_order_fills q)) = []"
    using concatE_notes [OF c] by (metis append_is_Nil_conv empty_iff list.set(1) list.set_intros(1) neq_Nil_conv set_append set_sorted_set)
  moreover have "e = [] \<longleftrightarrow> duplicates (map intent_client_order_id (rq_intents q)) = []"
    using concatE_notes [OF e] by (cases "duplicates (map intent_client_order_id (rq_intents q))") auto
  ultimately show ?thesis using note_if_Inr [OF ab(1)] note_if_Inr [OF ab(2)] by (auto simp: d duplicates_empty)
qed

lemma position_check_empty:
  assumes "position_check q em om s = Inr d"
  shows "d = [] \<longleftrightarrow> position_agrees (s \<in> set (rq_active_symbols q)) (dict_get em s dzero) (dict_get om s dzero)"
  using assms
  by (auto simp: position_check_def Let_def position_agrees_def not_dlt_close_to [symmetric] deq_iff dmul_sign dlt_iff [of "dmul _ _ _"]
      dest!: note_if_Inr split: if_splits)


lemma concatE_map_empty:
  assumes "concatE (map f xs) = Inr d" and "\<And>x d. x \<in> set xs \<Longrightarrow> f x = Inr d \<Longrightarrow> d = [] \<longleftrightarrow> P x"
  shows "d = [] \<longleftrightarrow> (\<forall>x \<in> set xs. P x)"
proof -
  have "f x = Inr [] \<longleftrightarrow> P x" if "x \<in> set xs" for x
  proof -
    have "f x \<in> set (map f xs)" using that by simp
    then obtain ys where "f x = Inr ys" using concatE_parts [OF assms(1)] by blast
    then show ?thesis using assms(2) [OF that] by auto
  qed
  then show ?thesis using concatE_empty [OF assms(1)] by simp
qed

lemma position_checks_empty:
  assumes "concatE (map (position_check q em om) (sorted_set (dict_keys em @ dict_keys om))) = Inr d"
  shows "d = [] \<longleftrightarrow> (\<forall>s. position_agrees (s \<in> set (rq_active_symbols q)) (dict_get em s dzero) (dict_get om s dzero))"
proof -
  have absent: "position_agrees a (dict_get em s dzero) (dict_get om s dzero)" if "s \<notin> set (dict_keys em @ dict_keys om)" for a s
  proof -
    have "map_of em s = None" "map_of om s = None" using that by (auto simp: dict_keys_def map_of_eq_None_iff)
    then have "dict_get em s dzero = dzero" "dict_get om s dzero = dzero" by (simp_all add: dict_get_def)
    moreover have "close_to QUANTITY_TOLERANCE dzero dzero" by code_simp
    ultimately show ?thesis by (simp add: position_agrees_def)
  qed
  have "d = [] \<longleftrightarrow> (\<forall>s \<in> set (sorted_set (dict_keys em @ dict_keys om)).
      position_agrees (s \<in> set (rq_active_symbols q)) (dict_get em s dzero) (dict_get om s dzero))"
    by (rule concatE_map_empty [OF assms]) (rule position_check_empty)
  then show ?thesis using absent by auto
qed

lemma not_dlt_dabs: "\<not> dlt t (dabs 28 v) \<longleftrightarrow> dle (dabs 28 v) t"
  by (auto simp: dec_simps)

lemma flat_checks_empty:
  assumes "flat_checks q (map (\<lambda>p. (pos_symbol p, pos_quantity p)) ps) = Inr d"
  shows "d = [] \<longleftrightarrow> (rq_require_flat q \<longrightarrow> (\<forall>p \<in> set ps. dle (dabs 28 (pos_quantity p)) QUANTITY_TOLERANCE) \<and>
     (\<forall>t. rq_required_flat_at q = Some t \<longrightarrow> rq_completed_at q \<le> t))"
proof (cases "rq_require_flat q")
  case False
  then show ?thesis using assms by (simp add: flat_checks_def)
next
  case True
  let ?om = "map (\<lambda>p. (pos_symbol p, pos_quantity p)) ps"
  obtain a b where a: "concatE (map (\<lambda>x. note_if (dlt QUANTITY_TOLERANCE (dabs 28 (snd x)))
           (difference REQUIRED_FLAT_NOT_PROVEN (Some (fst x)) None (Some dzero) (Some (snd x)))) (sort_key fst ?om)) = Inr a"
    and b: "note_if (case rq_required_flat_at q of None \<Rightarrow> False | Some t \<Rightarrow> rq_completed_at q > t)
           (difference FORCED_FLAT_DEADLINE_MISSED None None None None) = Inr b" and d: "d = a @ b"
    using assms True by (auto simp: flat_checks_def concatE_append case_prod_unfold)
  have "a = [] \<longleftrightarrow> (\<forall>p \<in> set ps. dle (dabs 28 (pos_quantity p)) QUANTITY_TOLERANCE)"
    using concatE_notes [OF a] by (simp add: not_dlt_dabs)
  moreover have "b = [] \<longleftrightarrow> (\<forall>t. rq_required_flat_at q = Some t \<longrightarrow> rq_completed_at q \<le> t)"
    using note_if_Inr [OF b] by (auto split: option.splits)
  ultimately show ?thesis using True by (simp add: d)
qed

lemma short_checks_empty:
  assumes "short_checks sh (map (\<lambda>p. (pos_symbol p, pos_quantity p)) es) om = Inr d"
  shows "d = [] \<longleftrightarrow> (\<forall>p \<in> set es. dval (pos_quantity p) < 0 \<longrightarrow>
     close_to QUANTITY_TOLERANCE (dict_get sh (pos_symbol p) dzero) (dabs 28 (pos_quantity p)))"
proof -
  have "d = [] \<longleftrightarrow> (\<forall>x \<in> set (sort_key fst (map (\<lambda>p. (pos_symbol p, pos_quantity p)) es)). dval (snd x) < 0 \<longrightarrow>
     close_to QUANTITY_TOLERANCE (dict_get sh (fst x) dzero) (dabs 28 (snd x)))"
    by (rule concatE_map_empty [OF assms [unfolded short_checks_def]])
      (auto simp: dle_iff not_dlt_close_to [symmetric] not_le dest!: note_if_Inr split: if_splits prod.splits)
  then show ?thesis by simp
qed

lemma intent_checks_empty:
  assumes "intent_checks q = Inr d"
  shows "d = [] \<longleftrightarrow> intents_agree q"
proof -
  have "d = [] \<longleftrightarrow> (\<forall>m \<in> set (concat (map (\<lambda>i.
     [note_if (intent_symbol i \<notin> set (rq_active_symbols q))
        (difference NON_ACTIVE_SYMBOL_ORDER (Some (intent_symbol i)) (Some (intent_client_order_id i)) None None),
      note_if (intent_position_effect i \<in> {OPEN_SHORT, INCREASE_SHORT} \<and>
          intent_symbol i \<notin> set (rq_short_eligible_symbols q))
        (difference INELIGIBLE_SHORT_INCREASE (Some (intent_symbol i)) (Some (intent_client_order_id i)) None None)])
     (rq_intents q))). m = Inr [])"
    by (rule concatE_empty [OF assms [unfolded intent_checks_def]])
  also have "\<dots> \<longleftrightarrow> intents_agree q"
    by (auto simp: intents_agree_def note_if_def split: if_splits)
  finally show ?thesis .
qed


lemma open_order_checks_empty:
  assumes "open_order_checks q (intents_by_id is) (orders_by_id xs) = Inr d" and "distinct (map intent_client_order_id is)"
  shows "d = [] \<longleftrightarrow> (rq_require_flat q \<longrightarrow> (\<forall>x \<in> set xs. \<forall>i \<in> set is. intent_client_order_id i = order_client_order_id x \<longrightarrow>
     opens_exposure (intent_position_effect i) \<longrightarrow> terminal (order_state x)))"
proof (cases "rq_require_flat q")
  case False
  then show ?thesis using assms by (simp add: open_order_checks_def)
next
  case True
  have mo: "map_of (intents_by_id is) c = Some i \<longleftrightarrow> i \<in> set is \<and> intent_client_order_id i = c" for c i
    using assms(2) by (auto simp: map_of_eq_Some_iff comp_def)
  have "d = [] \<longleftrightarrow> (\<forall>y \<in> set (orders_by_id xs). \<forall>i. map_of (intents_by_id is) (fst y) = Some i \<longrightarrow>
      opens_exposure (intent_position_effect i) \<longrightarrow> terminal (order_state (snd y)))"
    using assms(1) True unfolding open_order_checks_def
    by (intro concatE_map_empty) (auto dest!: note_if_Inr split: option.splits prod.splits)
  then show ?thesis using True by (auto simp: mo)
qed

lemma unknown_order_checks_empty:
  assumes "unknown_order_checks (intents_by_id is) (orders_by_id ys) = Inr d"
  shows "d = [] \<longleftrightarrow> order_client_order_id ` set ys \<subseteq> intent_client_order_id ` set is"
proof -
  have keys: "fst ` set (intents_by_id is) = intent_client_order_id ` set is" by (simp add: image_image)
  have "d = [] \<longleftrightarrow> (\<forall>y \<in> set (orders_by_id ys). fst y \<in> intent_client_order_id ` set is)"
    by (rule concatE_map_empty [OF assms [unfolded unknown_order_checks_def keys]])
      (auto simp: note_if_def split: if_splits prod.splits)
  then show ?thesis by auto
qed

lemma note_if_eq_Nil [simp]: "note_if b m = Inr [] \<longleftrightarrow> \<not> b"
  by (auto simp: note_if_def)

definition current_plan_order :: "ReconciliationRequest \<Rightarrow> string \<Rightarrow> bool" where
  "current_plan_order q c \<longleftrightarrow> (\<exists>i \<in> set (rq_intents q). intent_client_order_id i = c \<and>
     rq_execution_plan_id q = Some (intent_execution_plan_id i))"

lemma current_plan_order_iff:
  assumes "distinct (map intent_client_order_id (rq_intents q))"
  shows "(case map_of (intents_by_id (rq_intents q)) c of None \<Rightarrow> False
      | Some i \<Rightarrow> Some (intent_execution_plan_id i) = rq_execution_plan_id q) \<longleftrightarrow> current_plan_order q c"
proof (cases "map_of (intents_by_id (rq_intents q)) c")
  case None
  then have "c \<notin> intent_client_order_id ` set (rq_intents q)" by (simp add: map_of_eq_None_iff image_image)
  then show ?thesis using None by (auto simp: current_plan_order_def)
next
  case (Some i)
  then have i: "i \<in> set (rq_intents q)" "intent_client_order_id i = c" by (auto dest: map_of_SomeD)
  moreover have "j = i" if "j \<in> set (rq_intents q)" "intent_client_order_id j = c" for j
    using assms i that by (metis distinct_map inj_onD)
  ultimately have "current_plan_order q c \<longleftrightarrow> rq_execution_plan_id q = Some (intent_execution_plan_id i)"
    unfolding current_plan_order_def by blast
  then show ?thesis using Some by auto
qed

lemma order_check_empty:
  assumes "order_check q (intents_by_id (rq_intents q)) (orders_by_id (rq_broker_orders q)) (order_client_order_id x, x) = Inr d"
    and "distinct (map intent_client_order_id (rq_intents q))"
  shows "d = [] \<longleftrightarrow> order_agrees q x"
proof -
  define m where "m = map_of (orders_by_id (rq_broker_orders q)) (order_client_order_id x)"
  note chk = assms(1) [unfolded order_check_def Let_def prod.case current_plan_order_iff [OF assms(2)] m_def [symmetric]]
  note empty = concatE_empty [OF chk]
  show ?thesis
  proof (cases m)
    case None
    then show ?thesis unfolding empty order_agrees_def m_def [symmetric]
      by (auto simp: current_plan_order_def)
  next
    case (Some y)
    then show ?thesis unfolding empty order_agrees_def m_def [symmetric] by auto
  qed
qed


lemma account_checks_empty:
  assumes "account_checks sha q (position_dict es) = Inr d"
  shows "d = [] \<longleftrightarrow> account_agrees sha q es"
proof -
  obtain h where h: "account_id_hash sha (rq_broker_account q) = Inr h"
    using assms by (auto simp: account_checks_def Let_def)
  note chk = assms [unfolded account_checks_def Let_def h bindE.simps]
  show ?thesis unfolding concatE_empty [OF chk] account_agrees_def h by (simp add: not_dlt_close_to)
qed

lemma distinct_baseline:
  "baseline_quantities ps d = Inr d' \<Longrightarrow> distinct (map fst d) \<Longrightarrow> distinct (map fst d')"
  by (induction ps arbitrary: d) (auto simp: distinct_update split: if_splits)

lemma distinct_apply_fills: "distinct (map fst d) \<Longrightarrow> distinct (map fst (apply_fills fs seen d))"
  by (induction fs arbitrary: seen d) (auto simp: distinct_update)

lemma distinct_sort_filter_keys: "distinct (map fst d) \<Longrightarrow> distinct (map fst (filter P (sort_key fst d)))"
proof -
  assume "distinct (map fst d)"
  then have "distinct (map fst (sort_key fst d))"
    by (metis distinct_map distinct_sort inj_on_subset set_sort subset_refl)
  then show ?thesis by (rule distinct_map_filter)
qed

lemma positions_of_Inr:
  "positions_of d = Inr ps \<longleftrightarrow> (\<forall>(s, v) \<in> set d. \<not> deq v dzero \<longrightarrow> is_symbol s \<and> domain_decimal v) \<and>
     ps = map (\<lambda>(s, v). \<lparr>pos_symbol = s, pos_quantity = v\<rparr>) (filter (\<lambda>(s, v). \<not> deq v dzero) (sort_key fst d))"
proof -
  have "positions_of d = Inr ps \<longleftrightarrow>
      (\<forall>x \<in> set (filter (\<lambda>(s, v). \<not> deq v dzero) (sort_key fst d)). is_symbol (fst x) \<and> domain_decimal (snd x)) \<and>
      ps = map (\<lambda>(s, v). \<lparr>pos_symbol = s, pos_quantity = v\<rparr>) (filter (\<lambda>(s, v). \<not> deq v dzero) (sort_key fst d))"
    unfolding positions_of_def by (rule mapE_map) (auto simp: validate_position_def guard_defs)
  then show ?thesis by (auto simp: case_prod_unfold)
qed

lemma positions_of_distinct:
  assumes "positions_of d = Inr ps" and "distinct (map fst d)"
  shows "distinct (map pos_symbol ps)"
  using distinct_sort_filter_keys [OF assms(2)] assms(1)
  by (simp add: positions_of_Inr comp_def case_prod_unfold)

lemma reconstruct_distinct: "reconstruct_signed_positions bs fs = Inr ps \<Longrightarrow> distinct (map pos_symbol ps)"
  by (auto simp: reconstruct_signed_positions_def intro!: positions_of_distinct distinct_apply_fills dest!: distinct_baseline)

lemma position_dict_distinct:
  "distinct (map pos_symbol ps) \<Longrightarrow> position_dict ps = map (\<lambda>p. (pos_symbol p, pos_quantity p)) ps"
  by (simp add: position_dict_def dict_of_pairs_distinct comp_def)

lemma clean_iff_agrees:
  assumes "reconcile sha q = Inr r"
  shows "rc_status r = CLEAN \<longleftrightarrow> agrees sha q (rc_expected_positions r)"
proof -
  let ?im = "intent_map (rq_intents q)"
  obtain es om du ob d1 d2 d3 d4 d5 d6 d7 d8 d9 d10 d11 d12 h os where
    c1: "identity_checks q = Inr d1" and es: "reconstruct_signed_positions (rq_baseline_positions q) (rq_fills q) = Inr es"
    and c2: "position_map (rq_broker_positions q) = Inr (om, d2)"
    and c3: "concatE (map (position_check q (position_dict es) om) (sorted_set (dict_keys (position_dict es) @ dict_keys om))) = Inr d3"
    and c4: "flat_checks q om = Inr d4" and c5: "order_map (rq_durable_orders q) = Inr (du, d5)"
    and c6: "short_checks (traceable_short_inventory ?im du (rq_order_fills q)) (position_dict es) om = Inr d6"
    and c7: "intent_checks q = Inr d7" and c8: "order_map (rq_broker_orders q) = Inr (ob, d8)"
    and c9: "open_order_checks q ?im du = Inr d9" and c10: "unknown_order_checks ?im ob = Inr d10"
    and c11: "concatE (map (order_check q ?im ob) du) = Inr d11" and c12: "account_checks sha q (position_dict es) = Inr d12"
    and rc: "create_receipt sha (receipt_of q h es os (sort_key difference_key (unique_discrepancies
           (d1 @ d2 @ d3 @ d4 @ d5 @ d6 @ d7 @ d8 @ d9 @ d10 @ d11 @ d12)))) = Inr r"
    using assms unfolding reconcile_def Let_def bindE_Inr_iff by (auto split: prod.splits)
  have rr: "rc_expected_positions r = es" using create_receipt_Inr(4) [OF rc] by (auto simp: receipt_of_def)
  have st: "rc_status r = CLEAN \<longleftrightarrow> d1 @ d2 @ d3 @ d4 @ d5 @ d6 @ d7 @ d8 @ d9 @ d10 @ d11 @ d12 = []"
  proof -
    have "sort_key difference_key (unique_discrepancies ds) = [] \<longleftrightarrow> ds = []" for ds
      by (metis length_0_conv length_sort unique_discrepancies_empty)
    then show ?thesis using create_receipt_Inr(3) [OF rc] by (simp add: receipt_of_def status_of_def)
  qed
  have em: "position_dict es = map (\<lambda>p. (pos_symbol p, pos_quantity p)) es"
    by (rule position_dict_distinct [OF reconstruct_distinct [OF es]])
  show ?thesis
  proof (cases "identities_agree q")
    case False
    then show ?thesis using st identity_checks_empty [OF c1] position_map_Inr(1) [OF c2] order_map_Inr(1) [OF c5] order_map_Inr(1) [OF c8]
      by (auto simp: agrees_def identities_agree_def)
  next
    case True
    then have ids: "distinct (map intent_client_order_id (rq_intents q))" by (simp add: identities_agree_def)
    have om: "om = map (\<lambda>p. (pos_symbol p, pos_quantity p)) (rq_broker_positions q)"
      using True position_map_Inr(2) [OF c2] by (simp add: identities_agree_def)
    have du: "du = orders_by_id (rq_durable_orders q)" using True order_map_Inr(2) [OF c5] by (simp add: identities_agree_def)
    have ob: "ob = orders_by_id (rq_broker_orders q)" using True order_map_Inr(2) [OF c8] by (simp add: identities_agree_def)
    have im: "?im = intents_by_id (rq_intents q)" by (rule intent_map_distinct [OF ids])
    have e: "d1 = []" "d2 = []" "d5 = []" "d8 = []"
      using True identity_checks_empty [OF c1] position_map_Inr(1) [OF c2] order_map_Inr(1) [OF c5] order_map_Inr(1) [OF c8]
      by (auto simp: identities_agree_def)
    have "d11 = [] \<longleftrightarrow> (\<forall>x \<in> set (rq_durable_orders q). order_agrees q x)"
      using c11 unfolding im du ob map_map comp_def
      by (rule concatE_map_empty) (rule order_check_empty [OF _ ids])
    then show ?thesis
      using True e st position_checks_empty [OF c3] flat_checks_empty [OF c4 [unfolded om]]
        short_checks_empty [OF c6 [unfolded em]] intent_checks_empty [OF c7]
        open_order_checks_empty [OF c9 [unfolded im du] ids] unknown_order_checks_empty [OF c10 [unfolded im ob]]
        account_checks_empty [OF c12]
      unfolding agrees_def rr flat_agrees_def shorts_agree_def orders_agree_def quantity_in_def em om im du
      by auto
  qed
qed

section \<open>Positions from fills\<close>

text \<open>The fills that count: the first of every broker execution.\<close>

fun first_fills :: "string list \<Rightarrow> Fill list \<Rightarrow> Fill list" where
  "first_fills seen [] = []"
| "first_fills seen (f # fs) =
     (if fill_broker_execution_id f \<in> set seen then first_fills seen fs
      else f # first_fills (fill_broker_execution_id f # seen) fs)"

definition fill_move :: "Fill \<Rightarrow> rat" where
  "fill_move f = signed_effect (fill_side f) (fill_quantity f)"

lemma fill_delta_grid:
  assumes "on_grid (fill_quantity f)"
  shows "dval (fill_delta f) = fill_move f" and "on_grid (fill_delta f)"
  using assms grid_dneg by (cases "fill_side f"; simp add: fill_delta_def fill_move_def)+

lemma apply_fills_sum:
  assumes "on_grid (dict_get d s dzero)" and "\<forall>f \<in> set fs. fill_symbol f = s \<longrightarrow> on_grid (fill_quantity f)"
    and "\<bar>dval (dict_get d s dzero)\<bar> + sum_list (map (\<lambda>f. \<bar>dval (fill_quantity f)\<bar>) (filter (\<lambda>f. fill_symbol f = s) fs)) < 10 ^ 22"
  shows "dval (dict_get (apply_fills fs seen d) s dzero) =
    dval (dict_get d s dzero) + sum_list (map fill_move (filter (\<lambda>f. fill_symbol f = s) (first_fills seen fs)))"
  using assms
proof (induction fs arbitrary: seen d)
  case Nil
  then show ?case by simp
next
  case (Cons f fs)
  let ?rest = "sum_list (map (\<lambda>f. \<bar>dval (fill_quantity f)\<bar>) (filter (\<lambda>f. fill_symbol f = s) fs))"
  have nonneg: "0 \<le> ?rest" by (rule sum_list_nonneg) auto
  show ?case
  proof (cases "fill_broker_execution_id f \<in> set seen")
    case True
    have "\<bar>dval (dict_get d s dzero)\<bar> + ?rest < 10 ^ 22" using Cons.prems(3) by (auto split: if_splits)
    with Cons.IH [of d seen] Cons.prems(1,2) True show ?thesis by simp
  next
    case False
    let ?d = "AList.update (fill_symbol f) (dadd 28 (dict_get d (fill_symbol f) dzero) (fill_delta f)) d"
    show ?thesis
    proof (cases "fill_symbol f = s")
      case True
      have q: "on_grid (fill_quantity f)" using Cons.prems(2) True by simp
      have abs: "\<bar>dval (fill_delta f)\<bar> = \<bar>dval (fill_quantity f)\<bar>"
        using fill_delta_grid(1) [OF q] by (cases "fill_side f") (simp_all add: fill_move_def)
      have b: "\<bar>dval (dict_get d s dzero)\<bar> + \<bar>dval (fill_quantity f)\<bar> + ?rest < 10 ^ 22"
        using Cons.prems(3) True by simp
      have sum: "dval (dadd 28 (dict_get d s dzero) (fill_delta f)) = dval (dict_get d s dzero) + fill_move f"
          "on_grid (dadd 28 (dict_get d s dzero) (fill_delta f))"
        using grid_dadd [OF Cons.prems(1) fill_delta_grid(2) [OF q]] b nonneg abs fill_delta_grid(1) [OF q] by auto
      have get: "dict_get ?d s dzero = dadd 28 (dict_get d s dzero) (fill_delta f)" using True by (simp add: dict_get_def)
      have "\<bar>dval (dict_get d s dzero) + fill_move f\<bar> + ?rest < 10 ^ 22"
        using b abs fill_delta_grid(1) [OF q] by linarith
      then show ?thesis using Cons.IH [of ?d "fill_broker_execution_id f # seen"] Cons.prems(2) False True sum get by simp
    next
      case other: False
      have get: "dict_get ?d s dzero = dict_get d s dzero" using other by (simp add: dict_get_def)
      then show ?thesis
        using Cons.IH [of ?d "fill_broker_execution_id f # seen"] Cons.prems False other by simp
    qed
  qed
qed

lemma baseline_quantities_Inr:
  "baseline_quantities ps d = Inr d' \<Longrightarrow> d' = d @ map (\<lambda>p. (pos_symbol p, pos_quantity p)) ps"
  by (induction ps arbitrary: d) (fastforce simp: update_nonkey split: if_splits)+

lemma positions_of_quantity:
  assumes "positions_of d = Inr ps" and "distinct (map fst d)"
  shows "dval (quantity_in ps s) = dval (dict_get d s dzero)"
proof -
  let ?nz = "filter (\<lambda>(s, v). \<not> deq v dzero) (sort_key fst d)"
  have "map (\<lambda>p. (pos_symbol p, pos_quantity p)) ps = ?nz"
    using assms(1) by (auto simp: positions_of_Inr comp_def case_prod_unfold)
  then have q: "quantity_in ps s = dict_get ?nz s dzero" by (simp add: quantity_in_def)
  have dn: "distinct (map fst ?nz)" using distinct_sort_filter_keys [OF assms(2)] .
  have key: "map_of ?nz s = Some v \<longleftrightarrow> (s, v) \<in> set d \<and> \<not> deq v dzero" for v
    using map_of_eq_Some_iff [OF dn] by auto
  show ?thesis
  proof (cases "map_of d s")
    case None
    then have "\<nexists>v. map_of ?nz s = Some v" using key by (auto simp: map_of_eq_None_iff image_iff)
    then have "map_of ?nz s = None" by (cases "map_of ?nz s") auto
    then show ?thesis using None q by (simp add: dict_get_def)
  next
    case (Some v)
    then have mem: "(s, v) \<in> set d" by (rule map_of_SomeD)
    show ?thesis
    proof (cases "deq v dzero")
      case True
      have "w = v" if "(s, w) \<in> set d" for w using that mem assms(2) by (meson eq_key_imp_eq_value)
      then have "\<nexists>w. map_of ?nz s = Some w" using key True by auto
      then have "map_of ?nz s = None" by (cases "map_of ?nz s") auto
      then show ?thesis using Some True q by (simp add: dict_get_def deq_iff)
    next
      case False
      then have "map_of ?nz s = Some v" using key mem by auto
      then show ?thesis using Some q by (simp add: dict_get_def)
    qed
  qed
qed

text \<open>
  C28. Positions are rebuilt exactly: for quantities on the grid whose magnitudes add up to less
  than 10^22, the reconstructed position of a symbol is the baseline plus the signed sum of its
  fills, each broker execution counted once.
\<close>

theorem reconstruct_exact:
  assumes "reconstruct_signed_positions bs fs = Inr ps" and "on_grid (quantity_in bs s)"
    and "\<forall>f \<in> set fs. fill_symbol f = s \<longrightarrow> on_grid (fill_quantity f)"
    and "\<bar>dval (quantity_in bs s)\<bar> + sum_list (map (\<lambda>f. \<bar>dval (fill_quantity f)\<bar>) (filter (\<lambda>f. fill_symbol f = s) fs)) < 10 ^ 22"
  shows "dval (quantity_in ps s) =
    dval (quantity_in bs s) + sum_list (map fill_move (filter (\<lambda>f. fill_symbol f = s) (first_fills [] fs)))"
proof -
  obtain d where d: "baseline_quantities bs [] = Inr d" and ps: "positions_of (apply_fills fs [] d) = Inr ps"
    using assms(1) by (auto simp: reconstruct_signed_positions_def)
  have b: "quantity_in bs s = dict_get d s dzero" using baseline_quantities_Inr [OF d] by (simp add: quantity_in_def)
  have "distinct (map fst (apply_fills fs [] d))" using distinct_baseline [OF d] by (simp add: distinct_apply_fills)
  from positions_of_quantity [OF ps this, of s] apply_fills_sum [of d s fs "[]"] assms(2-4)
  show ?thesis by (simp add: b)
qed

lemma apply_fills_seen:
  "\<forall>g \<in> set gs. fill_broker_execution_id g \<in> set seen \<Longrightarrow> apply_fills gs seen d = d"
  by (induction gs) auto

text \<open>
  Replayed executions change nothing: reports whose broker executions are among those
  already counted leave the reconstructed positions as they are.
\<close>

lemma reconstruct_replay_idempotent:
  assumes "fill_broker_execution_id ` set gs \<subseteq> fill_broker_execution_id ` set fs"
  shows "reconstruct_signed_positions bs (fs @ gs) = reconstruct_signed_positions bs fs"
proof -
  have "fill_broker_execution_id ` set gs \<subseteq> set seen \<union> fill_broker_execution_id ` set fs \<Longrightarrow>
    apply_fills (fs @ gs) seen d = apply_fills fs seen d" for seen d
  proof (induction fs arbitrary: seen d)
    case Nil
    then show ?case by (simp add: apply_fills_seen image_subset_iff)
  next
    case (Cons f fs)
    then show ?case by (auto simp: insert_absorb)
  qed
  then show ?thesis using assms by (simp add: reconstruct_signed_positions_def)
qed

text \<open>
  C9. A receipt is clean exactly if the ledger and the broker agree: no live endpoint, no
  duplicated identity, every position equal up to a millionth with the same sign and none
  outside the active symbols, every short traceable, no missing, unknown, ambiguous or diverging
  order, a proven flat book where one is required, and account, cash and equity as expected.
\<close>

theorem clean_receipt_iff_agreement:
  assumes "reconcile sha q = Inr r"
  shows "rc_status r = CLEAN \<longleftrightarrow> agrees sha q (rc_expected_positions r)"
  using assms by (rule clean_iff_agrees)

text \<open>
  C27. Blocking controls are complete: what is handed to the repository is either a clean receipt
  with no control, or a blocking receipt with a valid incident of the same experiment and with
  an event that engages the reconciliation latch, unless that latch is engaged already.
\<close>

theorem blocking_receipt_controls:
  assumes "reconcile_and_persist sha record_bundle repo q st = Inr (repo', x)"
  shows "record_bundle (out_receipt x) q (out_latch_event x) (out_incident x) repo = Inr repo' \<and>
    validate_receipt sha (out_receipt x) = Inr (out_receipt x) \<and>
    (case rc_status (out_receipt x) of
       CLEAN \<Rightarrow> out_latch_event x = None \<and> out_incident x = None
     | BLOCKING \<Rightarrow> (\<exists>i. out_incident x = Some i \<and> validate_incident sha i = Inr i \<and>
           inc_experiment_hash i = rq_experiment_hash q) \<and>
         (case out_latch_event x of
            None \<Rightarrow> latch_is_active st RECONCILIATION
          | Some e \<Rightarrow> ev_latch_type e = RECONCILIATION \<and> ev_action e = ENGAGED \<and> ev_sequence e = next_sequence st RECONCILIATION))"
proof -
  obtain r where r: "reconcile sha q = Inr r" and out: "out_receipt x = r"
    and rec: "record_bundle r q (out_latch_event x) (out_incident x) repo = Inr repo'"
    using assms by (auto simp: reconcile_and_persist_def)
  obtain s where s: "create_receipt sha s = Inr r" using r by (auto simp: reconcile_def Let_def split: prod.splits)
  have st: "rc_status r = CLEAN \<longleftrightarrow> rc_discrepancies r = []"
    using create_receipt_Inr(2,3) [OF s] by (metis status_of_def ReconciliationStatus.distinct(1) length_0_conv length_sort)
  show ?thesis
  proof (cases "rc_discrepancies r = []")
    case True
    then have "out_latch_event x = None" "out_incident x = None" using assms r by (auto simp: reconcile_and_persist_def)
    then show ?thesis using True st create_receipt_Inr(1) [OF s] rec out by simp
  next
    case False
    then have b: "rc_status r = BLOCKING" using st by (cases "rc_status r") auto
    obtain i where i: "out_incident x = Some i" "validate_incident sha i = Inr i" "inc_experiment_hash i = rq_experiment_hash q"
      using assms r False by (auto simp: reconcile_and_persist_def dest!: create_incident_Inr)
    have e: "case out_latch_event x of None \<Rightarrow> latch_is_active st RECONCILIATION
        | Some e \<Rightarrow> ev_latch_type e = RECONCILIATION \<and> ev_action e = ENGAGED \<and> ev_sequence e = next_sequence st RECONCILIATION"
    proof (cases "latch_is_active st RECONCILIATION")
      case True
      then have "out_latch_event x = None" using assms r by (auto simp: reconcile_and_persist_def)
      then show ?thesis using True by simp
    next
      case inactive: False
      then obtain e rq where "out_latch_event x = Some e" "create_latch_engagement sha st RECONCILIATION rq = Inr e"
        using assms r False by (auto simp: reconcile_and_persist_def)
      then show ?thesis using appends_event [OF appends.engage] inactive by fastforce
    qed
    show ?thesis using b i e create_receipt_Inr(1) [OF s] rec out by simp
  qed
qed


section \<open>A concrete reconciliation\<close>

definition sample_fill :: Fill where
  "sample_fill = \<lparr>fill_id = ''fill_'' @ sample_hash, fill_client_order_id = ''aqa-00000-00000-SPY-x-00-1-000000'',
     fill_broker_execution_id = ''exec-1'', fill_symbol = ''SPY'', fill_side = SELL, fill_quantity = Dec 4 0,
     fill_price = Dec 100 0, fill_fee = Dec 1 0, fill_occurred_at = 1500000, fill_content_hash = sample_hash\<rparr>"

definition sample_reconciliation :: "decimal \<Rightarrow> ReconciliationRequest" where
  "sample_reconciliation broker_cash = \<lparr>rq_experiment_hash = sample_hash, rq_slot_id = None, rq_execution_plan_id = None,
     rq_request_correlation_id = ''correlation_'' @ sample_hash, rq_active_symbols = [''SPY''], rq_short_eligible_symbols = [],
     rq_baseline_positions = [\<lparr>pos_symbol = ''SPY'', pos_quantity = Dec 10 0\<rparr>], rq_baseline_cash = Dec 1000 0,
     rq_fills = [sample_fill], rq_order_fills = [sample_fill], rq_intents = [], rq_durable_orders = [],
     rq_broker_orders = [], rq_broker_positions = [\<lparr>pos_symbol = ''SPY'', pos_quantity = Dec 6 0\<rparr>],
     rq_broker_account = \<lparr>account_id = ''PA1'', account_cash = broker_cash, account_equity = Dec 1999 0,
       account_buying_power = Dec 1399 0, account_restricted_short_proceeds = Dec 0 0, account_observed_at = 2000000\<rparr>,
     rq_expected_account_id_hash = sample_hash, rq_mark_prices = [(''SPY'', Dec 100 0)],
     rq_started_at = 1900000, rq_completed_at = 2100000, rq_live_endpoint_detected = False,
     rq_paper_false_detected = False, rq_require_flat = False, rq_required_flat_at = None\<rparr>"

lemma sample_reconciliation_clean:
  "case reconcile (\<lambda>_. sample_hash) (sample_reconciliation (Dec 1399 0)) of Inl _ \<Rightarrow> False
   | Inr r \<Rightarrow> rc_status r = CLEAN \<and> rc_expected_positions r = [\<lparr>pos_symbol = ''SPY'', pos_quantity = Dec 6 0\<rparr>]"
  by code_simp

definition sample_mismatch :: ReconciliationDiscrepancy where
  "sample_mismatch = \<lparr>dc_code = CASH_MISMATCH, dc_symbol = None, dc_client_order_id = None,
     dc_expected = Some (Dec 1399 0), dc_observed = Some (Dec 1300 0)\<rparr>"

abbreviation sample_blocking :: ReconciliationRequest where
  "sample_blocking \<equiv> sample_reconciliation (Dec 1300 0)"

abbreviation sample_sha :: sha256 where
  "sample_sha \<equiv> \<lambda>_. sample_hash"

lemma sample_checks:
  "identity_checks sample_blocking = Inr []"
  "reconstruct_signed_positions (rq_baseline_positions sample_blocking) (rq_fills sample_blocking) =
     Inr [\<lparr>pos_symbol = ''SPY'', pos_quantity = Dec 6 0\<rparr>]"
  "position_map (rq_broker_positions sample_blocking) = Inr ([(''SPY'', Dec 6 0)], [])"
  "position_dict [\<lparr>pos_symbol = ''SPY'', pos_quantity = Dec 6 0\<rparr>] = [(''SPY'', Dec 6 0)]"
  "concatE (map (position_check sample_blocking [(''SPY'', Dec 6 0)] [(''SPY'', Dec 6 0)])
     (sorted_set (dict_keys [(''SPY'', Dec 6 0)] @ dict_keys [(''SPY'', Dec 6 0)]))) = Inr []"
  "flat_checks sample_blocking [(''SPY'', Dec 6 0)] = Inr []"
  "intent_map (rq_intents sample_blocking) = []"
  "order_map (rq_durable_orders sample_blocking) = Inr ([], [])"
  "short_checks (traceable_short_inventory [] [] (rq_order_fills sample_blocking)) [(''SPY'', Dec 6 0)] [(''SPY'', Dec 6 0)] = Inr []"
  "intent_checks sample_blocking = Inr []"
  "order_map (rq_broker_orders sample_blocking) = Inr ([], [])"
  "open_order_checks sample_blocking [] [] = Inr []"
  "unknown_order_checks [] [] = Inr []"
  "account_checks sample_sha sample_blocking [(''SPY'', Dec 6 0)] = Inr [sample_mismatch]"
  "account_id_hash sample_sha (rq_broker_account sample_blocking) = Inr sample_hash"
  "positions_of [(''SPY'', Dec 6 0)] = Inr [\<lparr>pos_symbol = ''SPY'', pos_quantity = Dec 6 0\<rparr>]"
  by code_simp+

lemma sample_blocking_evaluates:
  "case reconcile sample_sha sample_blocking of Inl _ \<Rightarrow> False
   | Inr r \<Rightarrow> rc_discrepancies r = [sample_mismatch] \<and> rc_content_hash r = sample_hash \<and> rc_status r = BLOCKING"
proof -
  have "reconcile sample_sha sample_blocking = create_receipt sample_sha (receipt_of sample_blocking sample_hash
      [\<lparr>pos_symbol = ''SPY'', pos_quantity = Dec 6 0\<rparr>] [\<lparr>pos_symbol = ''SPY'', pos_quantity = Dec 6 0\<rparr>] [sample_mismatch])"
    unfolding reconcile_def sample_checks bindE.simps Let_def prod.case list.map concatE.simps by simp
  moreover have "case create_receipt sample_sha (receipt_of sample_blocking sample_hash
      [\<lparr>pos_symbol = ''SPY'', pos_quantity = Dec 6 0\<rparr>] [\<lparr>pos_symbol = ''SPY'', pos_quantity = Dec 6 0\<rparr>] [sample_mismatch]) of
      Inl _ \<Rightarrow> False | Inr r \<Rightarrow> rc_discrepancies r = [sample_mismatch] \<and> rc_content_hash r = sample_hash \<and> rc_status r = BLOCKING" by code_simp
  ultimately show ?thesis by simp
qed

definition sample_engage :: latch_request where
  "sample_engage = \<lparr>rq_reason_code = ''reconciliation_blocking'', rq_actor = ''execution_worker'',
     rq_occurred_at = 2100000, rq_correlation_id = ''correlation_'' @ sample_hash,
     rq_idempotency_key = ''reconciliation_'' @ take 32 sample_hash\<rparr>"

definition sample_incident :: Incident where
  "sample_incident = \<lparr>incident_id = '''', inc_idempotency_key = ''reconciliation:'' @ take 32 sample_hash,
     inc_experiment_hash = sample_hash, inc_correlation_id = ''correlation_'' @ sample_hash,
     inc_reason_code = ''reconciliation_blocking'', inc_opened_at = 2100000, inc_content_hash = ''''\<rparr>"

lemma sample_controls:
  "case bindE (empty_latch_state sample_sha sample_hash) (\<lambda>st.
     create_latch_engagement sample_sha st RECONCILIATION sample_engage) of Inl _ \<Rightarrow> False | Inr _ \<Rightarrow> True"
  "case create_incident sample_sha sample_incident of Inl _ \<Rightarrow> False | Inr _ \<Rightarrow> True"
  by code_simp+

theorem reconstruct_exact_witness:
  "\<exists>ps. reconstruct_signed_positions [\<lparr>pos_symbol = ''SPY'', pos_quantity = Dec 10 0\<rparr>] [sample_fill, sample_fill] = Inr ps \<and>
     dval (quantity_in ps ''SPY'') = 6"
proof -
  let ?b = "[\<lparr>pos_symbol = ''SPY'', pos_quantity = Dec 10 0\<rparr>]"
  have ps: "reconstruct_signed_positions ?b [sample_fill, sample_fill] = Inr [\<lparr>pos_symbol = ''SPY'', pos_quantity = Dec 6 0\<rparr>]"
    by code_simp
  have g: "on_grid (quantity_in ?b ''SPY'')" "on_grid (fill_quantity sample_fill)" by code_simp+
  have b: "quantity_in ?b ''SPY'' = Dec 10 0" by code_simp
  have f: "filter (\<lambda>f. fill_symbol f = ''SPY'') (first_fills [] [sample_fill, sample_fill]) = [sample_fill]"
    by (simp add: sample_fill_def)
  have m: "fill_move sample_fill = - 4" "dval (fill_quantity sample_fill) = 4" by (simp_all add: fill_move_def sample_fill_def)
  have "dval (quantity_in [\<lparr>pos_symbol = ''SPY'', pos_quantity = Dec 6 0\<rparr>] ''SPY'') = 6"
    using reconstruct_exact [OF ps g(1)] g(2) b f m by (simp del: first_fills.simps)
  then show ?thesis using ps by blast
qed

theorem clean_receipt_iff_agreement_witness:
  "agrees sample_sha (sample_reconciliation (Dec 1399 0)) [\<lparr>pos_symbol = ''SPY'', pos_quantity = Dec 6 0\<rparr>]"
proof -
  obtain r where r: "reconcile sample_sha (sample_reconciliation (Dec 1399 0)) = Inr r"
    and c: "rc_status r = CLEAN" "rc_expected_positions r = [\<lparr>pos_symbol = ''SPY'', pos_quantity = Dec 6 0\<rparr>]"
    using res_evaluates [OF sample_reconciliation_clean] by (elim exE conjE) (rule that)
  from clean_receipt_iff_agreement [OF r] c show ?thesis by simp
qed

theorem blocking_receipt_controls_witness:
  "\<exists>st r e i. reconcile_and_persist sample_sha (\<lambda>r q e i repo. Inr (r # repo)) [] sample_blocking st =
       Inr ([r], \<lparr>out_receipt = r, out_latch_event = Some e, out_incident = Some i\<rparr>) \<and>
     rc_status r = BLOCKING \<and> validate_incident sample_sha i = Inr i \<and> ev_action e = ENGAGED"
proof -
  obtain r where r: "reconcile sample_sha sample_blocking = Inr r" and d: "rc_discrepancies r = [sample_mismatch]"
    and h: "rc_content_hash r = sample_hash" and b: "rc_status r = BLOCKING"
    using res_evaluates [OF sample_blocking_evaluates] by (elim exE conjE) (rule that)
  obtain y where y: "bindE (empty_latch_state sample_sha sample_hash) (\<lambda>st.
     create_latch_engagement sample_sha st RECONCILIATION sample_engage) = Inr y"
    using res_evaluates [OF sample_controls(1)] by (elim exE conjE) (rule that)
  then obtain st where e: "create_latch_engagement sample_sha st RECONCILIATION sample_engage = Inr y"
    unfolding bindE_Inr_iff by (elim exE conjE) (rule that)
  obtain i where i: "create_incident sample_sha sample_incident = Inr i"
    using res_evaluates [OF sample_controls(2)] by (elim exE conjE) (rule that)
  have inactive: "\<not> latch_is_active st RECONCILIATION" using e by (simp add: create_latch_engagement_def)
  have q: "rq_completed_at sample_blocking = 2100000" "rq_request_correlation_id sample_blocking = ''correlation_'' @ sample_hash"
      "rq_experiment_hash sample_blocking = sample_hash" by (simp_all add: sample_reconciliation_def)
  have run: "reconcile_and_persist sample_sha (\<lambda>r q e i repo. Inr (r # repo)) [] sample_blocking st =
      Inr ([r], \<lparr>out_receipt = r, out_latch_event = Some y, out_incident = Some i\<rparr>)"
    unfolding reconcile_and_persist_def r bindE.simps d h q
    using inactive e [unfolded sample_engage_def] i [unfolded sample_incident_def] by simp
  from blocking_receipt_controls [OF run] b
  have "validate_incident sample_sha i = Inr i" "ev_action y = ENGAGED" by simp_all
  with run b show ?thesis by (intro exI conjI)
qed

end
