(* ===== verification/Json_Text.thy ===== *)
theory Json_Text
  imports Canonical
begin

text \<open>
  The decoder the audit boundary uses beside the canonical encoder: \<open>json.loads\<close> on text, with
  its white space, escapes, surrogate pairs and last-wins treatment of repeated keys
  (\<open>domain._prepare_audit_payload\<close>, \<open>domain._validate_stored_audit_payload\<close> and the properties
  \<open>AuditPayload.value\<close>, \<open>AuditEvent.payload\<close>). Text is UTF-8, as in the encoder. A number with a
  fraction or an exponent and a lone surrogate have no value here and are refused like malformed
  text: the audit contract that follows the decoder refuses both in any case.

  The theory ends with the round trip: decoding what the encoder wrote gives the value back, so
  the canonical bytes, and with them every content hash, determine the hashed value.
\<close>

section \<open>Strings\<close>

definition hex_value :: "char \<Rightarrow> nat option" where
  "hex_value c =
     (let n = of_char c :: nat in
      if 48 \<le> n \<and> n \<le> 57 then Some (n - 48)
      else if 97 \<le> n \<and> n \<le> 102 then Some (n - 87)
      else if 65 \<le> n \<and> n \<le> 70 then Some (n - 55)
      else None)"

definition hex4 :: "char \<Rightarrow> char \<Rightarrow> char \<Rightarrow> char \<Rightarrow> nat option" where
  "hex4 a b c d =
     (case (hex_value a, hex_value b, hex_value c, hex_value d) of
        (Some w, Some x, Some y, Some z) \<Rightarrow> Some (4096 * w + 256 * x + 16 * y + z)
      | _ \<Rightarrow> None)"

definition utf8 :: "nat \<Rightarrow> string" where
  "utf8 n =
     (if n < 128 then [char_of n]
      else if n < 2048 then [char_of (192 + n div 64), char_of (128 + n mod 64)]
      else if n < 65536 then
        [char_of (224 + n div 4096), char_of (128 + n div 64 mod 64), char_of (128 + n mod 64)]
      else [char_of (240 + n div 262144), char_of (128 + n div 4096 mod 64),
        char_of (128 + n div 64 mod 64), char_of (128 + n mod 64)])"

definition simple_escape :: "char \<Rightarrow> char option" where
  "simple_escape c =
     (if c = CHR 0x22 \<or> c = CHR 0x5C \<or> c = CHR ''/'' then Some c
      else if c = CHR ''b'' then Some (CHR 0x08)
      else if c = CHR ''f'' then Some (CHR 0x0C)
      else if c = CHR ''n'' then Some (CHR 0x0A)
      else if c = CHR ''r'' then Some (CHR 0x0D)
      else if c = CHR ''t'' then Some (CHR 0x09)
      else None)"

text \<open>The characters after the opening quote, up to the closing one, and the text behind it.\<close>

fun scan_string :: "string \<Rightarrow> (string \<times> string) option" where
  "scan_string [] = None"
| "scan_string (c # s) =
     (if c = CHR 0x22 then Some ([], s)
      else if c = CHR 0x5C then
        (case s of
           [] \<Rightarrow> None
         | e # s \<Rightarrow>
             (case simple_escape e of
                Some x \<Rightarrow> map_option (\<lambda>(t, r). (x # t, r)) (scan_string s)
              | None \<Rightarrow>
                  (if e \<noteq> CHR ''u'' then None
                   else case s of
                     h1 # h2 # h3 # h4 # s \<Rightarrow>
                       (case hex4 h1 h2 h3 h4 of
                          None \<Rightarrow> None
                        | Some n \<Rightarrow>
                            (if n < 0xD800 \<or> 0xE000 \<le> n
                             then map_option (\<lambda>(t, r). (utf8 n @ t, r)) (scan_string s)
                             else if 0xDC00 \<le> n then None
                             else case s of
                               b # u # k1 # k2 # k3 # k4 # s \<Rightarrow>
                                 (case hex4 k1 k2 k3 k4 of
                                    None \<Rightarrow> None
                                  | Some m \<Rightarrow>
                                      (if b = CHR 0x5C \<and> u = CHR ''u'' \<and> 0xDC00 \<le> m \<and> m < 0xE000
                                       then map_option (\<lambda>(t, r).
                                         (utf8 (0x10000 + (n - 0xD800) * 1024 + (m - 0xDC00)) @ t, r))
                                         (scan_string s)
                                       else None))
                             | _ \<Rightarrow> None))
                   | _ \<Rightarrow> None)))
      else if (of_char c :: nat) < 32 then None
      else map_option (\<lambda>(t, r). (c # t, r)) (scan_string s))"

section \<open>Numbers\<close>

text \<open>The integer literals \<open>int()\<close> converts: at most \<open>sys.int_info.default_max_str_digits\<close> digits.\<close>

definition MAX_STR_DIGITS :: nat where "MAX_STR_DIGITS = 4300"

definition float_tail :: "string \<Rightarrow> bool" where
  "float_tail r =
     (case r of
        c # d # r' \<Rightarrow>
          (c = CHR ''.'' \<and> is_digit d) \<or>
          (c \<in> {CHR ''e'', CHR ''E''} \<and>
             (is_digit d \<or> (d \<in> {CHR ''+'', CHR ''-''} \<and> (case r' of x # _ \<Rightarrow> is_digit x | [] \<Rightarrow> False))))
      | _ \<Rightarrow> False)"

definition parse_natural :: "string \<Rightarrow> (int \<times> string) option" where
  "parse_natural s =
     (case s of
        [] \<Rightarrow> None
      | c # r \<Rightarrow>
          if \<not> is_digit c then None
          else
            (let ds = (if c = CHR ''0'' then [c] else takeWhile is_digit s);
                 rest = drop (length ds) s in
             if float_tail rest \<or> length ds > MAX_STR_DIGITS then None
             else Some (digits_value ds, rest)))"

definition parse_number :: "string \<Rightarrow> (json \<times> string) option" where
  "parse_number s =
     (case s of
        [] \<Rightarrow> None
      | c # r \<Rightarrow>
          if c = CHR ''-'' then map_option (\<lambda>(n, t). (JInt (- n), t)) (parse_natural r)
          else map_option (\<lambda>(n, t). (JInt n, t)) (parse_natural s))"

section \<open>Values\<close>

definition is_space :: "char \<Rightarrow> bool" where
  "is_space c \<longleftrightarrow> c \<in> {CHR '' '', CHR 0x09, CHR 0x0A, CHR 0x0D}"

definition skip_space :: "string \<Rightarrow> string" where
  "skip_space s = dropWhile is_space s"

fun parse_value :: "nat \<Rightarrow> string \<Rightarrow> (json \<times> string) option"
  and parse_elements :: "nat \<Rightarrow> string \<Rightarrow> (json list \<times> string) option"
  and parse_members :: "nat \<Rightarrow> string \<Rightarrow> ((string \<times> json) list \<times> string) option"
where
  "parse_value 0 s = None"
| "parse_value (Suc n) s =
     (case s of
        [] \<Rightarrow> None
      | c # r \<Rightarrow>
          if c = CHR 0x22 then map_option (\<lambda>(t, r). (JStr t, r)) (scan_string r)
          else if c = CHR ''{'' then
            (if starts_with ''}'' (skip_space r) then Some (JObj [], drop 1 (skip_space r))
             else map_option (\<lambda>(kvs, r). (JObj (dict_of_pairs kvs), r)) (parse_members n (skip_space r)))
          else if c = CHR ''['' then
            (if starts_with '']'' (skip_space r) then Some (JList [], drop 1 (skip_space r))
             else map_option (\<lambda>(js, r). (JList js, r)) (parse_elements n (skip_space r)))
          else if starts_with ''null'' s then Some (JNull, drop 4 s)
          else if starts_with ''true'' s then Some (JBool True, drop 4 s)
          else if starts_with ''false'' s then Some (JBool False, drop 5 s)
          else parse_number s)"
| "parse_elements 0 s = None"
| "parse_elements (Suc n) s =
     (case parse_value n s of
        None \<Rightarrow> None
      | Some (j, r) \<Rightarrow>
          (case skip_space r of
             [] \<Rightarrow> None
           | c # r \<Rightarrow>
               if c = CHR '','' then map_option (\<lambda>(js, t). (j # js, t)) (parse_elements n (skip_space r))
               else if c = CHR '']'' then Some ([j], r)
               else None))"
| "parse_members 0 s = None"
| "parse_members (Suc n) s =
     (case s of
        [] \<Rightarrow> None
      | q # s \<Rightarrow>
          if q \<noteq> CHR 0x22 then None
          else
            (case scan_string s of
               None \<Rightarrow> None
             | Some (k, r) \<Rightarrow>
                 (if \<not> starts_with '':'' (skip_space r) then None
                  else case parse_value n (skip_space (drop 1 (skip_space r))) of
                    None \<Rightarrow> None
                  | Some (j, r) \<Rightarrow>
                      (case skip_space r of
                         [] \<Rightarrow> None
                       | c # r \<Rightarrow>
                           if c = CHR '','' then
                             map_option (\<lambda>(kvs, t). ((k, j) # kvs, t)) (parse_members n (skip_space r))
                           else if c = CHR ''}'' then Some ([(k, j)], r)
                           else None))))"

declare parse_value.simps(2) [simp del] parse_elements.simps(2) [simp del] parse_members.simps(2) [simp del]

text \<open>
  Every second nested call consumes a character, so twice the length of the text is fuel enough:
  a call that finds none left has no text either.
\<close>

definition loads :: "string \<Rightarrow> json option" where
  "loads s =
     (case parse_value (2 * length s + 2) (skip_space s) of
        Some (j, r) \<Rightarrow> if skip_space r = [] then Some j else None
      | None \<Rightarrow> None)"

section \<open>The round trip\<close>

lemma hex_value_hex_char: "k < 16 \<Longrightarrow> hex_value (hex_char k) = Some k"
  by (auto simp: hex_value_def hex_char_def Let_def of_char_of)

lemma hex4_control:
  assumes "(of_char c :: nat) < 32"
  shows "hex4 (CHR ''0'') (CHR ''0'') (hex_char (of_char c div 16)) (hex_char (of_char c mod 16)) = Some (of_char c)"
proof -
  have "hex_value (CHR ''0'') = Some 0" by code_simp
  then show ?thesis using assms by (simp add: hex4_def hex_value_hex_char)
qed

lemma scan_string_escape:
  "scan_string (escape_char c @ s) = map_option (\<lambda>(t, r). (c # t, r)) (scan_string s)"
proof -
  have code: "(of_char c :: nat) = of_char d \<longleftrightarrow> c = d" for d by simp
  consider "c = CHR 0x22" | "c = CHR 0x5C" | "c = CHR 0x0A" | "c = CHR 0x0D" | "c = CHR 0x09" | "c = CHR 0x08"
    | "c = CHR 0x0C" | "(of_char c :: nat) < 32" "c \<notin> {CHR 0x22, CHR 0x5C, CHR 0x0A, CHR 0x0D, CHR 0x09, CHR 0x08, CHR 0x0C}"
    | "32 \<le> (of_char c :: nat)" "c \<notin> {CHR 0x22, CHR 0x5C}" by fastforce
  then show ?thesis
  proof cases
    case 8
    then have "escape_char c = CHR 0x5C # ''u00'' @ [hex_char (of_char c div 16), hex_char (of_char c mod 16)]"
      using code [of "CHR 0x0A"] code [of "CHR 0x0D"] code [of "CHR 0x09"] code [of "CHR 0x08"] code [of "CHR 0x0C"]
      by (simp add: escape_char_def Let_def)
    moreover have "utf8 (of_char c) = [c]" using 8 by (simp add: utf8_def)
    moreover have "simple_escape CHR ''u'' = None" by code_simp
    ultimately show ?thesis using 8 by (simp add: hex4_control)
  next
    case 9
    then have "escape_char c = [c]" by (auto simp: escape_char_def Let_def)
    then show ?thesis using 9 by simp
  qed (simp_all add: escape_char_def simple_escape_def)
qed

lemma scan_string_quoted: "scan_string (concat (map escape_char s) @ CHR 0x22 # r) = Some (s, r)"
  by (induction s) (simp_all add: scan_string_escape)

text \<open>What follows a value inside canonical text.\<close>

definition closed_tail :: "string \<Rightarrow> bool" where
  "closed_tail r \<longleftrightarrow> r = [] \<or> hd r \<in> {CHR '','', CHR '']'', CHR ''}''}"

lemma closed_tail_no_float: "closed_tail r \<Longrightarrow> \<not> float_tail r"
  by (auto simp: closed_tail_def float_tail_def split: list.splits)

lemma closed_tail_no_digit: "closed_tail r \<Longrightarrow> takeWhile is_digit r = []"
  by (cases r) (auto simp: closed_tail_def is_digit_def)

lemma nat_text_head: "0 < n \<Longrightarrow> hd (nat_text n) \<noteq> CHR ''0''"
proof (induction n rule: nat_text.induct)
  case (1 n)
  show ?case
  proof (cases "n < 10")
    case True
    have "digit_char n \<noteq> CHR ''0''"
    proof
      assume "digit_char n = CHR ''0''"
      then have "digit_value (digit_char n) = 0" by (simp add: digit_value_def)
      with True "1.prems" show False by simp
    qed
    with True show ?thesis by (simp add: nat_text.simps [of n])
  next
    case False
    then have "0 < n div 10" by simp
    moreover have "nat_text (n div 10) \<noteq> []" using nat_text_value [of "n div 10"] False by simp
    ultimately show ?thesis using "1.IH" False by (simp add: nat_text.simps [of n])
  qed
qed

lemma parse_natural_text:
  assumes "0 \<le> n" and "closed_tail r" and "length (nat_text n) \<le> MAX_STR_DIGITS"
  shows "parse_natural (nat_text n @ r) = Some (n, r)"
proof -
  note tv = nat_text_value [OF assms(1)]
  then obtain c t where ct: "nat_text n = c # t" by (cases "nat_text n") auto
  have digits: "list_all is_digit (nat_text n)" using tv by (simp add: is_digits_def)
  have "(if c = CHR ''0'' then [c] else takeWhile is_digit (nat_text n @ r)) = nat_text n"
  proof (cases "n = 0")
    case True
    have "nat_text 0 = ''0''" by code_simp
    then show ?thesis using True ct by simp
  next
    case False
    then have "c \<noteq> CHR ''0''" using nat_text_head [of n] assms(1) ct by simp
    moreover have "takeWhile is_digit (nat_text n @ r) = nat_text n"
      using digits closed_tail_no_digit [OF assms(2)] by (simp add: list_all_iff takeWhile_append2)
    ultimately show ?thesis by simp
  qed
  then show ?thesis using tv digits ct assms closed_tail_no_float [OF assms(2)]
    by (cases "c = CHR ''0''") (auto simp: parse_natural_def Let_def)
qed

lemma parse_number_text:
  assumes "closed_tail r" and "MIN_SIGNED_64_BIT_INTEGER \<le> n" and "n \<le> MAX_SIGNED_64_BIT_INTEGER"
  shows "parse_number (int_text n @ r) = Some (JInt n, r)"
proof -
  have "int (length (int_text n)) \<le> 20" using length_int_text assms by blast
  then have len: "length (nat_text \<bar>n\<bar>) \<le> MAX_STR_DIGITS"
    by (auto simp: int_text_def MAX_STR_DIGITS_def abs_if split: if_splits)
  show ?thesis
  proof (cases "n < 0")
    case True
    with len parse_natural_text [of "- n" r] assms(1) show ?thesis
      by (simp add: parse_number_def int_text_def)
  next
    case False
    note tv = nat_text_value [of n]
    obtain c t where ct: "nat_text n = c # t" using tv False by (cases "nat_text n") auto
    have "c \<noteq> CHR ''-''" using tv False ct by (auto simp: is_digits_def is_digit_def)
    with len parse_natural_text [of n r] assms(1) False ct show ?thesis
      by (simp add: parse_number_def int_text_def)
  qed
qed

text \<open>The JSON values the encoder produces.\<close>

fun json_ok :: "json \<Rightarrow> bool" where
  "json_ok (JInt n) \<longleftrightarrow> MIN_SIGNED_64_BIT_INTEGER \<le> n \<and> n \<le> MAX_SIGNED_64_BIT_INTEGER"
| "json_ok (JList js) \<longleftrightarrow> (\<forall>j \<in> set js. json_ok j)"
| "json_ok (JObj kvs) \<longleftrightarrow> distinct (map fst kvs) \<and> (\<forall>(k, j) \<in> set kvs. json_ok j)"
| "json_ok _ \<longleftrightarrow> True"

lemma int_text_head: "\<exists>c t. int_text n = c # t \<and> (is_digit c \<or> c = CHR ''-'')"
proof (cases "n < 0")
  case False
  then show ?thesis using nat_text_value [of n] by (cases "nat_text n") (auto simp: int_text_def is_digits_def)
qed (simp add: int_text_def)

lemma dumps_head: "\<exists>c t. dumps j = c # t \<and> \<not> is_space c \<and> c \<noteq> CHR '']'' \<and> c \<noteq> CHR ''}''"
proof (cases j)
  case (JInt n)
  obtain c t where "int_text n = c # t" "is_digit c \<or> c = CHR ''-''" using int_text_head by blast
  with JInt show ?thesis by (auto simp: is_space_def is_digit_def)
qed (auto simp: quoted_def is_space_def)

lemma skip_space_head: "\<not> is_space c \<Longrightarrow> skip_space (c # s) = c # s"
  by (simp add: skip_space_def)

lemma skip_space_dumps: "skip_space (dumps j @ r) = dumps j @ r"
  using dumps_head [of j] by (auto simp: skip_space_head)

lemmas parse_unfold = parse_value.simps(2) parse_elements.simps(2) parse_members.simps(2)

lemma closed_tailI: "closed_tail (CHR '','' # r)" "closed_tail (CHR '']'' # r)" "closed_tail (CHR ''}'' # r)"
  by (simp_all add: closed_tail_def)

lemma skip_space_sep [simp]:
  "skip_space (CHR '','' # r) = CHR '','' # r" "skip_space (CHR '']'' # r) = CHR '']'' # r"
  "skip_space (CHR ''}'' # r) = CHR ''}'' # r" "skip_space (CHR '':'' # r) = CHR '':'' # r"
  "skip_space (CHR 0x22 # r) = CHR 0x22 # r"
  by (simp_all add: skip_space_head is_space_def)

lemma starts_with_Cons [simp]:
  "starts_with [] s" "starts_with (c # p) (d # s) \<longleftrightarrow> c = d \<and> starts_with p s" "\<not> starts_with (c # p) []"
  by (auto simp: starts_with_def)

definition decodes :: "json \<Rightarrow> bool" where
  "decodes j \<longleftrightarrow> (\<forall>n r. 2 * length (dumps j) < n \<longrightarrow> closed_tail r \<longrightarrow>
     parse_value n (dumps j @ r) = Some (j, r))"

lemma decodesD:
  "decodes j \<Longrightarrow> 2 * length (dumps j) < n \<Longrightarrow> closed_tail r \<Longrightarrow> parse_value n (dumps j @ r) = Some (j, r)"
  by (simp add: decodes_def)

lemma decodesI:
  assumes "\<And>n r. 2 * length (dumps j) \<le> n \<Longrightarrow> closed_tail r \<Longrightarrow> parse_value (Suc n) (dumps j @ r) = Some (j, r)"
  shows "decodes j"
  unfolding decodes_def by (metis assms gr0_implies_Suc le_less_Suc_eq less_Suc_eq_le less_imp_le less_nat_zero_code neq0_conv)

lemma parse_elements_dumps:
  assumes "js \<noteq> []" and "\<forall>j \<in> set js. decodes j" and "2 * length (join '','' (map dumps js)) + 1 < n"
  shows "parse_elements n (join '','' (map dumps js) @ CHR '']'' # r) = Some (js, r)"
  using assms
proof (induction js arbitrary: n)
  case (Cons j js)
  obtain m where m: "n = Suc m" using Cons.prems(3) by (cases n) auto
  show ?case
  proof (cases js)
    case Nil
    then have "parse_value m (dumps j @ CHR '']'' # r) = Some (j, CHR '']'' # r)"
      using Cons.prems m by (intro decodesD closed_tailI) auto
    with Nil show ?thesis by (simp add: m parse_unfold)
  next
    case (Cons j' js')
    let ?rest = "join '','' (map dumps js) @ CHR '']'' # r"
    have "parse_value m (dumps j @ CHR '','' # ?rest) = Some (j, CHR '','' # ?rest)"
      using Cons.prems m Cons by (intro decodesD closed_tailI) auto
    moreover have "parse_elements m ?rest = Some (js, r)"
      using Cons.prems m Cons by (intro Cons.IH) auto
    moreover have "skip_space ?rest = ?rest"
      using Cons skip_space_dumps [of j'] by (cases js') auto
    ultimately show ?thesis by (simp add: m parse_unfold Cons)
  qed
qed simp_all

definition member_text :: "string \<times> json \<Rightarrow> string" where
  "member_text = (\<lambda>(k, j). quoted k @ '':'' @ dumps j)"

lemma parse_members_dumps:
  assumes "kvs \<noteq> []" and "\<forall>(k, j) \<in> set kvs. decodes j" and "2 * length (join '','' (map member_text kvs)) + 1 < n"
  shows "parse_members n (join '','' (map member_text kvs) @ CHR ''}'' # r) = Some (kvs, r)"
  using assms
proof (induction kvs arbitrary: n)
  case (Cons kv kvs)
  obtain k j where kv: "kv = (k, j)" by (cases kv)
  obtain m where m: "n = Suc m" using Cons.prems(3) by (cases n) auto
  have key: "scan_string (concat (map escape_char k) @ CHR 0x22 # s) = Some (k, s)" for s
    by (rule scan_string_quoted)
  show ?case
  proof (cases kvs)
    case Nil
    then have "parse_value m (dumps j @ CHR ''}'' # r) = Some (j, CHR ''}'' # r)"
      using Cons.prems m kv by (intro decodesD closed_tailI) (auto simp: member_text_def)
    with Nil show ?thesis by (simp add: m kv parse_unfold member_text_def quoted_def key skip_space_dumps)
  next
    case (Cons kv' kvs')
    let ?rest = "join '','' (map member_text kvs) @ CHR ''}'' # r"
    have "parse_value m (dumps j @ CHR '','' # ?rest) = Some (j, CHR '','' # ?rest)"
      using Cons.prems m kv Cons by (intro decodesD closed_tailI) (auto simp: member_text_def)
    moreover have "parse_members m ?rest = Some (kvs, r)"
      using Cons.prems m kv Cons by (intro Cons.IH) auto
    moreover have "skip_space ?rest = ?rest"
      using Cons by (cases kvs') (auto simp: member_text_def quoted_def split: prod.splits)
    ultimately show ?thesis using Cons by (simp add: m kv parse_unfold member_text_def quoted_def key skip_space_dumps)
  qed
qed simp_all

lemma dumps_decodes: "json_ok j \<Longrightarrow> decodes j"
proof (induction j)
  case JNull
  show ?case by (rule decodesI) (simp add: parse_unfold)
next
  case (JBool x)
  show ?case by (rule decodesI) (simp add: parse_unfold)
next
  case (JInt n)
  obtain c t where ct: "int_text n = c # t" "is_digit c \<or> c = CHR ''-''" using int_text_head by blast
  then have c: "c \<noteq> CHR 0x22" "c \<noteq> CHR ''{''" "c \<noteq> CHR ''[''" "c \<noteq> CHR ''n''" "c \<noteq> CHR ''t''" "c \<noteq> CHR ''f''"
    by (auto simp: is_digit_def)
  show ?case
  proof (rule decodesI)
    fix m r
    assume "closed_tail r"
    then have "parse_number (int_text n @ r) = Some (JInt n, r)" using parse_number_text JInt by simp
    with ct(1) c show "parse_value (Suc m) (dumps (JInt n) @ r) = Some (JInt n, r)" by (simp add: parse_unfold)
  qed
next
  case (JStr s)
  show ?case by (rule decodesI) (simp add: parse_unfold quoted_def scan_string_quoted)
next
  case (JList js)
  show ?case
  proof (rule decodesI)
    fix m r
    assume m: "2 * length (dumps (JList js)) \<le> m"
    show "parse_value (Suc m) (dumps (JList js) @ r) = Some (JList js, r)"
    proof (cases js)
      case Nil
      then show ?thesis by (simp add: parse_unfold)
    next
      case (Cons j js')
      let ?s = "join '','' (map dumps js) @ CHR '']'' # r"
      have "parse_elements m ?s = Some (js, r)"
        using m JList Cons by (intro parse_elements_dumps) auto
      moreover have "skip_space ?s = ?s" "\<not> starts_with '']'' ?s"
        using Cons skip_space_dumps [of j] dumps_head [of j] by (cases js'; auto)+
      ultimately show ?thesis by (simp add: parse_unfold)
    qed
  qed
next
  case (JObj kvs)
  have members: "map (\<lambda>(k, j). quoted k @ '':'' @ dumps j) kvs = map member_text kvs"
    by (simp add: member_text_def)
  show ?case
  proof (rule decodesI)
    fix m r
    assume m: "2 * length (dumps (JObj kvs)) \<le> m"
    show "parse_value (Suc m) (dumps (JObj kvs) @ r) = Some (JObj kvs, r)"
    proof (cases kvs)
      case Nil
      then show ?thesis by (simp add: parse_unfold)
    next
      case (Cons kv kvs')
      let ?s = "join '','' (map member_text kvs) @ CHR ''}'' # r"
      have "\<forall>(k, j) \<in> set kvs. decodes j" using JObj by fastforce
      then have "parse_members m ?s = Some (kvs, r)"
        using m Cons unfolding dumps.simps members by (intro parse_members_dumps) auto
      moreover have "skip_space ?s = ?s" "\<not> starts_with ''}'' ?s"
        using Cons by (cases kvs'; auto simp: member_text_def quoted_def split: prod.splits)+
      moreover have "dict_of_pairs kvs = kvs" using JObj by (intro dict_of_pairs_distinct) simp
      ultimately show ?thesis unfolding dumps.simps members by (simp add: parse_unfold)
    qed
  qed
qed

lemma loads_dumps: "json_ok j \<Longrightarrow> loads (dumps j) = Some j"
  using decodesD [OF dumps_decodes, of j "2 * length (dumps j) + 2" "[]"] skip_space_dumps [of j "[]"]
  by (simp add: loads_def closed_tail_def skip_space_def)

text \<open>Values of the encoder: dictionaries have each key once, as Python's do.\<close>

fun pwf :: "pval \<Rightarrow> bool" where
  "pwf (PSeq vs) \<longleftrightarrow> (\<forall>v \<in> set vs. pwf v)"
| "pwf (PMap kvs) \<longleftrightarrow> distinct (map fst kvs) \<and> (\<forall>(k, v) \<in> set kvs. pwf v)"
| "pwf v \<longleftrightarrow> True"

lemma jval_ok: "pfits d v \<Longrightarrow> pwf v \<Longrightarrow> json_ok (jval v)"
proof (induction d v rule: pfits.induct)
  case (6 d kvs)
  have "map fst (map (\<lambda>(k, v). (k, jval v)) kvs) = map fst kvs" by (induction kvs) auto
  then have "mset (map fst (sort_key fst (map (\<lambda>(k, v). (k, jval v)) kvs))) = mset (map fst kvs)"
    by (metis mset_map mset_sort)
  then have "distinct (map fst (sort_key fst (map (\<lambda>(k, v). (k, jval v)) kvs)))"
    using "6.prems" mset_eq_imp_distinct_iff by (metis pwf.simps(2))
  moreover have "json_ok (jval v)" if "(k, v) \<in> set kvs" for k v
    using "6.IH" [of "(k, v)" k v] that "6.prems" by auto
  ultimately show ?case by auto
qed auto

lemma canonical_json_loads: "canonical_json_bytes v = Inr s \<Longrightarrow> pwf v \<Longrightarrow> loads s = Some (jval v)"
  using jval_ok [of 0 v] loads_dumps [of "jval v"] by (auto simp: canonical_json_bytes_iff within_limits_def)

text \<open>
  C33. Canonical bytes determine the value: decoding the canonical bytes of a value with
  \<open>json.loads\<close> gives its normalized JSON value back. Two values with the same canonical bytes have
  therefore the same normalized value, so a content hash can only coincide for different
  normalized values if SHA-256 itself collides.
\<close>

theorem canonical_json_round_trip:
  assumes "canonical_json_bytes v = Inr s" and "pwf v"
  shows "loads s = Some (jval v)"
  using assms by (rule canonical_json_loads)

theorem canonical_json_round_trip_witness:
  "\<exists>s. canonical_json_bytes (PMap [(''b'', PSeq [PInt (- 7), PDec (Dec 150 (- 2))]), (''a'', PStr [CHR 0x22, CHR 0x0A])]) = Inr s \<and>
     loads s = Some (JObj [(''a'', JStr [CHR 0x22, CHR 0x0A]), (''b'', JList [JInt (- 7), JStr ''1.5''])])"
proof -
  let ?v = "PMap [(''b'', PSeq [PInt (- 7), PDec (Dec 150 (- 2))]), (''a'', PStr [CHR 0x22, CHR 0x0A])]"
  have "within_limits ?v" by code_simp
  then have "canonical_json_bytes ?v = Inr (dumps (jval ?v))" by (simp add: canonical_json_bytes_iff)
  moreover have "pwf ?v" by code_simp
  moreover have "jval ?v = JObj [(''a'', JStr [CHR 0x22, CHR 0x0A]), (''b'', JList [JInt (- 7), JStr ''1.5''])]"
    by code_simp
  ultimately show ?thesis using canonical_json_round_trip [of ?v] by metis
qed

section \<open>The fuel is enough\<close>

lemma skip_space_length: "length (skip_space s) \<le> length s"
  by (simp add: skip_space_def length_dropWhile_le)

lemma scan_string_progress: "scan_string s = Some (t, r) \<Longrightarrow> length r < length s"
proof (induction s arbitrary: t r rule: length_induct)
  case (1 s)
  have IH: "length r' < length s" if "scan_string v = Some (t', r')" "length v < length s" for v t' r'
    using "1.IH" that order.strict_trans by blast
  show ?case
  proof (cases s)
    case Nil
    then show ?thesis using "1.prems" by simp
  next
    case (Cons c u)
    then show ?thesis using "1.prems"
      by (simp split: if_split_asm option.split_asm list.split_asm) (auto dest!: IH)
  qed
qed

lemma parse_number_progress: "parse_number s = Some (j, r) \<Longrightarrow> length r < length s"
  by (auto simp: parse_number_def parse_natural_def Let_def split: list.split_asm if_split_asm)

text \<open>A successful parse consumes at least one character.\<close>

lemma parse_progress:
  "parse_value n s = Some (j, r) \<Longrightarrow> length r < length s"
  "parse_elements n s = Some (js, r) \<Longrightarrow> length r < length s"
  "parse_members n s = Some (kvs, r) \<Longrightarrow> length r < length s"
proof (induction n arbitrary: s j r js kvs)
  case (Suc n)
  have skip: "length (skip_space u) \<le> length u" for u by (rule skip_space_length)
  { case 1
    obtain c u where s: "s = c # u" using 1 by (cases s) (simp_all add: parse_unfold)
    have "length r' < length s" if "parse_members n (skip_space u) = Some (kvs', r')" for kvs' r'
      using Suc(3) [OF that] skip [of u] by (simp add: s)
    moreover have "length r' < length s" if "parse_elements n (skip_space u) = Some (js', r')" for js' r'
      using Suc(2) [OF that] skip [of u] by (simp add: s)
    moreover have "length (drop 1 (skip_space u)) < length s" using skip [of u] by (simp add: s)
    moreover have "length r' < length s" if "scan_string u = Some (t, r')" for t r'
      using scan_string_progress [OF that] by (simp add: s)
    moreover have "length r' < length s" if "parse_number (c # u) = Some (j', r')" for j' r'
      using parse_number_progress [OF that] by (simp add: s)
    moreover have "length (drop (Suc k) s) < length s" for k by (simp add: s)
    ultimately show ?case using 1 by (simp only: parse_unfold s list.case split: if_split_asm) (auto simp del: starts_with_Cons)
  next
    case 2
    obtain j u where v: "parse_value n s = Some (j, u)" using 2 by (auto simp: parse_unfold split: option.split_asm)
    have u: "length u < length s" by (rule Suc(1) [OF v])
    obtain c w where w: "skip_space u = c # w" using 2 v by (cases "skip_space u") (auto simp: parse_unfold)
    have w': "length w < length s" using skip [of u] u by (simp add: w)
    have "length r' < length s" if "parse_elements n (skip_space w) = Some (js', r')" for js' r'
      using Suc(2) [OF that] skip [of w] w' by simp
    then show ?case using 2 v w w' by (auto simp: parse_unfold split: if_split_asm)
  next
    case 3
    obtain q u where s: "s = q # u" using 3 by (cases s) (simp_all add: parse_unfold)
    obtain k w where k: "scan_string u = Some (k, w)" using 3 by (auto simp: parse_unfold s split: option.split_asm if_split_asm)
    have w: "length (skip_space (drop 1 (skip_space w))) < length s"
      using scan_string_progress [OF k] skip [of w] skip [of "drop 1 (skip_space w)"] by (simp add: s)
    obtain j x where v: "parse_value n (skip_space (drop 1 (skip_space w))) = Some (j, x)"
      using 3 k by (auto simp: parse_unfold s split: option.split_asm if_split_asm)
    have x: "length x < length s" using Suc(1) [OF v] w by simp
    obtain c y where y: "skip_space x = c # y" using 3 k v by (cases "skip_space x") (auto simp: parse_unfold s split: if_split_asm)
    have y': "length y < length s" using skip [of x] x by (simp add: y)
    have "length r' < length s" if "parse_members n (skip_space y) = Some (kvs', r')" for kvs' r'
      using Suc(3) [OF that] skip [of y] y' by simp
    then show ?case using 3 k v y y' by (auto simp: parse_unfold s split: if_split_asm)
  }
qed simp_all

text \<open>One step more changes nothing once the fuel is more than twice the length of the text.\<close>

lemma parse_more_fuel:
  "2 * length s + 1 \<le> n \<Longrightarrow> parse_value (Suc n) s = parse_value n s"
  "2 * length s + 2 \<le> n \<Longrightarrow> parse_elements (Suc n) s = parse_elements n s"
  "2 * length s + 2 \<le> n \<Longrightarrow> parse_members (Suc n) s = parse_members n s"
proof (induction n arbitrary: s)
  case (Suc n)
  have skip: "length (skip_space u) \<le> length u" for u by (rule skip_space_length)
  { case 1
    show ?case
    proof (cases s)
      case (Cons c u)
      then have "2 * length (skip_space u) + 2 \<le> n" using 1 skip [of u] by simp
      then show ?thesis using Suc(2,3) by (simp add: Cons parse_unfold)
    qed (simp add: parse_unfold)
  next
    case 2
    have v: "parse_value (Suc n) s = parse_value n s" using Suc(1) 2 by simp
    have "parse_elements (Suc n) (skip_space w) = parse_elements n (skip_space w)"
      if "parse_value n s = Some (j, u)" "skip_space u = c # w" for j u c w
    proof -
      have "length (skip_space w) < length s"
        using parse_progress(1) [OF that(1)] skip [of u] skip [of w] that(2) by simp
      then show ?thesis using Suc(2) 2 by simp
    qed
    then show ?case by (subst (1 2) parse_elements.simps(2)) (auto simp: v split: option.split list.split)
  next
    case 3
    show ?case
    proof (cases s)
      case (Cons q u)
      have member: "parse_value (Suc n) (skip_space (drop 1 (skip_space w))) = parse_value n (skip_space (drop 1 (skip_space w)))"
          "length (skip_space (drop 1 (skip_space w))) < length s"
        if "scan_string u = Some (k, w)" for k w
      proof -
        show "length (skip_space (drop 1 (skip_space w))) < length s"
          using scan_string_progress [OF that] skip [of w] skip [of "drop 1 (skip_space w)"] by (simp add: Cons)
        then show "parse_value (Suc n) (skip_space (drop 1 (skip_space w))) = parse_value n (skip_space (drop 1 (skip_space w)))"
          using Suc(1) 3 by simp
      qed
      have "parse_members (Suc n) (skip_space y) = parse_members n (skip_space y)"
        if "scan_string u = Some (k, w)" "parse_value n (skip_space (drop 1 (skip_space w))) = Some (j, x)"
          "skip_space x = c # y" for k w j x c y
      proof -
        have "length (skip_space y) < length s"
          using parse_progress(1) [OF that(2)] member(2) [OF that(1)] skip [of x] skip [of y] that(3) by simp
        then show ?thesis using Suc(3) 3 by simp
      qed
      then show ?thesis unfolding Cons using member(1)
        by (subst (1 2) parse_members.simps(2)) (auto split: option.split list.split)
    qed (simp add: parse_unfold)
  }
qed simp_all

lemma parse_fuel_enough: "2 * length s + 1 \<le> n \<Longrightarrow> parse_value (n + k) s = parse_value n s"
  by (induction k) (simp_all add: parse_more_fuel(1))

text \<open>
  Decoding is total: the fuel of the parser is never what makes it fail. With any amount of
  further fuel the result, value or rejection, is the same.
\<close>

lemma loads_fuel_enough:
  "loads s =
     (case parse_value (2 * length s + 2 + k) (skip_space s) of
        Some (j, r) \<Rightarrow> if skip_space r = [] then Some j else None
      | None \<Rightarrow> None)"
  using skip_space_length [of s] parse_fuel_enough [of "skip_space s" "2 * length s + 2" k] by (simp add: loads_def)

end
