(* ===== verification/Audit_Payloads.thy ===== *)
theory Audit_Payloads
  imports Json_Text
begin

text \<open>
  The closed payload contract of the audit boundary (\<open>domain.AuditPayload\<close> and its helpers): every
  key of a payload selects the kind of value it may hold, keys are lower-case words, and neither a
  key nor a text may look like a secret. The regular expressions are predicates on strings: an
  anchored pattern is a condition on the whole text, a searched one a condition on some suffix.
  Python's \<open>UUID(value)\<close> followed by \<open>str\<close> is the identity on a text of the UUID pattern, which is
  therefore the whole test.
\<close>

abbreviation audit_error :: "string \<Rightarrow> error" where
  "audit_error \<equiv> AuditValidationError"

section \<open>Limits and patterns\<close>

definition MAX_AUDIT_STREAM_ID_LENGTH :: nat where "MAX_AUDIT_STREAM_ID_LENGTH = 128"

definition MAX_AUDIT_EVENT_TYPE_LENGTH :: nat where "MAX_AUDIT_EVENT_TYPE_LENGTH = 64"

definition MAX_AUDIT_PAYLOAD_BYTES :: nat where "MAX_AUDIT_PAYLOAD_BYTES = 65536"

definition MAX_AUDIT_CONTAINER_ITEMS :: nat where "MAX_AUDIT_CONTAINER_ITEMS = 256"

definition is_slug_head :: "char \<Rightarrow> bool" where
  "is_slug_head c \<longleftrightarrow> is_lower c \<or> is_digit c"

definition is_slug_char :: "char \<Rightarrow> bool" where
  "is_slug_char c \<longleftrightarrow> is_lower c \<or> is_digit c \<or> c \<in> set ''_.:/-''"

definition is_word_char :: "char \<Rightarrow> bool" where
  "is_word_char c \<longleftrightarrow> is_lower c \<or> is_digit c \<or> c = CHR ''_''"

definition is_audit_identifier :: "nat \<Rightarrow> string \<Rightarrow> bool" where
  "is_audit_identifier maximum s \<longleftrightarrow> length s \<le> maximum \<and> head_tail is_slug_head is_slug_char maximum s"

definition is_audit_event_type :: "string \<Rightarrow> bool" where
  "is_audit_event_type s \<longleftrightarrow> 2 \<le> length (split_on CHR ''.'' s) \<and>
     list_all (\<lambda>w. head_tail is_lower is_word_char (length s) w) (split_on CHR ''.'' s)"

definition is_resource_ref :: "string \<Rightarrow> bool" where
  "is_resource_ref s \<longleftrightarrow> s \<noteq> [] \<and> list_all is_slug_char s \<and> is_slug_head (hd s) \<and> is_slug_head (last s)"

definition is_audit_slug :: "string \<Rightarrow> bool" where
  "is_audit_slug = head_tail is_slug_head is_slug_char 63"

definition is_audit_payload_key :: "string \<Rightarrow> bool" where
  "is_audit_payload_key = head_tail (\<lambda>c. is_upper c \<or> is_lower c)
     (\<lambda>c. is_upper c \<or> is_lower c \<or> is_digit c \<or> c \<in> set ''_.-'') 63"

definition is_audit_uuid :: "string \<Rightarrow> bool" where
  "is_audit_uuid s \<longleftrightarrow> map length (split_on CHR ''-'' s) = [8, 4, 4, 4, 12] \<and>
     list_all (list_all is_hex) (split_on CHR ''-'' s)"

definition is_audit_natural :: "string \<Rightarrow> bool" where
  "is_audit_natural s \<longleftrightarrow> s = ''0'' \<or> (s \<noteq> [] \<and> list_all is_digit s \<and> hd s \<noteq> CHR ''0'')"

definition is_audit_decimal :: "string \<Rightarrow> bool" where
  "is_audit_decimal s \<longleftrightarrow>
     (let t = (if starts_with ''-'' s then drop 1 s else s) in
      case split_on CHR ''.'' t of
        [a] \<Rightarrow> is_audit_natural a
      | [a, b] \<Rightarrow> is_audit_natural a \<and> b \<noteq> [] \<and> list_all is_digit b
      | _ \<Rightarrow> False)"

definition days_in_month :: "int \<Rightarrow> int \<Rightarrow> int" where
  "days_in_month y m =
     (if m = 2 then (if y mod 4 = 0 \<and> (y mod 100 \<noteq> 0 \<or> y mod 400 = 0) then 29 else 28)
      else if m \<in> {4, 6, 9, 11} then 30 else 31)"

definition is_audit_timestamp :: "string \<Rightarrow> bool" where
  "is_audit_timestamp s \<longleftrightarrow>
     list_all2 (\<lambda>p c. if p = CHR ''d'' then is_digit c else c = p) ''dddd-dd-ddTdd:dd:dd.ddddddZ'' s \<and>
     (let field = (\<lambda>i n. digits_value (take n (drop i s)));
          y = field 0 4; m = field 5 2; d = field 8 2 in
      1 \<le> y \<and> 1 \<le> m \<and> m \<le> 12 \<and> 1 \<le> d \<and> d \<le> days_in_month y m \<and>
      field 11 2 < 24 \<and> field 14 2 < 60 \<and> field 17 2 < 60)"

section \<open>Secret-like text\<close>

definition is_white :: "char \<Rightarrow> bool" where
  "is_white c \<longleftrightarrow> c \<in> {CHR '' '', CHR 0x09, CHR 0x0A, CHR 0x0B, CHR 0x0C, CHR 0x0D}"

fun suffixes_of :: "'a list \<Rightarrow> 'a list list" where
  "suffixes_of [] = [[]]"
| "suffixes_of (x # xs) = (x # xs) # suffixes_of xs"

definition search :: "(string \<Rightarrow> bool) \<Rightarrow> string \<Rightarrow> bool" where
  "search match_at s \<longleftrightarrow> list_ex match_at (suffixes_of s)"

definition is_scheme_char :: "char \<Rightarrow> bool" where
  "is_scheme_char c \<longleftrightarrow> is_lower c \<or> is_digit c \<or> c \<in> set ''+.-''"

definition url_at :: "string \<Rightarrow> bool" where
  "url_at s \<longleftrightarrow> (case map lower_char s of [] \<Rightarrow> False
     | c # r \<Rightarrow> is_lower c \<and> starts_with ''://'' (dropWhile is_scheme_char r))"

definition credential_url_at :: "string \<Rightarrow> bool" where
  "credential_url_at s \<longleftrightarrow> url_at s \<and>
     (let rest = drop 3 (dropWhile is_scheme_char (drop 1 (map lower_char s)));
          user = takeWhile (\<lambda>c. \<not> is_white c \<and> c \<notin> set ''/@:'') rest;
          tail = drop (length user) rest;
          pass = takeWhile (\<lambda>c. \<not> is_white c \<and> c \<notin> set ''/@'') (drop 1 tail) in
      user \<noteq> [] \<and> starts_with '':'' tail \<and> pass \<noteq> [] \<and> starts_with ''@'' (drop (length pass) (drop 1 tail)))"

definition optional_separator :: "string \<Rightarrow> string \<Rightarrow> string list" where
  "optional_separator a b = map (\<lambda>sep. a @ sep @ b) ['''', ''-'', ''_'', ''.'']"

definition sensitive_words :: "string list" where
  "sensitive_words =
     [''secret'', ''password'', ''token'', ''authorization'', ''credential''] @
     optional_separator ''api'' ''key'' @ optional_separator ''private'' ''key'' @ [''cookie''] @
     optional_separator ''connection'' ''string'' @ optional_separator ''database'' ''url''"

definition sensitive_assignment_at :: "string \<Rightarrow> bool" where
  "sensitive_assignment_at s \<longleftrightarrow> list_ex (\<lambda>w. starts_with w (map lower_char s) \<and>
     (case dropWhile is_white (drop (length w) s) of c # _ \<Rightarrow> c \<in> set '':='' | [] \<Rightarrow> False)) sensitive_words"

function private_key_groups :: "string \<Rightarrow> bool" where
  "private_key_groups [] = False"
| "private_key_groups (c # r) \<longleftrightarrow> starts_with '' PRIVATE KEY-----'' (c # r) \<or>
     (c = CHR '' '' \<and> takeWhile (\<lambda>x. is_upper x \<or> is_digit x) r \<noteq> [] \<and>
      private_key_groups (dropWhile (\<lambda>x. is_upper x \<or> is_digit x) r))"
  by pat_completeness auto
termination by (relation "measure length") (simp_all add: less_Suc_eq_le length_dropWhile_le)

definition private_key_at :: "string \<Rightarrow> bool" where
  "private_key_at s \<longleftrightarrow> starts_with ''-----BEGIN'' s \<and> private_key_groups (drop 10 s)"

definition bearer_at :: "string \<Rightarrow> bool" where
  "bearer_at s \<longleftrightarrow> starts_with ''bearer'' (map lower_char s) \<and>
     (let r = drop 6 s in takeWhile is_white r \<noteq> [] \<and> dropWhile is_white r \<noteq> [])"

definition is_jwt :: "string \<Rightarrow> bool" where
  "is_jwt s \<longleftrightarrow> length (split_on CHR ''.'' s) = 3 \<and>
     list_all (\<lambda>p. 8 \<le> length p \<and>
       list_all (\<lambda>c. is_upper c \<or> is_lower c \<or> is_digit c \<or> c \<in> set ''_-'') p) (split_on CHR ''.'' s)"

definition secret_like :: "string \<Rightarrow> bool" where
  "secret_like s \<longleftrightarrow> search url_at s \<or> search credential_url_at s \<or> search sensitive_assignment_at s \<or>
     search private_key_at s \<or>
     (bearer_at s \<or> search (\<lambda>t. case t of c # r \<Rightarrow> is_white c \<and> bearer_at r | [] \<Rightarrow> False) s) \<or> is_jwt s"

section \<open>Keys\<close>

text \<open>
  The two camel-case substitutions insert an underscore between two adjacent characters: the
  first before the last capital of a run that a lower-case letter follows, the second between a
  lower-case letter or digit and a capital. Matches of either pattern cannot overlap.
\<close>

fun camel_acronym_boundary :: "string \<Rightarrow> string" where
  "camel_acronym_boundary (a # b # c # s) =
     (if is_upper a \<and> is_upper b \<and> is_lower c then a # CHR ''_'' # camel_acronym_boundary (b # c # s)
      else a # camel_acronym_boundary (b # c # s))"
| "camel_acronym_boundary s = s"

fun camel_word_boundary :: "string \<Rightarrow> string" where
  "camel_word_boundary (a # b # s) =
     (if (is_lower a \<or> is_digit a) \<and> is_upper b then a # CHR ''_'' # camel_word_boundary (b # s)
      else a # camel_word_boundary (b # s))"
| "camel_word_boundary s = s"

definition is_separator :: "char \<Rightarrow> bool" where
  "is_separator c \<longleftrightarrow> c = CHR ''-'' \<or> c = CHR ''.''"

function key_separator :: "string \<Rightarrow> string" where
  "key_separator [] = []"
| "key_separator (c # s) =
     (if is_separator c then CHR ''_'' # key_separator (dropWhile is_separator s)
      else c # key_separator s)"
  by pat_completeness auto
termination by (relation "measure length") (simp_all add: less_Suc_eq_le length_dropWhile_le)

definition normalize_audit_payload_key :: "string \<Rightarrow> string" where
  "normalize_audit_payload_key k =
     map lower_char (key_separator (camel_word_boundary (camel_acronym_boundary k)))"

definition SENSITIVE_KEY_FRAGMENTS :: "string list" where
  "SENSITIVE_KEY_FRAGMENTS =
     [''api_key'', ''authorization'', ''connection_string'', ''cookie'', ''credential'', ''database_url'',
      ''password'', ''private_key'', ''secret'', ''token'']"

definition SENSITIVE_COMPACT_KEY_FRAGMENTS :: "string list" where
  "SENSITIVE_COMPACT_KEY_FRAGMENTS = [''apikey'', ''connectionstring'', ''databaseurl'', ''privatekey'']"

definition SAFE_FENCING_KEY :: string where "SAFE_FENCING_KEY = ''fencing_token''"

definition sensitive_key :: "string \<Rightarrow> bool" where
  "sensitive_key k \<longleftrightarrow>
     (list_ex (\<lambda>f. search (starts_with f) k) SENSITIVE_KEY_FRAGMENTS \<or>
      list_ex (\<lambda>f. search (starts_with f) (filter (\<lambda>c. c \<noteq> CHR ''_'') k)) SENSITIVE_COMPACT_KEY_FRAGMENTS) \<and>
     k \<noteq> SAFE_FENCING_KEY"

section \<open>The closed key classes\<close>

definition AUDIT_SLUG_KEYS :: "string list" where
  "AUDIT_SLUG_KEYS =
     [''acknowledgement'', ''action'', ''adjustment'', ''decision_type'', ''error_code'', ''event_type'',
      ''feed'', ''from_state'', ''job_type'', ''latch_type'', ''mode'', ''outcome'', ''provider'',
      ''reason_code'', ''role'', ''service'', ''source'', ''state'', ''status'', ''timeframe'', ''to_state'']"

definition AUDIT_INTEGER_KEYS :: "string list" where
  "AUDIT_INTEGER_KEYS =
     [''attempt'', ''attempt_count'', ''count'', ''fencing_token'', ''ordinal'', ''revision'', ''sequence'', ''version'']"

definition AUDIT_COUNT_OBJECT_KEYS :: "string list" where "AUDIT_COUNT_OBJECT_KEYS = [''counts'']"

definition AUDIT_SYMBOL_KEYS :: "string list" where "AUDIT_SYMBOL_KEYS = [''symbol'']"

definition AUDIT_SYMBOL_LIST_KEYS :: "string list" where "AUDIT_SYMBOL_LIST_KEYS = [''symbols'']"

definition AUDIT_SLUG_LIST_KEYS :: "string list" where "AUDIT_SLUG_LIST_KEYS = [''flags'', ''reason_codes'']"

definition AUDIT_ID_KEYS :: "string list" where
  "AUDIT_ID_KEYS =
     [''bar_id'', ''broker_order_id'', ''client_order_id'', ''correlation_id'', ''dataset_id'',
      ''execution_plan_id'', ''experiment_id'', ''fill_id'', ''gap_id'', ''idempotency_key'', ''incident_id'',
      ''job_id'', ''order_intent_id'', ''reconciliation_id'', ''risk_decision_id'', ''run_id'', ''signal_id'',
      ''slot_id'', ''strategy_id'']"

definition AUDIT_ID_LIST_KEYS :: "string list" where
  "AUDIT_ID_LIST_KEYS = [''bar_ids'', ''event_ids'', ''fill_ids'', ''order_ids'', ''signal_ids'']"

definition AUDIT_HASH_KEYS :: "string list" where
  "AUDIT_HASH_KEYS =
     [''artifact_hash'', ''configuration_hash'', ''content_hash'', ''dataset_hash'', ''experiment_hash'',
      ''manifest_hash'', ''payload_hash'', ''source_hash'', ''submission_authority_hash'']"

definition AUDIT_HASH_LIST_KEYS :: "string list" where
  "AUDIT_HASH_LIST_KEYS = [''artifact_hashes'', ''content_hashes'', ''source_hashes'']"

definition AUDIT_TIMESTAMP_KEYS :: "string list" where
  "AUDIT_TIMESTAMP_KEYS =
     [''completed_at'', ''created_at'', ''detected_at'', ''effective_at'', ''filled_at'', ''occurred_at'',
      ''received_at'', ''session_close_at'', ''session_open_at'', ''started_at'', ''submitted_at'', ''updated_at'']"

definition AUDIT_BOOLEAN_KEYS :: "string list" where
  "AUDIT_BOOLEAN_KEYS =
     [''has_gap'', ''is_correction'', ''is_replay'', ''submission_allowed'', ''submission_enabled'', ''was_recovered'']"

definition AUDIT_DECIMAL_KEYS :: "string list" where
  "AUDIT_DECIMAL_KEYS =
     [''available_cash'', ''average_price'', ''close_price'', ''equity'', ''fee'', ''filled_quantity'',
      ''high_price'', ''limit_price'', ''low_price'', ''notional'', ''open_price'', ''quantity'', ''stop_price'',
      ''target_price'', ''target_weight'', ''volume'']"

section \<open>Validation of a payload\<close>

definition is_audit_id :: "string \<Rightarrow> bool" where
  "is_audit_id s \<longleftrightarrow> is_content_id s \<or> is_audit_uuid s"

definition audit_text_guards :: "(string \<Rightarrow> bool) \<Rightarrow> bool \<Rightarrow> json \<Rightarrow> (bool \<times> error) list" where
  "audit_text_guards pattern reject_bare_hash v =
     [(case v of JStr s \<Rightarrow> \<not> pattern s \<or> (reject_bare_hash \<and> is_hash s) | _ \<Rightarrow> True,
       audit_error ''audit payload field is invalid'')]"

definition audit_id_guards :: "json \<Rightarrow> (bool \<times> error) list" where
  "audit_id_guards v =
     [(case v of JStr s \<Rightarrow> \<not> is_audit_id s | _ \<Rightarrow> True, audit_error ''audit payload ID is invalid'')]"

definition audit_timestamp_guards :: "json \<Rightarrow> (bool \<times> error) list" where
  "audit_timestamp_guards v =
     audit_text_guards (list_all2 (\<lambda>p c. if p = CHR ''d'' then is_digit c else c = p) ''dddd-dd-ddTdd:dd:dd.ddddddZ'') False v @
     [(case v of JStr s \<Rightarrow> \<not> is_audit_timestamp s | _ \<Rightarrow> True, audit_error ''audit payload timestamp is invalid'')]"

definition secret_guards :: "json \<Rightarrow> (bool \<times> error) list" where
  "secret_guards v =
     [(case v of JStr s \<Rightarrow> secret_like s | _ \<Rightarrow> False, audit_error ''audit payload contains secret-like data'')]"

definition audit_items_guards :: "(json \<Rightarrow> (bool \<times> error) list) \<Rightarrow> json \<Rightarrow> (bool \<times> error) list" where
  "audit_items_guards item v =
     (case v of
        JList items \<Rightarrow>
          (length items > MAX_AUDIT_CONTAINER_ITEMS, audit_error ''audit payload container exceeds the item limit'') #
          concat (map (\<lambda>x. secret_guards x @ item x) items)
      | _ \<Rightarrow> [(True, audit_error ''audit payload list has an invalid value type'')])"

definition audit_list_guards :: "(string \<Rightarrow> bool) \<Rightarrow> bool \<Rightarrow> json \<Rightarrow> (bool \<times> error) list" where
  "audit_list_guards pattern reject_bare_hash = audit_items_guards (audit_text_guards pattern reject_bare_hash)"

definition audit_id_list_guards :: "json \<Rightarrow> (bool \<times> error) list" where
  "audit_id_list_guards = audit_items_guards audit_id_guards"

definition audit_key_guards :: "string \<Rightarrow> (bool \<times> error) list" where
  "audit_key_guards k =
     [(\<not> is_audit_payload_key k, audit_error ''audit payload key is invalid''),
      (sensitive_key (normalize_audit_payload_key k), audit_error ''audit payload contains a secret-like key'')]"

definition audit_counts_guards :: "json \<Rightarrow> (bool \<times> error) list" where
  "audit_counts_guards v =
     (case v of
        JObj counts \<Rightarrow>
          (length counts > MAX_AUDIT_CONTAINER_ITEMS, audit_error ''audit payload container exceeds the item limit'') #
          concat (map (\<lambda>(k, n). audit_key_guards k @
            [(k \<noteq> normalize_audit_payload_key k \<or> \<not> is_audit_slug (normalize_audit_payload_key k) \<or>
                (case n of JInt i \<Rightarrow> i < 0 \<or> i > MAX_SIGNED_64_BIT_INTEGER | _ \<Rightarrow> True),
              audit_error ''audit count is invalid'')]) counts)
      | _ \<Rightarrow> [(True, audit_error ''audit counts must be an object'')])"

definition audit_value_guards :: "json \<Rightarrow> string \<Rightarrow> (bool \<times> error) list" where
  "audit_value_guards v key =
     secret_guards v @ [(v = JNull, audit_error ''audit payload null values are prohibited'')] @
     (if key \<in> set AUDIT_COUNT_OBJECT_KEYS then audit_counts_guards v
      else if key \<in> set AUDIT_SYMBOL_LIST_KEYS then audit_list_guards is_symbol False v
      else if key \<in> set AUDIT_SLUG_LIST_KEYS then audit_list_guards is_audit_slug True v
      else if key \<in> set AUDIT_ID_LIST_KEYS then audit_id_list_guards v
      else if key \<in> set AUDIT_HASH_LIST_KEYS then audit_list_guards is_hash False v
      else if key \<in> set AUDIT_SYMBOL_KEYS then audit_text_guards is_symbol False v
      else if key \<in> set AUDIT_HASH_KEYS then audit_text_guards is_hash False v
      else if key \<in> set AUDIT_ID_KEYS then audit_id_guards v
      else if key \<in> set AUDIT_TIMESTAMP_KEYS then audit_timestamp_guards v
      else if key \<in> set AUDIT_INTEGER_KEYS then
        [(case v of JInt n \<Rightarrow> n < 0 \<or> n > MAX_SIGNED_64_BIT_INTEGER | _ \<Rightarrow> True,
          audit_error ''audit payload integer is invalid'')]
      else if key \<in> set AUDIT_BOOLEAN_KEYS then
        [(case v of JBool _ \<Rightarrow> False | _ \<Rightarrow> True, audit_error ''audit payload boolean is invalid'')]
      else if key \<in> set AUDIT_SLUG_KEYS then audit_text_guards is_audit_slug True v
      else if key \<in> set AUDIT_DECIMAL_KEYS then audit_text_guards is_audit_decimal False v
      else [(True, audit_error ''audit payload field is not in the closed contract'')])"

definition audit_object_guards :: "(string \<times> json) list \<Rightarrow> bool \<Rightarrow> (bool \<times> error) list" where
  "audit_object_guards kvs require_idempotency_key =
     [(length kvs > MAX_AUDIT_CONTAINER_ITEMS, audit_error ''audit payload container exceeds the item limit''),
      (require_idempotency_key \<and> ''idempotency_key'' \<notin> fst ` set kvs,
        audit_error ''audit payload requires an idempotency key'')] @
     concat (map (\<lambda>(k, v). audit_key_guards k @
       [(k \<noteq> normalize_audit_payload_key k, audit_error ''audit payload key is not canonical'')] @
       audit_value_guards v (normalize_audit_payload_key k)) kvs)"

section \<open>Payloads\<close>

text \<open>A decoded JSON value as an argument of the encoder and of \<open>sha256_hex\<close>.\<close>

fun pval_of_json :: "json \<Rightarrow> pval" where
  "pval_of_json JNull = PNone"
| "pval_of_json (JBool x) = PBool x"
| "pval_of_json (JInt n) = PInt n"
| "pval_of_json (JStr s) = PStr s"
| "pval_of_json (JList js) = PSeq (map pval_of_json js)"
| "pval_of_json (JObj kvs) = PMap (map (\<lambda>(k, j). (k, pval_of_json j)) kvs)"

record AuditPayload =
  pay_json :: string
  pay_hash :: string

definition decoded_object :: "string \<Rightarrow> string \<Rightarrow> (string \<times> json) list res" where
  "decoded_object message s =
     (case loads s of
        None \<Rightarrow> Inl (audit_error message)
      | Some (JObj kvs) \<Rightarrow> Inr kvs
      | Some _ \<Rightarrow> Inl (audit_error ''audit payload must be an object''))"

definition prepare_audit_payload :: "sha256 \<Rightarrow> pval \<Rightarrow> (string \<times> string) res" where
  "prepare_audit_payload sha value =
     guarded [(case value of PMap _ \<Rightarrow> False | _ \<Rightarrow> True, audit_error ''audit payload must be an object'')]
     (bindE (rethrow (audit_error ''audit payload is invalid'') (canonical_json_bytes value)) (\<lambda>encoded.
      guarded [(length encoded > MAX_AUDIT_PAYLOAD_BYTES, audit_error ''audit payload exceeds the size limit'')]
      (bindE (decoded_object ''audit payload is invalid'' encoded) (\<lambda>kvs.
       guarded (audit_object_guards kvs True)
       (bindE (sha256_hex sha (pval_of_json (JObj kvs))) (\<lambda>h. Inr (encoded, h)))))))"

definition validate_stored_audit_payload :: "sha256 \<Rightarrow> string \<Rightarrow> string res" where
  "validate_stored_audit_payload sha payload_json =
     guarded [(length payload_json > MAX_AUDIT_PAYLOAD_BYTES, audit_error ''audit payload exceeds the size limit'')]
     (bindE (decoded_object ''audit payload encoding is invalid'' payload_json) (\<lambda>kvs.
      guarded (audit_object_guards kvs True)
      (bindE (rethrow (audit_error ''audit payload encoding is invalid'')
         (canonical_json_bytes (pval_of_json (JObj kvs)))) (\<lambda>canonical.
       guarded [(canonical \<noteq> payload_json, audit_error ''audit payload encoding is not canonical'')]
       (sha256_hex sha (pval_of_json (JObj kvs)))))))"

definition guard_sha256 :: "string \<Rightarrow> string \<Rightarrow> bool \<times> error" where
  "guard_sha256 s field = (\<not> is_hash s, audit_error (''audit '' @ field @ '' is invalid''))"

definition validate_payload :: "sha256 \<Rightarrow> AuditPayload \<Rightarrow> AuditPayload res" where
  "validate_payload sha p =
     bindE (validate_stored_audit_payload sha (pay_json p)) (\<lambda>computed_hash.
     guarded [guard_sha256 (pay_hash p) ''payload hash'',
       (pay_hash p \<noteq> computed_hash, audit_error ''audit payload hash is invalid'')] (Inr p))"

definition payload_from_mapping :: "sha256 \<Rightarrow> pval \<Rightarrow> AuditPayload res" where
  "payload_from_mapping sha value =
     bindE (prepare_audit_payload sha value) (\<lambda>(j, h). validate_payload sha \<lparr>pay_json = j, pay_hash = h\<rparr>)"

definition payload_value :: "AuditPayload \<Rightarrow> (string \<times> json) list res" where
  "payload_value p = decoded_object ''audit payload is invalid'' (pay_json p)"

definition payload_idempotency_key :: "AuditPayload \<Rightarrow> string res" where
  "payload_idempotency_key p =
     bindE (payload_value p) (\<lambda>kvs. case map_of kvs ''idempotency_key'' of
       Some (JStr s) \<Rightarrow> Inr s | _ \<Rightarrow> Inl (KeyError ''idempotency_key''))"

section \<open>What an accepted payload is\<close>

lemma decoded_object_Inr: "decoded_object m s = Inr kvs \<longleftrightarrow> loads s = Some (JObj kvs)"
  by (auto simp: decoded_object_def split: option.splits json.splits)

lemma sha256_hex_bytes: "canonical_json_bytes v = Inr s \<Longrightarrow> sha256_hex sha v = Inr (sha s)"
  by (simp add: sha256_hex_def)

text \<open>The stored text of a payload: canonical bytes of an object that meets the contract.\<close>

definition payload_text :: "string \<Rightarrow> (string \<times> json) list \<Rightarrow> bool" where
  "payload_text s kvs \<longleftrightarrow> length s \<le> MAX_AUDIT_PAYLOAD_BYTES \<and> loads s = Some (JObj kvs) \<and>
     guards_ok (audit_object_guards kvs True) \<and> canonical_json_bytes (pval_of_json (JObj kvs)) = Inr s"

lemma validate_stored_audit_payload_iff:
  "validate_stored_audit_payload sha s = Inr h \<longleftrightarrow> (\<exists>kvs. payload_text s kvs) \<and> h = sha s"
  using sha256_hex_bytes
  by (auto simp: validate_stored_audit_payload_def payload_text_def decoded_object_Inr simp del: pval_of_json.simps)

lemma validate_payload_iff:
  "validate_payload sha p = Inr q \<longleftrightarrow>
     (\<exists>kvs. payload_text (pay_json p) kvs) \<and> pay_hash p = sha (pay_json p) \<and> is_hash (pay_hash p) \<and> q = p"
  by (auto simp: validate_payload_def validate_stored_audit_payload_iff guard_sha256_def)

lemma payload_from_mapping_Inr:
  assumes "payload_from_mapping sha v = Inr p"
  obtains kvs where "canonical_json_bytes v = Inr (pay_json p)" "payload_text (pay_json p) kvs"
    "pay_hash p = sha (pay_json p)" "is_hash (pay_hash p)"
proof -
  obtain j h where prep: "prepare_audit_payload sha v = Inr (j, h)"
    and valid: "validate_payload sha \<lparr>pay_json = j, pay_hash = h\<rparr> = Inr p"
    using assms by (auto simp: payload_from_mapping_def)
  have "canonical_json_bytes v = Inr j" using prep by (auto simp: prepare_audit_payload_def)
  with valid that show ?thesis by (auto simp: validate_payload_iff)
qed

text \<open>Decoding an accepted payload and validating it again gives the payload back.\<close>

lemma payload_from_decoded:
  assumes "payload_text s kvs" and "is_hash (sha s)"
  shows "payload_from_mapping sha (pval_of_json (JObj kvs)) = Inr \<lparr>pay_json = s, pay_hash = sha s\<rparr>"
proof -
  let ?v = "pval_of_json (JObj kvs)"
  have "prepare_audit_payload sha ?v = Inr (s, sha s)"
    using assms(1) sha256_hex_bytes [of ?v s sha]
    by (simp add: prepare_audit_payload_def payload_text_def decoded_object_Inr [THEN iffD2])
  moreover have "validate_payload sha \<lparr>pay_json = s, pay_hash = sha s\<rparr> = Inr \<lparr>pay_json = s, pay_hash = sha s\<rparr>"
    using assms by (auto simp: validate_payload_iff)
  ultimately show ?thesis by (simp only: payload_from_mapping_def bindE.simps prod.case)
qed

lemma guards_ok_concat: "guards_ok (concat gss) \<longleftrightarrow> (\<forall>gs \<in> set gss. guards_ok gs)"
  by (induction gss) auto

text \<open>Every accepted payload has an idempotency key, and that key is an identifier of the contract.\<close>

lemma payload_text_key:
  assumes "payload_text s kvs"
  shows "\<exists>key. map_of kvs ''idempotency_key'' = Some (JStr key) \<and> is_audit_id key"
proof -
  have "''idempotency_key'' \<in> fst ` set kvs"
    using assms by (auto simp: payload_text_def audit_object_guards_def)
  then obtain v where v: "map_of kvs ''idempotency_key'' = Some v"
    by (metis map_of_eq_None_iff not_Some_eq)
  have norm: "normalize_audit_payload_key ''idempotency_key'' = ''idempotency_key''" by code_simp
  have "guards_ok (audit_value_guards v (normalize_audit_payload_key ''idempotency_key''))"
    using assms map_of_SomeD [OF v] by (fastforce simp: payload_text_def audit_object_guards_def guards_ok_concat)
  then have "guards_ok (audit_value_guards v ''idempotency_key'')" by (simp only: norm)
  moreover have "audit_value_guards v ''idempotency_key'' =
      secret_guards v @ [(v = JNull, audit_error ''audit payload null values are prohibited'')] @ audit_id_guards v"
    by (simp add: audit_value_guards_def AUDIT_COUNT_OBJECT_KEYS_def AUDIT_SYMBOL_LIST_KEYS_def
        AUDIT_SLUG_LIST_KEYS_def AUDIT_ID_LIST_KEYS_def AUDIT_HASH_LIST_KEYS_def AUDIT_SYMBOL_KEYS_def
        AUDIT_HASH_KEYS_def AUDIT_ID_KEYS_def)
  ultimately show ?thesis using v by (auto simp: audit_id_guards_def split: json.splits)
qed

lemma payload_idempotency_key_text:
  assumes "payload_text (pay_json p) kvs" and "map_of kvs ''idempotency_key'' = Some (JStr key)"
  shows "payload_idempotency_key p = Inr key"
  using assms
  by (simp add: payload_idempotency_key_def payload_value_def decoded_object_Inr [THEN iffD2] payload_text_def)

section \<open>Evaluation\<close>

text \<open>
  A text without a colon, an equals sign, a dash, a dot or white space is not secret-like: each
  pattern needs one of them. The test decides most texts without the searches.
\<close>

definition plain_char :: "char \<Rightarrow> bool" where
  "plain_char c \<longleftrightarrow> \<not> is_white c \<and> c \<notin> set '':=-.''"

lemma suffixes_of_set: "t \<in> set (suffixes_of s) \<Longrightarrow> set t \<subseteq> set s"
  by (induction s) auto

lemma starts_with_hd: "starts_with (c # p) s \<Longrightarrow> c \<in> set s"
  by (cases s) (auto simp: starts_with_def)

lemma lower_char_colon: "CHR '':'' \<in> set (map lower_char s) \<Longrightarrow> CHR '':'' \<in> set s"
proof -
  have "lower_char c = CHR '':'' \<Longrightarrow> c = CHR '':''" for c
  proof (cases "is_upper c")
    case True
    then have "65 \<le> (of_char c :: nat)" "(of_char c :: nat) \<le> 90"
      by (auto simp: is_upper_def less_eq_char_def)
    moreover assume "lower_char c = CHR '':''"
    then have "(of_char (lower_char c) :: nat) = 58" by simp
    ultimately show ?thesis using True by (simp add: lower_char_def)
  qed (simp add: lower_char_def)
  then show "CHR '':'' \<in> set (map lower_char s) \<Longrightarrow> CHR '':'' \<in> set s" by (metis imageE list.set_map)
qed

lemma url_at_colon: "url_at s \<Longrightarrow> CHR '':'' \<in> set s"
proof -
  assume "url_at s"
  then obtain c r where cr: "map lower_char s = c # r" "starts_with ''://'' (dropWhile is_scheme_char r)"
    by (auto simp: url_at_def split: list.splits)
  then have "CHR '':'' \<in> set (map lower_char s)"
    using starts_with_hd set_dropWhileD by (metis list.set_intros(2))
  then show ?thesis by (rule lower_char_colon)
qed

lemma plain_not_secret:
  assumes "list_all plain_char s"
  shows "\<not> secret_like s"
proof -
  have plain: "plain_char c" if "t \<in> set (suffixes_of s)" "c \<in> set t" for t c
    using assms that suffixes_of_set by (auto simp: list_all_iff)
  have no: "CHR '':'' \<notin> set t" "CHR ''='' \<notin> set t" "CHR ''-'' \<notin> set t" "\<forall>c \<in> set t. \<not> is_white c"
    if "t \<in> set (suffixes_of s)" for t
    using plain [OF that] by (auto simp: plain_char_def)
  have "s \<in> set (suffixes_of s)" by (cases s) auto
  note self = no [OF this]
  have "\<not> search url_at s" "\<not> search credential_url_at s"
    using no(1) url_at_colon by (auto simp: search_def list_ex_iff credential_url_at_def)
  moreover have "\<not> sensitive_assignment_at t" if "t \<in> set (suffixes_of s)" for t
  proof
    assume "sensitive_assignment_at t"
    then obtain w where w: "case dropWhile is_white (drop (length (w :: string)) t) of c # _ \<Rightarrow> c \<in> set '':='' | [] \<Rightarrow> False"
      unfolding sensitive_assignment_at_def list_ex_iff by blast
    then obtain c r where "dropWhile is_white (drop (length w) t) = c # r" "c \<in> set '':=''"
      by (cases "dropWhile is_white (drop (length w) t)") auto
    then have "c \<in> set t" by (metis in_set_dropD list.set_intros(1) set_dropWhileD)
    then show False using no(1,2) [OF that] \<open>c \<in> set '':=''\<close> by auto
  qed
  then have "\<not> search sensitive_assignment_at s" by (auto simp: search_def list_ex_iff)
  moreover have "\<not> search private_key_at s"
    using no(3) starts_with_hd by (auto simp: search_def list_ex_iff private_key_at_def)
  moreover have "\<not> bearer_at t" if "\<forall>c \<in> set t. \<not> is_white c" for t
  proof
    assume "bearer_at t"
    then have "takeWhile is_white (drop 6 t) \<noteq> []" by (simp add: bearer_at_def Let_def)
    then obtain c where "c \<in> set (takeWhile is_white (drop 6 t))" by (metis list.set_sel(1))
    then show False using that set_takeWhileD in_set_dropD by metis
  qed
  then have "\<not> bearer_at s" using self(4) by blast
  moreover have "\<not> (case t of c # r \<Rightarrow> is_white c \<and> bearer_at r | [] \<Rightarrow> False)" if "t \<in> set (suffixes_of s)" for t
    using no(4) [OF that] by (cases t) auto
  then have "\<not> search (\<lambda>t. case t of c # r \<Rightarrow> is_white c \<and> bearer_at r | [] \<Rightarrow> False) s"
    unfolding search_def list_ex_iff by blast
  moreover have "\<not> is_jwt s"
    using assms by (auto simp: is_jwt_def list_all_iff plain_char_def split_on_none)
  ultimately show ?thesis by (simp add: secret_like_def)
qed

lemma secret_like_code [code]:
  "secret_like s \<longleftrightarrow> (if list_all plain_char s then False
     else search url_at s \<or> search credential_url_at s \<or> search sensitive_assignment_at s \<or>
       search private_key_at s \<or>
       (bearer_at s \<or> search (\<lambda>t. case t of c # r \<Rightarrow> is_white c \<and> bearer_at r | [] \<Rightarrow> False) s) \<or> is_jwt s)"
  using plain_not_secret [of s] by (simp add: secret_like_def)

text \<open>Re-encoding a decoded value gives the same text: the objects of the encoder are sorted by key.\<close>

fun json_sorted :: "json \<Rightarrow> bool" where
  "json_sorted (JList js) \<longleftrightarrow> (\<forall>j \<in> set js. json_sorted j)"
| "json_sorted (JObj kvs) \<longleftrightarrow> sorted (map fst kvs) \<and> (\<forall>(k, j) \<in> set kvs. json_sorted j)"
| "json_sorted j \<longleftrightarrow> True"

lemma jval_pval_of_json: "json_sorted j \<Longrightarrow> jval (pval_of_json j) = j"
proof (induction j rule: json_sorted.induct)
  case (2 kvs)
  have "map (\<lambda>(k, v). (k, jval v)) (map (\<lambda>(k, j). (k, pval_of_json j)) kvs) = kvs"
    using 2 by (induction kvs) auto
  moreover have "sort_key fst kvs = kvs" using 2 by (simp add: sort_key_id_if_sorted)
  ultimately show ?case by simp
qed (auto intro: map_idI)

lemma json_sorted_jval: "json_sorted (jval v)"
proof (induction v rule: jval.induct)
  case (9 kvs)
  have "sorted (map fst (sort_key fst (map (\<lambda>(k, v). (k, jval v)) kvs)))" by (rule sorted_sort_key)
  then show ?case using 9 by auto
qed auto

lemma payload_from_mapping_eval:
  assumes "within_limits (PMap m)" and "pwf (PMap m)" and "jval (PMap m) = JObj kvs"
    and "within_limits (pval_of_json (JObj kvs))" and "6 * ptext (PMap m) + 28 * pnodes (PMap m) \<le> 65540"
    and "guards_ok (audit_object_guards kvs True)" and "is_hash (sha (dumps (JObj kvs)))"
  shows "payload_from_mapping sha (PMap m) =
    Inr \<lparr>pay_json = dumps (JObj kvs), pay_hash = sha (dumps (JObj kvs))\<rparr>"
proof -
  let ?s = "dumps (JObj kvs)"
  have "jval (pval_of_json (JObj kvs)) = JObj kvs"
    by (metis assms(3) json_sorted_jval jval_pval_of_json)
  then have re: "canonical_json_bytes (pval_of_json (JObj kvs)) = Inr ?s"
    using assms(4) by (simp only: canonical_json_bytes_iff)
  have enc: "canonical_json_bytes (PMap m) = Inr ?s"
    using assms(1,3) by (simp only: canonical_json_bytes_iff)
  then have "loads ?s = Some (JObj kvs)" using canonical_json_loads [OF _ assms(2)] assms(3) by simp
  moreover have "length ?s \<le> MAX_AUDIT_PAYLOAD_BYTES"
    using length_dumps_bound [of 0 "PMap m"] assms(1,3,5) by (simp add: within_limits_def MAX_AUDIT_PAYLOAD_BYTES_def)
  ultimately have ptx: "payload_text ?s kvs" using re assms(6) by (simp add: payload_text_def)
  then have "prepare_audit_payload sha (PMap m) = Inr (?s, sha ?s)"
    using enc sha256_hex_bytes [OF re, of sha]
    by (simp add: prepare_audit_payload_def payload_text_def decoded_object_Inr [THEN iffD2] del: pval_of_json.simps dumps.simps)
  moreover have "validate_payload sha \<lparr>pay_json = ?s, pay_hash = sha ?s\<rparr> = Inr \<lparr>pay_json = ?s, pay_hash = sha ?s\<rparr>"
    using ptx assms(7) by (auto simp: validate_payload_iff)
  ultimately show ?thesis by (simp only: payload_from_mapping_def bindE.simps prod.case)
qed

end
