(* ===== verification/Audit_Events.thy ===== *)
theory Audit_Events
  imports Audit_Payloads "HOL-Library.Product_Lexorder"
begin

text \<open>
  Hash-chained audit streams (\<open>domain.AuditEvent\<close>, \<open>domain.audit_event_hash\<close>,
  \<open>storage/repositories.verify_audit_chain\<close>, and the append step of \<open>AuditRepository\<close> on the list
  of stored rows of a stream; connections, locks and SQL errors are not modelled). Each event
  carries the hash of its predecessor, a per-stream sequence number, and the hash of its
  canonical payload.
\<close>

section \<open>Writers and authority\<close>

datatype AuditWriter =
    COLLECTOR_WRITER | CONTROL_WRITER | EXECUTION_WRITER | MIGRATION_WRITER | SCHEDULER_WRITER | STRATEGY_WRITER

fun writer_value :: "AuditWriter \<Rightarrow> string" where
  "writer_value COLLECTOR_WRITER = ''aqa_collector''"
| "writer_value CONTROL_WRITER = ''aqa_control''"
| "writer_value EXECUTION_WRITER = ''aqa_execution''"
| "writer_value MIGRATION_WRITER = ''aqa_migrate''"
| "writer_value SCHEDULER_WRITER = ''aqa_scheduler''"
| "writer_value STRATEGY_WRITER = ''aqa_strategy''"

fun AUDIT_EVENT_FAMILIES :: "AuditWriter \<Rightarrow> string list" where
  "AUDIT_EVENT_FAMILIES MIGRATION_WRITER = [''experiment.'', ''security.'']"
| "AUDIT_EVENT_FAMILIES COLLECTOR_WRITER = [''bar.'', ''collector.'', ''data.'', ''dataset.'', ''gap.'', ''security.'']"
| "AUDIT_EVENT_FAMILIES SCHEDULER_WRITER = [''scheduler.'', ''security.'', ''slot.'']"
| "AUDIT_EVENT_FAMILIES STRATEGY_WRITER = [''security.'', ''signal.'', ''strategy.'']"
| "AUDIT_EVENT_FAMILIES EXECUTION_WRITER =
     [''execution.'', ''fill.'', ''incident.'', ''intent.'', ''latch.'', ''order.'', ''reconciliation.'', ''risk.'', ''security.'']"
| "AUDIT_EVENT_FAMILIES CONTROL_WRITER = [''control.'', ''experiment.'', ''job.'', ''operator.'', ''security.'']"

definition writer_of_value :: "string \<Rightarrow> AuditWriter option" where
  "writer_of_value s = find (\<lambda>w. writer_value w = s)
     [COLLECTOR_WRITER, CONTROL_WRITER, EXECUTION_WRITER, MIGRATION_WRITER, SCHEDULER_WRITER, STRATEGY_WRITER]"

definition stream_actor :: "string \<Rightarrow> string" where
  "stream_actor s = takeWhile (\<lambda>c. c \<noteq> CHR '':'') s"

definition stream_resource :: "string \<Rightarrow> string" where
  "stream_resource s = drop 1 (dropWhile (\<lambda>c. c \<noteq> CHR '':'') s)"

definition audit_writer_for_stream :: "string \<Rightarrow> AuditWriter res" where
  "audit_writer_for_stream s =
     guarded
      [(\<not> is_audit_identifier MAX_AUDIT_STREAM_ID_LENGTH s, audit_error ''audit stream ID is invalid''),
       (CHR '':'' \<notin> set s \<or> stream_resource s = [], audit_error ''audit stream ID is invalid'')]
     (case writer_of_value (stream_actor s) of
        None \<Rightarrow> Inl (audit_error ''audit stream ID has an invalid writer'')
      | Some w \<Rightarrow> guarded [(\<not> is_resource_ref (stream_resource s),
            audit_error ''audit stream ID has an invalid resource reference'')] (Inr w))"

definition validate_audit_authority :: "string \<Rightarrow> string \<Rightarrow> AuditWriter \<Rightarrow> AuditWriter res" where
  "validate_audit_authority stream_id event_type actor =
     bindE (audit_writer_for_stream stream_id) (\<lambda>stream_writer.
     guarded
      [(\<not> is_audit_identifier MAX_AUDIT_EVENT_TYPE_LENGTH event_type, audit_error ''audit event type is invalid''),
       (\<not> is_audit_event_type event_type, audit_error ''audit event type is invalid''),
       (actor \<noteq> stream_writer, audit_error ''audit actor does not own the stream''),
       (\<not> list_ex (\<lambda>p. starts_with p event_type) (AUDIT_EVENT_FAMILIES actor),
         audit_error ''audit event type is not permitted for the writer'')]
     (Inr actor))"

section \<open>Events\<close>

record AuditEvent =
  aud_event_id :: string
  aud_stream_id :: string
  aud_sequence :: int
  aud_previous_hash :: string
  aud_event_type :: string
  aud_actor :: AuditWriter
  aud_occurred_at :: int
  aud_payload_hash :: string
  aud_event_hash :: string
  aud_content_hash :: string
  aud_payload_json :: string

definition AUDIT_GENESIS_HASH :: string where
  "AUDIT_GENESIS_HASH = replicate 64 CHR ''0''"

definition guard_audit_sequence :: "int \<Rightarrow> bool \<times> error" where
  "guard_audit_sequence n = (n < 1 \<or> n > MAX_SIGNED_64_BIT_INTEGER, audit_error ''audit sequence is invalid'')"

definition is_audit_event_id :: "string \<Rightarrow> bool" where
  "is_audit_event_id s \<longleftrightarrow> starts_with ''audit_'' s \<and> is_hash (drop 6 s)"

definition validate_audit_event :: "sha256 \<Rightarrow> AuditEvent \<Rightarrow> AuditEvent res" where
  "validate_audit_event sha e =
     guarded [(\<not> is_audit_event_id (aud_event_id e), audit_error ''audit event ID is invalid'')]
     (bindE (validate_audit_authority (aud_stream_id e) (aud_event_type e) (aud_actor e)) (\<lambda>_.
      guarded
       [guard_audit_sequence (aud_sequence e), guard_sha256 (aud_previous_hash e) ''previous hash'',
        guard_sha256 (aud_payload_hash e) ''payload hash'', guard_sha256 (aud_event_hash e) ''event hash'',
        guard_sha256 (aud_content_hash e) ''content hash'']
      (bindE (validate_stored_audit_payload sha (aud_payload_json e)) (\<lambda>_. Inr e))))"

definition audit_event_values :: "AuditEvent \<Rightarrow> pval" where
  "audit_event_values e =
     PSeq [PStr (aud_stream_id e), PInt (aud_sequence e), PStr (aud_previous_hash e), PStr (aud_event_type e),
       PEnum (writer_value (aud_actor e)), PTime (aud_occurred_at e), PStr (aud_payload_hash e)]"

definition audit_event_hash :: "sha256 \<Rightarrow> AuditEvent \<Rightarrow> string res" where
  "audit_event_hash sha e =
     bindE (validate_audit_authority (aud_stream_id e) (aud_event_type e) (aud_actor e)) (\<lambda>_.
     guarded
      [guard_audit_sequence (aud_sequence e), guard_sha256 (aud_previous_hash e) ''previous hash'',
       guard_sha256 (aud_payload_hash e) ''payload hash'']
     (sha256_hex sha (audit_event_values e)))"

definition create_audit_event :: "sha256 \<Rightarrow> string \<Rightarrow> int \<Rightarrow> string \<Rightarrow> string \<Rightarrow> AuditWriter \<Rightarrow> int \<Rightarrow>
    AuditPayload \<Rightarrow> AuditEvent res" where
  "create_audit_event sha stream_id sequence previous_hash event_type actor occurred_at payload =
     (let e = \<lparr>aud_event_id = '''', aud_stream_id = stream_id, aud_sequence = sequence,
            aud_previous_hash = previous_hash, aud_event_type = event_type, aud_actor = actor,
            aud_occurred_at = occurred_at, aud_payload_hash = pay_hash payload, aud_event_hash = '''',
            aud_content_hash = '''', aud_payload_json = pay_json payload\<rparr> in
      bindE (validate_audit_authority stream_id event_type actor) (\<lambda>_.
      guarded [guard_audit_sequence sequence, guard_sha256 previous_hash ''previous hash'']
      (bindE (audit_event_hash sha e) (\<lambda>h.
         validate_audit_event sha
           (e\<lparr>aud_event_id := ''audit_'' @ h, aud_event_hash := h, aud_content_hash := h\<rparr>)))))"

definition event_payload :: "AuditEvent \<Rightarrow> (string \<times> json) list res" where
  "event_payload e = decoded_object ''audit payload encoding is invalid'' (aud_payload_json e)"

definition event_audit_payload :: "sha256 \<Rightarrow> AuditEvent \<Rightarrow> AuditPayload res" where
  "event_audit_payload sha e =
     bindE (event_payload e) (\<lambda>kvs.
     bindE (payload_from_mapping sha (pval_of_json (JObj kvs))) (\<lambda>computed.
     guarded [(pay_hash computed \<noteq> aud_payload_hash e, audit_error ''audit payload hash is invalid'')]
     (Inr computed)))"

definition event_idempotency_key :: "sha256 \<Rightarrow> AuditEvent \<Rightarrow> string res" where
  "event_idempotency_key sha e = bindE (event_audit_payload sha e) payload_idempotency_key"

section \<open>Verification of chains\<close>

record AuditStreamHead =
  head_stream_id :: string
  head_sequence :: int
  head_event_hash :: string

definition validate_stream_head :: "AuditStreamHead \<Rightarrow> AuditStreamHead res" where
  "validate_stream_head h =
     bindE (audit_writer_for_stream (head_stream_id h)) (\<lambda>_.
     guarded [guard_audit_sequence (head_sequence h), guard_sha256 (head_event_hash h) ''event hash''] (Inr h))"

record AuditVerificationReport =
  report_event_count :: int
  report_stream_heads :: "AuditStreamHead list"

definition validate_verification_report :: "AuditVerificationReport \<Rightarrow> AuditVerificationReport res" where
  "validate_verification_report r =
     (let ids = map head_stream_id (report_stream_heads r) in
      guarded
       [(report_event_count r < 0, audit_error ''audit event count is invalid''),
        (ids \<noteq> sort ids \<or> \<not> distinct ids, audit_error ''audit stream heads must be uniquely ordered''),
        (report_event_count r \<noteq> sum_list (map head_sequence (report_stream_heads r)),
          audit_error ''audit report count does not match its stream heads'')]
      (Inr r))"

abbreviation integrity_error :: "string \<Rightarrow> error" where
  "integrity_error \<equiv> AuditIntegrityError"

definition verify_event_content :: "sha256 \<Rightarrow> AuditEvent \<Rightarrow> unit res" where
  "verify_event_content sha e =
     (let failed = integrity_error ''audit chain verification failed'' in
      bindE (event_payload e) (\<lambda>kvs.
      bindE (rethrow failed (sha256_hex sha (pval_of_json (JObj kvs)))) (\<lambda>payload_hash.
      bindE (rethrow failed (audit_event_hash sha e)) (\<lambda>event_hash.
      guarded [(aud_payload_hash e \<noteq> payload_hash \<or> aud_event_hash e \<noteq> event_hash \<or>
          aud_content_hash e \<noteq> event_hash \<or> aud_event_id e \<noteq> ''audit_'' @ event_hash, failed)]
      (Inr ())))))"

text \<open>The loop state: heads of the streams so far, idempotency identities seen, last sort key.\<close>

type_synonym verification =
  "(string, AuditStreamHead) dict \<times> (string \<times> string) list \<times> (string \<times> int) option"

definition verify_step :: "sha256 \<Rightarrow> AuditEvent \<Rightarrow> verification \<Rightarrow> verification res" where
  "verify_step sha e = (\<lambda>(heads, idempotency_keys, previous_sort_key).
     (let sort_key = (aud_stream_id e, aud_sequence e); previous = map_of heads (aud_stream_id e);
          expected_sequence = (case previous of None \<Rightarrow> 1 | Some h \<Rightarrow> head_sequence h + 1);
          expected_previous_hash = (case previous of None \<Rightarrow> AUDIT_GENESIS_HASH | Some h \<Rightarrow> head_event_hash h) in
      guarded [(case previous_sort_key of None \<Rightarrow> False | Some k \<Rightarrow> sort_key \<le> k,
          integrity_error ''audit verification input is not deterministically ordered'')]
      (bindE (verify_event_content sha e) (\<lambda>_.
       guarded [(aud_sequence e \<noteq> expected_sequence \<or> aud_previous_hash e \<noteq> expected_previous_hash,
           integrity_error ''audit chain verification failed'')]
       (bindE (event_idempotency_key sha e) (\<lambda>key.
        guarded [((aud_stream_id e, key) \<in> set idempotency_keys,
            integrity_error ''audit chain contains a duplicate idempotency key'')]
        (bindE (validate_stream_head \<lparr>head_stream_id = aud_stream_id e, head_sequence = aud_sequence e,
             head_event_hash = aud_event_hash e\<rparr>) (\<lambda>h.
         Inr (AList.update (aud_stream_id e) h heads, (aud_stream_id e, key) # idempotency_keys, Some sort_key)))))))))"

definition verify_audit_chain :: "sha256 \<Rightarrow> AuditEvent list \<Rightarrow> AuditVerificationReport res" where
  "verify_audit_chain sha events =
     bindE (foldE (verify_step sha) events ([], [], None)) (\<lambda>(heads, _, _).
     validate_verification_report \<lparr>report_event_count = int (length events),
       report_stream_heads = map snd heads\<rparr>)"

section \<open>Appending to a stored stream\<close>

definition same_append_request :: "AuditEvent \<Rightarrow> AuditEvent \<Rightarrow> bool" where
  "same_append_request prior candidate \<longleftrightarrow>
     aud_stream_id prior = aud_stream_id candidate \<and> aud_event_type prior = aud_event_type candidate \<and>
     aud_actor prior = aud_actor candidate \<and> aud_occurred_at prior = aud_occurred_at candidate \<and>
     aud_payload_hash prior = aud_payload_hash candidate"

fun find_retry :: "sha256 \<Rightarrow> string \<Rightarrow> AuditEvent list \<Rightarrow> AuditEvent option res" where
  "find_retry sha key [] = Inr None"
| "find_retry sha key (e # es) =
     bindE (event_idempotency_key sha e) (\<lambda>k. if k = key then Inr (Some e) else find_retry sha key es)"

text \<open>
  The rows of the candidate's stream, in sequence order, before and after the append; the result
  is the stored event.
\<close>

definition append_on_connection :: "sha256 \<Rightarrow> AuditEvent list \<Rightarrow> AuditEvent \<Rightarrow> (AuditEvent \<times> AuditEvent list) res" where
  "append_on_connection sha existing candidate =
     (if existing = [] then Inr (candidate, [candidate])
      else
       bindE (verify_audit_chain sha existing) (\<lambda>_.
       bindE (event_idempotency_key sha candidate) (\<lambda>key.
       bindE (find_retry sha key existing) (\<lambda>retry.
       case retry of
         Some prior \<Rightarrow>
           guarded [(\<not> same_append_request prior candidate,
             audit_error ''audit idempotency key was reused with different content'')] (Inr (prior, existing))
       | None \<Rightarrow>
           bindE (event_audit_payload sha candidate) (\<lambda>payload.
           bindE (create_audit_event sha (aud_stream_id candidate) (aud_sequence (last existing) + 1)
             (aud_event_hash (last existing)) (aud_event_type candidate) (aud_actor candidate)
             (aud_occurred_at candidate) payload) (\<lambda>event. Inr (event, existing @ [event])))))))"

definition append_audit :: "sha256 \<Rightarrow> AuditWriter \<Rightarrow> AuditEvent list \<Rightarrow> string \<Rightarrow> string \<Rightarrow> int \<Rightarrow> AuditPayload \<Rightarrow>
    (AuditEvent \<times> AuditEvent list) res" where
  "append_audit sha writer rows stream_id event_type occurred_at payload =
     bindE (create_audit_event sha stream_id 1 AUDIT_GENESIS_HASH event_type writer occurred_at payload)
       (append_on_connection sha rows)"

section \<open>Sealed events\<close>

text \<open>An event whose stored hashes and identifier are the ones derived from its content.\<close>

definition sealed :: "sha256 \<Rightarrow> AuditEvent \<Rightarrow> bool" where
  "sealed sha e \<longleftrightarrow> validate_audit_event sha e = Inr e \<and> aud_payload_hash e = sha (aud_payload_json e) \<and>
     audit_event_hash sha e = Inr (aud_event_hash e) \<and> aud_content_hash e = aud_event_hash e \<and>
     aud_event_id e = ''audit_'' @ aud_event_hash e"

definition event_key :: "AuditEvent \<Rightarrow> string" where
  "event_key e = (case loads (aud_payload_json e) of
     Some (JObj kvs) \<Rightarrow> (case map_of kvs ''idempotency_key'' of Some (JStr k) \<Rightarrow> k | _ \<Rightarrow> '''') | _ \<Rightarrow> '''')"

lemma validate_audit_event_Inr:
  "validate_audit_event sha e = Inr e' \<longleftrightarrow> e' = e \<and> is_audit_event_id (aud_event_id e) \<and>
     validate_audit_authority (aud_stream_id e) (aud_event_type e) (aud_actor e) = Inr (aud_actor e) \<and>
     1 \<le> aud_sequence e \<and> aud_sequence e \<le> MAX_SIGNED_64_BIT_INTEGER \<and> is_hash (aud_previous_hash e) \<and>
     is_hash (aud_payload_hash e) \<and> is_hash (aud_event_hash e) \<and> is_hash (aud_content_hash e) \<and>
     (\<exists>kvs. payload_text (aud_payload_json e) kvs)"
proof -
  have "w = actor" if "validate_audit_authority st et actor = Inr w" for st et actor w
    using that by (auto simp: validate_audit_authority_def)
  then show ?thesis
    by (auto simp: validate_audit_event_def validate_stored_audit_payload_iff guard_audit_sequence_def
        guard_sha256_def not_less)
qed

lemma event_payload_valid:
  assumes "payload_text (aud_payload_json e) kvs"
  shows "event_payload e = Inr kvs"
  using assms by (simp add: event_payload_def decoded_object_Inr payload_text_def)

lemma event_audit_payload_valid:
  assumes "validate_audit_event sha e = Inr e" and "aud_payload_hash e = sha (aud_payload_json e)"
  shows "event_audit_payload sha e = Inr \<lparr>pay_json = aud_payload_json e, pay_hash = aud_payload_hash e\<rparr>"
proof -
  obtain kvs where kvs: "payload_text (aud_payload_json e) kvs"
    using assms(1) by (auto simp: validate_audit_event_Inr)
  have hash: "is_hash (sha (aud_payload_json e))" using assms by (simp add: validate_audit_event_Inr)
  show ?thesis using payload_from_decoded [OF kvs, of sha, OF hash] assms(2) event_payload_valid [OF kvs]
    by (simp add: event_audit_payload_def del: pval_of_json.simps)
qed

lemma event_idempotency_key_valid:
  assumes "validate_audit_event sha e = Inr e" and "aud_payload_hash e = sha (aud_payload_json e)"
  shows "event_idempotency_key sha e = Inr (event_key e)" and "is_audit_id (event_key e)"
proof -
  obtain kvs where kvs: "payload_text (aud_payload_json e) kvs"
    using assms(1) by (auto simp: validate_audit_event_Inr)
  obtain key where key: "map_of kvs ''idempotency_key'' = Some (JStr key)" "is_audit_id key"
    using payload_text_key [OF kvs] by blast
  have "event_key e = key" using kvs key by (simp add: event_key_def payload_text_def)
  moreover have "payload_idempotency_key \<lparr>pay_json = aud_payload_json e, pay_hash = aud_payload_hash e\<rparr> = Inr key"
    using payload_idempotency_key_text [of "\<lparr>pay_json = aud_payload_json e, pay_hash = aud_payload_hash e\<rparr>" kvs key]
      kvs key by simp
  ultimately show "event_idempotency_key sha e = Inr (event_key e)" "is_audit_id (event_key e)"
    using key(2) event_audit_payload_valid [OF assms] by (simp_all add: event_idempotency_key_def)
qed

lemma verify_event_content_iff:
  assumes "validate_audit_event sha e = Inr e"
  shows "verify_event_content sha e = Inr u \<longleftrightarrow> sealed sha e"
proof -
  obtain kvs where kvs: "payload_text (aud_payload_json e) kvs"
    using assms by (auto simp: validate_audit_event_Inr)
  have "sha256_hex sha (pval_of_json (JObj kvs)) = Inr (sha (aud_payload_json e))"
    using kvs sha256_hex_bytes by (auto simp: payload_text_def simp del: pval_of_json.simps)
  then show ?thesis using assms event_payload_valid [OF kvs]
    by (auto simp: verify_event_content_def sealed_def Let_def simp del: pval_of_json.simps)
qed

lemma create_audit_event_Inr:
  assumes "create_audit_event sha stream_id n prev ty actor tm p = Inr e"
    and "pay_hash p = sha (pay_json p)"
  shows "sealed sha e" and "aud_stream_id e = stream_id" and "aud_sequence e = n"
    and "aud_previous_hash e = prev" and "aud_payload_json e = pay_json p" and "aud_event_type e = ty"
    and "aud_actor e = actor" and "aud_occurred_at e = tm"
proof -
  let ?e = "\<lparr>aud_event_id = '''', aud_stream_id = stream_id, aud_sequence = n,
            aud_previous_hash = prev, aud_event_type = ty, aud_actor = actor,
            aud_occurred_at = tm, aud_payload_hash = pay_hash p, aud_event_hash = '''',
            aud_content_hash = '''', aud_payload_json = pay_json p\<rparr>"
  obtain h where h: "audit_event_hash sha ?e = Inr h"
    and v: "validate_audit_event sha (?e\<lparr>aud_event_id := ''audit_'' @ h, aud_event_hash := h, aud_content_hash := h\<rparr>) = Inr e"
    using assms(1) unfolding create_audit_event_def Let_def by auto
  have e: "e = ?e\<lparr>aud_event_id := ''audit_'' @ h, aud_event_hash := h, aud_content_hash := h\<rparr>"
    using v by (simp only: validate_audit_event_Inr)
  have "audit_event_hash sha e = audit_event_hash sha ?e"
    by (simp add: e audit_event_hash_def audit_event_values_def)
  then show "sealed sha e" using h v assms(2) by (simp add: e sealed_def)
qed (use assms in \<open>auto simp: create_audit_event_def Let_def validate_audit_event_Inr\<close>)

lemma create_audit_event_eval:
  assumes "validate_payload sha p = Inr p"
    and "validate_audit_authority s ty w = Inr w" and "1 \<le> n" and "n \<le> MAX_SIGNED_64_BIT_INTEGER" and "is_hash prev"
    and e: "e = \<lparr>aud_event_id = ''audit_'' @ h, aud_stream_id = s, aud_sequence = n, aud_previous_hash = prev,
      aud_event_type = ty, aud_actor = w, aud_occurred_at = tm, aud_payload_hash = pay_hash p, aud_event_hash = h,
      aud_content_hash = h, aud_payload_json = pay_json p\<rparr>"
    and "sha256_hex sha (audit_event_values e) = Inr h" and "is_hash h"
  shows "create_audit_event sha s n prev ty w tm p = Inr e"
proof -
  let ?e = "e\<lparr>aud_event_id := '''', aud_event_hash := '''', aud_content_hash := ''''\<rparr>"
  have p: "is_hash (pay_hash p)" "\<exists>kvs. payload_text (pay_json p) kvs" using assms(1) unfolding validate_payload_iff by blast+
  have "audit_event_values ?e = audit_event_values e" by (simp add: audit_event_values_def)
  then have "audit_event_hash sha ?e = Inr h"
    using assms p by (simp add: audit_event_hash_def guard_audit_sequence_def guard_sha256_def)
  moreover have "validate_audit_event sha e = Inr e"
    using assms p by (simp add: validate_audit_event_Inr is_audit_event_id_def starts_with_def)
  ultimately show ?thesis using assms(2-5)
    by (simp add: create_audit_event_def Let_def e guard_audit_sequence_def guard_sha256_def)
qed

section \<open>Chains\<close>

definition stream_events :: "string \<Rightarrow> AuditEvent list \<Rightarrow> AuditEvent list" where
  "stream_events s es = filter (\<lambda>e. aud_stream_id e = s) es"

definition next_sequence_in :: "AuditEvent list \<Rightarrow> string \<Rightarrow> int" where
  "next_sequence_in es s = (if stream_events s es = [] then 1 else aud_sequence (last (stream_events s es)) + 1)"

definition last_hash_in :: "AuditEvent list \<Rightarrow> string \<Rightarrow> string" where
  "last_hash_in es s =
     (if stream_events s es = [] then AUDIT_GENESIS_HASH else aud_event_hash (last (stream_events s es)))"

definition event_identity :: "AuditEvent \<Rightarrow> string \<times> string" where
  "event_identity e = (aud_stream_id e, event_key e)"

definition event_order :: "AuditEvent \<Rightarrow> string \<times> int" where
  "event_order e = (aud_stream_id e, aud_sequence e)"

text \<open>An event continues the chain of its stream in a history of events.\<close>

definition continues :: "sha256 \<Rightarrow> AuditEvent list \<Rightarrow> AuditEvent \<Rightarrow> bool" where
  "continues sha es e \<longleftrightarrow> sealed sha e \<and> aud_sequence e = next_sequence_in es (aud_stream_id e) \<and>
     aud_previous_hash e = last_hash_in es (aud_stream_id e) \<and> event_identity e \<notin> event_identity ` set es"

text \<open>Every event of a history continues the events before it.\<close>

definition chained :: "sha256 \<Rightarrow> AuditEvent list \<Rightarrow> bool" where
  "chained sha es \<longleftrightarrow> (\<forall>i < length es. continues sha (take i es) (es ! i))"

lemma chained_Nil [simp]: "chained sha []"
  by (simp add: chained_def)

lemma chained_snoc [simp]: "chained sha (es @ [e]) \<longleftrightarrow> chained sha es \<and> continues sha es e"
  by (auto simp: chained_def nth_append less_Suc_eq)

lemma chained_sealed: "chained sha es \<Longrightarrow> e \<in> set es \<Longrightarrow> sealed sha e"
  by (auto simp: chained_def continues_def in_set_conv_nth)

definition head_of :: "AuditEvent \<Rightarrow> AuditStreamHead" where
  "head_of e = \<lparr>head_stream_id = aud_stream_id e, head_sequence = aud_sequence e, head_event_hash = aud_event_hash e\<rparr>"

definition heads_of :: "AuditEvent list \<Rightarrow> (string, AuditStreamHead) dict" where
  "heads_of es = fold (\<lambda>e. AList.update (aud_stream_id e) (head_of e)) es []"

lemma heads_of_snoc [simp]: "heads_of (es @ [e]) = AList.update (aud_stream_id e) (head_of e) (heads_of es)"
  by (simp add: heads_of_def)

lemma stream_events_snoc [simp]:
  "stream_events s (es @ [e]) = stream_events s es @ (if aud_stream_id e = s then [e] else [])"
  by (simp add: stream_events_def)

lemma map_of_heads_of:
  "map_of (heads_of es) s = (if stream_events s es = [] then None else Some (head_of (last (stream_events s es))))"
proof (induction es rule: rev_induct)
  case Nil
  show ?case by (simp add: heads_of_def stream_events_def)
next
  case (snoc e es)
  then show ?case by auto
qed

lemma foldE_snoc: "foldE f (xs @ [x]) st = bindE (foldE f xs st) (f x)"
proof (induction xs arbitrary: st)
  case Nil
  show ?case by (cases "f x st") simp_all
next
  case (Cons y ys)
  then show ?case by (cases "f y st") simp_all
qed

definition verification_of :: "AuditEvent list \<Rightarrow> verification" where
  "verification_of es = (heads_of es, rev (map event_identity es), if es = [] then None else Some (event_order (last es)))"

definition ordered_events :: "AuditEvent list \<Rightarrow> bool" where
  "ordered_events es \<longleftrightarrow> sorted_wrt (\<lambda>a b. event_order a < event_order b) es"

lemma ordered_events_snoc:
  "ordered_events (es @ [e]) \<longleftrightarrow> ordered_events es \<and> (es \<noteq> [] \<longrightarrow> event_order (last es) < event_order e)"
proof -
  have "event_order a \<le> event_order (last es)" if "ordered_events es" "a \<in> set es" for a
    using that by (cases es rule: rev_cases) (auto simp: ordered_events_def sorted_wrt_append less_imp_le)
  then show ?thesis by (auto simp: ordered_events_def sorted_wrt_append intro: le_less_trans)
qed

lemma validate_stream_head_of:
  assumes "validate_audit_event sha e = Inr e"
  shows "validate_stream_head (head_of e) = Inr (head_of e)"
  using assms
  by (auto simp: validate_stream_head_def head_of_def validate_audit_event_Inr validate_audit_authority_def
      guard_audit_sequence_def guard_sha256_def)

lemma verify_step_iff:
  assumes "validate_audit_event sha e = Inr e"
  shows "verify_step sha e (verification_of es) = Inr st \<longleftrightarrow>
    continues sha es e \<and> (es \<noteq> [] \<longrightarrow> event_order (last es) < event_order e) \<and> st = verification_of (es @ [e])"
proof -
  have seq: "(case map_of (heads_of es) (aud_stream_id e) of None \<Rightarrow> 1 | Some h \<Rightarrow> head_sequence h + 1) =
      next_sequence_in es (aud_stream_id e)"
    by (simp add: map_of_heads_of next_sequence_in_def head_of_def)
  have prev: "(case map_of (heads_of es) (aud_stream_id e) of None \<Rightarrow> AUDIT_GENESIS_HASH | Some h \<Rightarrow> head_event_hash h) =
      last_hash_in es (aud_stream_id e)"
    by (simp add: map_of_heads_of last_hash_in_def head_of_def)
  have key: "event_idempotency_key sha e = Inr (event_key e)" if "sealed sha e"
    using event_idempotency_key_valid assms that by (simp add: sealed_def)
  show ?thesis
    unfolding verify_step_def verification_of_def Let_def prod.case seq prev
    using verify_event_content_iff [OF assms] key validate_stream_head_of [OF assms]
    by (auto simp: continues_def event_identity_def event_order_def head_of_def not_le)
qed

lemma verify_fold_iff:
  assumes "\<And>e. e \<in> set es \<Longrightarrow> validate_audit_event sha e = Inr e"
  shows "foldE (verify_step sha) es ([], [], None) = Inr st \<longleftrightarrow>
    chained sha es \<and> ordered_events es \<and> st = verification_of es"
  using assms
proof (induction es arbitrary: st rule: rev_induct)
  case Nil
  show ?case by (auto simp: verification_of_def heads_of_def ordered_events_def)
next
  case (snoc e es)
  have IH: "foldE (verify_step sha) es ([], [], None) = Inr st \<longleftrightarrow>
      chained sha es \<and> ordered_events es \<and> st = verification_of es" for st
    using snoc by simp
  have e: "validate_audit_event sha e = Inr e" using snoc.prems by simp
  show ?case by (auto simp: foldE_snoc IH verify_step_iff [OF e] ordered_events_snoc)
qed

end
