(* ===== verification/Instants.thy ===== *)
theory Instants
  imports Canonical
begin

text \<open>
  The rendering of instants (\<open>canonical._datetime_text\<close>) is injective: the civil date determines
  the day, and the padded fields of the text determine the date and the time of day. Python's
  instants start at year 1, which is the bound of the theorem.
\<close>

section \<open>The day of a civil date\<close>

definition is_leap_year :: "int \<Rightarrow> bool" where
  "is_leap_year y \<longleftrightarrow> y mod 4 = 0 \<and> (y mod 100 \<noteq> 0 \<or> y mod 400 = 0)"

definition date_ordinal :: "int \<times> int \<times> int \<Rightarrow> int" where
  "date_ordinal = (\<lambda>(y, m, d). (y - 1) * 365 + (y - 1) div 4 - (y - 1) div 100 + (y - 1) div 400 +
     days_before_month m (is_leap_year y) + d - 1)"

lemma last_residue:
  fixes y :: int
  assumes "y = k * q + r" "0 \<le> r" "r < k"
  shows "(y + 1) mod k = 0 \<longleftrightarrow> r = k - 1"
proof (cases "r = k - 1")
  case True
  then have "y + 1 = k * (q + 1)" using assms(1) by (simp add: algebra_simps)
  with True show ?thesis by simp
next
  case False
  then have "(y + 1) mod k = r + 1" using assms by (intro int_mod_pos_eq [of _ _ q]) auto
  with False assms show ?thesis by simp
qed

lemma year_days:
  fixes a b c d :: int
  assumes "0 \<le> b" "b \<le> 3" "0 \<le> c" "c \<le> 24" "0 \<le> d" "d \<le> 3" and y: "y = a * 400 + b * 100 + c * 4 + d"
  shows "y div 4 = 100 * a + 25 * b + c" "y div 100 = 4 * a + b" "y div 400 = a"
    "is_leap_year (y + 1) \<longleftrightarrow> d = 3 \<and> (c \<noteq> 24 \<or> b = 3)"
proof -
  have q: "y = 4 * (100 * a + 25 * b + c) + d" "y = 100 * (4 * a + b) + (4 * c + d)" "y = 400 * a + (100 * b + 4 * c + d)"
    using y by simp_all
  show "y div 4 = 100 * a + 25 * b + c" using q(1) assms by (intro int_div_pos_eq [of _ _ _ d]) auto
  show "y div 100 = 4 * a + b" using q(2) assms by (intro int_div_pos_eq [of _ _ _ "4 * c + d"]) auto
  show "y div 400 = a" using q(3) assms by (intro int_div_pos_eq [of _ _ _ "100 * b + 4 * c + d"]) auto
  have "(y + 1) mod 4 = 0 \<longleftrightarrow> d = 3" using last_residue [OF q(1)] assms by auto
  moreover have "4 * c + d = 99 \<longleftrightarrow> d = 3 \<and> c = 24" using assms(3-6) by (intro iffI conjI; linarith)
  then have "(y + 1) mod 100 = 0 \<longleftrightarrow> d = 3 \<and> c = 24" using last_residue [OF q(2)] assms(3-6) by simp
  moreover have "100 * b + 4 * c + d = 399 \<longleftrightarrow> d = 3 \<and> c = 24 \<and> b = 3" using assms(1-6) by (intro iffI conjI; linarith)
  then have "(y + 1) mod 400 = 0 \<longleftrightarrow> d = 3 \<and> c = 24 \<and> b = 3" using last_residue [OF q(3)] assms(1-6) by simp
  ultimately show "is_leap_year (y + 1) \<longleftrightarrow> d = 3 \<and> (c \<noteq> 24 \<or> b = 3)" by (auto simp: is_leap_year_def)
qed

lemma date_of_cycles_ordinal:
  assumes "0 \<le> b" "b \<le> 3" "0 \<le> c" "c \<le> 24" "0 \<le> d" "d \<le> 3"
  shows "date_ordinal (date_of_cycles a b c d u) = a * 146097 + b * 36524 + c * 1461 + d * 365 + u"
    and "c \<noteq> 24 \<Longrightarrow> date_ordinal (date_of_cycles a b c 4 0) = a * 146097 + b * 36524 + c * 1461 + 4 * 365"
    and "date_ordinal (date_of_cycles a 4 0 0 0) = a * 146097 + 4 * 36524"
proof -
  define y where "y = a * 400 + b * 100 + c * 4 + d"
  have step: "date_of_cycles a b c d u = (y + 1, m, u - days_before_month m (is_leap_year (y + 1)) + 1)"
    if "m = (let leap = is_leap_year (y + 1); month = (u + 50) div 32 in if days_before_month month leap > u then month - 1 else month)" for m
    using assms year_days(4) [OF assms y_def] that by (simp add: date_of_cycles_def Let_def y_def add.commute add.left_commute)
  show "date_ordinal (date_of_cycles a b c d u) = a * 146097 + b * 36524 + c * 1461 + d * 365 + u"
    unfolding step [OF refl] using year_days(1-3) [OF assms y_def] by (simp add: date_ordinal_def) (simp add: y_def)
  show "date_ordinal (date_of_cycles a b c 4 0) = a * 146097 + b * 36524 + c * 1461 + 4 * 365" if "c \<noteq> 24"
  proof -
    define z where "z = a * 400 + b * 100 + c * 4 + 3"
    have z: "date_of_cycles a b c 4 0 = (z + 1, 12, 31)" by (simp add: date_of_cycles_def z_def)
    show ?thesis unfolding z using year_days [OF assms(1-4) _ _ z_def] that
      by (simp add: date_ordinal_def days_before_month_def) (simp add: z_def)
  qed
  show "date_ordinal (date_of_cycles a 4 0 0 0) = a * 146097 + 4 * 36524"
  proof -
    define z where "z = a * 400 + 3 * 100 + 24 * 4 + 3"
    have z: "date_of_cycles a 4 0 0 0 = (z + 1, 12, 31)" by (simp add: date_of_cycles_def z_def)
    show ?thesis unfolding z using year_days [OF _ _ _ _ _ _ z_def]
      by (simp add: date_ordinal_def days_before_month_def) (simp add: z_def)
  qed
qed

lemma civil_date_ordinal: "date_ordinal (civil_date days) = days + 719162"
proof -
  define n where "n = days + 719162"
  define r where "r = n mod 146097"
  define s where "s = r mod 36524"
  define t where "t = s mod 1461"
  define a b c d u where "a = n div 146097" and "b = r div 36524" and "c = s div 1461" and "d = t div 365" and "u = t mod 365"
  have r: "0 \<le> r" "r < 146097" "n = a * 146097 + r" by (simp_all add: r_def a_def)
  have s: "0 \<le> s" "s < 36524" "r = b * 36524 + s" by (simp_all add: s_def b_def)
  have t: "0 \<le> t" "t < 1461" "s = c * 1461 + t" by (simp_all add: t_def c_def)
  have u: "0 \<le> u" "u < 365" "t = d * 365 + u" by (simp_all add: u_def d_def)
  have b: "0 \<le> b" "b \<le> 4" "b = 4 \<Longrightarrow> s = 0" using r(1,2) s by linarith+
  have c: "0 \<le> c" "c \<le> 24" "c = 24 \<Longrightarrow> t < 1460" using s(1,2) t by linarith+
  have d: "0 \<le> d" "d \<le> 4" "d = 4 \<Longrightarrow> u = 0" using t(1,2) u by linarith+
  have n: "n = a * 146097 + b * 36524 + c * 1461 + d * 365 + u" using r s t u by simp
  have date: "civil_date days = date_of_cycles a b c d u"
    by (simp add: civil_date_def Let_def n_def r_def s_def t_def a_def b_def c_def d_def u_def)
  consider "b = 4" | "b \<noteq> 4" "d = 4" | "b \<noteq> 4" "d \<noteq> 4" by blast
  then have "date_ordinal (date_of_cycles a b c d u) = n"
  proof cases
    case 1
    then have "s = 0" using b by simp
    then have "c = 0" "d = 0" "u = 0" by (simp_all add: c_def d_def u_def t_def)
    with 1 n show ?thesis using date_of_cycles_ordinal(3) [of 0 0 0 a] by simp
  next
    case 2
    then have "u = 0" "c \<noteq> 24" using c d t u by auto
    with 2 n b c show ?thesis using date_of_cycles_ordinal(2) [of b c 0 a] by simp
  next
    case 3
    with n b c d show ?thesis using date_of_cycles_ordinal(1) [of b c d a u] by simp
  qed
  then show ?thesis by (simp add: date n_def)
qed

section \<open>The fields of the text\<close>

lemma month_of_day:
  fixes u :: int
  assumes "0 \<le> u" and "u < 365"
  defines "m \<equiv> (\<lambda>leap. let month = (u + 50) div 32 in if days_before_month month leap > u then month - 1 else month)"
  shows "0 \<le> m leap \<and> days_before_month (m leap) leap \<le> u"
proof -
  have "list_all (\<lambda>u. list_all (\<lambda>leap. let month = (u + 50) div 32;
      month = (if days_before_month month leap > u then month - 1 else month) in
      0 \<le> month \<and> days_before_month month leap \<le> u) [True, False]) (map int [0..<365])"
    by code_simp
  moreover have "u \<in> set (map int [0..<365])" using assms(1,2) by (simp add: image_iff) (metis atLeastLessThan_iff nat_0_le nat_less_iff of_nat_numeral zero_le)
  ultimately have "list_all (\<lambda>leap. let month = (u + 50) div 32;
      month = (if days_before_month month leap > u then month - 1 else month) in
      0 \<le> month \<and> days_before_month month leap \<le> u) [True, False]"
    unfolding list_all_iff [of _ "map int [0..<365]"] by blast
  then show ?thesis by (cases leap) (simp_all add: m_def Let_def)
qed

definition MIN_INSTANT :: int where "MIN_INSTANT = - 62135596800000000"

lemma civil_date_nonneg:
  assumes "0 \<le> days + 719162"
  shows "case civil_date days of (y, m, d) \<Rightarrow> 0 \<le> y \<and> 0 \<le> m \<and> 0 \<le> d"
proof -
  have "case date_of_cycles a b c d u of (y, m, d) \<Rightarrow> 0 \<le> y \<and> 0 \<le> m \<and> 0 \<le> d"
    if "0 \<le> a" "0 \<le> b" "0 \<le> c" "0 \<le> d" "0 \<le> u" "u < 365" for a b c d u
    using that month_of_day [OF that(5,6), of "d = 3 \<and> (c \<noteq> 24 \<or> b = 3)"]
    by (auto simp: date_of_cycles_def Let_def split: if_splits)
  then show ?thesis using assms
    by (simp add: civil_date_def Let_def pos_imp_zdiv_nonneg_iff)
qed

lemma pad_value: "0 \<le> n \<Longrightarrow> digits_value (pad w n) = n \<and> is_digits (pad w n)"
  using nat_text_value [of n]
  by (auto simp: pad_def Let_def digits_value_append is_digits_def list_all_iff is_digit_def)

lemma pad_prefix:
  assumes "pad w n @ c # s = pad w' n' @ c # s'" and "0 \<le> n" and "0 \<le> n'" and "\<not> is_digit c"
  shows "n = n' \<and> s = s'"
proof -
  have dig: "takeWhile is_digit (pad w k @ c # t) = pad w k" if "0 \<le> k" for w k t
    using pad_value [OF that, of w] assms(4) by (simp add: is_digits_def list_all_iff takeWhile_append2)
  have "pad w n = pad w' n'" using dig [OF assms(2), of w s] dig [OF assms(3), of w' s'] assms(1) by metis
  then show ?thesis using assms(1) pad_value [OF assms(2), of w] pad_value [OF assms(3), of w'] by simp
qed

lemma datetime_text_inj:
  assumes "datetime_text t = datetime_text t'" and "MIN_INSTANT \<le> t" and "MIN_INSTANT \<le> t'"
  shows "t = t'"
proof -
  define us s sod where "us = (\<lambda>t :: int. t mod 1000000)" and "s = (\<lambda>t :: int. t div 1000000)"
    and "sod = (\<lambda>t :: int. t div 1000000 mod 86400)"
  obtain y m d where date: "civil_date (s t div 86400) = (y, m, d)" by (metis prod_cases3)
  obtain y' m' d' where date': "civil_date (s t' div 86400) = (y', m', d')" by (metis prod_cases3)
  have day: "0 \<le> s x div 86400 + 719162" if "MIN_INSTANT \<le> x" for x
    using that by (simp add: MIN_INSTANT_def s_def)
  have nn: "0 \<le> y" "0 \<le> m" "0 \<le> d" "0 \<le> y'" "0 \<le> m'" "0 \<le> d'"
    using civil_date_nonneg [OF day [OF assms(2)]] civil_date_nonneg [OF day [OF assms(3)]] date date' by simp_all
  have render: "datetime_text x = pad 4 y @ CHR ''-'' # pad 2 m @ CHR ''-'' # pad 2 d @ CHR ''T'' #
      pad 2 (sod x div 3600) @ CHR '':'' # pad 2 (sod x div 60 mod 60) @ CHR '':'' # pad 2 (sod x mod 60) @
      CHR ''.'' # pad 6 (us x) @ CHR ''Z'' # []" if "civil_date (s x div 86400) = (y, m, d)" for x y m d
    using that by (simp add: datetime_text_def Let_def us_def s_def sod_def)
  note eq = assms(1) [unfolded render [OF date] render [OF date']]
  have pos: "0 \<le> sod x div 3600" "0 \<le> sod x div 60 mod 60" "0 \<le> sod x mod 60" "0 \<le> us x" for x
    by (simp_all add: sod_def us_def pos_imp_zdiv_nonneg_iff)
  have sep: "\<not> is_digit CHR ''-''" "\<not> is_digit CHR ''T''" "\<not> is_digit CHR '':''" "\<not> is_digit CHR ''.''" "\<not> is_digit CHR ''Z''"
    by (simp_all add: is_digit_def)
  note s1 = pad_prefix [OF eq nn(1,4) sep(1)]
  note s2 = pad_prefix [OF s1 [THEN conjunct2] nn(2,5) sep(1)]
  note s3 = pad_prefix [OF s2 [THEN conjunct2] nn(3,6) sep(2)]
  note s4 = pad_prefix [OF s3 [THEN conjunct2] pos(1) pos(1) sep(3)]
  note s5 = pad_prefix [OF s4 [THEN conjunct2] pos(2) pos(2) sep(3)]
  note s6 = pad_prefix [OF s5 [THEN conjunct2] pos(3) pos(3) sep(4)]
  note s7 = pad_prefix [OF s6 [THEN conjunct2] pos(4) pos(4) sep(5)]
  have "s t div 86400 = s t' div 86400"
    using civil_date_ordinal [of "s t div 86400"] civil_date_ordinal [of "s t' div 86400"] date date' s1 s2 s3 by simp
  moreover have hms: "x = x div 3600 * 3600 + x div 60 mod 60 * 60 + x mod 60" for x :: int
  proof -
    have "x div 60 = x div 60 div 60 * 60 + x div 60 mod 60" by simp
    moreover have "x div 60 div 60 = x div 3600" by (simp add: zdiv_zmult2_eq [symmetric])
    moreover have "x = x div 60 * 60 + x mod 60" by simp
    ultimately show ?thesis by linarith
  qed
  then have "sod t = sod t'" using s4 s5 s6 by metis
  moreover have "s x = s x div 86400 * 86400 + sod x" "x = s x * 1000000 + us x" for x
    by (simp_all add: s_def sod_def us_def)
  ultimately show ?thesis using s7 by metis
qed

end
