(* ===== verification/Audit_Chains.thy ===== *)
theory Audit_Chains
  imports Audit_Events Instants
begin

text \<open>
  What verification of an audit history means: \<open>verify_audit_chain\<close> accepts exactly the histories
  in which every event continues its stream, in stream order; the verified heads pin the whole
  history down unless SHA-256 collides; and appending keeps a stream verified, with a retried
  request finding its first event.
\<close>

section \<open>Verification in closed form\<close>

lemma sum_update:
  fixes f :: "'v \<Rightarrow> int"
  assumes "distinct (map fst d)" and "map_of d k = Some v"
  shows "sum_list (map f (map snd (AList.update k w d))) = sum_list (map f (map snd d)) - f v + f w"
  using assms by (induction d) (auto simp: image_iff)

lemma keys_update_old: "k \<in> fst ` set d \<Longrightarrow> map fst (AList.update k v d) = map fst d"
  by (induction d) auto

lemma map_snd_update:
  "map f (map snd d) = map fst d \<Longrightarrow> f w = k \<Longrightarrow> map f (map snd (AList.update k w d)) = map fst (AList.update k w d)"
  by (induction d) auto

lemma heads_of_report:
  assumes "chained sha es" and "ordered_events es"
  shows "sorted (map fst (heads_of es)) \<and> distinct (map fst (heads_of es)) \<and>
    map head_stream_id (map snd (heads_of es)) = map fst (heads_of es) \<and>
    (\<forall>e \<in> set es. \<forall>k \<in> set (map fst (heads_of es)). k \<le> aud_stream_id (last es)) \<and>
    sum_list (map head_sequence (map snd (heads_of es))) = int (length es)"
  using assms
proof (induction es rule: rev_induct)
  case Nil
  show ?case by (simp add: heads_of_def)
next
  case (snoc e es)
  let ?s = "aud_stream_id e" and ?d = "heads_of es"
  have IH: "sorted (map fst ?d)" "distinct (map fst ?d)" "map head_stream_id (map snd ?d) = map fst ?d"
      "es \<noteq> [] \<Longrightarrow> \<forall>k \<in> set (map fst ?d). k \<le> aud_stream_id (last es)"
      "sum_list (map head_sequence (map snd ?d)) = int (length es)"
    using snoc by (auto simp: ordered_events_snoc)
  have seq: "aud_sequence e = next_sequence_in es ?s" using snoc.prems by (simp add: continues_def)
  have le: "\<forall>k \<in> set (map fst ?d). k \<le> ?s"
  proof (cases "es = []")
    case True
    then show ?thesis by (simp add: heads_of_def)
  next
    case False
    then have "aud_stream_id (last es) \<le> ?s"
      using snoc.prems by (auto simp: ordered_events_snoc event_order_def less_prod_def)
    then show ?thesis using IH(4) [OF False] by force
  qed
  show ?case
  proof (cases "?s \<in> fst ` set ?d")
    case True
    then obtain h where h: "map_of ?d ?s = Some h" by (metis map_of_eq_None_iff not_None_eq)
    then have "aud_sequence e = head_sequence h + 1"
      using seq by (auto simp: map_of_heads_of next_sequence_in_def head_of_def split: if_splits)
    then have sum: "sum_list (map head_sequence (map snd (AList.update ?s (head_of e) ?d))) = int (length es) + 1"
      using sum_update [OF IH(2) h, of head_sequence "head_of e"] IH(5) by (simp add: head_of_def)
    have "map head_stream_id (map snd (AList.update ?s (head_of e) ?d)) = map fst (AList.update ?s (head_of e) ?d)"
      using IH(3) by (rule map_snd_update) (simp add: head_of_def)
    then show ?thesis using IH le keys_update_old [OF True, of "head_of e"] sum by simp
  next
    case False
    then have "stream_events ?s es = []" using map_of_heads_of [of es ?s]
      by (metis map_of_eq_None_iff option.distinct(1))
    then have "aud_sequence e = 1" using seq by (simp add: next_sequence_in_def)
    moreover have "\<forall>k \<in> set (map fst ?d). k < ?s" using le False by (force simp: image_iff order_le_less)
    ultimately show ?thesis using IH False le
      by (auto simp: update_nonkey head_of_def sorted_append)
  qed
qed

definition report_of :: "AuditEvent list \<Rightarrow> AuditVerificationReport" where
  "report_of es = \<lparr>report_event_count = int (length es), report_stream_heads = map snd (heads_of es)\<rparr>"

lemma verify_audit_chain_iff:
  assumes "\<And>e. e \<in> set es \<Longrightarrow> validate_audit_event sha e = Inr e"
  shows "verify_audit_chain sha es = Inr r \<longleftrightarrow> chained sha es \<and> ordered_events es \<and> r = report_of es"
proof -
  have "validate_verification_report (report_of es) = Inr (report_of es)" if "chained sha es" "ordered_events es"
  proof -
    note r = heads_of_report [OF that]
    have ids: "map head_stream_id (map snd (heads_of es)) = map fst (heads_of es)" using r by blast
    show ?thesis
      unfolding validate_verification_report_def report_of_def Let_def AuditVerificationReport.select_convs ids
      using r by (simp add: sorted_sort_id)
  qed
  then show ?thesis
    by (auto simp: verify_audit_chain_def verify_fold_iff [OF assms] verification_of_def report_of_def [symmetric])
qed

section \<open>The heads pin the history down\<close>

definition sha_collision :: "sha256 \<Rightarrow> bool" where
  "sha_collision sha \<longleftrightarrow> (\<exists>x y. x \<noteq> y \<and> sha x = sha y)"

lemma no_collisionD: "\<not> sha_collision sha \<Longrightarrow> sha x = sha y \<Longrightarrow> x = y"
  by (auto simp: sha_collision_def)

lemma int_length_pred: "xs \<noteq> [] \<Longrightarrow> int (length xs - Suc 0) + 1 = int (length xs)"
  by (cases xs) simp_all

lemma sha256_hex_binds:
  assumes "sha256_hex sha v = Inr h" and "sha256_hex sha w = Inr h" and "pwf v" and "pwf w" and "\<not> sha_collision sha"
  shows "jval v = jval w"
proof -
  obtain a b where ab: "canonical_json_bytes v = Inr a" "canonical_json_bytes w = Inr b" "sha a = h" "sha b = h"
    using assms(1,2) by (auto simp: sha256_hex_def)
  then have same: "a = b" using no_collisionD [OF assms(5)] by simp
  have "loads a = Some (jval v)" "loads b = Some (jval w)"
    using ab(1,2) assms(3,4) by (simp_all add: canonical_json_loads)
  with same show ?thesis by simp
qed

lemma writer_value_inj: "writer_value a = writer_value b \<Longrightarrow> a = b"
  by (cases a; cases b) simp_all

lemma event_hash_binds:
  assumes "sealed sha e" and "sealed sha e'" and "aud_event_hash e = aud_event_hash e'" and "\<not> sha_collision sha"
    and "MIN_INSTANT \<le> aud_occurred_at e" and "MIN_INSTANT \<le> aud_occurred_at e'"
  shows "e = e'"
proof -
  have "sha256_hex sha (audit_event_values e) = Inr (aud_event_hash e)"
    "sha256_hex sha (audit_event_values e') = Inr (aud_event_hash e)"
    using assms(1-3) by (auto simp: sealed_def audit_event_hash_def)
  then have "jval (audit_event_values e) = jval (audit_event_values e')"
    by (rule sha256_hex_binds) (simp_all add: audit_event_values_def assms(4))
  then have eq: "aud_stream_id e = aud_stream_id e'" "aud_sequence e = aud_sequence e'"
      "aud_previous_hash e = aud_previous_hash e'" "aud_event_type e = aud_event_type e'"
      "aud_actor e = aud_actor e'" "datetime_text (aud_occurred_at e) = datetime_text (aud_occurred_at e')"
      "aud_payload_hash e = aud_payload_hash e'"
    by (auto simp: audit_event_values_def intro: writer_value_inj)
  have "aud_occurred_at e = aud_occurred_at e'" using datetime_text_inj [OF eq(6) assms(5,6)] .
  moreover have "aud_payload_json e = aud_payload_json e'"
    using eq(7) assms(1,2,4) by (auto simp: sealed_def dest: no_collisionD)
  ultimately show ?thesis using eq assms(1-3) by (auto simp: sealed_def intro!: AuditEvent.equality)
qed

lemma stream_linked:
  assumes "chained sha es" and "i < length (stream_events s es)"
  shows "aud_sequence (stream_events s es ! i) = int i + 1"
    and "i \<noteq> 0 \<Longrightarrow> aud_previous_hash (stream_events s es ! i) = aud_event_hash (stream_events s es ! (i - 1))"
proof -
  have "\<forall>i < length (stream_events s es). aud_sequence (stream_events s es ! i) = int i + 1 \<and>
      (i \<noteq> 0 \<longrightarrow> aud_previous_hash (stream_events s es ! i) = aud_event_hash (stream_events s es ! (i - 1)))"
    using assms(1)
  proof (induction es rule: rev_induct)
    case Nil
    show ?case by (simp add: stream_events_def)
  next
    case (snoc e es)
    let ?a = "stream_events s es"
    have IH: "\<forall>i < length ?a. aud_sequence (?a ! i) = int i + 1 \<and>
        (i \<noteq> 0 \<longrightarrow> aud_previous_hash (?a ! i) = aud_event_hash (?a ! (i - 1)))" using snoc by simp
    have "?a \<noteq> [] \<Longrightarrow> aud_sequence (last ?a) = int (length ?a)" using IH by (simp add: last_conv_nth int_length_pred)
    then show ?case using snoc.prems IH
      by (auto simp: nth_append less_Suc_eq continues_def next_sequence_in_def last_hash_in_def last_conv_nth)
  qed
  then show "aud_sequence (stream_events s es ! i) = int i + 1"
    and "i \<noteq> 0 \<Longrightarrow> aud_previous_hash (stream_events s es ! i) = aud_event_hash (stream_events s es ! (i - 1))"
    using assms(2) by blast+
qed

lemma stream_determined:
  assumes chain: "chained sha es" "chained sha es'" and free: "\<not> sha_collision sha"
    and time: "\<And>e. e \<in> set es \<union> set es' \<Longrightarrow> MIN_INSTANT \<le> aud_occurred_at e"
    and ne: "stream_events s es \<noteq> []" "stream_events s es' \<noteq> []"
    and last: "aud_event_hash (last (stream_events s es)) = aud_event_hash (last (stream_events s es'))"
  shows "stream_events s es = stream_events s es'"
proof -
  let ?a = "stream_events s es" and ?b = "stream_events s es'"
  have mem: "e \<in> set ?a \<Longrightarrow> e \<in> set es" "e \<in> set ?b \<Longrightarrow> e \<in> set es'" for e by (auto simp: stream_events_def)
  have bind: "e = e'" if "e \<in> set ?a" "e' \<in> set ?b" "aud_event_hash e = aud_event_hash e'" for e e'
  proof (rule event_hash_binds [of sha])
    show "sealed sha e" using chained_sealed [OF chain(1)] mem(1) that(1) by blast
    show "sealed sha e'" using chained_sealed [OF chain(2)] mem(2) that(2) by blast
    show "MIN_INSTANT \<le> aud_occurred_at e" "MIN_INSTANT \<le> aud_occurred_at e'" using time mem that by blast+
  qed (use that(3) free in auto)
  have "last ?a = last ?b" using bind last ne by simp
  moreover have seq: "aud_sequence (last ?a) = int (length ?a)" "aud_sequence (last ?b) = int (length ?b)"
    using stream_linked(1) [OF chain(1), of "length ?a - 1" s] stream_linked(1) [OF chain(2), of "length ?b - 1" s] ne
    by (simp_all add: last_conv_nth int_length_pred)
  ultimately have len: "length ?a = length ?b" by simp
  have same: "?a ! (length ?a - 1 - k) = ?b ! (length ?a - 1 - k)" for k
  proof (induction k)
    case 0
    show ?case using \<open>last ?a = last ?b\<close> ne len by (simp add: last_conv_nth)
  next
    case (Suc k)
    show ?case
    proof (cases "Suc k < length ?a")
      case True
      let ?i = "length ?a - 1 - k"
      have i: "?i \<noteq> 0" "?i < length ?a" "length ?a - 1 - Suc k = ?i - 1" using True by auto
      have "aud_event_hash (?a ! (?i - 1)) = aud_event_hash (?b ! (?i - 1))"
        using stream_linked(2) [OF chain(1) i(2) i(1)] stream_linked(2) [OF chain(2), of ?i s] Suc i len by simp
      then show ?thesis unfolding i(3) using i len by (intro bind) auto
    next
      case False
      then have "length ?a - 1 - Suc k = 0" "length ?a - 1 - k = 0" by auto
      then show ?thesis using Suc by simp
    qed
  qed
  have "?a ! i = ?b ! i" if "i < length ?a" for i
    using same [of "length ?a - 1 - i"] that by simp
  then show ?thesis using len by (intro nth_equalityI) auto
qed

lemma ordered_events_unique:
  assumes "ordered_events es" and "ordered_events es'" and "set es = set es'"
  shows "es = es'"
proof -
  have strict: "sorted_wrt (<) (map event_order es)" "sorted_wrt (<) (map event_order es')"
    using assms by (simp_all add: ordered_events_def sorted_wrt_map)
  have keys: "map event_order es = map event_order es'"
    using strict assms(3) by (intro strict_sorted_equal) simp_all
  have "inj_on event_order (set es)"
  proof (rule inj_onI)
    fix x y assume "x \<in> set es" "y \<in> set es" "event_order x = event_order y"
    moreover have "distinct (map event_order es)" using strict(1) strict_sorted_iff by blast
    ultimately show "x = y" by (metis distinct_map inj_on_def)
  qed
  with keys assms(3) show ?thesis by (metis inj_on_map_eq_map sup.idem)
qed

lemma verified_heads_pin_history:
  assumes verified: "verify_audit_chain sha es = Inr r" "verify_audit_chain sha es' = Inr r"
    and valid: "\<And>e. e \<in> set es \<union> set es' \<Longrightarrow> validate_audit_event sha e = Inr e \<and> MIN_INSTANT \<le> aud_occurred_at e"
    and free: "\<not> sha_collision sha"
  shows "es = es'"
proof -
  have es: "chained sha es" "ordered_events es" "r = report_of es"
    using verified(1) valid verify_audit_chain_iff [of es sha] by auto
  have es': "chained sha es'" "ordered_events es'" "r = report_of es'"
    using verified(2) valid verify_audit_chain_iff [of es' sha] by auto
  have "map snd (heads_of es) = map snd (heads_of es')" using es(3) es'(3) by (simp add: report_of_def)
  moreover have "map fst (heads_of es) = map fst (heads_of es')"
    using calculation heads_of_report [OF es(1,2)] heads_of_report [OF es'(1,2)] by metis
  ultimately have heads: "heads_of es = heads_of es'" by (metis zip_map_fst_snd)
  have streams: "stream_events s es = stream_events s es'" for s
  proof (cases "stream_events s es = []")
    case True
    then show ?thesis using map_of_heads_of [of es s] map_of_heads_of [of es' s] heads by (simp split: if_splits)
  next
    case False
    then have "stream_events s es' \<noteq> []" "head_of (last (stream_events s es)) = head_of (last (stream_events s es'))"
      using map_of_heads_of [of es s] map_of_heads_of [of es' s] heads by (simp_all split: if_splits)
    with False show ?thesis using valid
      by (intro stream_determined [OF es(1) es'(1) free]) (auto simp: head_of_def)
  qed
  have "set es = set es'"
  proof (intro set_eqI)
    fix e
    show "e \<in> set es \<longleftrightarrow> e \<in> set es'"
      using streams [of "aud_stream_id e"] by (metis (mono_tags, lifting) mem_Collect_eq set_filter stream_events_def)
  qed
  then show ?thesis using es(2) es'(2) by (intro ordered_events_unique)
qed

section \<open>Appending\<close>

lemma find_snoc: "find P xs = None \<Longrightarrow> find P (xs @ [x]) = (if P x then Some x else None)"
  by (induction xs) (auto split: if_splits)

lemma find_retry_sealed:
  assumes "\<And>e. e \<in> set es \<Longrightarrow> sealed sha e"
  shows "find_retry sha key es = Inr (find (\<lambda>e. event_key e = key) es)"
  using assms
proof (induction es)
  case (Cons e es)
  then have "event_idempotency_key sha e = Inr (event_key e)"
    using event_idempotency_key_valid(1) [of sha e] by (simp add: sealed_def)
  with Cons show ?case by simp
qed simp

lemma event_audit_payload_sealed:
  "sealed sha e \<Longrightarrow> event_audit_payload sha e = Inr \<lparr>pay_json = aud_payload_json e, pay_hash = aud_payload_hash e\<rparr>"
  by (rule event_audit_payload_valid) (simp_all add: sealed_def)

lemma event_key_cong: "aud_payload_json e = aud_payload_json e' \<Longrightarrow> event_key e = event_key e'"
  by (simp add: event_key_def)

text \<open>A stored stream: the rows of one stream form a chain.\<close>

definition stored_stream :: "sha256 \<Rightarrow> string \<Rightarrow> AuditEvent list \<Rightarrow> bool" where
  "stored_stream sha s rows \<longleftrightarrow> chained sha rows \<and> (\<forall>e \<in> set rows. aud_stream_id e = s)"

lemma stored_stream_events: "stored_stream sha s rows \<Longrightarrow> stream_events s rows = rows"
  by (auto simp: stored_stream_def stream_events_def filter_id_conv)

lemma stored_stream_verifies:
  assumes "stored_stream sha s rows"
  shows "verify_audit_chain sha rows = Inr (report_of rows)"
proof -
  have "aud_sequence (rows ! i) = int i + 1" if "i < length rows" for i
    using stream_linked(1) [of sha rows i s] stored_stream_events [OF assms] assms that by (simp add: stored_stream_def)
  then have "ordered_events rows" using assms
    by (auto simp: ordered_events_def sorted_wrt_iff_nth_less event_order_def stored_stream_def)
  moreover have "validate_audit_event sha e = Inr e" if "e \<in> set rows" for e
    using assms that chained_sealed by (auto simp: stored_stream_def sealed_def)
  ultimately show ?thesis using verify_audit_chain_iff [of rows sha] assms by (auto simp: stored_stream_def)
qed

lemma append_cases:
  assumes stored: "stored_stream sha s rows" and payload: "validate_payload sha p = Inr p"
    and app: "append_audit sha w rows s ty tm p = Inr (e, rows')"
  obtains cand where "create_audit_event sha s 1 AUDIT_GENESIS_HASH ty w tm p = Inr cand" "same_append_request e cand"
    "event_key e = event_key cand" "stored_stream sha s rows'"
    "e \<in> set rows \<and> rows' = rows \<or> e \<notin> set rows \<and> rows' = rows @ [e]"
    "find (\<lambda>x. event_key x = event_key cand) rows' = Some e"
proof -
  have hash: "pay_hash p = sha (pay_json p)" using payload by (simp add: validate_payload_iff)
  obtain c where c: "create_audit_event sha s 1 AUDIT_GENESIS_HASH ty w tm p = Inr c"
    and app': "append_on_connection sha rows c = Inr (e, rows')"
    using app by (auto simp: append_audit_def)
  note cand = create_audit_event_Inr [OF c hash]
  have key: "event_idempotency_key sha c = Inr (event_key c)"
    using event_idempotency_key_valid(1) [of sha c] cand(1) by (simp add: sealed_def)
  have "\<And>x. x \<in> set rows \<Longrightarrow> sealed sha x" using stored chained_sealed by (auto simp: stored_stream_def)
  note retry = find_retry_sealed [of rows sha, OF this]
  show ?thesis
  proof (cases "rows = []")
    case True
    then have "e = c" "rows' = [c]" using app' by (auto simp: append_on_connection_def)
    moreover have "continues sha [] c"
      using cand by (simp add: continues_def next_sequence_in_def last_hash_in_def stream_events_def)
    ultimately show ?thesis using that [OF c] cand True chained_snoc [of sha "[]" c]
      by (simp add: stored_stream_def same_append_request_def)
  next
    case ne: False
    show ?thesis
    proof (cases "find (\<lambda>x. event_key x = event_key c) rows")
      case (Some prior)
      then have "e = prior" "rows' = rows" "same_append_request prior c"
        using app' ne stored_stream_verifies [OF stored] key retry by (auto simp: append_on_connection_def)
      moreover have "prior \<in> set rows" "event_key prior = event_key c"
        using Some by (auto simp: find_Some_iff)
      ultimately show ?thesis using that [OF c] stored Some by simp
    next
      case None
      then have created: "create_audit_event sha (aud_stream_id c) (aud_sequence (last rows) + 1) (aud_event_hash (last rows))
          (aud_event_type c) (aud_actor c) (aud_occurred_at c) \<lparr>pay_json = aud_payload_json c, pay_hash = aud_payload_hash c\<rparr> = Inr e"
        and rows': "rows' = rows @ [e]"
        using app' ne stored_stream_verifies [OF stored] key retry event_audit_payload_sealed [OF cand(1)]
        by (auto simp: append_on_connection_def)
      have "aud_payload_hash c = sha (aud_payload_json c)" using cand(1) by (simp add: sealed_def)
      note new = create_audit_event_Inr [OF created, simplified, OF this]
      have k: "event_key e = event_key c" using new(5) by (rule event_key_cong)
      have fresh: "event_key x \<noteq> event_key c" if "x \<in> set rows" for x
        using None that by (auto simp: find_None_iff)
      have "event_identity e \<notin> event_identity ` set rows"
      proof
        assume "event_identity e \<in> event_identity ` set rows"
        then obtain x where "x \<in> set rows" "event_key x = event_key e" by (auto simp: event_identity_def)
        with fresh k show False by metis
      qed
      then have "continues sha rows e"
        using new ne stored_stream_events [OF stored] cand(2)
        by (simp add: continues_def next_sequence_in_def last_hash_in_def)
      then have "stored_stream sha s rows'" using stored new(2) cand(2) by (simp add: stored_stream_def rows')
      moreover have "same_append_request e c" using new cand(1)
        by (simp add: same_append_request_def sealed_def)
      moreover have "e \<notin> set rows" using fresh k by blast
      moreover have "find (\<lambda>x. event_key x = event_key c) rows' = Some e"
        using find_snoc [OF None] k by (simp add: rows')
      ultimately show ?thesis using that [OF c] k rows' by blast
    qed
  qed
qed

lemma append_retry:
  assumes "stored_stream sha s rows" and "validate_payload sha p = Inr p"
    and "append_audit sha w rows s ty tm p = Inr (e, rows')"
  shows "append_audit sha w rows' s ty tm p = Inr (e, rows')"
proof (rule append_cases [OF assms])
  fix cand
  assume c: "create_audit_event sha s 1 AUDIT_GENESIS_HASH ty w tm p = Inr cand" and same: "same_append_request e cand"
    and stored: "stored_stream sha s rows'" and found: "find (\<lambda>x. event_key x = event_key cand) rows' = Some e"
  have "rows' \<noteq> []" using found by auto
  moreover have "find_retry sha k rows' = Inr (find (\<lambda>x. event_key x = k) rows')" for k
    using find_retry_sealed [of rows' sha k] stored chained_sealed by (auto simp: stored_stream_def)
  moreover have "event_idempotency_key sha cand = Inr (event_key cand)"
    using event_idempotency_key_valid(1) [of sha cand] create_audit_event_Inr(1) [OF c] assms(2)
    by (simp add: sealed_def validate_payload_iff)
  ultimately show ?thesis using c same found stored_stream_verifies [OF stored]
    by (simp add: append_audit_def append_on_connection_def)
qed

section \<open>Properties\<close>

text \<open>An example event, under a constant digest.\<close>

definition sample_stream :: string where
  "sample_stream = ''aqa_execution:'' @ sample_hash"

definition sample_audit_mapping :: "(string \<times> pval) list" where
  "sample_audit_mapping = [(''content_hash'', PStr sample_hash), (''count'', PInt 1),
     (''idempotency_key'', PStr (''plan_'' @ sample_hash))]"

definition sample_audit_payload :: AuditPayload where
  "sample_audit_payload = \<lparr>pay_json = dumps (jval (PMap sample_audit_mapping)), pay_hash = sample_hash\<rparr>"

definition sample_audit_event :: AuditEvent where
  "sample_audit_event = \<lparr>aud_event_id = ''audit_'' @ sample_hash, aud_stream_id = sample_stream, aud_sequence = 1,
     aud_previous_hash = AUDIT_GENESIS_HASH, aud_event_type = ''execution.plan_persisted'',
     aud_actor = EXECUTION_WRITER, aud_occurred_at = 0, aud_payload_hash = sample_hash,
     aud_event_hash = sample_hash, aud_content_hash = sample_hash, aud_payload_json = pay_json sample_audit_payload\<rparr>"

lemma sample_audit_payload_created:
  "payload_from_mapping (\<lambda>_. sample_hash) (PMap sample_audit_mapping) = Inr sample_audit_payload"
proof -
  let ?kvs = "[(''content_hash'', JStr sample_hash), (''count'', JInt 1), (''idempotency_key'', JStr (''plan_'' @ sample_hash))]"
  have j: "jval (PMap sample_audit_mapping) = JObj ?kvs" by code_simp
  have "payload_from_mapping (\<lambda>_. sample_hash) (PMap sample_audit_mapping) =
      Inr \<lparr>pay_json = dumps (JObj ?kvs), pay_hash = sample_hash\<rparr>"
  proof (rule payload_from_mapping_eval [OF _ _ j])
    show "within_limits (PMap sample_audit_mapping)" "pwf (PMap sample_audit_mapping)" by code_simp+
    show "within_limits (pval_of_json (JObj ?kvs))" "6 * ptext (PMap sample_audit_mapping) + 28 * pnodes (PMap sample_audit_mapping) \<le> 65540"
      "guards_ok (audit_object_guards ?kvs True)" by code_simp+
  qed (rule sample_hash_is_hash)
  then show ?thesis by (simp only: sample_audit_payload_def j)
qed

lemma sample_audit_payload_valid:
  "validate_payload (\<lambda>_. sample_hash) sample_audit_payload = Inr sample_audit_payload"
  by (rule payload_from_mapping_Inr [OF sample_audit_payload_created]) (auto simp: validate_payload_iff)

lemma sample_audit_event_created:
  "create_audit_event (\<lambda>_. sample_hash) sample_stream 1 AUDIT_GENESIS_HASH ''execution.plan_persisted'' EXECUTION_WRITER 0
     sample_audit_payload = Inr sample_audit_event"
proof (rule create_audit_event_eval [OF sample_audit_payload_valid])
  show "validate_audit_authority sample_stream ''execution.plan_persisted'' EXECUTION_WRITER = Inr EXECUTION_WRITER"
    by code_simp
  show "is_hash AUDIT_GENESIS_HASH" by code_simp
  show "sha256_hex (\<lambda>_. sample_hash) (audit_event_values sample_audit_event) = Inr sample_hash" by code_simp
qed (simp_all add: sample_audit_event_def sample_audit_payload_def MAX_SIGNED_64_BIT_INTEGER_def)

lemma sample_append:
  "append_audit (\<lambda>_. sample_hash) EXECUTION_WRITER [] sample_stream ''execution.plan_persisted'' 0 sample_audit_payload =
     Inr (sample_audit_event, [sample_audit_event])"
  by (simp add: append_audit_def sample_audit_event_created append_on_connection_def)

lemma sample_stored: "stored_stream (\<lambda>_. sample_hash) sample_stream [sample_audit_event]"
  by (rule append_cases [OF _ sample_audit_payload_valid sample_append]) (auto simp: stored_stream_def)

lemma sample_audit_event_valid: "validate_audit_event (\<lambda>_. sample_hash) sample_audit_event = Inr sample_audit_event"
  using chained_sealed [of _ "[sample_audit_event]" sample_audit_event] sample_stored
  by (simp add: stored_stream_def sealed_def)

text \<open>
  C31. What audit verification accepts: \<open>verify_audit_chain\<close> succeeds on exactly the histories in
  stream and sequence order in which every event carries the hashes derived from its content,
  the next sequence number of its stream, the hash of its predecessor (or the genesis hash) and a
  new idempotency key; the report then lists each stream with its last event. The consistency
  checks of the report itself never reject such a history.
\<close>

theorem audit_verification_closed_form:
  assumes "\<And>e. e \<in> set es \<Longrightarrow> validate_audit_event sha e = Inr e"
  shows "verify_audit_chain sha es = Inr r \<longleftrightarrow> chained sha es \<and> ordered_events es \<and> r = report_of es"
  using assms by (rule verify_audit_chain_iff)

theorem audit_verification_closed_form_witness:
  "verify_audit_chain (\<lambda>_. sample_hash) [sample_audit_event] = Inr (report_of [sample_audit_event]) \<longleftrightarrow>
     chained (\<lambda>_. sample_hash) [sample_audit_event] \<and> ordered_events [sample_audit_event] \<and>
     report_of [sample_audit_event] = report_of [sample_audit_event]"
  by (rule audit_verification_closed_form) (simp add: sample_audit_event_valid)

text \<open>
  C13. Tamper evidence: if two audit histories verify with the same report, that is with the same
  last sequence number and event hash for every stream, then they are the same history, event by
  event and field by field, or the digest function has a collision. Altering, dropping,
  reordering or inserting an event is therefore visible in the heads.
\<close>

theorem audit_heads_pin_history:
  assumes "verify_audit_chain sha es = Inr r" and "verify_audit_chain sha es' = Inr r"
    and "\<And>e. e \<in> set es \<union> set es' \<Longrightarrow> validate_audit_event sha e = Inr e \<and> MIN_INSTANT \<le> aud_occurred_at e"
  shows "es = es' \<or> (\<exists>x y. x \<noteq> y \<and> sha x = sha y)"
  using verified_heads_pin_history [OF assms] by (auto simp: sha_collision_def)

theorem audit_heads_pin_history_witness:
  "[sample_audit_event] = [sample_audit_event] \<or> (\<exists>x y :: string. x \<noteq> y \<and> (\<lambda>_. sample_hash) x = (\<lambda>_. sample_hash) y)"
proof (rule audit_heads_pin_history)
  show "verify_audit_chain (\<lambda>_. sample_hash) [sample_audit_event] = Inr (report_of [sample_audit_event])"
    using stored_stream_verifies [OF sample_stored] .
  then show "verify_audit_chain (\<lambda>_. sample_hash) [sample_audit_event] = Inr (report_of [sample_audit_event])" .
qed (auto simp: sample_audit_event_valid, simp add: sample_audit_event_def MIN_INSTANT_def)

text \<open>
  C12. Appending to a stored audit stream: the rows stay a verified chain of the stream; either the
  event of an earlier request with the same idempotency key and the same content is returned and
  nothing is stored, or one event is added at the end; and repeating the request returns the same
  event and stores nothing.
\<close>

theorem audit_append_chain_and_retry:
  assumes "stored_stream sha s rows" and "validate_payload sha p = Inr p"
    and "append_audit sha w rows s ty tm p = Inr (e, rows')"
  shows "stored_stream sha s rows' \<and> verify_audit_chain sha rows' = Inr (report_of rows') \<and>
    (e \<in> set rows \<and> rows' = rows \<or> e \<notin> set rows \<and> rows' = rows @ [e]) \<and>
    append_audit sha w rows' s ty tm p = Inr (e, rows')"
  using append_cases [OF assms] append_retry [OF assms] stored_stream_verifies by metis

theorem audit_append_chain_and_retry_witness:
  "stored_stream (\<lambda>_. sample_hash) sample_stream [sample_audit_event] \<and>
   verify_audit_chain (\<lambda>_. sample_hash) [sample_audit_event] = Inr (report_of [sample_audit_event]) \<and>
   (sample_audit_event \<in> set [] \<and> [sample_audit_event] = [] \<or>
    sample_audit_event \<notin> set [] \<and> [sample_audit_event] = [] @ [sample_audit_event]) \<and>
   append_audit (\<lambda>_. sample_hash) EXECUTION_WRITER [sample_audit_event] sample_stream ''execution.plan_persisted'' 0
     sample_audit_payload = Inr (sample_audit_event, [sample_audit_event])"
  by (rule audit_append_chain_and_retry [OF _ sample_audit_payload_valid sample_append]) (simp add: stored_stream_def)

end
