(* ===== verification/Experiments.thy ===== *)
theory Experiments
  imports Risk_Policy
begin

text \<open>
  The immutable experiment: the symbol roles of \<open>universe.py\<close> and, of \<open>config.py\<close>, the market data,
  session and risk group specifications, \<open>ExperimentDefinition\<close> with its validators and content hash,
  and the closed runtime modes. A violated validator is a \<open>ValueError\<close> (pydantic reports it as a
  \<open>ValidationError\<close>). Reading the definition from a YAML file is not modelled.
\<close>

section \<open>Symbols and roles\<close>

datatype SymbolRole = ACTIVE_TRADABLE | BENCHMARK_ONLY | CONTEXT_ONLY | EXCLUDED

definition is_ascii :: "string \<Rightarrow> bool" where
  "is_ascii s \<longleftrightarrow> list_all (\<lambda>c. (of_char c :: nat) < 128) s"

definition normalize_symbol :: "nat \<Rightarrow> string \<Rightarrow> string res" where
  "normalize_symbol index s =
     guarded [(\<not> is_ascii s \<or> \<not> is_symbol (map upper_char s),
       ValueError (''symbol at index '' @ nat_text (int index) @ '' has an invalid format''))]
     (Inr (map upper_char s))"

definition normalize_symbol_tuple :: "string list \<Rightarrow> string list res" where
  "normalize_symbol_tuple ss =
     bindE (mapE (\<lambda>(i, s). normalize_symbol i s) (List.enumerate 0 ss)) (\<lambda>normalized.
       guarded [(\<not> distinct normalized, ValueError ''symbol collection contains duplicates after normalization'')]
       (Inr (sort normalized)))"

record UniverseSpec =
  active_tradable :: "string list"
  benchmark_only :: "string list"
  context_only :: "string list"
  excluded :: "string list"

definition role_guards :: "'a UniverseSpec_scheme \<Rightarrow> (bool \<times> error) list" where
  "role_guards u =
     [(active_tradable u = [], ValueError ''active_tradable must contain at least one symbol''),
      (\<not> distinct (active_tradable u @ benchmark_only u @ context_only u @ excluded u),
        ValueError ''symbol roles must be disjoint'')]"

definition collection_allowlist :: "'a UniverseSpec_scheme \<Rightarrow> string list" where
  "collection_allowlist u = sort (active_tradable u @ benchmark_only u @ context_only u)"

definition order_allowlist :: "'a UniverseSpec_scheme \<Rightarrow> string list" where
  "order_allowlist u = active_tradable u"

definition all_symbols :: "'a UniverseSpec_scheme \<Rightarrow> string list" where
  "all_symbols u = sort (active_tradable u @ benchmark_only u @ context_only u @ excluded u)"

definition role_for :: "'a UniverseSpec_scheme \<Rightarrow> string \<Rightarrow> SymbolRole res" where
  "role_for u s =
     bindE (normalize_symbol 0 s) (\<lambda>n.
       if n \<in> set (active_tradable u) then Inr ACTIVE_TRADABLE
       else if n \<in> set (benchmark_only u) then Inr BENCHMARK_ONLY
       else if n \<in> set (context_only u) then Inr CONTEXT_ONLY
       else if n \<in> set (excluded u) then Inr EXCLUDED
       else Inl (KeyError n))"

definition permits_collection :: "'a UniverseSpec_scheme \<Rightarrow> string \<Rightarrow> bool" where
  "permits_collection u s =
     (case normalize_symbol 0 s of Inl _ \<Rightarrow> False | Inr n \<Rightarrow> n \<in> set (collection_allowlist u))"

definition permits_order :: "'a UniverseSpec_scheme \<Rightarrow> string \<Rightarrow> bool" where
  "permits_order u s =
     (case normalize_symbol 0 s of Inl _ \<Rightarrow> False | Inr n \<Rightarrow> n \<in> set (order_allowlist u))"

section \<open>Experiments\<close>

record MarketDataSpec =
  md_provider :: string
  md_feed :: string
  md_adjustment :: string
  md_source_timeframe :: string
  md_decision_timeframe :: string
  md_exchange_calendar :: string
  md_regular_hours_only :: bool

definition token_guard :: "string \<Rightarrow> string \<Rightarrow> bool \<times> error" where
  "token_guard s field = (\<not> is_account_id s, ValueError (field @ '' must be a bounded ASCII token''))"

definition market_data_guards :: "MarketDataSpec \<Rightarrow> (bool \<times> error) list" where
  "market_data_guards m =
     [token_guard (md_provider m) ''provider'', token_guard (md_feed m) ''feed'',
      token_guard (md_adjustment m) ''adjustment'', token_guard (md_source_timeframe m) ''source_timeframe'',
      token_guard (md_decision_timeframe m) ''decision_timeframe'',
      token_guard (md_exchange_calendar m) ''exchange_calendar'']"

record SessionSpec =
  se_open :: string
  se_close :: string
  se_first_strategy_bar_close :: string
  se_last_strategy_bar_close :: string
  se_decision_ready_delay_seconds :: int
  se_decision_deadline_delay_seconds :: int
  se_forced_flat_target_time :: string
  se_forced_flat_submit_deadline :: string
  se_required_flat_time :: string

text \<open>\<open>HH:MM:SS\<close> in 24 hours.\<close>

definition is_time :: "string \<Rightarrow> bool" where
  "is_time s \<longleftrightarrow> (case s of
     [h1, h0, c1, m1, m0, c2, s1, s0] \<Rightarrow>
       (h1 \<in> set ''01'' \<and> is_digit h0 \<or> h1 = CHR ''2'' \<and> h0 \<in> set ''0123'') \<and> c1 = CHR '':'' \<and>
       m1 \<in> set ''012345'' \<and> is_digit m0 \<and> c2 = CHR '':'' \<and> s1 \<in> set ''012345'' \<and> is_digit s0
   | _ \<Rightarrow> False)"

definition time_guard :: "string \<Rightarrow> string \<Rightarrow> bool \<times> error" where
  "time_guard s field = (\<not> is_time s, ValueError (field @ '' must use zero-padded HH:MM:SS''))"

definition seconds_since_midnight :: "string \<Rightarrow> int" where
  "seconds_since_midnight s =
     (case map digits_value (split_on CHR '':'' s) of [h, m, sec] \<Rightarrow> h * 60 * 60 + m * 60 + sec | _ \<Rightarrow> 0)"

definition delay_guard :: "int \<Rightarrow> string \<Rightarrow> bool \<times> error" where
  "delay_guard n field = (\<not> (0 < n \<and> n \<le> 3600), ValueError (field @ '' is out of range''))"

definition session_guards :: "SessionSpec \<Rightarrow> (bool \<times> error) list" where
  "session_guards s =
     [time_guard (se_open s) ''open'', time_guard (se_close s) ''close'',
      time_guard (se_first_strategy_bar_close s) ''first_strategy_bar_close'',
      time_guard (se_last_strategy_bar_close s) ''last_strategy_bar_close'',
      delay_guard (se_decision_ready_delay_seconds s) ''decision_ready_delay_seconds'',
      delay_guard (se_decision_deadline_delay_seconds s) ''decision_deadline_delay_seconds'',
      time_guard (se_forced_flat_target_time s) ''forced_flat_target_time'',
      time_guard (se_forced_flat_submit_deadline s) ''forced_flat_submit_deadline'',
      time_guard (se_required_flat_time s) ''required_flat_time'',
      (\<not> (se_open s < se_first_strategy_bar_close s \<and>
          se_first_strategy_bar_close s \<le> se_last_strategy_bar_close s \<and>
          se_last_strategy_bar_close s < se_forced_flat_target_time s \<and>
          se_forced_flat_target_time s < se_forced_flat_submit_deadline s \<and>
          se_forced_flat_submit_deadline s < se_required_flat_time s \<and> se_required_flat_time s < se_close s),
        ValueError ''session times must follow the required chronological order''),
      (se_decision_ready_delay_seconds s > se_decision_deadline_delay_seconds s,
        ValueError ''decision readiness cannot follow the decision deadline''),
      (seconds_since_midnight (se_last_strategy_bar_close s) + se_decision_deadline_delay_seconds s
          \<ge> seconds_since_midnight (se_forced_flat_target_time s),
        ValueError ''the final decision deadline must precede forced flattening'')]"

record ExperimentDefinition = UniverseSpec +
  schema_version :: int
  experiment_id :: string
  experiment_version :: int
  market_data :: MarketDataSpec
  session :: SessionSpec
  risk_groups :: "RiskGroupSpec list"
  risk_policy :: RiskPolicySpec

definition experiment_group_guards :: "ExperimentDefinition \<Rightarrow> (bool \<times> error) list" where
  "experiment_group_guards x =
     (let grouped = concat (map group_symbols (risk_groups x)) in
      [(risk_groups x = [], ValueError ''risk_groups must not be empty''),
       (\<not> distinct (map group_id (risk_groups x)), ValueError ''risk group ids must be unique''),
       (\<not> distinct grouped, ValueError ''a symbol cannot belong to multiple risk groups''),
       (set grouped \<noteq> set (active_tradable x), ValueError ''risk groups must partition active_tradable''),
       (\<exists>g \<in> set (risk_groups x). dlt (max_gross_weight (risk_policy x)) (group_max_gross_weight g),
         ValueError ''risk group gross limit cannot exceed the policy gross limit'')])"

definition config_decimal :: "decimal \<Rightarrow> bool" where
  "config_decimal d \<longleftrightarrow> ndigits \<bar>coeff d\<bar> \<le> 64 \<and> - 64 \<le> expo d \<and> expo d \<le> 64"

definition config_decimal_guard :: "decimal \<Rightarrow> string \<Rightarrow> bool \<times> error" where
  "config_decimal_guard d field =
     (\<not> config_decimal d, ValueError (field @ '' exceeds the decimal representation limit''))"

definition group_guards :: "RiskGroupSpec \<Rightarrow> (bool \<times> error) list" where
  "group_guards g =
     [(\<not> is_safe_code (group_id g), ValueError ''risk group id must be a lowercase ASCII identifier''),
      (group_symbols g = [], ValueError ''risk group symbols must not be empty''),
      config_decimal_guard (group_max_gross_weight g) ''max_gross_weight'',
      (\<not> validate_limit g, ValueError ''max_gross_weight must be greater than zero and at most one'')]"

definition policy_value_guards :: "RiskPolicySpec \<Rightarrow> (bool \<times> error) list" where
  "policy_value_guards p =
     [(\<not> (dlt dzero (max_absolute_symbol_weight p) \<and> dle (max_absolute_symbol_weight p) dunit),
        ValueError ''max_absolute_symbol_weight must be in (0, 1]''),
      (\<not> (dlt dzero (max_gross_weight p) \<and> dle (max_gross_weight p) dunit),
        ValueError ''max_gross_weight must be in (0, 1]''),
      (dlt (max_gross_weight p) (max_absolute_symbol_weight p),
        ValueError ''symbol weight cannot exceed the gross limit''),
      (\<not> (dle (Dec (- coeff (max_gross_weight p)) (expo (max_gross_weight p))) (min_net_weight p) \<and>
          dle (min_net_weight p) (max_net_weight p)),
        ValueError ''net weight limits are inconsistent with gross exposure''),
      (dlt (max_gross_weight p) (max_net_weight p),
        ValueError ''net weight limits are inconsistent with gross exposure''),
      (\<not> (dlt dzero (max_cluster_gross_weight p) \<and> dle (max_cluster_gross_weight p) (max_gross_weight p)),
        ValueError ''max_cluster_gross_weight must be in (0, max_gross_weight]''),
      (\<not> (dle dzero (correlation_edge_threshold p) \<and> dle (correlation_edge_threshold p) dunit),
        ValueError ''correlation_edge_threshold must be in [0, 1]''),
      (\<not> (dle dzero (minimum_rebalance_equity_fraction p) \<and> dle (minimum_rebalance_equity_fraction p) dunit),
        ValueError ''minimum_rebalance_equity_fraction must be in [0, 1]''),
      (\<not> (dle (Dec (- 1) 0) (session_loss_trigger p) \<and> dlt (session_loss_trigger p) dzero),
        ValueError ''session_loss_trigger must be in [-1, 0)''),
      (\<not> (dle (Dec (- 1) 0) (deployment_drawdown_trigger p) \<and> dlt (deployment_drawdown_trigger p) dzero),
        ValueError ''deployment_drawdown_trigger must be in [-1, 0)''),
      (dlt (session_loss_trigger p) (deployment_drawdown_trigger p),
        ValueError ''deployment drawdown must not be shallower than session loss''),
      (list_ex (\<lambda>v. dle v dzero) [target_annualized_volatility p, sigma_floor p, edge_saturation_bps p,
          covariance_eigenvalue_floor p],
        ValueError ''volatility, saturation, and eigenvalue values must be positive'')]"

definition policy_spec_guards :: "RiskPolicySpec \<Rightarrow> (bool \<times> error) list" where
  "policy_spec_guards p =
     [(\<not> is_safe_code (policy_name p), ValueError ''risk policy id must be a lowercase ASCII identifier''),
      (policy_version p < 1 \<or> policy_version p > MAX_SIGNED_64_BIT_INTEGER, ValueError ''version is out of range'')] @
     map (\<lambda>(d, field). config_decimal_guard d field)
       [(max_absolute_symbol_weight p, ''max_absolute_symbol_weight''), (max_gross_weight p, ''max_gross_weight''),
        (min_net_weight p, ''min_net_weight''), (max_net_weight p, ''max_net_weight''),
        (max_cluster_gross_weight p, ''max_cluster_gross_weight''),
        (correlation_edge_threshold p, ''correlation_edge_threshold''),
        (minimum_rebalance_equity_fraction p, ''minimum_rebalance_equity_fraction''),
        (session_loss_trigger p, ''session_loss_trigger''),
        (deployment_drawdown_trigger p, ''deployment_drawdown_trigger''),
        (target_annualized_volatility p, ''target_annualized_volatility''), (sigma_floor p, ''sigma_floor''),
        (edge_saturation_bps p, ''edge_saturation_bps''),
        (covariance_eigenvalue_floor p, ''covariance_eigenvalue_floor'')] @
     policy_value_guards p"

definition normalize_group :: "RiskGroupSpec \<Rightarrow> RiskGroupSpec res" where
  "normalize_group g =
     bindE (normalize_symbol_tuple (group_symbols g)) (\<lambda>ss. Inr (g\<lparr>group_symbols := ss\<rparr>))"

text \<open>
  The field validators normalize the symbols of the roles and groups and order the groups; the model
  validators then check the normalized definition.
\<close>

definition validate_experiment :: "ExperimentDefinition \<Rightarrow> ExperimentDefinition res" where
  "validate_experiment x =
     bindE (normalize_symbol_tuple (active_tradable x)) (\<lambda>active.
     bindE (normalize_symbol_tuple (benchmark_only x)) (\<lambda>benchmark.
     bindE (normalize_symbol_tuple (context_only x)) (\<lambda>ctx.
     bindE (normalize_symbol_tuple (excluded x)) (\<lambda>exc.
     bindE (mapE normalize_group (risk_groups x)) (\<lambda>groups.
     let y = x\<lparr>active_tradable := active, benchmark_only := benchmark, context_only := ctx, excluded := exc,
           risk_groups := sort_key group_id groups\<rparr> in
     guarded
       ([(schema_version y \<noteq> 1, ValueError ''schema_version must be integer 1''),
         (\<not> is_safe_code (experiment_id y), ValueError ''experiment_id must be a lowercase ASCII identifier''),
         (experiment_version y < 1 \<or> experiment_version y > MAX_SIGNED_64_BIT_INTEGER,
           ValueError ''experiment_version is out of range'')] @
        market_data_guards (market_data y) @ session_guards (session y) @
        concat (map group_guards (risk_groups y)) @ policy_spec_guards (risk_policy y) @
        role_guards y @ experiment_group_guards y)
     (Inr y))))))"

definition group_payload :: "RiskGroupSpec \<Rightarrow> pval" where
  "group_payload g = PMap [(''id'', PStr (group_id g)), (''max_gross_weight'', PDec (group_max_gross_weight g)),
     (''symbols'', PSeq (map PStr (group_symbols g)))]"

definition policy_payload :: "RiskPolicySpec \<Rightarrow> pval" where
  "policy_payload p = PMap
     [(''correlation_edge_threshold'', PDec (correlation_edge_threshold p)),
      (''covariance_eigenvalue_floor'', PDec (covariance_eigenvalue_floor p)),
      (''deployment_drawdown_trigger'', PDec (deployment_drawdown_trigger p)),
      (''edge_saturation_bps'', PDec (edge_saturation_bps p)),
      (''id'', PStr (policy_name p)),
      (''max_absolute_symbol_weight'', PDec (max_absolute_symbol_weight p)),
      (''max_cluster_gross_weight'', PDec (max_cluster_gross_weight p)),
      (''max_gross_weight'', PDec (max_gross_weight p)),
      (''max_net_weight'', PDec (max_net_weight p)),
      (''min_net_weight'', PDec (min_net_weight p)),
      (''minimum_rebalance_equity_fraction'', PDec (minimum_rebalance_equity_fraction p)),
      (''session_loss_trigger'', PDec (session_loss_trigger p)),
      (''sigma_floor'', PDec (sigma_floor p)),
      (''target_annualized_volatility'', PDec (target_annualized_volatility p)),
      (''version'', PInt (policy_version p))]"

definition experiment_payload :: "ExperimentDefinition \<Rightarrow> pval" where
  "experiment_payload x = PMap
     [(''active_tradable'', PSeq (map PStr (active_tradable x))),
      (''benchmark_only'', PSeq (map PStr (benchmark_only x))),
      (''context_only'', PSeq (map PStr (context_only x))),
      (''excluded'', PSeq (map PStr (excluded x))),
      (''experiment_id'', PStr (experiment_id x)),
      (''experiment_version'', PInt (experiment_version x)),
      (''market_data'', PMap
         [(''adjustment'', PStr (md_adjustment (market_data x))),
          (''decision_timeframe'', PStr (md_decision_timeframe (market_data x))),
          (''exchange_calendar'', PStr (md_exchange_calendar (market_data x))),
          (''feed'', PStr (md_feed (market_data x))),
          (''provider'', PStr (md_provider (market_data x))),
          (''regular_hours_only'', PBool (md_regular_hours_only (market_data x))),
          (''source_timeframe'', PStr (md_source_timeframe (market_data x)))]),
      (''risk_groups'', PSeq (map group_payload (risk_groups x))),
      (''risk_policy'', policy_payload (risk_policy x)),
      (''schema_version'', PInt (schema_version x)),
      (''session'', PMap
         [(''close'', PStr (se_close (session x))),
          (''decision_deadline_delay_seconds'', PInt (se_decision_deadline_delay_seconds (session x))),
          (''decision_ready_delay_seconds'', PInt (se_decision_ready_delay_seconds (session x))),
          (''first_strategy_bar_close'', PStr (se_first_strategy_bar_close (session x))),
          (''forced_flat_submit_deadline'', PStr (se_forced_flat_submit_deadline (session x))),
          (''forced_flat_target_time'', PStr (se_forced_flat_target_time (session x))),
          (''last_strategy_bar_close'', PStr (se_last_strategy_bar_close (session x))),
          (''open'', PStr (se_open (session x))),
          (''required_flat_time'', PStr (se_required_flat_time (session x)))])]"

definition experiment_hash :: "sha256 \<Rightarrow> ExperimentDefinition \<Rightarrow> string res" where
  "experiment_hash sha x = sha256_hex sha (experiment_payload x)"

text \<open>\<open>risk.policy.policy_hash\<close>.\<close>

definition policy_hash :: "sha256 \<Rightarrow> RiskPolicySpec \<Rightarrow> RiskGroupSpec list \<Rightarrow> string res" where
  "policy_hash sha p gs =
     guarded (risk_group_guards gs None @ policy_guards p)
     (sha256_hex sha (PMap
       [(''policy'', policy_payload p), (''risk_groups'', PSeq (map group_payload gs)),
        (''schema'', PStr ''signed-risk-policy-v1'')]))"

text \<open>An optional field of a hashed record.\<close>

definition optional_pval :: "('a \<Rightarrow> pval) \<Rightarrow> 'a option \<Rightarrow> pval" where
  "optional_pval f x = (case x of None \<Rightarrow> PNone | Some v \<Rightarrow> f v)"

section \<open>Modes\<close>

datatype ExecutionMode = OFFLINE_MODE | SHADOW_MODE | PAPER_MODE

datatype BrokerAdapter = FAKE_ADAPTER | NO_ADAPTER | ALPACA_PAPER_ADAPTER

section \<open>What a validated experiment guarantees\<close>

lemma normalize_symbol_tuple_Inr:
  assumes "normalize_symbol_tuple ss = Inr ns"
  shows "sorted ns" "distinct ns" "list_all is_symbol ns"
  using assms
  by (auto simp: normalize_symbol_tuple_def normalize_symbol_def list_all_iff elim!: mapE_in_set split: prod.splits)

lemma policy_value_guards_ok [simp]: "guards_ok (policy_value_guards p) \<longleftrightarrow> validate_policy p"
  unfolding policy_value_guards_def validate_policy_def by (auto simp: dle_iff dlt_iff not_le not_less)

lemma validate_experiment_Inr:
  assumes "validate_experiment x = Inr y"
  shows "sorted (active_tradable y)" "distinct (active_tradable y)" "list_all is_symbol (active_tradable y)"
    "guards_ok (role_guards y)" "guards_ok (experiment_group_guards y)" "validate_policy (risk_policy y)"
    "sorted (map group_id (risk_groups y))"
proof -
  obtain active ns where y: "normalize_symbol_tuple (active_tradable x) = Inr active"
    "active_tradable y = active" "risk_groups y = sort_key group_id ns"
    "guards_ok (role_guards y)" "guards_ok (experiment_group_guards y)" "guards_ok (policy_spec_guards (risk_policy y))"
    using assms by (auto simp: validate_experiment_def Let_def)
  show "sorted (active_tradable y)" "distinct (active_tradable y)" "list_all is_symbol (active_tradable y)"
    using normalize_symbol_tuple_Inr [OF y(1)] y(2) by simp_all
  show "guards_ok (role_guards y)" "guards_ok (experiment_group_guards y)" by (fact y)+
  show "validate_policy (risk_policy y)" using y(6) by (simp add: policy_spec_guards_def)
  show "sorted (map group_id (risk_groups y))" by (simp add: y(3))
qed

end
