(* ===== verification/Decision_Slots.thy ===== *)
theory Decision_Slots
  imports Experiments
begin

text \<open>
  Decision slots (\<open>scheduling/models.py\<close>): the identity and the versioned state of a slot with the
  rules of \<open>_validate_slot\<close>, its creation and evolution, and the schedule of a full session. The
  exchange calendar is the argument \<open>calendar\<close>; the conversion of New York wall time to UTC, which
  rests on the time zone database, is the argument \<open>market_instant\<close> (a date and the seconds since
  midnight). A date is a number of days since 1970.
\<close>

abbreviation slot_error :: "string \<Rightarrow> error" where
  "slot_error \<equiv> SlotValidationError"

section \<open>Slots\<close>

definition LEASE_DURATION :: int where "LEASE_DURATION = 30 * 1000000"

datatype DecisionType = STRATEGY | FORCED_FLAT

datatype SlotState =
  SLOT_PENDING | WAITING_FOR_DATA | SLOT_READY | SLOT_CLAIMED | SLOT_COMPLETED | SLOT_SKIPPED | SLOT_EXPIRED |
  SLOT_FAILED | FLATTEN_REQUIRED

fun decision_type_value :: "DecisionType \<Rightarrow> string" where
  "decision_type_value STRATEGY = ''STRATEGY''"
| "decision_type_value FORCED_FLAT = ''FORCED_FLAT''"

fun slot_state_value :: "SlotState \<Rightarrow> string" where
  "slot_state_value SLOT_PENDING = ''PENDING''"
| "slot_state_value WAITING_FOR_DATA = ''WAITING_FOR_DATA''"
| "slot_state_value SLOT_READY = ''READY''"
| "slot_state_value SLOT_CLAIMED = ''CLAIMED''"
| "slot_state_value SLOT_COMPLETED = ''COMPLETED''"
| "slot_state_value SLOT_SKIPPED = ''SKIPPED''"
| "slot_state_value SLOT_EXPIRED = ''EXPIRED''"
| "slot_state_value SLOT_FAILED = ''FAILED''"
| "slot_state_value FLATTEN_REQUIRED = ''FLATTEN_REQUIRED''"

definition TERMINAL_STATES :: "SlotState list" where
  "TERMINAL_STATES = [SLOT_COMPLETED, SLOT_SKIPPED, SLOT_EXPIRED, SLOT_FAILED]"

definition REASON_REQUIRED_STATES :: "SlotState list" where
  "REASON_REQUIRED_STATES = [WAITING_FOR_DATA, SLOT_SKIPPED, SLOT_EXPIRED, SLOT_FAILED]"

record DecisionSlot =
  ds_slot_id :: string
  ds_experiment_id :: string
  ds_experiment_version :: int
  ds_experiment_hash :: string
  ds_signal_provider_id :: string
  ds_signal_provider_version :: string
  ds_session_date :: int
  ds_source_interval_start :: int
  ds_source_interval_end :: int
  ds_ready_at :: int
  ds_deadline_at :: int
  ds_required_completion_at :: int
  ds_decision_type :: DecisionType
  ds_state :: SlotState
  ds_claim_owner :: "string option"
  ds_claimed_at :: "int option"
  ds_lease_expires_at :: "int option"
  ds_attempt_count :: int
  ds_completed_at :: "int option"
  ds_reason_code :: "string option"
  ds_correlation_id :: string
  ds_version :: int
  ds_content_hash :: string

text \<open>\<open>date.isoformat()\<close>.\<close>

definition date_text :: "int \<Rightarrow> string" where
  "date_text d = (case civil_date d of (y, m, day) \<Rightarrow> pad 4 y @ ''-'' @ pad 2 m @ ''-'' @ pad 2 day)"

definition slot_identity_payload :: "DecisionSlot \<Rightarrow> pval" where
  "slot_identity_payload s = PSeq
     [PStr ''decision-slot-v1'', PStr (ds_experiment_id s), PInt (ds_experiment_version s),
      PStr (ds_experiment_hash s), PStr (ds_signal_provider_id s), PStr (ds_signal_provider_version s),
      PStr (date_text (ds_session_date s)), PTime (ds_source_interval_start s), PTime (ds_source_interval_end s),
      PEnum (decision_type_value (ds_decision_type s))]"

definition slot_content_payload :: "DecisionSlot \<Rightarrow> pval" where
  "slot_content_payload s = PMap
     [(''slot_id'', PStr (ds_slot_id s)),
      (''experiment_id'', PStr (ds_experiment_id s)),
      (''experiment_version'', PInt (ds_experiment_version s)),
      (''experiment_hash'', PStr (ds_experiment_hash s)),
      (''signal_provider_id'', PStr (ds_signal_provider_id s)),
      (''signal_provider_version'', PStr (ds_signal_provider_version s)),
      (''session_date'', PStr (date_text (ds_session_date s))),
      (''source_interval_start'', PTime (ds_source_interval_start s)),
      (''source_interval_end'', PTime (ds_source_interval_end s)),
      (''ready_at'', PTime (ds_ready_at s)),
      (''deadline_at'', PTime (ds_deadline_at s)),
      (''required_completion_at'', PTime (ds_required_completion_at s)),
      (''decision_type'', PEnum (decision_type_value (ds_decision_type s))),
      (''state'', PEnum (slot_state_value (ds_state s))),
      (''claim_owner'', optional_pval PStr (ds_claim_owner s)),
      (''claimed_at'', optional_pval PTime (ds_claimed_at s)),
      (''lease_expires_at'', optional_pval PTime (ds_lease_expires_at s)),
      (''attempt_count'', PInt (ds_attempt_count s)),
      (''completed_at'', optional_pval PTime (ds_completed_at s)),
      (''reason_code'', optional_pval PStr (ds_reason_code s)),
      (''correlation_id'', PStr (ds_correlation_id s)),
      (''version'', PInt (ds_version s))]"

definition slot_correlation :: "sha256 \<Rightarrow> string \<Rightarrow> string res" where
  "slot_correlation sha slot_id =
     deterministic_id_from sha ''correlation'' (PSeq [PStr ''slot-correlation-v1'', PStr slot_id])"

definition slot_claim_guards :: "DecisionSlot \<Rightarrow> (bool \<times> error) list" where
  "slot_claim_guards s =
     (if ds_state s = SLOT_CLAIMED then
        (case (ds_claim_owner s, ds_claimed_at s, ds_lease_expires_at s) of
           (Some owner, Some claimed, Some lease) \<Rightarrow>
             [(\<not> is_account_id owner, slot_error ''claim owner is invalid''),
              (lease - claimed \<noteq> LEASE_DURATION, slot_error ''slot lease must be exactly 30 seconds'')]
         | _ \<Rightarrow> [(True, slot_error ''claimed slot requires complete lease metadata'')])
      else
        [(ds_claim_owner s \<noteq> None \<or> ds_claimed_at s \<noteq> None \<or> ds_lease_expires_at s \<noteq> None,
           slot_error ''unclaimed slot cannot retain lease metadata'')])"

definition slot_outcome_guards :: "DecisionSlot \<Rightarrow> (bool \<times> error) list" where
  "slot_outcome_guards s =
     [if ds_state s \<in> set TERMINAL_STATES
      then (ds_completed_at s = None, slot_error ''terminal slot requires a completion timestamp'')
      else (ds_completed_at s \<noteq> None, slot_error ''nonterminal slot cannot have a completion timestamp''),
      (ds_state s \<in> set REASON_REQUIRED_STATES \<and> ds_reason_code s = None,
        slot_error ''slot outcome requires a durable reason code''),
      (case ds_reason_code s of None \<Rightarrow> False | Some r \<Rightarrow> \<not> is_safe_code r,
        slot_error ''slot reason code is invalid'')]"

definition slot_guards :: "DecisionSlot \<Rightarrow> (bool \<times> error) list" where
  "slot_guards s =
     [(\<not> is_tagged_hash ''slot'' (ds_slot_id s), slot_error ''slot ID is invalid''),
      (\<not> is_safe_code (ds_experiment_id s), slot_error ''experiment ID is invalid''),
      (ds_experiment_version s < 1, slot_error ''experiment version must be a positive integer''),
      (\<not> is_hash (ds_experiment_hash s), slot_error ''experiment hash is invalid''),
      (\<not> is_safe_code (ds_signal_provider_id s), slot_error ''signal provider ID is invalid''),
      (\<not> is_account_id (ds_signal_provider_version s), slot_error ''signal provider version is invalid''),
      (\<not> (ds_source_interval_start s < ds_source_interval_end s \<and> ds_source_interval_end s \<le> ds_ready_at s \<and>
          ds_ready_at s < ds_deadline_at s \<and> ds_deadline_at s \<le> ds_required_completion_at s),
        slot_error ''slot interval and deadlines are not ordered''),
      (ds_attempt_count s < 0, slot_error ''slot attempt count must be nonnegative''),
      (ds_version s < 1, slot_error ''slot version must be positive''),
      (\<not> is_tagged_hash ''correlation'' (ds_correlation_id s), slot_error ''slot correlation ID is invalid''),
      (\<not> is_hash (ds_content_hash s), slot_error ''slot content hash is invalid'')] @
     slot_claim_guards s @ slot_outcome_guards s"

definition validate_slot :: "sha256 \<Rightarrow> DecisionSlot \<Rightarrow> DecisionSlot res" where
  "validate_slot sha s =
     guarded (slot_guards s)
     (bindE (deterministic_id_from sha ''slot'' (slot_identity_payload s)) (\<lambda>expected_id.
      guarded [(ds_slot_id s \<noteq> expected_id, slot_error ''slot ID does not match its immutable identity'')]
     (bindE (slot_correlation sha (ds_slot_id s)) (\<lambda>expected_correlation.
      guarded [(ds_correlation_id s \<noteq> expected_correlation, slot_error ''correlation ID does not match the slot'')]
     (bindE (sha256_hex sha (slot_content_payload s)) (\<lambda>h.
      guarded [(ds_content_hash s \<noteq> h, slot_error ''slot content hash does not match its state'')] (Inr s)))))))"

text \<open>
  \<open>create\<close>: the argument carries the identity, the instants and, as its state, the initial state;
  the other fields are set.
\<close>

definition create_slot :: "sha256 \<Rightarrow> DecisionSlot \<Rightarrow> DecisionSlot res" where
  "create_slot sha s =
     bindE (deterministic_id_from sha ''slot'' (slot_identity_payload s)) (\<lambda>slot_id.
     bindE (slot_correlation sha slot_id) (\<lambda>correlation.
     let values = s\<lparr>ds_slot_id := slot_id, ds_claim_owner := None, ds_claimed_at := None,
           ds_lease_expires_at := None, ds_attempt_count := 0, ds_completed_at := None, ds_reason_code := None,
           ds_correlation_id := correlation, ds_version := 1\<rparr> in
     bindE (sha256_hex sha (slot_content_payload values)) (\<lambda>h. validate_slot sha (values\<lparr>ds_content_hash := h\<rparr>))))"

record slot_change =
  ch_state :: SlotState
  ch_claim_owner :: "string option"
  ch_claimed_at :: "int option"
  ch_lease_expires_at :: "int option"
  ch_attempt_count :: int
  ch_completed_at :: "int option"
  ch_reason_code :: "string option"

definition evolved_slot :: "DecisionSlot \<Rightarrow> slot_change \<Rightarrow> DecisionSlot" where
  "evolved_slot s c = s\<lparr>ds_state := ch_state c, ds_claim_owner := ch_claim_owner c, ds_claimed_at := ch_claimed_at c,
     ds_lease_expires_at := ch_lease_expires_at c, ds_attempt_count := ch_attempt_count c,
     ds_completed_at := ch_completed_at c, ds_reason_code := ch_reason_code c, ds_version := ds_version s + 1\<rparr>"

definition evolve_slot :: "sha256 \<Rightarrow> DecisionSlot \<Rightarrow> slot_change \<Rightarrow> DecisionSlot res" where
  "evolve_slot sha s c =
     bindE (sha256_hex sha (slot_content_payload (evolved_slot s c))) (\<lambda>h.
       validate_slot sha ((evolved_slot s c)\<lparr>ds_content_hash := h\<rparr>))"

section \<open>Session schedules\<close>

definition STRATEGY_CLOSE_TIMES :: "int list" where
  "STRATEGY_CLOSE_TIMES = [h * 3600 + m * 60.
     (h, ms) \<leftarrow> [(9, [45]), (10, [0, 15, 30, 45]), (11, [0, 15, 30, 45]), (12, [0, 15, 30, 45]),
       (13, [0, 15, 30, 45]), (14, [0, 15, 30])], m \<leftarrow> ms]"

definition FULL_OPEN :: int where "FULL_OPEN = 9 * 3600 + 30 * 60"

definition FULL_CLOSE :: int where "FULL_CLOSE = 16 * 3600"

definition FORCED_FLAT_TARGET :: int where "FORCED_FLAT_TARGET = 15 * 3600 + 43 * 60"

definition FORCED_FLAT_DEADLINE :: int where "FORCED_FLAT_DEADLINE = 15 * 3600 + 44 * 60"

definition REQUIRED_FLAT :: int where "REQUIRED_FLAT = 15 * 3600 + 45 * 60"

record SessionSlotSchedule =
  sch_session_date :: int
  strategy_slots :: "DecisionSlot list"
  forced_flat_slot :: "DecisionSlot option"
  sch_reason_code :: "string option"

definition validate_schedule :: "SessionSlotSchedule \<Rightarrow> SessionSlotSchedule res" where
  "validate_schedule x =
     guarded
      (case sch_reason_code x of
         Some r \<Rightarrow> [(\<not> is_safe_code r, slot_error ''slot reason code is invalid''),
           (strategy_slots x \<noteq> [] \<or> forced_flat_slot x \<noteq> None,
             slot_error ''unavailable sessions cannot contain decision slots'')]
       | None \<Rightarrow> [(length (strategy_slots x) \<noteq> length STRATEGY_CLOSE_TIMES \<or> forced_flat_slot x = None,
           slot_error ''a full session schedule must contain every exact slot'')])
     (Inr x)"

definition schedule_slots :: "SessionSlotSchedule \<Rightarrow> DecisionSlot list" where
  "schedule_slots x = (case forced_flat_slot x of None \<Rightarrow> strategy_slots x | Some s \<Rightarrow> strategy_slots x @ [s])"

record TradingSession =
  ts_session_date :: int
  ts_open_at :: int
  ts_close_at :: int
  ts_is_standard_full_session :: bool

record ExchangeCalendar =
  cal_name :: string
  cal_session :: "int \<Rightarrow> TradingSession option"

definition exact_timing :: "ExperimentDefinition \<Rightarrow> bool" where
  "exact_timing x \<longleftrightarrow>
     md_exchange_calendar (market_data x) = ''XNAS'' \<and> md_decision_timeframe (market_data x) = ''15Min'' \<and>
     se_open (session x) = ''09:30:00'' \<and> se_close (session x) = ''16:00:00'' \<and>
     se_first_strategy_bar_close (session x) = ''09:45:00'' \<and> se_last_strategy_bar_close (session x) = ''14:30:00'' \<and>
     se_decision_ready_delay_seconds (session x) = 60 \<and> se_decision_deadline_delay_seconds (session x) = 120 \<and>
     se_forced_flat_target_time (session x) = ''15:43:00'' \<and>
     se_forced_flat_submit_deadline (session x) = ''15:44:00'' \<and> se_required_flat_time (session x) = ''15:45:00''"

text \<open>The values of \<open>DecisionSlot.create\<close> that do not depend on the experiment's hash.\<close>

definition slot_request :: "ExperimentDefinition \<Rightarrow> string \<Rightarrow> string \<Rightarrow> string \<Rightarrow> int \<Rightarrow> int \<Rightarrow> int \<Rightarrow> int \<Rightarrow> int \<Rightarrow> int \<Rightarrow>
    DecisionType \<Rightarrow> SlotState \<Rightarrow> DecisionSlot" where
  "slot_request x h provider ver day t_start t_end t_ready t_deadline t_required kind initial =
     \<lparr>ds_slot_id = '''', ds_experiment_id = experiment_id x, ds_experiment_version = experiment_version x,
      ds_experiment_hash = h, ds_signal_provider_id = provider, ds_signal_provider_version = ver,
      ds_session_date = day, ds_source_interval_start = t_start, ds_source_interval_end = t_end,
      ds_ready_at = t_ready, ds_deadline_at = t_deadline, ds_required_completion_at = t_required,
      ds_decision_type = kind, ds_state = initial, ds_claim_owner = None, ds_claimed_at = None,
      ds_lease_expires_at = None, ds_attempt_count = 0, ds_completed_at = None, ds_reason_code = None,
      ds_correlation_id = '''', ds_version = 1, ds_content_hash = ''''\<rparr>"

definition strategy_slot :: "sha256 \<Rightarrow> (int \<Rightarrow> int \<Rightarrow> int) \<Rightarrow> ExperimentDefinition \<Rightarrow> string \<Rightarrow> string \<Rightarrow> int \<Rightarrow> int \<Rightarrow>
    DecisionSlot res" where
  "strategy_slot sha market_instant x provider ver day close_time =
     (let t = market_instant day close_time in
      bindE (experiment_hash sha x) (\<lambda>h.
        create_slot sha (slot_request x h provider ver day (t - 15 * 60 * 1000000) t (t + 60 * 1000000)
          (t + 120 * 1000000) (t + 120 * 1000000) STRATEGY SLOT_PENDING)))"

definition flat_slot :: "sha256 \<Rightarrow> (int \<Rightarrow> int \<Rightarrow> int) \<Rightarrow> ExperimentDefinition \<Rightarrow> string \<Rightarrow> string \<Rightarrow> int \<Rightarrow> DecisionSlot res" where
  "flat_slot sha market_instant x provider ver day =
     (let target = market_instant day FORCED_FLAT_TARGET in
      bindE (experiment_hash sha x) (\<lambda>h.
        create_slot sha (slot_request x h provider ver day (target - 60 * 1000000) target target
          (market_instant day FORCED_FLAT_DEADLINE) (market_instant day REQUIRED_FLAT) FORCED_FLAT FLATTEN_REQUIRED)))"

definition build_session_schedule :: "sha256 \<Rightarrow> (int \<Rightarrow> int \<Rightarrow> int) \<Rightarrow> ExperimentDefinition \<Rightarrow> string \<Rightarrow> string \<Rightarrow> int \<Rightarrow>
    ExchangeCalendar \<Rightarrow> SessionSlotSchedule res" where
  "build_session_schedule sha market_instant x provider ver day calendar =
     guarded
      [(\<not> is_safe_code provider, slot_error ''signal provider ID is invalid''),
       (\<not> is_account_id ver, slot_error ''signal provider version is invalid''),
       (cal_name calendar \<noteq> ''XNAS'', slot_error ''scheduler requires the injected XNAS calendar''),
       (\<not> exact_timing x, slot_error ''experiment does not match the exact XNAS slot timetable'')]
     (case cal_session calendar day of
        None \<Rightarrow> validate_schedule \<lparr>sch_session_date = day, strategy_slots = [], forced_flat_slot = None,
          sch_reason_code = Some ''market_closed''\<rparr>
      | Some sess \<Rightarrow>
          if \<not> ts_is_standard_full_session sess then
            validate_schedule \<lparr>sch_session_date = day, strategy_slots = [], forced_flat_slot = None,
              sch_reason_code = Some ''unsupported_nonstandard_session''\<rparr>
          else guarded [(ts_open_at sess \<noteq> market_instant day FULL_OPEN \<or> ts_close_at sess \<noteq> market_instant day FULL_CLOSE,
              slot_error ''XNAS full-session boundaries do not match the exact timetable'')]
            (bindE (mapE (strategy_slot sha market_instant x provider ver day) STRATEGY_CLOSE_TIMES) (\<lambda>strategy.
             bindE (flat_slot sha market_instant x provider ver day) (\<lambda>flat.
               validate_schedule \<lparr>sch_session_date = day, strategy_slots = strategy, forced_flat_slot = Some flat,
                 sch_reason_code = None\<rparr>))))"

end
