(* ===== verification/Signals.thy ===== *)
theory Signals
  imports Decision_Slots
begin

text \<open>
  Signal proposals (\<open>signals/models.py\<close>): the decision context a strategy reads, the hash-bound
  envelope of its proposal with the rules of \<open>_validate_envelope\<close>, its validation against the context,
  and the authorization of paper submission, which this release always denies.
\<close>

abbreviation signal_error :: "string \<Rightarrow> error" where
  "signal_error \<equiv> SignalValidationError"

definition SIGNAL_CONTRACT_VERSION :: int where "SIGNAL_CONTRACT_VERSION = 1"

datatype SignalAction = LONG_ACTION | SHORT_ACTION | FLAT_ACTION

fun signal_action_value :: "SignalAction \<Rightarrow> string" where
  "signal_action_value LONG_ACTION = ''LONG''"
| "signal_action_value SHORT_ACTION = ''SHORT''"
| "signal_action_value FLAT_ACTION = ''FLAT''"

datatype SignalSourceMode = BUILTIN_SOURCE | OFFLINE_FIXTURE_SOURCE | REGISTERED_PLUGIN_SOURCE

fun source_mode_value :: "SignalSourceMode \<Rightarrow> string" where
  "source_mode_value BUILTIN_SOURCE = ''builtin''"
| "source_mode_value OFFLINE_FIXTURE_SOURCE = ''offline_fixture''"
| "source_mode_value REGISTERED_PLUGIN_SOURCE = ''registered_plugin''"

datatype PaperAuthorizationReason = MODEL_APPROVAL_NOT_IMPLEMENTED

fun paper_reason_value :: "PaperAuthorizationReason \<Rightarrow> string" where
  "paper_reason_value MODEL_APPROVAL_NOT_IMPLEMENTED = ''model_approval_not_implemented''"

record PaperAuthorizationDecision =
  pa_approved :: bool
  pa_reason :: PaperAuthorizationReason

definition validate_paper_authorization :: "PaperAuthorizationDecision \<Rightarrow> PaperAuthorizationDecision res" where
  "validate_paper_authorization p =
     guarded [(pa_approved p, signal_error ''paper signal authorization is not implemented'')] (Inr p)"

section \<open>Contexts\<close>

definition signal_symbol_guards :: "string list \<Rightarrow> bool \<Rightarrow> (bool \<times> error) list" where
  "signal_symbol_guards ss allow_empty =
     [(\<not> allow_empty \<and> ss = [], signal_error ''symbol set is invalid'')] @
     map (\<lambda>s. (\<not> is_symbol s, signal_error ''symbol is invalid'')) ss @
     [(ss \<noteq> sort ss \<or> \<not> distinct ss, signal_error ''symbol set must be sorted and unique'')]"

definition signal_hash_guard :: "string \<Rightarrow> string \<Rightarrow> bool \<times> error" where
  "signal_hash_guard h field = (\<not> is_hash h, signal_error (''signal '' @ field @ '' is invalid''))"

record DecisionContext =
  cx_slot :: DecisionSlot
  cx_active_symbols :: "string list"
  cx_benchmark_symbols :: "string list"
  cx_context_symbols :: "string list"
  cx_excluded_symbols :: "string list"
  cx_data_contract_hash :: string
  cx_policy_hash :: string
  cx_execution_mode :: ExecutionMode
  cx_broker_adapter :: BrokerAdapter
  cx_submission_enabled :: bool
  cx_strategy_slot_ordinal :: "int option"

fun expected_broker :: "ExecutionMode \<Rightarrow> BrokerAdapter" where
  "expected_broker OFFLINE_MODE = FAKE_ADAPTER"
| "expected_broker SHADOW_MODE = NO_ADAPTER"
| "expected_broker PAPER_MODE = ALPACA_PAPER_ADAPTER"

definition ordinal_guard :: "DecisionContext \<Rightarrow> bool \<times> error" where
  "ordinal_guard c =
     (if ds_decision_type (cx_slot c) = STRATEGY
      then (case cx_strategy_slot_ordinal c of None \<Rightarrow> True | Some n \<Rightarrow> \<not> (0 \<le> n \<and> n < 20),
        signal_error ''strategy slot requires an ordinal from zero to 19'')
      else (cx_strategy_slot_ordinal c \<noteq> None, signal_error ''forced-flat context cannot have a strategy ordinal''))"

definition validate_context :: "DecisionContext \<Rightarrow> DecisionContext res" where
  "validate_context c =
     (let groups = [cx_active_symbols c, cx_benchmark_symbols c, cx_context_symbols c, cx_excluded_symbols c] in
      guarded
       (concat (map (\<lambda>ss. signal_symbol_guards ss True) groups) @
        [(cx_active_symbols c = [], signal_error ''decision context requires active symbols''),
         (\<not> distinct (concat groups), signal_error ''decision context symbol roles must be disjoint''),
         signal_hash_guard (cx_data_contract_hash c) ''data contract hash'',
         signal_hash_guard (cx_policy_hash c) ''policy hash'',
         (cx_broker_adapter c \<noteq> expected_broker (cx_execution_mode c),
           signal_error ''broker adapter does not match the execution mode''),
         (cx_execution_mode c \<noteq> PAPER_MODE \<and> cx_submission_enabled c,
           signal_error ''submission must be disabled outside paper mode''),
         ordinal_guard c])
      (Inr c))"

definition context_from_experiment :: "sha256 \<Rightarrow> DecisionSlot \<Rightarrow> ExperimentDefinition \<Rightarrow> string \<Rightarrow> string \<Rightarrow> ExecutionMode \<Rightarrow>
    BrokerAdapter \<Rightarrow> bool \<Rightarrow> int option \<Rightarrow> DecisionContext res" where
  "context_from_experiment sha slot x data_hash pol_hash mode broker enabled slot_ordinal =
     bindE (experiment_hash sha x) (\<lambda>h.
     guarded [(ds_experiment_id slot \<noteq> experiment_id x \<or> ds_experiment_version slot \<noteq> experiment_version x \<or>
         ds_experiment_hash slot \<noteq> h, signal_error ''slot and experiment identities do not match'')]
     (validate_context \<lparr>cx_slot = slot, cx_active_symbols = active_tradable x, cx_benchmark_symbols = benchmark_only x,
        cx_context_symbols = context_only x, cx_excluded_symbols = excluded x, cx_data_contract_hash = data_hash,
        cx_policy_hash = pol_hash, cx_execution_mode = mode, cx_broker_adapter = broker,
        cx_submission_enabled = enabled, cx_strategy_slot_ordinal = slot_ordinal\<rparr>))"

section \<open>Envelopes\<close>

record SignalEnvelope =
  sg_contract_version :: int
  sg_signal_id :: string
  sg_slot_id :: string
  sg_correlation_id :: string
  sg_provider_id :: string
  sg_provider_version :: string
  sg_provider_source_mode :: SignalSourceMode
  sg_experiment_id :: string
  sg_experiment_version :: int
  sg_experiment_hash :: string
  sg_data_contract_hash :: string
  sg_policy_hash :: string
  sg_source_bar_end :: int
  sg_created_at :: int
  sg_expires_at :: int
  sg_active_symbols :: "string list"
  sg_availability_mask :: "bool list"
  sg_actions :: "SignalAction list"
  sg_expected_edge_bps :: "decimal option list"
  sg_proposed_signed_target_inputs :: "decimal option list"
  sg_artifact_id :: "string option"
  sg_artifact_hash :: "string option"
  sg_promotable :: bool
  sg_paper_submission_eligible :: bool
  sg_content_hash :: string

definition envelope_payload :: "SignalEnvelope \<Rightarrow> pval" where
  "envelope_payload g = PMap
     [(''contract_version'', PInt (sg_contract_version g)),
      (''slot_id'', PStr (sg_slot_id g)),
      (''correlation_id'', PStr (sg_correlation_id g)),
      (''provider_id'', PStr (sg_provider_id g)),
      (''provider_version'', PStr (sg_provider_version g)),
      (''provider_source_mode'', PEnum (source_mode_value (sg_provider_source_mode g))),
      (''experiment_id'', PStr (sg_experiment_id g)),
      (''experiment_version'', PInt (sg_experiment_version g)),
      (''experiment_hash'', PStr (sg_experiment_hash g)),
      (''data_contract_hash'', PStr (sg_data_contract_hash g)),
      (''policy_hash'', PStr (sg_policy_hash g)),
      (''source_bar_end'', PTime (sg_source_bar_end g)),
      (''created_at'', PTime (sg_created_at g)),
      (''expires_at'', PTime (sg_expires_at g)),
      (''active_symbols'', PSeq (map PStr (sg_active_symbols g))),
      (''availability_mask'', PSeq (map PBool (sg_availability_mask g))),
      (''actions'', PSeq (map (\<lambda>a. PEnum (signal_action_value a)) (sg_actions g))),
      (''expected_edge_bps'', PSeq (map (optional_pval PDec) (sg_expected_edge_bps g))),
      (''proposed_signed_target_inputs'', PSeq (map (optional_pval PDec) (sg_proposed_signed_target_inputs g))),
      (''artifact_id'', optional_pval PStr (sg_artifact_id g)),
      (''artifact_hash'', optional_pval PStr (sg_artifact_hash g)),
      (''promotable'', PBool (sg_promotable g)),
      (''paper_submission_eligible'', PBool (sg_paper_submission_eligible g))]"

definition optional_decimal_guard :: "decimal option \<Rightarrow> string \<Rightarrow> bool \<times> error" where
  "optional_decimal_guard d field =
     (case d of None \<Rightarrow> False | Some v \<Rightarrow> \<not> domain_decimal v, signal_error (''signal '' @ field @ '' must be finite Decimal or null''))"

definition supplied :: "(decimal \<Rightarrow> bool) \<Rightarrow> decimal option \<Rightarrow> bool" where
  "supplied P d = (case d of None \<Rightarrow> False | Some v \<Rightarrow> P v)"

text \<open>The body of the loop over the actions: one action with its availability, edge and target.\<close>

definition proposal_entry_guards :: "SignalAction \<Rightarrow> bool \<Rightarrow> decimal option \<Rightarrow> decimal option \<Rightarrow> (bool \<times> error) list" where
  "proposal_entry_guards action available edge target =
     [optional_decimal_guard edge ''expected_edge_bps'', optional_decimal_guard target ''proposed_signed_target_input'',
      (\<not> available \<and> (action \<noteq> FLAT_ACTION \<or> edge \<noteq> None \<or> target \<noteq> None),
        signal_error ''unavailable symbols must have an empty flat proposal''),
      (action = LONG_ACTION \<and> (supplied (\<lambda>v. dle v dzero) edge \<or> supplied (\<lambda>v. dle v dzero) target),
        signal_error ''LONG action requires positive supplied values''),
      (action = SHORT_ACTION \<and> (supplied (\<lambda>v. dle dzero v) edge \<or> supplied (\<lambda>v. dle dzero v) target),
        signal_error ''SHORT action requires negative supplied values''),
      (action = FLAT_ACTION \<and> (supplied (\<lambda>v. \<not> deq v dzero) edge \<or> supplied (\<lambda>v. \<not> deq v dzero) target),
        signal_error ''FLAT action requires zero supplied values'')]"

definition alignment_guard :: "SignalEnvelope \<Rightarrow> bool \<times> error" where
  "alignment_guard g =
     (let n = length (sg_active_symbols g) in
      (length (sg_availability_mask g) \<noteq> n \<or> length (sg_actions g) \<noteq> n \<or> length (sg_expected_edge_bps g) \<noteq> n \<or>
       length (sg_proposed_signed_target_inputs g) \<noteq> n,
       signal_error ''signal symbol values must align with every active symbol''))"

definition entry_guards :: "SignalEnvelope \<Rightarrow> (bool \<times> error) list" where
  "entry_guards g =
     concat (map (\<lambda>(action, available, edge, target). proposal_entry_guards action available edge target)
       (zip (sg_actions g) (zip (sg_availability_mask g)
         (zip (sg_expected_edge_bps g) (sg_proposed_signed_target_inputs g)))))"

definition artifact_guards :: "SignalEnvelope \<Rightarrow> (bool \<times> error) list" where
  "artifact_guards g =
     [((sg_artifact_id g = None) \<noteq> (sg_artifact_hash g = None),
        signal_error ''signal artifact ID and hash must be supplied together''),
      (case sg_artifact_id g of None \<Rightarrow> False | Some i \<Rightarrow> \<not> is_content_id i, signal_error ''signal artifact ID is invalid''),
      (case sg_artifact_hash g of None \<Rightarrow> False | Some h \<Rightarrow> \<not> is_hash h, signal_error ''signal artifact hash is invalid'')]"

definition envelope_guards :: "SignalEnvelope \<Rightarrow> (bool \<times> error) list" where
  "envelope_guards g =
     [(sg_contract_version g \<noteq> SIGNAL_CONTRACT_VERSION, signal_error ''signal contract version is unsupported''),
      (\<not> is_tagged_hash ''signal'' (sg_signal_id g), signal_error ''signal ID is invalid''),
      (\<not> starts_with ''slot_'' (sg_slot_id g), signal_error ''signal slot ID is invalid''),
      (\<not> starts_with ''correlation_'' (sg_correlation_id g), signal_error ''signal correlation ID is invalid''),
      (\<not> is_safe_code (sg_provider_id g), signal_error ''signal provider ID is invalid''),
      (\<not> is_account_id (sg_provider_version g), signal_error ''signal provider version is invalid''),
      (\<not> is_safe_code (sg_experiment_id g), signal_error ''signal experiment ID is invalid''),
      (sg_experiment_version g < 1, signal_error ''experiment version must be positive''),
      signal_hash_guard (sg_experiment_hash g) ''experiment hash'',
      signal_hash_guard (sg_data_contract_hash g) ''data contract hash'',
      signal_hash_guard (sg_policy_hash g) ''policy hash'',
      signal_hash_guard (sg_content_hash g) ''content hash'',
      (\<not> (sg_source_bar_end g \<le> sg_created_at g \<and> sg_created_at g < sg_expires_at g),
        signal_error ''signal timestamps are not ordered'')] @
     signal_symbol_guards (sg_active_symbols g) False @
     [alignment_guard g] @ entry_guards g @ artifact_guards g @
     [(sg_provider_source_mode g = OFFLINE_FIXTURE_SOURCE \<and> (sg_promotable g \<or> sg_paper_submission_eligible g),
        signal_error ''offline fixture signals are permanently ineligible'')]"

definition validate_envelope :: "sha256 \<Rightarrow> SignalEnvelope \<Rightarrow> SignalEnvelope res" where
  "validate_envelope sha g =
     guarded (envelope_guards g)
     (bindE (sha256_hex sha (envelope_payload g)) (\<lambda>expected_hash.
      guarded [(sg_content_hash g \<noteq> expected_hash, signal_error ''signal content hash does not match its payload'')]
     (bindE (deterministic_id ''signal'' expected_hash) (\<lambda>expected_id.
      guarded [(sg_signal_id g \<noteq> expected_id, signal_error ''signal ID does not match its payload'')] (Inr g)))))"

definition context_guards :: "SignalEnvelope \<Rightarrow> DecisionContext \<Rightarrow> (bool \<times> error) list" where
  "context_guards g c =
     (let slot = cx_slot c in
      [(sg_slot_id g \<noteq> ds_slot_id slot \<or> sg_correlation_id g \<noteq> ds_correlation_id slot,
         signal_error ''signal does not match its decision slot''),
       (sg_provider_id g \<noteq> ds_signal_provider_id slot \<or> sg_provider_version g \<noteq> ds_signal_provider_version slot,
         signal_error ''signal provider identity does not match its slot''),
       (sg_experiment_id g \<noteq> ds_experiment_id slot \<or> sg_experiment_version g \<noteq> ds_experiment_version slot \<or>
          sg_experiment_hash g \<noteq> ds_experiment_hash slot,
         signal_error ''signal experiment identity does not match its slot''),
       (sg_data_contract_hash g \<noteq> cx_data_contract_hash c,
         signal_error ''signal data-contract hash does not match its context''),
       (sg_policy_hash g \<noteq> cx_policy_hash c, signal_error ''signal policy hash does not match its context''),
       (sg_active_symbols g \<noteq> cx_active_symbols c, signal_error ''signal must contain the exact active-symbol set''),
       (set (cx_benchmark_symbols c @ cx_context_symbols c @ cx_excluded_symbols c) \<inter> set (sg_active_symbols g) \<noteq> {},
         signal_error ''signal contains a non-tradable experiment symbol''),
       (sg_source_bar_end g \<noteq> ds_source_interval_end slot, signal_error ''signal source bar does not match its slot''),
       (\<not> (ds_ready_at slot \<le> sg_created_at g \<and> sg_created_at g < sg_expires_at g \<and> sg_expires_at g \<le> ds_deadline_at slot),
         signal_error ''signal creation or expiry falls outside its slot deadline'')])"

definition validate_for :: "SignalEnvelope \<Rightarrow> DecisionContext \<Rightarrow> SignalEnvelope res" where
  "validate_for g c = guarded (context_guards g c) (Inr g)"

text \<open>\<open>create\<close>: the argument carries what the provider supplies; the rest comes from the context.\<close>

definition create_envelope :: "sha256 \<Rightarrow> DecisionContext \<Rightarrow> SignalEnvelope \<Rightarrow> SignalEnvelope res" where
  "create_envelope sha c g =
     (let slot = cx_slot c;
          v = g\<lparr>sg_contract_version := SIGNAL_CONTRACT_VERSION, sg_slot_id := ds_slot_id slot,
            sg_correlation_id := ds_correlation_id slot, sg_experiment_id := ds_experiment_id slot,
            sg_experiment_version := ds_experiment_version slot, sg_experiment_hash := ds_experiment_hash slot,
            sg_data_contract_hash := cx_data_contract_hash c, sg_policy_hash := cx_policy_hash c,
            sg_source_bar_end := ds_source_interval_end slot, sg_expires_at := ds_deadline_at slot,
            sg_active_symbols := cx_active_symbols c\<rparr>
      in bindE (sha256_hex sha (envelope_payload v)) (\<lambda>digest.
         bindE (deterministic_id ''signal'' digest) (\<lambda>i.
         bindE (validate_envelope sha (v\<lparr>sg_signal_id := i, sg_content_hash := digest\<rparr>)) (\<lambda>e. validate_for e c))))"

section \<open>Reading an envelope\<close>

definition symbol_index :: "SignalEnvelope \<Rightarrow> string \<Rightarrow> nat res" where
  "symbol_index g s =
     guarded [(\<not> is_symbol s, signal_error ''symbol is invalid'')]
     (case index_of s (sg_active_symbols g) of None \<Rightarrow> Inl (KeyError s) | Some i \<Rightarrow> Inr i)"

definition action_for :: "SignalEnvelope \<Rightarrow> string \<Rightarrow> SignalAction res" where
  "action_for g s = bindE (symbol_index g s) (\<lambda>i. Inr (sg_actions g ! i))"

definition is_available :: "SignalEnvelope \<Rightarrow> string \<Rightarrow> bool res" where
  "is_available g s = bindE (symbol_index g s) (\<lambda>i. Inr (sg_availability_mask g ! i))"

definition edge_for :: "SignalEnvelope \<Rightarrow> string \<Rightarrow> decimal option res" where
  "edge_for g s = bindE (symbol_index g s) (\<lambda>i. Inr (sg_expected_edge_bps g ! i))"

definition target_input_for :: "SignalEnvelope \<Rightarrow> string \<Rightarrow> decimal option res" where
  "target_input_for g s = bindE (symbol_index g s) (\<lambda>i. Inr (sg_proposed_signed_target_inputs g ! i))"

definition verify_paper_authorization :: "SignalEnvelope \<Rightarrow> DecisionContext \<Rightarrow> PaperAuthorizationDecision res" where
  "verify_paper_authorization g c =
     bindE (validate_for g c) (\<lambda>_.
       validate_paper_authorization \<lparr>pa_approved = False, pa_reason = MODEL_APPROVAL_NOT_IMPLEMENTED\<rparr>)"

section \<open>What an envelope guarantees\<close>

lemma validate_envelope_Inr:
  "validate_envelope sha g = Inr e \<longleftrightarrow> e = g \<and> guards_ok (envelope_guards g) \<and>
     sha256_hex sha (envelope_payload g) = Inr (sg_content_hash g) \<and>
     deterministic_id ''signal'' (sg_content_hash g) = Inr (sg_signal_id g)"
  by (auto simp: validate_envelope_def)

lemma validate_for_Inr: "validate_for g c = Inr e \<longleftrightarrow> e = g \<and> guards_ok (context_guards g c)"
  by (auto simp: validate_for_def)

lemma index_of_Some: "x \<in> set xs \<Longrightarrow> \<exists>i < length xs. index_of x xs = Some i \<and> xs ! i = x"
  by (induction xs) auto

lemma index_of_None: "index_of x xs = None \<longleftrightarrow> x \<notin> set xs"
  by (induction xs) auto

lemma envelope_symbols:
  assumes "guards_ok (envelope_guards g)"
  shows "list_all is_symbol (sg_active_symbols g)" "sg_active_symbols g \<noteq> []"
    "sorted (sg_active_symbols g)" "distinct (sg_active_symbols g)"
proof -
  have *: "guards_ok (signal_symbol_guards (sg_active_symbols g) False)" using assms by (simp add: envelope_guards_def)
  then show "list_all is_symbol (sg_active_symbols g)"
    by (auto simp: signal_symbol_guards_def guards_ok_def list_all_iff)
  have "sg_active_symbols g = sort (sg_active_symbols g)" using * by (simp add: signal_symbol_guards_def)
  then show "sorted (sg_active_symbols g)" by (metis sorted_sort)
  show "sg_active_symbols g \<noteq> []" "distinct (sg_active_symbols g)" using * by (simp_all add: signal_symbol_guards_def)
qed

lemma action_for_Inr:
  assumes "guards_ok (envelope_guards g)"
  shows "(\<exists>a. action_for g s = Inr a) \<longleftrightarrow> s \<in> set (sg_active_symbols g)"
  using envelope_symbols(1) [OF assms] index_of_Some [of s "sg_active_symbols g"] index_of_None [of s "sg_active_symbols g"]
  by (auto simp: action_for_def symbol_index_def list_all_iff split: option.splits)

end
