(* ===== verification/Submission_Authority.thy ===== *)
theory Submission_Authority
  imports Receipts Risk_Latches Signals
begin

text \<open>
  The gates before a broker side effect (\<open>execution/authorization.py\<close>): the safety snapshot of the
  caller, the hash-bound snapshot of the durable ledger, the authority snapshot that binds both to
  the broker's account, and the authorization of an intent with its ordered reasons. A
  \<open>timedelta\<close> is a number of microseconds.
\<close>

definition PAPER_ACKNOWLEDGEMENT :: string where
  "PAPER_ACKNOWLEDGEMENT = ''I_ACKNOWLEDGE_AQA_PAPER_ONLY''"

definition ACCOUNT_FRESHNESS :: int where "ACCOUNT_FRESHNESS = 30 * 1000000"

definition SECURITY_FRESHNESS :: int where "SECURITY_FRESHNESS = 300 * 1000000"

definition RECONCILIATION_FRESHNESS :: int where "RECONCILIATION_FRESHNESS = 60 * 1000000"

definition PLANNING_PRICE_FRESHNESS :: int where "PLANNING_PRICE_FRESHNESS = 120 * 1000000"

section \<open>Snapshots\<close>

record SubmissionSafetySnapshot =
  sf_evaluated_at :: int
  sf_session_open :: bool
  sf_data_complete :: bool
  sf_account_observed_at :: int
  sf_security_observed_at :: int
  sf_reconciliation_observed_at :: int
  sf_price_observed_at :: int
  sf_reconciliation_clean :: bool
  sf_ambiguous_order_exists :: bool
  sf_blocking_latch_exists :: bool
  sf_entry_disabled :: bool
  sf_active_symbols :: "string list"
  sf_shortable_symbols :: "string list"

definition validate_safety :: "SubmissionSafetySnapshot \<Rightarrow> SubmissionSafetySnapshot res" where
  "validate_safety s =
     guarded
      (map (\<lambda>observed. (observed > sf_evaluated_at s,
          exec_error ''submission state cannot be observed in the future''))
         [sf_account_observed_at s, sf_security_observed_at s, sf_reconciliation_observed_at s, sf_price_observed_at s] @
       map (\<lambda>symbols. (symbols \<noteq> sorted_set symbols,
          exec_error ''submission symbols must be unique and ordered''))
         [sf_active_symbols s, sf_shortable_symbols s] @
       [(\<not> set (sf_shortable_symbols s) \<subseteq> set (sf_active_symbols s), exec_error ''shortable symbols must be active'')])
     (Inr s)"

record SubmissionLedgerSnapshot =
  sl_client_order_id :: string
  sl_experiment_hash :: string
  sl_execution_plan_id :: string
  sl_risk_decision_hash :: string
  sl_intent_hash :: string
  sl_order_hash :: string
  sl_plan_fill_hashes :: "string list"
  sl_active_order_hashes :: "string list"
  sl_active_latches :: "RiskLatchKind list"
  sl_content_hash :: string

definition ledger_snapshot_digest :: "sha256 \<Rightarrow> SubmissionLedgerSnapshot \<Rightarrow> string res" where
  "ledger_snapshot_digest sha l = sha256_hex sha (PMap
     [(''active_latches'', PSeq (map (\<lambda>k. PEnum (kind_value k)) (sl_active_latches l))),
      (''active_order_hashes'', PSeq (map PStr (sl_active_order_hashes l))),
      (''client_order_id'', PStr (sl_client_order_id l)),
      (''execution_plan_id'', PStr (sl_execution_plan_id l)),
      (''experiment_hash'', PStr (sl_experiment_hash l)),
      (''intent_hash'', PStr (sl_intent_hash l)),
      (''order_hash'', PStr (sl_order_hash l)),
      (''plan_fill_hashes'', PSeq (map PStr (sl_plan_fill_hashes l))),
      (''risk_decision_hash'', PStr (sl_risk_decision_hash l)),
      (''schema'', PStr ''submission-ledger-snapshot-v1'')])"

text \<open>The same fields behind the schema tag, in the insertion order of \<open>create\<close>.\<close>

definition ledger_snapshot_values_digest :: "sha256 \<Rightarrow> SubmissionLedgerSnapshot \<Rightarrow> string res" where
  "ledger_snapshot_values_digest sha l = sha256_hex sha (PMap
     [(''schema'', PStr ''submission-ledger-snapshot-v1''),
      (''active_latches'', PSeq (map (\<lambda>k. PEnum (kind_value k)) (sl_active_latches l))),
      (''active_order_hashes'', PSeq (map PStr (sl_active_order_hashes l))),
      (''client_order_id'', PStr (sl_client_order_id l)),
      (''execution_plan_id'', PStr (sl_execution_plan_id l)),
      (''experiment_hash'', PStr (sl_experiment_hash l)),
      (''intent_hash'', PStr (sl_intent_hash l)),
      (''order_hash'', PStr (sl_order_hash l)),
      (''plan_fill_hashes'', PSeq (map PStr (sl_plan_fill_hashes l))),
      (''risk_decision_hash'', PStr (sl_risk_decision_hash l))])"

definition evidence_hash_guards :: "string list \<Rightarrow> (bool \<times> error) list" where
  "evidence_hash_guards hs =
     [(hs \<noteq> sorted_set hs, exec_error ''submission ledger hashes must be unique and ordered''),
      (list_ex (\<lambda>h. \<not> is_hash h) hs, exec_error ''submission ledger evidence hash is invalid'')]"

definition ledger_snapshot_guards :: "SubmissionLedgerSnapshot \<Rightarrow> (bool \<times> error) list" where
  "ledger_snapshot_guards l =
     [(sl_client_order_id l = [], exec_error ''submission ledger client order ID is invalid'')] @
     map (\<lambda>h. (\<not> is_hash h, exec_error ''submission ledger hash is invalid''))
       [sl_experiment_hash l, sl_risk_decision_hash l, sl_intent_hash l, sl_order_hash l, sl_content_hash l] @
     [(sl_execution_plan_id l = [], exec_error ''submission ledger plan ID is invalid'')] @
     evidence_hash_guards (sl_plan_fill_hashes l) @ evidence_hash_guards (sl_active_order_hashes l) @
     [(map kind_value (sl_active_latches l) \<noteq> sorted_set (map kind_value (sl_active_latches l)),
        exec_error ''submission ledger latches are invalid'')]"

definition validate_ledger_snapshot :: "sha256 \<Rightarrow> SubmissionLedgerSnapshot \<Rightarrow> SubmissionLedgerSnapshot res" where
  "validate_ledger_snapshot sha l =
     guarded (ledger_snapshot_guards l)
     (bindE (ledger_snapshot_digest sha l) (\<lambda>expected.
      guarded [(sl_content_hash l \<noteq> expected, exec_error ''submission ledger snapshot hash is invalid'')] (Inr l)))"

definition create_ledger_snapshot :: "sha256 \<Rightarrow> SubmissionLedgerSnapshot \<Rightarrow> SubmissionLedgerSnapshot res" where
  "create_ledger_snapshot sha l =
     bindE (ledger_snapshot_values_digest sha l) (\<lambda>h. validate_ledger_snapshot sha (l\<lparr>sl_content_hash := h\<rparr>))"

record SubmissionAuthoritySnapshot =
  sa_client_order_id :: string
  sa_ledger_snapshot_hash :: string
  sa_safety_snapshot_hash :: string
  sa_account_id_hash :: string
  sa_account_cash :: decimal
  sa_account_equity :: decimal
  sa_account_observed_at :: int
  sa_positions :: "Position list"
  sa_open_client_order_ids :: "string list"
  sa_evaluated_at :: int
  sa_content_hash :: string

definition authority_payload :: "SubmissionAuthoritySnapshot \<Rightarrow> pval" where
  "authority_payload a = PMap
     [(''account_cash'', PDec (sa_account_cash a)),
      (''account_equity'', PDec (sa_account_equity a)),
      (''account_id_hash'', PStr (sa_account_id_hash a)),
      (''account_observed_at'', PTime (sa_account_observed_at a)),
      (''client_order_id'', PStr (sa_client_order_id a)),
      (''evaluated_at'', PTime (sa_evaluated_at a)),
      (''ledger_snapshot_hash'', PStr (sa_ledger_snapshot_hash a)),
      (''open_client_order_ids'', PSeq (map PStr (sa_open_client_order_ids a))),
      (''positions'', PSeq (map (\<lambda>p. PSeq [PStr (pos_symbol p), PDec (pos_quantity p)]) (sa_positions a))),
      (''safety_snapshot_hash'', PStr (sa_safety_snapshot_hash a)),
      (''schema'', PStr ''submission-authority-snapshot-v1'')]"

definition authority_values :: "SubmissionAuthoritySnapshot \<Rightarrow> pval" where
  "authority_values a = PMap
     [(''schema'', PStr ''submission-authority-snapshot-v1''),
      (''account_cash'', PDec (sa_account_cash a)),
      (''account_equity'', PDec (sa_account_equity a)),
      (''account_id_hash'', PStr (sa_account_id_hash a)),
      (''account_observed_at'', PTime (sa_account_observed_at a)),
      (''client_order_id'', PStr (sa_client_order_id a)),
      (''evaluated_at'', PTime (sa_evaluated_at a)),
      (''ledger_snapshot_hash'', PStr (sa_ledger_snapshot_hash a)),
      (''open_client_order_ids'', PSeq (map PStr (sa_open_client_order_ids a))),
      (''positions'', PSeq (map (\<lambda>p. PSeq [PStr (pos_symbol p), PDec (pos_quantity p)]) (sa_positions a))),
      (''safety_snapshot_hash'', PStr (sa_safety_snapshot_hash a))]"

definition authority_guards :: "SubmissionAuthoritySnapshot \<Rightarrow> (bool \<times> error) list" where
  "authority_guards a =
     [(sa_client_order_id a = [], exec_error ''submission authority client order ID is invalid'')] @
     map (\<lambda>h. (\<not> is_hash h, exec_error ''submission authority hash is invalid''))
       [sa_ledger_snapshot_hash a, sa_safety_snapshot_hash a, sa_account_id_hash a, sa_content_hash a] @
     [(sa_account_observed_at a > sa_evaluated_at a, exec_error ''submission authority account is from the future''),
      (map pos_symbol (sa_positions a) \<noteq> sort (map pos_symbol (sa_positions a)) \<or>
         \<not> distinct (map pos_symbol (sa_positions a)),
        exec_error ''submission authority positions are invalid''),
      (sa_open_client_order_ids a \<noteq> sorted_set (sa_open_client_order_ids a),
        exec_error ''submission authority open orders are invalid'')]"

definition validate_authority :: "sha256 \<Rightarrow> SubmissionAuthoritySnapshot \<Rightarrow> SubmissionAuthoritySnapshot res" where
  "validate_authority sha a =
     guarded (authority_guards a)
     (bindE (sha256_hex sha (authority_payload a)) (\<lambda>expected.
      guarded [(sa_content_hash a \<noteq> expected, exec_error ''submission authority content hash is invalid'')] (Inr a)))"

definition safety_digest :: "sha256 \<Rightarrow> SubmissionSafetySnapshot \<Rightarrow> string res" where
  "safety_digest sha s = sha256_hex sha (PMap
     [(''account_observed_at'', PTime (sf_account_observed_at s)),
      (''active_symbols'', PSeq (map PStr (sf_active_symbols s))),
      (''ambiguous_order_exists'', PBool (sf_ambiguous_order_exists s)),
      (''blocking_latch_exists'', PBool (sf_blocking_latch_exists s)),
      (''data_complete'', PBool (sf_data_complete s)),
      (''entry_disabled'', PBool (sf_entry_disabled s)),
      (''evaluated_at'', PTime (sf_evaluated_at s)),
      (''price_observed_at'', PTime (sf_price_observed_at s)),
      (''reconciliation_clean'', PBool (sf_reconciliation_clean s)),
      (''reconciliation_observed_at'', PTime (sf_reconciliation_observed_at s)),
      (''schema'', PStr ''submission-safety-snapshot-v1''),
      (''security_observed_at'', PTime (sf_security_observed_at s)),
      (''session_open'', PBool (sf_session_open s)),
      (''shortable_symbols'', PSeq (map PStr (sf_shortable_symbols s)))])"

definition create_authority :: "sha256 \<Rightarrow> SubmissionLedgerSnapshot \<Rightarrow> SubmissionSafetySnapshot \<Rightarrow> AccountState \<Rightarrow>
    Position list \<Rightarrow> string list \<Rightarrow> SubmissionAuthoritySnapshot res" where
  "create_authority sha ledger safety account positions open_ids =
     bindE (safety_digest sha safety) (\<lambda>safety_hash.
     bindE (account_id_hash sha account) (\<lambda>account_hash.
     let a = \<lparr>sa_client_order_id = sl_client_order_id ledger, sa_ledger_snapshot_hash = sl_content_hash ledger,
           sa_safety_snapshot_hash = safety_hash, sa_account_id_hash = account_hash,
           sa_account_cash = account_cash account, sa_account_equity = account_equity account,
           sa_account_observed_at = account_observed_at account, sa_positions = positions,
           sa_open_client_order_ids = open_ids, sa_evaluated_at = sf_evaluated_at safety, sa_content_hash = ''''\<rparr>
     in bindE (sha256_hex sha (authority_values a)) (\<lambda>h. validate_authority sha (a\<lparr>sa_content_hash := h\<rparr>))))"

section \<open>Authorization\<close>

record SubmissionAuthorization =
  auth_approved :: bool
  auth_reasons :: "string list"

definition validate_authorization :: "SubmissionAuthorization \<Rightarrow> SubmissionAuthorization res" where
  "validate_authorization a =
     guarded
      [(auth_reasons a \<noteq> sorted_set (auth_reasons a), exec_error ''submission reasons must be unique and ordered''),
       (auth_approved a = (auth_reasons a \<noteq> []), exec_error ''submission decision and reasons disagree'')]
     (Inr a)"

definition reason_if :: "bool \<Rightarrow> string \<Rightarrow> string list" where
  "reason_if b r = (if b then [r] else [])"

definition safety_reasons :: "OrderIntent \<Rightarrow> SubmissionSafetySnapshot \<Rightarrow> string list" where
  "safety_reasons i s =
     (let now = sf_evaluated_at s in
      reason_if (now \<ge> intent_deadline_at i) ''intent_expired'' @
      reason_if (intent_symbol i \<notin> set (sf_active_symbols s)) ''symbol_not_active'' @
      reason_if (\<not> sf_session_open s) ''session_closed'' @
      reason_if (\<not> sf_data_complete s) ''market_data_incomplete'' @
      reason_if (now - sf_account_observed_at s > ACCOUNT_FRESHNESS) ''account_stale'' @
      reason_if (now - sf_security_observed_at s > SECURITY_FRESHNESS) ''security_metadata_stale'' @
      reason_if (now - sf_reconciliation_observed_at s > RECONCILIATION_FRESHNESS) ''reconciliation_stale'' @
      reason_if (now - sf_price_observed_at s > PLANNING_PRICE_FRESHNESS) ''planning_price_stale'' @
      reason_if (\<not> sf_reconciliation_clean s) ''reconciliation_blocking'' @
      reason_if (sf_ambiguous_order_exists s) ''ambiguous_order_exists'' @
      (if opens_exposure (intent_position_effect i) then
         reason_if (sf_blocking_latch_exists s) ''blocking_latch_active'' @
         reason_if (sf_entry_disabled s) ''entry_disabled'' @
         reason_if (intent_position_effect i \<in> {OPEN_SHORT, INCREASE_SHORT} \<and>
           intent_symbol i \<notin> set (sf_shortable_symbols s)) ''short_not_eligible''
       else []))"

definition decision_of_reasons :: "string list \<Rightarrow> SubmissionAuthorization res" where
  "decision_of_reasons reasons =
     (let ordered = sorted_set reasons in
      validate_authorization \<lparr>auth_approved = (ordered = []), auth_reasons = ordered\<rparr>)"

definition authorize_intent :: "OrderIntent \<Rightarrow> SubmissionSafetySnapshot \<Rightarrow> SubmissionAuthorization res" where
  "authorize_intent i s = decision_of_reasons (safety_reasons i s)"

section \<open>The paper gate\<close>

record PaperGateContext =
  pg_runtime_mode :: ExecutionMode
  pg_submission_enabled :: bool
  pg_acknowledgement :: "string option"
  pg_adapter_paper_only :: bool
  pg_secret_files_valid :: bool
  pg_configured_account_id_hash :: string
  pg_observed_account_id_hash :: string
  pg_signal :: SignalEnvelope
  pg_model_authorization :: PaperAuthorizationDecision
  pg_safety :: SubmissionSafetySnapshot

definition validate_paper_context :: "PaperGateContext \<Rightarrow> PaperGateContext res" where
  "validate_paper_context c =
     guarded
      [(\<not> is_hash (pg_configured_account_id_hash c), exec_error ''configured account hash is invalid''),
       (\<not> is_hash (pg_observed_account_id_hash c), exec_error ''observed account hash is invalid'')]
     (Inr c)"

definition paper_reasons :: "OrderIntent \<Rightarrow> PaperGateContext \<Rightarrow> string list" where
  "paper_reasons i c =
     (let g = pg_signal c in
      safety_reasons i (pg_safety c) @
      reason_if (pg_runtime_mode c \<noteq> PAPER_MODE) ''runtime_not_paper'' @
      reason_if (\<not> pg_submission_enabled c) ''submission_disabled'' @
      reason_if (pg_acknowledgement c \<noteq> Some PAPER_ACKNOWLEDGEMENT) ''paper_acknowledgement_missing'' @
      reason_if (\<not> pg_adapter_paper_only c) ''adapter_not_paper_only'' @
      reason_if (\<not> pg_secret_files_valid c) ''paper_secret_files_invalid'' @
      reason_if (pg_configured_account_id_hash c \<noteq> pg_observed_account_id_hash c) ''account_id_mismatch'' @
      reason_if (sg_provider_source_mode g = OFFLINE_FIXTURE_SOURCE \<or> \<not> sg_promotable g \<or> \<not> sg_paper_submission_eligible g)
        ''signal_not_paper_eligible'' @
      reason_if (sg_experiment_hash g \<noteq> intent_experiment_hash i \<or> sg_correlation_id g \<noteq> intent_correlation_id i \<or>
          intent_symbol i \<notin> set (sg_active_symbols g)) ''signal_intent_mismatch'' @
      reason_if (\<not> pa_approved (pg_model_authorization c)) (paper_reason_value (pa_reason (pg_model_authorization c))))"

definition authorize_paper_intent :: "OrderIntent \<Rightarrow> PaperGateContext \<Rightarrow> SubmissionAuthorization res" where
  "authorize_paper_intent i c = decision_of_reasons (paper_reasons i c)"

section \<open>Properties\<close>

lemma set_reason_if [simp]: "set (reason_if b r) = (if b then {r} else {})"
  by (simp add: reason_if_def)

lemma reason_if_Nil [simp]: "reason_if b r = [] \<longleftrightarrow> \<not> b"
  by (simp add: reason_if_def)

lemma sorted_set_Nil_iff [simp]: "sorted_set xs = [] \<longleftrightarrow> xs = []"
  by (metis set_empty set_sorted_set)

lemma decision_of_reasons_eval:
  "decision_of_reasons rs = Inr \<lparr>auth_approved = (rs = []), auth_reasons = sorted_set rs\<rparr>"
proof -
  have "sorted_set (sorted_set rs) = sorted_set rs" by (simp add: sorted_set_fixpoint)
  then show ?thesis by (simp add: decision_of_reasons_def Let_def validate_authorization_def)
qed

text \<open>
  C14. When an intent may be submitted: \<open>authorize_intent\<close> approves exactly when the intent has not
  expired, its symbol is active, the session is open, the data complete, the account, security,
  reconciliation and price observations are at most 30, 300, 60 and 120 seconds old, the last
  reconciliation was clean, no order is ambiguous, and, for an intent that opens exposure, no
  latch blocks, entry is enabled and a short is eligible. It never raises.
\<close>

theorem authorize_intent_gates:
  "(\<exists>rs. authorize_intent i s = Inr \<lparr>auth_approved = True, auth_reasons = rs\<rparr>) \<longleftrightarrow>
     sf_evaluated_at s < intent_deadline_at i \<and> intent_symbol i \<in> set (sf_active_symbols s) \<and>
     sf_session_open s \<and> sf_data_complete s \<and>
     sf_evaluated_at s - sf_account_observed_at s \<le> 30000000 \<and>
     sf_evaluated_at s - sf_security_observed_at s \<le> 300000000 \<and>
     sf_evaluated_at s - sf_reconciliation_observed_at s \<le> 60000000 \<and>
     sf_evaluated_at s - sf_price_observed_at s \<le> 120000000 \<and>
     sf_reconciliation_clean s \<and> \<not> sf_ambiguous_order_exists s \<and>
     (if opens_exposure (intent_position_effect i)
      then \<not> sf_blocking_latch_exists s \<and> \<not> sf_entry_disabled s \<and>
        (if intent_position_effect i \<in> {OPEN_SHORT, INCREASE_SHORT}
         then intent_symbol i \<in> set (sf_shortable_symbols s) else True)
      else True)"
  by (auto simp: authorize_intent_def decision_of_reasons_eval safety_reasons_def Let_def not_le not_less
      ACCOUNT_FRESHNESS_def SECURITY_FRESHNESS_def RECONCILIATION_FRESHNESS_def PLANNING_PRICE_FRESHNESS_def)

text \<open>
  C32. Paper submission is denied by construction: a paper authorization decision that exists is a
  denial, so the ten-gate check of an intent for the paper broker always answers "not approved",
  and \<open>model_approval_not_implemented\<close> is among the reasons whatever the other gates say.
\<close>

theorem paper_gate_denies:
  assumes "validate_paper_authorization (pg_model_authorization c) = Inr p"
  shows "\<exists>rs. authorize_paper_intent i c = Inr \<lparr>auth_approved = False, auth_reasons = rs\<rparr> \<and>
    ''model_approval_not_implemented'' \<in> set rs"
proof -
  have "\<not> pa_approved (pg_model_authorization c)" using assms by (auto simp: validate_paper_authorization_def)
  then have "''model_approval_not_implemented'' \<in> set (paper_reasons i c)"
    by (cases "pa_reason (pg_model_authorization c)") (simp add: paper_reasons_def Let_def)
  then show ?thesis by (auto simp: authorize_paper_intent_def decision_of_reasons_eval)
qed

definition sample_safety :: SubmissionSafetySnapshot where
  "sample_safety = \<lparr>sf_evaluated_at = 60000000, sf_session_open = True, sf_data_complete = True,
     sf_account_observed_at = 60000000, sf_security_observed_at = 0, sf_reconciliation_observed_at = 0,
     sf_price_observed_at = 0, sf_reconciliation_clean = True, sf_ambiguous_order_exists = False,
     sf_blocking_latch_exists = False, sf_entry_disabled = False, sf_active_symbols = [''AAPL''],
     sf_shortable_symbols = []\<rparr>"

definition sample_paper_context :: PaperGateContext where
  "sample_paper_context = \<lparr>pg_runtime_mode = PAPER_MODE, pg_submission_enabled = True,
     pg_acknowledgement = Some PAPER_ACKNOWLEDGEMENT, pg_adapter_paper_only = True, pg_secret_files_valid = True,
     pg_configured_account_id_hash = sample_hash, pg_observed_account_id_hash = sample_hash,
     pg_signal = \<lparr>sg_contract_version = 1, sg_signal_id = ''signal_'' @ sample_hash, sg_slot_id = ''slot_'' @ sample_hash,
       sg_correlation_id = ''correlation_'' @ sample_hash, sg_provider_id = ''local_model'', sg_provider_version = ''1.0.0'',
       sg_provider_source_mode = BUILTIN_SOURCE, sg_experiment_id = ''signed_baseline'', sg_experiment_version = 1,
       sg_experiment_hash = sample_hash, sg_data_contract_hash = sample_hash, sg_policy_hash = sample_hash,
       sg_source_bar_end = 0, sg_created_at = 0, sg_expires_at = 1, sg_active_symbols = [''AAPL''],
       sg_availability_mask = [True], sg_actions = [LONG_ACTION], sg_expected_edge_bps = [Some (Dec 5 0)],
       sg_proposed_signed_target_inputs = [None], sg_artifact_id = None, sg_artifact_hash = None, sg_promotable = True,
       sg_paper_submission_eligible = True, sg_content_hash = sample_hash\<rparr>,
     pg_model_authorization = \<lparr>pa_approved = False, pa_reason = MODEL_APPROVAL_NOT_IMPLEMENTED\<rparr>,
     pg_safety = sample_safety\<rparr>"

theorem paper_gate_denies_witness:
  "\<forall>i. \<exists>rs. authorize_paper_intent i sample_paper_context = Inr \<lparr>auth_approved = False, auth_reasons = rs\<rparr> \<and>
    ''model_approval_not_implemented'' \<in> set rs"
  using paper_gate_denies [of sample_paper_context]
  by (simp add: validate_paper_authorization_def sample_paper_context_def)

end
