(* ===== verification/Execution_Ledger.thy ===== *)
theory Execution_Ledger
  imports Submission_Authority Planner Reconciliation Audit_Chains
begin

text \<open>
  The execution ledger (\<open>execution/repository.py\<close>, class \<open>MemoryExecutionRepository\<close>) and the
  broker updates it applies (\<open>execution/broker.py\<close>, class \<open>BrokerUpdate\<close>). The dictionaries of the
  object are association lists in insertion order. An operation is a function of the ledger that
  returns its result or exception together with the ledger it leaves behind, so that an exception
  after a write shows in the model as it does in the program.
\<close>

section \<open>Equality of the stored records\<close>

text \<open>Dataclasses compare field by field, and decimals compare by value.\<close>

definition fill_eq :: "Fill \<Rightarrow> Fill \<Rightarrow> bool" where
  "fill_eq f g \<longleftrightarrow> fill_id f = fill_id g \<and> fill_client_order_id f = fill_client_order_id g \<and>
     fill_broker_execution_id f = fill_broker_execution_id g \<and> fill_symbol f = fill_symbol g \<and>
     fill_side f = fill_side g \<and> deq (fill_quantity f) (fill_quantity g) \<and> deq (fill_price f) (fill_price g) \<and>
     deq (fill_fee f) (fill_fee g) \<and> fill_occurred_at f = fill_occurred_at g \<and>
     fill_content_hash f = fill_content_hash g"

definition plan_eq :: "ExecutionPlan \<Rightarrow> ExecutionPlan \<Rightarrow> bool" where
  "plan_eq p q \<longleftrightarrow> execution_plan_id p = execution_plan_id q \<and> plan_risk_decision_id p = plan_risk_decision_id q \<and>
     plan_risk_decision_hash p = plan_risk_decision_hash q \<and> plan_experiment_hash p = plan_experiment_hash q \<and>
     plan_correlation_id p = plan_correlation_id q \<and> plan_target_version p = plan_target_version q \<and>
     plan_forced_flat p = plan_forced_flat q \<and>
     list_all2 position_eq (plan_target_quantities p) (plan_target_quantities q) \<and>
     list_all2 position_eq (plan_current_positions p) (plan_current_positions q) \<and>
     list_all2 price_eq (plan_reference_prices p) (plan_reference_prices q) \<and>
     deq (plan_equity p) (plan_equity q) \<and> plan_created_at p = plan_created_at q \<and>
     plan_deadline_at p = plan_deadline_at q \<and> plan_content_hash p = plan_content_hash q"

definition intent_eq :: "OrderIntent \<Rightarrow> OrderIntent \<Rightarrow> bool" where
  "intent_eq i j \<longleftrightarrow> order_intent_id i = order_intent_id j \<and> intent_execution_plan_id i = intent_execution_plan_id j \<and>
     intent_risk_decision_id i = intent_risk_decision_id j \<and> intent_experiment_hash i = intent_experiment_hash j \<and>
     intent_correlation_id i = intent_correlation_id j \<and> intent_client_order_id i = intent_client_order_id j \<and>
     intent_symbol i = intent_symbol j \<and> intent_side i = intent_side j \<and>
     intent_position_effect i = intent_position_effect j \<and> intent_phase i = intent_phase j \<and>
     intent_sequence i = intent_sequence j \<and> intent_target_version i = intent_target_version j \<and>
     deq (intent_quantity i) (intent_quantity j) \<and> deq (intent_notional i) (intent_notional j) \<and>
     deq (intent_reference_price i) (intent_reference_price j) \<and>
     deq (intent_final_target_quantity i) (intent_final_target_quantity j) \<and>
     intent_forced_flat i = intent_forced_flat j \<and> intent_created_at i = intent_created_at j \<and>
     intent_deadline_at i = intent_deadline_at j \<and> intent_target_hash i = intent_target_hash j \<and>
     intent_content_hash i = intent_content_hash j"

definition exposure_eq :: "ExposureSnapshot \<Rightarrow> ExposureSnapshot \<Rightarrow> bool" where
  "exposure_eq x y \<longleftrightarrow> deq (ex_gross x) (ex_gross y) \<and> deq (ex_net x) (ex_net y) \<and>
     deq (ex_positive x) (ex_positive y) \<and> deq (ex_short_abs x) (ex_short_abs y) \<and>
     list_all2 price_eq (ex_group_gross x) (ex_group_gross y) \<and>
     list_all2 price_eq (ex_cluster_gross x) (ex_cluster_gross y)"

definition control_eq :: "AppliedRiskControl \<Rightarrow> AppliedRiskControl \<Rightarrow> bool" where
  "control_eq c d \<longleftrightarrow> pass_number c = pass_number d \<and> ordinal c = ordinal d \<and> control c = control d \<and>
     scope c = scope d \<and> deq (factor c) (factor d) \<and>
     list_all2 price_eq (before_weights c) (before_weights d) \<and>
     list_all2 price_eq (after_weights c) (after_weights d)"

definition decision_eq :: "RiskDecision \<Rightarrow> RiskDecision \<Rightarrow> bool" where
  "decision_eq a b \<longleftrightarrow> risk_decision_id a = risk_decision_id b \<and> rd_slot_id a = rd_slot_id b \<and>
     rd_signal_id a = rd_signal_id b \<and> rd_signal_hash a = rd_signal_hash b \<and>
     rd_experiment_hash a = rd_experiment_hash b \<and> rd_policy_id a = rd_policy_id b \<and>
     rd_policy_version a = rd_policy_version b \<and> rd_policy_hash a = rd_policy_hash b \<and>
     rd_correlation_id a = rd_correlation_id b \<and> rd_decided_at a = rd_decided_at b \<and>
     rd_input_hash a = rd_input_hash b \<and> rd_statistics_hash a = rd_statistics_hash b \<and>
     (let x = rd_account_snapshot a; y = rd_account_snapshot b in
      as_account_id_hash x = as_account_id_hash y \<and> deq (as_equity x) (as_equity y) \<and>
      deq (as_cash x) (as_cash y) \<and> deq (as_buying_power x) (as_buying_power y) \<and>
      as_observed_at x = as_observed_at y) \<and>
     list_all2 (\<lambda>p q. sp_symbol p = sp_symbol q \<and> deq (sp_quantity p) (sp_quantity q))
       (rd_planning_positions a) (rd_planning_positions b) \<and>
     list_all2 (\<lambda>p q. pp_symbol p = pp_symbol q \<and> deq (pp_price p) (pp_price q) \<and>
         pp_observed_at p = pp_observed_at q \<and> pp_validated p = pp_validated q)
       (rd_planning_prices a) (rd_planning_prices b) \<and>
     rd_security_metadata a = rd_security_metadata b \<and>
     list_all2 (\<lambda>(s, t, x, y) (s', t', x', y'). s = s' \<and> t = t' \<and> opt_deq x x' \<and> opt_deq y y')
       (rd_original_proposal a) (rd_original_proposal b) \<and>
     list_all2 price_eq (rd_proposed_targets a) (rd_proposed_targets b) \<and>
     list_all2 price_eq (rd_final_targets a) (rd_final_targets b) \<and>
     exposure_eq (rd_before_exposure a) (rd_before_exposure b) \<and>
     exposure_eq (rd_after_exposure a) (rd_after_exposure b) \<and>
     list_all2 control_eq (rd_ordered_controls a) (rd_ordered_controls b) \<and>
     rd_block_reasons a = rd_block_reasons b \<and> rd_flatten_reasons a = rd_flatten_reasons b \<and>
     rd_source_timestamps a = rd_source_timestamps b \<and> rd_latch_state_hash a = rd_latch_state_hash b \<and>
     rd_active_latches a = rd_active_latches b \<and> rd_required_latch_events a = rd_required_latch_events b \<and>
     rd_execution_scope a = rd_execution_scope b \<and> rd_content_hash a = rd_content_hash b"

definition receipt_eq :: "ReconciliationReceipt \<Rightarrow> ReconciliationReceipt \<Rightarrow> bool" where
  "receipt_eq a b \<longleftrightarrow> reconciliation_id a = reconciliation_id b \<and> rc_experiment_hash a = rc_experiment_hash b \<and>
     rc_slot_id a = rc_slot_id b \<and> rc_execution_plan_id a = rc_execution_plan_id b \<and>
     rc_correlation_id a = rc_correlation_id b \<and> rc_account_id_hash a = rc_account_id_hash b \<and>
     rc_account_observed_at a = rc_account_observed_at b \<and> rc_started_at a = rc_started_at b \<and>
     rc_completed_at a = rc_completed_at b \<and> rc_status a = rc_status b \<and>
     list_all2 position_eq (rc_expected_positions a) (rc_expected_positions b) \<and>
     list_all2 position_eq (rc_observed_positions a) (rc_observed_positions b) \<and>
     deq (rc_expected_cash a) (rc_expected_cash b) \<and> deq (rc_observed_cash a) (rc_observed_cash b) \<and>
     deq (rc_expected_equity a) (rc_expected_equity b) \<and> deq (rc_observed_equity a) (rc_observed_equity b) \<and>
     list_all2 price_eq (rc_mark_prices a) (rc_mark_prices b) \<and> rc_fill_hashes a = rc_fill_hashes b \<and>
     rc_order_hashes a = rc_order_hashes b \<and> rc_require_flat a = rc_require_flat b \<and>
     rc_required_flat_at a = rc_required_flat_at b \<and>
     list_all2 discrepancy_eq (rc_discrepancies a) (rc_discrepancies b) \<and> rc_content_hash a = rc_content_hash b"

section \<open>Broker updates\<close>

definition BROKER_REPORTED_STATES :: "OrderState set" where
  "BROKER_REPORTED_STATES = {SUBMITTED, ACCEPTED, PENDING, PARTIALLY_FILLED, FILLED, CANCELED, REJECTED, EXPIRED}"

record BrokerUpdate =
  up_client_order_id :: string
  up_broker_order_id :: string
  up_broker_event_id :: string
  up_state :: OrderState
  up_occurred_at :: int
  up_cumulative_filled_quantity :: decimal
  up_average_fill_price :: "decimal option"
  up_fills :: "Fill list"
  up_safe_error_code :: "string option"
  up_duplicate :: bool

definition validate_broker_update :: "BrokerUpdate \<Rightarrow> BrokerUpdate res" where
  "validate_broker_update u =
     guarded
      [(up_state u \<notin> BROKER_REPORTED_STATES, exec_error ''broker cannot report a local-only order state''),
       (dlt (up_cumulative_filled_quantity u) dzero, exec_error ''broker cumulative fill is invalid''),
       (case up_average_fill_price u of Some p \<Rightarrow> dle p dzero | None \<Rightarrow> False,
         exec_error ''broker average fill price is invalid''),
       (\<not> deq (up_cumulative_filled_quantity u) dzero \<noteq> (up_average_fill_price u \<noteq> None),
         exec_error ''broker fill quantity and price disagree'')]
     (Inr u)"

section \<open>The ledger\<close>

record ExecutionLedger =
  led_plans :: "(string, ExecutionPlan) dict"
  led_risk_decisions :: "(string, RiskDecision) dict"
  led_intents :: "(string, OrderIntent) dict"
  led_intent_ids :: "(string, OrderIntent) dict"
  led_orders :: "(string, BrokerOrder) dict"
  led_order_events :: "(string, OrderEvent) dict"
  led_broker_event_ids :: "(string, string) dict"
  led_fills :: "(string, Fill) dict"
  led_reconciliations :: "(string, ReconciliationReceipt) dict"
  led_incidents :: "(string, Incident) dict"
  led_incident_keys :: "(string, Incident) dict"
  led_latch_events :: "(string, RiskLatchEvent) dict"
  led_audit_events :: "AuditEvent list"

definition empty_ledger :: ExecutionLedger where
  "empty_ledger = \<lparr>led_plans = [], led_risk_decisions = [], led_intents = [], led_intent_ids = [], led_orders = [],
     led_order_events = [], led_broker_event_ids = [], led_fills = [], led_reconciliations = [], led_incidents = [],
     led_incident_keys = [], led_latch_events = [], led_audit_events = []\<rparr>"

text \<open>An operation on a state of type \<open>'s\<close>.\<close>

type_synonym ('s, 'a) op = "'s \<Rightarrow> 'a res \<times> 's"

definition reads :: "('s \<Rightarrow> 'a res) \<Rightarrow> ('s, 'a) op" where
  "reads f l = (f l, l)"

definition writes :: "('s \<Rightarrow> 's) \<Rightarrow> ('s, unit) op" where
  "writes g l = (Inr (), g l)"

definition returns :: "'a \<Rightarrow> ('s, 'a) op" where
  "returns x l = (Inr x, l)"

definition bindS :: "('s, 'a) op \<Rightarrow> ('a \<Rightarrow> ('s, 'b) op) \<Rightarrow> ('s, 'b) op" where
  "bindS m f l = (case m l of (Inl e, l') \<Rightarrow> (Inl e, l') | (Inr x, l') \<Rightarrow> f x l')"

fun forS :: "'a list \<Rightarrow> ('a \<Rightarrow> ('s, unit) op) \<Rightarrow> ('s, unit) op" where
  "forS [] f = returns ()"
| "forS (x # xs) f = bindS (f x) (\<lambda>_. forS xs f)"

type_synonym 'a ledger_op = "(ExecutionLedger, 'a) op"

subsection \<open>Reading\<close>

definition found :: "string \<Rightarrow> 'v option \<Rightarrow> 'v res" where
  "found message v = (case v of Some x \<Rightarrow> Inr x | None \<Rightarrow> Inl (exec_error message))"

definition get_plan :: "string \<Rightarrow> ExecutionLedger \<Rightarrow> ExecutionPlan res" where
  "get_plan k l = found ''execution plan does not exist'' (map_of (led_plans l) k)"

definition get_risk_decision :: "string \<Rightarrow> ExecutionLedger \<Rightarrow> RiskDecision res" where
  "get_risk_decision k l = found ''risk decision does not exist'' (map_of (led_risk_decisions l) k)"

definition get_order :: "string \<Rightarrow> ExecutionLedger \<Rightarrow> BrokerOrder res" where
  "get_order k l = found ''broker order does not exist'' (map_of (led_orders l) k)"

definition get_intent :: "string \<Rightarrow> ExecutionLedger \<Rightarrow> OrderIntent res" where
  "get_intent k l = found ''order intent does not exist'' (map_of (led_intents l) k)"

definition intents_for_plan :: "string \<Rightarrow> ExecutionLedger \<Rightarrow> OrderIntent list" where
  "intents_for_plan k l =
     sort_key intent_sequence (filter (\<lambda>i. intent_execution_plan_id i = k) (dict_values (led_intents l)))"

definition all_intents :: "ExecutionLedger \<Rightarrow> OrderIntent list" where
  "all_intents l = sort_key intent_client_order_id (dict_values (led_intents l))"

text \<open>\<open>tuple(d[key] for key in sorted(d))\<close>.\<close>

definition values_by_key :: "(string, 'v) dict \<Rightarrow> 'v list" where
  "values_by_key d = map snd (sort_key fst d)"

definition all_orders :: "ExecutionLedger \<Rightarrow> BrokerOrder list" where
  "all_orders l = values_by_key (led_orders l)"

definition order_events :: "ExecutionLedger \<Rightarrow> OrderEvent list" where
  "order_events l = sort_key (\<lambda>e. (event_client_order_id e, event_sequence e)) (dict_values (led_order_events l))"

definition ledger_fills :: "ExecutionLedger \<Rightarrow> Fill list" where
  "ledger_fills l = values_by_key (led_fills l)"

definition fills_for_order :: "string \<Rightarrow> ExecutionLedger \<Rightarrow> Fill list" where
  "fills_for_order c l = sort_key (\<lambda>f. (fill_occurred_at f, fill_broker_execution_id f))
     (filter (\<lambda>f. fill_client_order_id f = c) (dict_values (led_fills l)))"

definition reconciliations :: "ExecutionLedger \<Rightarrow> ReconciliationReceipt list" where
  "reconciliations l = values_by_key (led_reconciliations l)"

definition incidents :: "ExecutionLedger \<Rightarrow> Incident list" where
  "incidents l = values_by_key (led_incidents l)"

definition ledger_latch_events :: "ExecutionLedger \<Rightarrow> RiskLatchEvent list" where
  "ledger_latch_events l =
     sort_key (\<lambda>e. (kind_value (ev_latch_type e), ev_sequence e)) (dict_values (led_latch_events l))"

definition has_ambiguous_order :: "ExecutionLedger \<Rightarrow> bool" where
  "has_ambiguous_order l \<longleftrightarrow>
     list_ex (\<lambda>x. ambiguous (order_state x) \<or> order_state x = SUBMISSION_STARTED) (dict_values (led_orders l))"

definition submission_ledger_snapshot :: "sha256 \<Rightarrow> string \<Rightarrow> ExecutionLedger \<Rightarrow> SubmissionLedgerSnapshot res" where
  "submission_ledger_snapshot sha c l =
     bindE (get_intent c l) (\<lambda>intent.
     bindE (get_plan (intent_execution_plan_id intent) l) (\<lambda>plan.
     bindE (get_risk_decision (plan_risk_decision_id plan) l) (\<lambda>decision.
     let plan_client_ids = map intent_client_order_id (intents_for_plan (execution_plan_id plan) l);
         plan_fill_hashes = sort (map fill_content_hash
           (filter (\<lambda>f. fill_client_order_id f \<in> set plan_client_ids) (dict_values (led_fills l))));
         experiment_client_ids = map intent_client_order_id
           (filter (\<lambda>i. intent_experiment_hash i = plan_experiment_hash plan) (dict_values (led_intents l)));
         active_order_hashes = sort (map order_content_hash
           (filter (\<lambda>x. order_client_order_id x \<in> set experiment_client_ids \<and> \<not> terminal (order_state x))
             (dict_values (led_orders l)))) in
     bindE (from_events sha (plan_experiment_hash plan)
       (filter (\<lambda>e. ev_experiment_hash e = plan_experiment_hash plan) (ledger_latch_events l))) (\<lambda>latch_state.
     bindE (get_order c l) (\<lambda>order.
       create_ledger_snapshot sha \<lparr>sl_client_order_id = c, sl_experiment_hash = plan_experiment_hash plan,
         sl_execution_plan_id = execution_plan_id plan, sl_risk_decision_hash = rd_content_hash decision,
         sl_intent_hash = intent_content_hash intent, sl_order_hash = order_content_hash order,
         sl_plan_fill_hashes = plan_fill_hashes, sl_active_order_hashes = active_order_hashes,
         sl_active_latches = st_active latch_state, sl_content_hash = ''''\<rparr>)))))"

subsection \<open>Audit evidence\<close>

definition next_audit :: "sha256 \<Rightarrow> string \<Rightarrow> string \<Rightarrow> int \<Rightarrow> (string \<times> pval) list \<Rightarrow> ExecutionLedger \<Rightarrow> AuditEvent res" where
  "next_audit sha exp_hash event_type occurred_at payload l =
     (let stream_id = ''aqa_execution:'' @ exp_hash;
          stream = filter (\<lambda>e. aud_stream_id e = stream_id) (led_audit_events l);
          sequence = (if stream = [] then 1 else aud_sequence (last stream) + 1);
          previous_hash = (if stream = [] then AUDIT_GENESIS_HASH else aud_event_hash (last stream)) in
      bindE (payload_from_mapping sha (PMap payload)) (\<lambda>p.
        create_audit_event sha stream_id sequence previous_hash event_type EXECUTION_WRITER occurred_at p))"

definition append_audit_event :: "AuditEvent \<Rightarrow> ExecutionLedger \<Rightarrow> ExecutionLedger" where
  "append_audit_event e l = l\<lparr>led_audit_events := led_audit_events l @ [e]\<rparr>"

definition lowered :: "string \<Rightarrow> string" where
  "lowered = map lower_char"

subsection \<open>Plans and intents\<close>

definition request_of_plan :: "ExecutionPlan \<Rightarrow> RiskDecision \<Rightarrow> ExecutionPlanningRequest" where
  "request_of_plan plan decision =
     \<lparr>req_risk_decision = decision, req_current_positions = plan_current_positions plan,
      req_reference_prices = plan_reference_prices plan, req_equity = plan_equity plan,
      req_target_version = plan_target_version plan, req_created_at = plan_created_at plan,
      req_deadline_at = plan_deadline_at plan, req_forced_flat = plan_forced_flat plan\<rparr>"

definition plan_again :: "sha256 \<Rightarrow> ExecutionPlan \<Rightarrow> RiskDecision \<Rightarrow> ExecutionPlanningResult res" where
  "plan_again sha plan decision =
     bindE (validate_request (request_of_plan plan decision)) (plan_signed_orders sha)"

definition persist_intent :: "sha256 \<Rightarrow> OrderIntent \<Rightarrow> unit ledger_op" where
  "persist_intent sha i =
     bindS (writes (\<lambda>l. l\<lparr>led_intents := AList.update (intent_client_order_id i) i (led_intents l),
        led_intent_ids := AList.update (order_intent_id i) i (led_intent_ids l)\<rparr>)) (\<lambda>_.
     bindS (reads (\<lambda>l. committed sha i)) (\<lambda>order.
       writes (\<lambda>l. l\<lparr>led_orders := AList.update (intent_client_order_id i) order (led_orders l)\<rparr>)))"

definition check_bundle :: "sha256 \<Rightarrow> ExecutionPlan \<Rightarrow> OrderIntent list \<Rightarrow> RiskDecision \<Rightarrow> unit res" where
  "check_bundle sha plan intents decision =
     guarded
      [(list_ex (\<lambda>i. intent_execution_plan_id i \<noteq> execution_plan_id plan) intents,
         exec_error ''execution intent belongs to another plan''),
       (map intent_sequence intents \<noteq> map int [0..<length intents],
         exec_error ''execution intent sequence must be contiguous'')]
     (bindE (plan_again sha plan decision) (\<lambda>expected.
      guarded
       [(\<not> (plan_eq (res_plan expected) plan \<and> list_all2 intent_eq (res_intents expected) intents),
          exec_error ''execution bundle does not match its signed risk authorization'')]
      (Inr ())))"

definition persist_new_plan :: "sha256 \<Rightarrow> ExecutionPlan \<Rightarrow> OrderIntent list \<Rightarrow> RiskDecision \<Rightarrow> unit ledger_op" where
  "persist_new_plan sha plan intents decision =
     bindS (reads (\<lambda>l. guarded
       [(list_ex (\<lambda>i. map_of (led_intents l) (intent_client_order_id i) \<noteq> None \<or>
            map_of (led_intent_ids l) (order_intent_id i) \<noteq> None) intents,
         exec_error ''order intent identity already exists'')] (Inr ()))) (\<lambda>_.
     bindS (reads (next_audit sha (plan_experiment_hash plan) ''execution.plan_persisted'' (plan_created_at plan)
       [(''content_hash'', PStr (plan_content_hash plan)),
        (''count'', PInt (int (length intents))),
        (''execution_plan_id'', PStr (execution_plan_id plan)),
        (''idempotency_key'', PStr (execution_plan_id plan))])) (\<lambda>audit.
     bindS (writes (\<lambda>l. l\<lparr>led_plans := AList.update (execution_plan_id plan) plan (led_plans l),
        led_risk_decisions := AList.update (plan_risk_decision_id plan) decision (led_risk_decisions l)\<rparr>)) (\<lambda>_.
     bindS (forS intents (persist_intent sha)) (\<lambda>_.
       writes (append_audit_event audit)))))"

definition persist_plan_and_intents ::
  "sha256 \<Rightarrow> ExecutionPlan \<Rightarrow> OrderIntent list \<Rightarrow> RiskDecision \<Rightarrow> unit ledger_op" where
  "persist_plan_and_intents sha plan intents decision =
     bindS (reads (\<lambda>l. check_bundle sha plan intents decision)) (\<lambda>_.
     bindS (reads (\<lambda>l. Inr (map_of (led_plans l) (execution_plan_id plan)))) (\<lambda>existing_plan.
       case existing_plan of
         Some stored \<Rightarrow> reads (\<lambda>l. guarded
           [(\<not> (plan_eq stored plan \<and>
               list_all2 intent_eq (intents_for_plan (execution_plan_id plan) l) intents \<and>
               (case map_of (led_risk_decisions l) (plan_risk_decision_id plan) of
                  Some d \<Rightarrow> decision_eq d decision | None \<Rightarrow> False)),
             exec_error ''execution plan identity was reused'')] (Inr ()))
       | None \<Rightarrow> persist_new_plan sha plan intents decision))"

subsection \<open>Incidents\<close>

definition record_incident :: "sha256 \<Rightarrow> Incident \<Rightarrow> Incident ledger_op" where
  "record_incident sha i =
     bindS (reads (\<lambda>l. Inr (map_of (led_incident_keys l) (inc_idempotency_key i),
       map_of (led_incidents l) (incident_id i)))) (\<lambda>found_incidents.
       case found_incidents of
         (Some existing, _) \<Rightarrow>
           reads (\<lambda>l. guarded [(existing \<noteq> i, exec_error ''incident idempotency key was reused'')] (Inr existing))
       | (None, Some identity) \<Rightarrow>
           reads (\<lambda>l. guarded [(identity \<noteq> i, exec_error ''incident identity was reused'')] (Inr identity))
       | (None, None) \<Rightarrow>
           bindS (reads (next_audit sha (inc_experiment_hash i) ''incident.opened'' (inc_opened_at i)
             [(''content_hash'', PStr (inc_content_hash i)),
              (''idempotency_key'', PStr (inc_idempotency_key i)),
              (''incident_id'', PStr (incident_id i)),
              (''reason_code'', PStr (inc_reason_code i))])) (\<lambda>audit.
           bindS (writes (\<lambda>l. append_audit_event audit
             (l\<lparr>led_incidents := AList.update (incident_id i) i (led_incidents l),
                led_incident_keys := AList.update (inc_idempotency_key i) i (led_incident_keys l)\<rparr>))) (\<lambda>_.
             returns i)))"

subsection \<open>Order transitions\<close>

definition append_order_transition ::
  "sha256 \<Rightarrow> BrokerOrder \<Rightarrow> BrokerOrder \<Rightarrow> string option \<Rightarrow> string option \<Rightarrow> unit ledger_op" where
  "append_order_transition sha previous current broker_event_id submission_authority_hash =
     bindS (reads (\<lambda>l.
       case broker_event_id of None \<Rightarrow> Inr ()
       | Some b \<Rightarrow> (case map_of (led_broker_event_ids l) b of None \<Rightarrow> Inr ()
           | Some owner \<Rightarrow> if owner \<noteq> order_client_order_id current
               then Inl (exec_error ''broker event ID was reused across orders'')
               else Inl (exec_error ''broker event ID was reused with a new projection'')))) (\<lambda>_.
     bindS (reads (\<lambda>l. event_from_orders sha previous current broker_event_id)) (\<lambda>event.
     bindS (reads (\<lambda>l. guarded [(map_of (led_order_events l) (order_event_id event) \<noteq> None,
       exec_error ''broker event conflicts with durable order history'')] (Inr ()))) (\<lambda>_.
     bindS (reads (get_intent (order_client_order_id current))) (\<lambda>intent.
     bindS (reads (get_plan (intent_execution_plan_id intent))) (\<lambda>plan.
     bindS (reads (next_audit sha (plan_experiment_hash plan) ''order.state_changed'' (order_updated_at current)
       ([(''content_hash'', PStr (order_content_hash current)),
         (''from_state'', PStr (lowered (state_value (order_state previous)))),
         (''idempotency_key'', PStr (order_event_id event)),
         (''order_intent_id'', PStr (order_order_intent_id current))] @
        (case submission_authority_hash of Some h \<Rightarrow> [(''submission_authority_hash'', PStr h)] | None \<Rightarrow> []) @
        [(''to_state'', PStr (lowered (state_value (order_state current))))]))) (\<lambda>audit.
       writes (\<lambda>l. append_audit_event audit
         (l\<lparr>led_orders := AList.update (order_client_order_id current) current (led_orders l),
            led_order_events := AList.update (order_event_id event) event (led_order_events l),
            led_broker_event_ids := (case broker_event_id of
                Some b \<Rightarrow> AList.update b (order_client_order_id current) (led_broker_event_ids l)
              | None \<Rightarrow> led_broker_event_ids l)\<rparr>))))))))"

text \<open>\<open>previous.evolve(...)\<close>, the transition, and the new projection as the result.\<close>

definition move_order :: "sha256 \<Rightarrow> BrokerOrder \<Rightarrow> evolution \<Rightarrow> string option \<Rightarrow> string option \<Rightarrow> BrokerOrder ledger_op" where
  "move_order sha previous u broker_event_id submission_authority_hash =
     bindS (reads (\<lambda>l. evolve sha previous u)) (\<lambda>current.
     bindS (append_order_transition sha previous current broker_event_id submission_authority_hash) (\<lambda>_.
       returns current))"

definition state_change :: "OrderState \<Rightarrow> int \<Rightarrow> evolution" where
  "state_change s t = \<lparr>to_state = s, at_time = t, new_broker_order_id = None, new_submitted_at = None,
     new_accepted_at = None, new_filled = None, new_price = None, new_error_code = None\<rparr>"

definition record_submission_started ::
  "sha256 \<Rightarrow> string \<Rightarrow> int \<Rightarrow> SubmissionAuthoritySnapshot \<Rightarrow> BrokerOrder ledger_op" where
  "record_submission_started sha c started_at authority =
     bindS (reads (get_order c)) (\<lambda>previous.
     bindS (reads (\<lambda>l. guarded [(sa_client_order_id authority \<noteq> c,
       exec_error ''submission authority belongs to another order'')] (Inr ()))) (\<lambda>_.
     bindS (reads (submission_ledger_snapshot sha c)) (\<lambda>snapshot.
     bindS (reads (\<lambda>l. guarded
       [(sl_content_hash snapshot \<noteq> sa_ledger_snapshot_hash authority, exec_error ''submission authority became stale''),
        (order_state previous \<noteq> INTENT_COMMITTED, exec_error ''only a committed intent can begin submission'')]
       (Inr ()))) (\<lambda>_.
       move_order sha previous
         ((state_change SUBMISSION_STARTED started_at)\<lparr>new_submitted_at := Some started_at\<rparr>)
         None (Some (sa_content_hash authority))))))"

definition record_reconciliation_required :: "sha256 \<Rightarrow> string \<Rightarrow> int \<Rightarrow> string \<Rightarrow> BrokerOrder ledger_op" where
  "record_reconciliation_required sha c observed_at reason =
     bindS (reads (get_order c)) (\<lambda>previous.
       if order_state previous = RECONCILIATION_REQUIRED then returns previous
       else if terminal (order_state previous)
       then reads (\<lambda>l. Inl (exec_error ''terminal order cannot require reconciliation''))
       else move_order sha previous
         ((state_change RECONCILIATION_REQUIRED observed_at)\<lparr>new_error_code := Some reason\<rparr>) None None)"

definition record_cancel_requested :: "sha256 \<Rightarrow> string \<Rightarrow> int \<Rightarrow> BrokerOrder ledger_op" where
  "record_cancel_requested sha c requested_at =
     bindS (reads (get_order c)) (\<lambda>previous.
       if order_state previous = CANCEL_REQUESTED then returns previous
       else if terminal (order_state previous) \<or> ambiguous (order_state previous)
       then reads (\<lambda>l. Inl (exec_error ''order cannot enter cancellation from current state''))
       else move_order sha previous (state_change CANCEL_REQUESTED requested_at) None None)"

definition record_submission_unknown :: "sha256 \<Rightarrow> string \<Rightarrow> int \<Rightarrow> string \<Rightarrow> BrokerOrder ledger_op" where
  "record_submission_unknown sha c observed_at reason =
     bindS (reads (get_order c)) (\<lambda>previous.
       if order_state previous = SUBMISSION_UNKNOWN then returns previous
       else if order_state previous \<noteq> SUBMISSION_STARTED
       then reads (\<lambda>l. Inl (exec_error ''only a started submission can become unknown''))
       else move_order sha previous
         ((state_change SUBMISSION_UNKNOWN observed_at)\<lparr>new_error_code := Some reason\<rparr>) None None)"

subsection \<open>Broker updates and fills\<close>

definition fill_matches :: "OrderIntent \<Rightarrow> Fill \<Rightarrow> bool" where
  "fill_matches i f \<longleftrightarrow> fill_client_order_id f = intent_client_order_id i \<and> fill_symbol f = intent_symbol i \<and>
     fill_side f = intent_side i"

definition fill_in_lifecycle :: "OrderIntent \<Rightarrow> BrokerOrder \<Rightarrow> int \<Rightarrow> Fill \<Rightarrow> bool" where
  "fill_in_lifecycle i x update_at f \<longleftrightarrow> intent_created_at i \<le> fill_occurred_at f \<and>
     (case order_submitted_at x of Some t \<Rightarrow> t \<le> fill_occurred_at f | None \<Rightarrow> True) \<and> fill_occurred_at f \<le> update_at"

definition fill_evidence_guards :: "OrderIntent \<Rightarrow> BrokerOrder \<Rightarrow> int \<Rightarrow> Fill \<Rightarrow> (bool \<times> error) list" where
  "fill_evidence_guards i x update_at f =
     [(\<not> fill_matches i f, exec_error ''broker fill does not match its durable intent''),
      (\<not> fill_in_lifecycle i x update_at f, exec_error ''broker fill timestamp is outside the order lifecycle'')]"

definition expected_average :: "Fill list \<Rightarrow> decimal option" where
  "expected_average fs =
     (let actual = dsum 28 (map fill_quantity fs) in
      if deq actual dzero then None
      else ddiv 28 (dsum 28 (map (\<lambda>f. dmul 28 (fill_quantity f) (fill_price f)) fs)) actual)"

definition verify_fill_evidence ::
  "OrderIntent \<Rightarrow> BrokerOrder \<Rightarrow> Fill list \<Rightarrow> decimal \<Rightarrow> decimal option \<Rightarrow> int \<Rightarrow> unit res" where
  "verify_fill_evidence i x fs cumulative average update_at =
     guarded
      ([(order_submitted_at x = None \<and> fs \<noteq> [], exec_error ''fill evidence requires a persisted submission marker'')] @
       concat (map (fill_evidence_guards i x update_at) fs) @
       [(\<not> deq (dsum 28 (map fill_quantity fs)) cumulative,
          exec_error ''broker cumulative fill disagrees with unique fills''),
        (\<not> opt_deq average (expected_average fs),
          exec_error ''broker average fill price disagrees with unique fills'')])
     (Inr ())"

definition update_state_guards :: "BrokerUpdate \<Rightarrow> OrderIntent \<Rightarrow> (bool \<times> error) list" where
  "update_state_guards u i =
     [(dlt (intent_quantity i) (up_cumulative_filled_quantity u),
        exec_error ''broker cumulative fill exceeds order quantity''),
      (up_state u = FILLED \<and> \<not> deq (up_cumulative_filled_quantity u) (intent_quantity i),
        exec_error ''filled order must contain the complete intent quantity''),
      (up_state u = PARTIALLY_FILLED \<and> \<not> (dlt dzero (up_cumulative_filled_quantity u) \<and>
         dlt (up_cumulative_filled_quantity u) (intent_quantity i)),
        exec_error ''partial-fill state requires an incomplete positive fill''),
      (up_state u \<in> {SUBMITTED, ACCEPTED, PENDING, REJECTED} \<and> \<not> deq (up_cumulative_filled_quantity u) dzero,
        exec_error ''unfilled broker state cannot contain fills'')]"

definition update_identity_guards :: "BrokerUpdate \<Rightarrow> BrokerOrder \<Rightarrow> ExecutionLedger \<Rightarrow> (bool \<times> error) list" where
  "update_identity_guards u previous l =
     [(case map_of (led_broker_event_ids l) (up_broker_event_id u) of
         Some owner \<Rightarrow> owner \<noteq> up_client_order_id u | None \<Rightarrow> False,
        exec_error ''broker event ID was reused across orders''),
      (list_ex (\<lambda>x. order_client_order_id x \<noteq> up_client_order_id u \<and>
          order_broker_order_id x = Some (up_broker_order_id u)) (dict_values (led_orders l)),
        exec_error ''broker order ID was reused across intents''),
      (order_broker_order_id previous \<noteq> None \<and> order_broker_order_id previous \<noteq> Some (up_broker_order_id u),
        exec_error ''broker order ID cannot change once assigned'')]"

definition update_fill_guards :: "OrderIntent \<Rightarrow> ExecutionLedger \<Rightarrow> Fill \<Rightarrow> (bool \<times> error) list" where
  "update_fill_guards i l f =
     [(\<not> fill_matches i f, exec_error ''broker fill does not match its durable intent''),
      (case map_of (led_fills l) (fill_broker_execution_id f) of Some g \<Rightarrow> \<not> fill_eq g f | None \<Rightarrow> False,
        exec_error ''broker execution ID was reused with new content'')]"

definition candidate_fills :: "BrokerUpdate \<Rightarrow> OrderIntent \<Rightarrow> ExecutionLedger \<Rightarrow> Fill list" where
  "candidate_fills u i l =
     dict_values (dict_by fill_broker_execution_id (fills_for_order (intent_client_order_id i) l @ up_fills u))"

definition check_broker_update :: "BrokerUpdate \<Rightarrow> ExecutionLedger \<Rightarrow> (BrokerOrder \<times> OrderIntent) res" where
  "check_broker_update u l =
     bindE (get_order (up_client_order_id u) l) (\<lambda>previous.
     bindE (get_intent (up_client_order_id u) l) (\<lambda>intent.
     guarded
      ([(order_state previous = INTENT_COMMITTED, exec_error ''broker update arrived before submission started'')] @
       update_state_guards u intent @ update_identity_guards u previous l @
       concat (map (update_fill_guards intent l) (up_fills u)) @
       [(\<not> deq (dsum 28 (map fill_quantity (candidate_fills u intent l))) (up_cumulative_filled_quantity u),
          exec_error ''broker cumulative fill disagrees with unique fills'')])
     (bindE (verify_fill_evidence intent previous (candidate_fills u intent l) (up_cumulative_filled_quantity u)
        (up_average_fill_price u) (up_occurred_at u)) (\<lambda>_.
       Inr (previous, intent)))))"

definition same_projection :: "BrokerUpdate \<Rightarrow> BrokerOrder \<Rightarrow> bool" where
  "same_projection u previous \<longleftrightarrow> order_broker_order_id previous = Some (up_broker_order_id u) \<and>
     order_state previous = up_state u \<and>
     deq (order_cumulative_filled_quantity previous) (up_cumulative_filled_quantity u) \<and>
     opt_deq (order_average_fill_price previous) (up_average_fill_price u) \<and>
     order_safe_error_code previous = up_safe_error_code u"

definition evolution_of_update :: "BrokerUpdate \<Rightarrow> BrokerOrder \<Rightarrow> evolution" where
  "evolution_of_update u previous =
     \<lparr>to_state = up_state u, at_time = up_occurred_at u, new_broker_order_id = Some (up_broker_order_id u),
      new_submitted_at = None,
      new_accepted_at =
        (if up_state u \<in> {ACCEPTED, PENDING, PARTIALLY_FILLED, FILLED, CANCEL_REQUESTED, CANCELED} \<and>
            order_accepted_at previous = None
         then Some (up_occurred_at u) else order_accepted_at previous),
      new_filled = Some (up_cumulative_filled_quantity u), new_price = up_average_fill_price u,
      new_error_code = up_safe_error_code u\<rparr>"

definition fill_audit_payload :: "OrderIntent \<Rightarrow> Fill \<Rightarrow> (string \<times> pval) list" where
  "fill_audit_payload intent f =
     [(''content_hash'', PStr (fill_content_hash f)),
      (''fill_id'', PStr (fill_broker_execution_id f)),
      (''idempotency_key'', PStr (fill_broker_execution_id f)),
      (''order_intent_id'', PStr (order_intent_id intent)),
      (''quantity'', PDec (fill_quantity f)),
      (''symbol'', PStr (fill_symbol f))]"

definition record_fill :: "sha256 \<Rightarrow> OrderIntent \<Rightarrow> Fill \<Rightarrow> unit ledger_op" where
  "record_fill sha intent f =
     bindS (reads (\<lambda>l. Inr (map_of (led_fills l) (fill_broker_execution_id f) \<noteq> None))) (\<lambda>known.
       if known then returns ()
       else
         bindS (writes (\<lambda>l. l\<lparr>led_fills := AList.update (fill_broker_execution_id f) f (led_fills l)\<rparr>)) (\<lambda>_.
         bindS (reads (get_plan (intent_execution_plan_id intent))) (\<lambda>plan.
         bindS (reads (next_audit sha (plan_experiment_hash plan) ''fill.recorded'' (fill_occurred_at f)
           (fill_audit_payload intent f))) (\<lambda>audit.
           writes (append_audit_event audit)))))"

definition apply_broker_update :: "sha256 \<Rightarrow> BrokerUpdate \<Rightarrow> BrokerOrder ledger_op" where
  "apply_broker_update sha u =
     bindS (reads (check_broker_update u)) (\<lambda>(previous, intent).
       if same_projection u previous
       then reads (\<lambda>l. guarded
         [(list_ex (\<lambda>f. map_of (led_fills l) (fill_broker_execution_id f) = None) (up_fills u),
            exec_error ''unchanged broker projection cannot introduce new fill evidence'')] (Inr previous))
       else
         bindS (move_order sha previous (evolution_of_update u previous) (Some (up_broker_event_id u)) None) (\<lambda>current.
         bindS (forS (up_fills u) (record_fill sha intent)) (\<lambda>_.
           returns current)))"

subsection \<open>Reconciliation bundles\<close>

fun normalized_positions :: "Position list \<Rightarrow> (string, decimal) dict \<Rightarrow> (string, decimal) dict res" where
  "normalized_positions [] d = Inr d"
| "normalized_positions (p # ps) d =
     (if map_of d (pos_symbol p) \<noteq> None then Inl (exec_error ''positions contain a duplicate symbol'')
      else normalized_positions ps
        (if deq (pos_quantity p) dzero then d else AList.update (pos_symbol p) (pos_quantity p) d))"

definition quantities_eq :: "(string, decimal) dict \<Rightarrow> (string, decimal) dict \<Rightarrow> bool" where
  "quantities_eq d e \<longleftrightarrow> set (dict_keys d) = set (dict_keys e) \<and>
     list_all (\<lambda>k. opt_deq (map_of d k) (map_of e k)) (dict_keys d)"

definition short_eligible :: "RiskDecision \<Rightarrow> string list" where
  "short_eligible d = map sm_symbol (filter (\<lambda>m. sm_asset_active m \<and> sm_tradable m \<and> sm_shortable m \<and>
     sm_easy_to_borrow m \<and> sm_primary_listing_eligible m \<and> sm_broker_capability_known m) (rd_security_metadata d))"

definition bundle_controls_guards :: "ReconciliationReceipt \<Rightarrow> RiskLatchEvent option \<Rightarrow> Incident option \<Rightarrow>
    ExecutionLedger \<Rightarrow> (bool \<times> error) list" where
  "bundle_controls_guards receipt latch_event incident l =
     (case latch_event of None \<Rightarrow> []
      | Some e \<Rightarrow>
        [(ev_experiment_hash e \<noteq> rc_experiment_hash receipt, exec_error ''reconciliation latch experiment mismatch''),
         (case map_of (led_latch_events l) (latch_event_id e) of Some prior \<Rightarrow> prior \<noteq> e | None \<Rightarrow> False,
           exec_error ''latch event identity was reused'')]) @
     (case incident of None \<Rightarrow> []
      | Some i \<Rightarrow>
        [(inc_experiment_hash i \<noteq> rc_experiment_hash receipt, exec_error ''reconciliation incident experiment mismatch''),
         (case map_of (led_incident_keys l) (inc_idempotency_key i) of Some keyed \<Rightarrow> keyed \<noteq> i | None \<Rightarrow> False,
           exec_error ''incident idempotency key was reused'')])"

definition check_request :: "ReconciliationReceipt \<Rightarrow> ReconciliationRequest \<Rightarrow> ExecutionPlan \<Rightarrow> RiskDecision \<Rightarrow> unit res" where
  "check_request receipt q plan decision =
     (let mismatch = exec_error ''reconciliation request does not match its execution plan'' in
      guarded
       [(rc_slot_id receipt \<noteq> Some (rd_slot_id decision) \<or>
         rq_execution_plan_id q \<noteq> Some (execution_plan_id plan) \<or>
         rq_experiment_hash q \<noteq> plan_experiment_hash plan \<or>
         rq_request_correlation_id q \<noteq> plan_correlation_id plan \<or>
         rq_slot_id q \<noteq> Some (rd_slot_id decision) \<or>
         rq_active_symbols q \<noteq> map fst (rd_final_targets decision) \<or>
         rq_short_eligible_symbols q \<noteq> short_eligible decision, mismatch)]
      (bindE (normalized_positions (rq_baseline_positions q) []) (\<lambda>stated.
       bindE (normalized_positions (plan_current_positions plan) []) (\<lambda>planned.
       guarded
        [(\<not> quantities_eq stated planned \<or>
          \<not> deq (rq_baseline_cash q) (as_cash (rd_account_snapshot decision)) \<or>
          rq_expected_account_id_hash q \<noteq> as_account_id_hash (rd_account_snapshot decision) \<or>
          \<not> list_all2 price_eq (rq_mark_prices q) (plan_reference_prices plan), mismatch)]
        (Inr ())))))"

fun filterE :: "('a \<Rightarrow> bool res) \<Rightarrow> 'a list \<Rightarrow> 'a list res" where
  "filterE p [] = Inr []"
| "filterE p (x # xs) = bindE (p x) (\<lambda>keep. bindE (filterE p xs) (\<lambda>ys. Inr (if keep then x # ys else ys)))"

definition authoritative_orders :: "ExecutionPlan \<Rightarrow> ExecutionLedger \<Rightarrow> BrokerOrder list res" where
  "authoritative_orders plan l = filterE (\<lambda>x.
     bindE (get_intent (order_client_order_id x) l) (\<lambda>i.
     bindE (get_plan (intent_execution_plan_id i) l) (\<lambda>p.
       Inr (plan_experiment_hash p = plan_experiment_hash plan)))) (all_orders l)"

definition authoritative_request ::
  "ReconciliationRequest \<Rightarrow> ExecutionPlan \<Rightarrow> RiskDecision \<Rightarrow> ExecutionLedger \<Rightarrow> ReconciliationRequest res" where
  "authoritative_request q plan decision l =
     (let plan_intents = intents_for_plan (execution_plan_id plan) l;
          plan_client_ids = map intent_client_order_id plan_intents in
      bindE (authoritative_orders plan l) (\<lambda>orders.
      bindE (mapE (\<lambda>x. get_intent (order_client_order_id x) l) orders) (\<lambda>order_intents.
        validate_reconciliation_request
          (q\<lparr>rq_active_symbols := map fst (rd_final_targets decision),
             rq_short_eligible_symbols := short_eligible decision,
             rq_baseline_positions := plan_current_positions plan,
             rq_baseline_cash := as_cash (rd_account_snapshot decision),
             rq_fills := filter (\<lambda>f. fill_client_order_id f \<in> set plan_client_ids) (ledger_fills l),
             rq_order_fills :=
               filter (\<lambda>f. fill_client_order_id f \<in> set (map order_client_order_id orders)) (ledger_fills l),
             rq_intents := sort_key intent_client_order_id
               (dict_values (dict_by intent_client_order_id (plan_intents @ order_intents))),
             rq_durable_orders := orders,
             rq_expected_account_id_hash := as_account_id_hash (rd_account_snapshot decision),
             rq_mark_prices := plan_reference_prices plan\<rparr>))))"

definition validate_reconciliation_controls :: "sha256 \<Rightarrow> ReconciliationReceipt \<Rightarrow> RiskLatchEvent option \<Rightarrow>
    Incident option \<Rightarrow> ExecutionLedger \<Rightarrow> unit res" where
  "validate_reconciliation_controls sha receipt latch_event incident l =
     (if rc_status receipt = CLEAN
      then guarded [(latch_event \<noteq> None \<or> incident \<noteq> None,
        exec_error ''clean reconciliation cannot create blocking controls'')] (Inr ())
      else
        guarded
         [(case incident of None \<Rightarrow> True
           | Some i \<Rightarrow> inc_experiment_hash i \<noteq> rc_experiment_hash receipt \<or>
               inc_correlation_id i \<noteq> rc_correlation_id receipt \<or>
               inc_reason_code i \<noteq> ''reconciliation_blocking'' \<or>
               inc_idempotency_key i \<noteq> ''reconciliation:'' @ take 32 (rc_content_hash receipt) \<or>
               inc_opened_at i \<noteq> rc_completed_at receipt,
            exec_error ''blocking reconciliation requires its exact incident''),
          (case latch_event of None \<Rightarrow> False
           | Some e \<Rightarrow> ev_latch_type e \<noteq> RECONCILIATION \<or> ev_action e \<noteq> ENGAGED \<or>
               ev_correlation_id e \<noteq> rc_correlation_id receipt \<or>
               ev_reason_code e \<noteq> ''reconciliation_blocking'' \<or>
               ev_idempotency_key e \<noteq> ''reconciliation_'' @ take 32 (rc_content_hash receipt) \<or>
               ev_occurred_at e \<noteq> rc_completed_at receipt,
            exec_error ''blocking reconciliation latch evidence is invalid'')]
        (bindE (from_events sha (rc_experiment_hash receipt)
           (filter (\<lambda>e. ev_experiment_hash e = rc_experiment_hash receipt \<and> ev_occurred_at e \<le> rc_completed_at receipt)
             (dict_values (led_latch_events l) @ (case latch_event of None \<Rightarrow> [] | Some e \<Rightarrow> [e])))) (\<lambda>state.
         guarded [(\<not> latch_is_active state RECONCILIATION,
           exec_error ''blocking reconciliation requires an active reconciliation latch'')] (Inr ()))))"

definition check_bundle_request :: "sha256 \<Rightarrow> ReconciliationReceipt \<Rightarrow> ReconciliationRequest \<Rightarrow>
    RiskLatchEvent option \<Rightarrow> Incident option \<Rightarrow> ExecutionLedger \<Rightarrow> ExecutionPlan res" where
  "check_bundle_request sha receipt q latch_event incident l =
     guarded (bundle_controls_guards receipt latch_event incident l)
     (bindE (case rc_execution_plan_id receipt of
         Some k \<Rightarrow> bindE (get_plan k l) (\<lambda>plan. guarded
           [(plan_experiment_hash plan \<noteq> rc_experiment_hash receipt,
              exec_error ''reconciliation plan experiment mismatch'')] (Inr plan))
       | None \<Rightarrow> Inl (exec_error ''persisted reconciliation requires an authoritative execution plan'')) (\<lambda>plan.
      bindE (found ''reconciliation plan has no signed risk authorization''
        (map_of (led_risk_decisions l) (plan_risk_decision_id plan))) (\<lambda>decision.
      bindE (check_request receipt q plan decision) (\<lambda>_.
      bindE (authoritative_request q plan decision l) (\<lambda>authoritative.
      bindE (reconcile sha authoritative) (\<lambda>expected.
      guarded [(\<not> receipt_eq expected receipt,
        exec_error ''reconciliation receipt does not match authoritative durable state'')]
      (bindE (validate_reconciliation_controls sha receipt latch_event incident l) (\<lambda>_. Inr plan))))))))"

definition record_reconciliation_bundle :: "sha256 \<Rightarrow> ReconciliationReceipt \<Rightarrow> ReconciliationRequest \<Rightarrow>
    RiskLatchEvent option \<Rightarrow> Incident option \<Rightarrow> unit ledger_op" where
  "record_reconciliation_bundle sha receipt q latch_event incident =
     bindS (reads (check_bundle_request sha receipt q latch_event incident)) (\<lambda>plan.
     bindS (reads (\<lambda>l. Inr (map_of (led_reconciliations l) (reconciliation_id receipt)))) (\<lambda>existing.
       case existing of
         Some stored \<Rightarrow> reads (\<lambda>l. guarded
           [(\<not> receipt_eq stored receipt, exec_error ''reconciliation identity was reused''),
            (case incident of Some i \<Rightarrow> map_of (led_incidents l) (incident_id i) \<noteq> Some i | None \<Rightarrow> False,
              exec_error ''reconciliation retry is missing incident evidence'')] (Inr ()))
       | None \<Rightarrow>
         bindS (reads (next_audit sha (plan_experiment_hash plan) ''reconciliation.completed'' (rc_completed_at receipt)
           [(''content_hash'', PStr (rc_content_hash receipt)),
            (''count'', PInt (int (length (rc_discrepancies receipt)))),
            (''idempotency_key'', PStr (reconciliation_id receipt)),
            (''reconciliation_id'', PStr (reconciliation_id receipt)),
            (''status'', PStr (lowered (status_value (rc_status receipt))))])) (\<lambda>audit.
         writes (\<lambda>l. append_audit_event audit
           (l\<lparr>led_reconciliations := AList.update (reconciliation_id receipt) receipt (led_reconciliations l),
              led_latch_events := (case latch_event of
                  Some e \<Rightarrow> dict_setdefault (latch_event_id e) e (led_latch_events l) | None \<Rightarrow> led_latch_events l),
              led_incidents := (case incident of
                  Some i \<Rightarrow> AList.update (incident_id i) i (led_incidents l) | None \<Rightarrow> led_incidents l),
              led_incident_keys := (case incident of
                  Some i \<Rightarrow> AList.update (inc_idempotency_key i) i (led_incident_keys l)
                | None \<Rightarrow> led_incident_keys l)\<rparr>)))))"

subsection \<open>Restart\<close>

record ExecutionLedgerState =
  es_plans :: "ExecutionPlan list"
  es_risk_decisions :: "RiskDecision list"
  es_intents :: "OrderIntent list"
  es_orders :: "BrokerOrder list"
  es_order_events :: "OrderEvent list"
  es_fills :: "Fill list"
  es_reconciliations :: "ReconciliationReceipt list"
  es_incidents :: "Incident list"
  es_latch_events :: "RiskLatchEvent list"
  es_audit_events :: "AuditEvent list"

definition export_state :: "ExecutionLedger \<Rightarrow> ExecutionLedgerState" where
  "export_state l = \<lparr>es_plans = values_by_key (led_plans l), es_risk_decisions = values_by_key (led_risk_decisions l),
     es_intents = values_by_key (led_intents l), es_orders = values_by_key (led_orders l),
     es_order_events = order_events l, es_fills = ledger_fills l, es_reconciliations = reconciliations l,
     es_incidents = incidents l, es_latch_events = ledger_latch_events l, es_audit_events = led_audit_events l\<rparr>"

definition unique_by :: "('a \<Rightarrow> string) \<Rightarrow> string \<Rightarrow> 'a list \<Rightarrow> (string, 'a) dict res" where
  "unique_by key description items = foldE (\<lambda>x d.
     if map_of d (key x) \<noteq> None then Inl (exec_error (''restart state contains duplicate '' @ description))
     else Inr (AList.update (key x) x d)) items []"

definition restore_decision :: "RiskDecision \<Rightarrow> ExecutionLedger \<Rightarrow> ExecutionLedger res" where
  "restore_decision d l =
     guarded [(map_of (led_risk_decisions l) (risk_decision_id d) \<noteq> None,
       exec_error ''restart state contains duplicate risk decision'')]
     (Inr (l\<lparr>led_risk_decisions := AList.update (risk_decision_id d) d (led_risk_decisions l)\<rparr>))"

definition restore_plan :: "ExecutionPlan \<Rightarrow> ExecutionLedger \<Rightarrow> ExecutionLedger res" where
  "restore_plan p l =
     guarded [(map_of (led_plans l) (execution_plan_id p) \<noteq> None,
       exec_error ''restart state contains duplicate plan'')]
     (Inr (l\<lparr>led_plans := AList.update (execution_plan_id p) p (led_plans l)\<rparr>))"

definition restore_intent :: "OrderIntent \<Rightarrow> ExecutionLedger \<Rightarrow> ExecutionLedger res" where
  "restore_intent i l =
     guarded
      [(map_of (led_intents l) (intent_client_order_id i) \<noteq> None \<or> map_of (led_intent_ids l) (order_intent_id i) \<noteq> None,
         exec_error ''restart state contains duplicate intent''),
       (map_of (led_plans l) (intent_execution_plan_id i) = None,
         exec_error ''restart intent references a missing plan'')]
     (Inr (l\<lparr>led_intents := AList.update (intent_client_order_id i) i (led_intents l),
             led_intent_ids := AList.update (order_intent_id i) i (led_intent_ids l)\<rparr>))"

definition restore_order :: "BrokerOrder \<Rightarrow> ExecutionLedger \<Rightarrow> ExecutionLedger res" where
  "restore_order x l =
     guarded
      [(map_of (led_orders l) (order_client_order_id x) \<noteq> None, exec_error ''restart state contains duplicate order''),
       (map_of (led_intents l) (order_client_order_id x) = None,
         exec_error ''restart order references a missing intent'')]
     (Inr (l\<lparr>led_orders := AList.update (order_client_order_id x) x (led_orders l)\<rparr>))"

definition restore_order_event :: "OrderEvent \<Rightarrow> ExecutionLedger \<Rightarrow> ExecutionLedger res" where
  "restore_order_event e l =
     (let owners = (case event_broker_event_id e of
          Some b \<Rightarrow> dict_setdefault b (event_client_order_id e) (led_broker_event_ids l)
        | None \<Rightarrow> led_broker_event_ids l) in
     guarded
      [(map_of (led_order_events l) (order_event_id e) \<noteq> None,
         exec_error ''restart state contains duplicate order event''),
       (case event_broker_event_id e of Some b \<Rightarrow> map_of owners b \<noteq> Some (event_client_order_id e) | None \<Rightarrow> False,
         exec_error ''restart state reuses a broker event ID'')]
     (Inr (l\<lparr>led_order_events := AList.update (order_event_id e) e (led_order_events l),
             led_broker_event_ids := owners\<rparr>)))"

definition restore_fill :: "Fill \<Rightarrow> ExecutionLedger \<Rightarrow> ExecutionLedger res" where
  "restore_fill f l =
     guarded [(case map_of (led_fills l) (fill_broker_execution_id f) of Some g \<Rightarrow> \<not> fill_eq g f | None \<Rightarrow> False,
       exec_error ''restart state reuses an execution ID'')]
     (Inr (l\<lparr>led_fills := dict_setdefault (fill_broker_execution_id f) f (led_fills l)\<rparr>))"

definition verify_authorized_plan :: "sha256 \<Rightarrow> ExecutionLedger \<Rightarrow> ExecutionPlan \<Rightarrow> unit res" where
  "verify_authorized_plan sha l plan =
     bindE (found ''restart plan references a missing risk decision''
       (map_of (led_risk_decisions l) (plan_risk_decision_id plan))) (\<lambda>decision.
     bindE (plan_again sha plan decision) (\<lambda>expected.
     guarded
      [(\<not> (plan_eq (res_plan expected) plan \<and>
          list_all2 intent_eq (res_intents expected) (intents_for_plan (execution_plan_id plan) l)),
         exec_error ''restart execution bundle does not match signed risk authority'')]
     (Inr ())))"

definition eachE :: "('a \<Rightarrow> unit res) \<Rightarrow> 'a list \<Rightarrow> unit res" where
  "eachE f xs = foldE (\<lambda>x _. f x) xs ()"

fun state_path :: "OrderState \<Rightarrow> OrderEvent list \<Rightarrow> OrderState res" where
  "state_path s [] = Inr s"
| "state_path s (e # es) =
     (if event_from_state e \<noteq> s then Inl (exec_error ''restart order history has a broken state edge'')
      else state_path (event_to_state e) es)"

definition events_of :: "string \<Rightarrow> ExecutionLedger \<Rightarrow> OrderEvent list" where
  "events_of c l = sort_key event_sequence (filter (\<lambda>e. event_client_order_id e = c) (dict_values (led_order_events l)))"

definition verify_order_history :: "ExecutionLedger \<Rightarrow> string \<times> BrokerOrder \<Rightarrow> (string, string) dict \<Rightarrow>
    (string, string) dict res" where
  "verify_order_history l entry owners =
     (let c = fst entry; x = snd entry; events = events_of c l;
          owners' = (case order_broker_order_id x of Some b \<Rightarrow> dict_setdefault b c owners | None \<Rightarrow> owners);
          filled = dsum 28 (map fill_quantity (filter (\<lambda>f. fill_client_order_id f = c) (dict_values (led_fills l)))) in
      guarded
       [(case order_broker_order_id x of Some b \<Rightarrow> map_of owners' b \<noteq> Some c | None \<Rightarrow> False,
          exec_error ''restart state reuses a broker order ID''),
        (map event_sequence events \<noteq> map int [1..<length events + 1],
          exec_error ''restart order event sequence is not contiguous''),
        (order_last_event_sequence x \<noteq> int (length events),
          exec_error ''restart order projection is not at history head'')]
      (bindE (state_path INTENT_COMMITTED events) (\<lambda>expected_state.
       guarded
        [(order_state x \<noteq> expected_state \<or> order_version x \<noteq> int (length events) + 1,
           exec_error ''restart order projection disagrees with history''),
         (\<not> deq (order_cumulative_filled_quantity x) filled,
           exec_error ''restart order projection disagrees with fills'')]
       (bindE (dict_item (led_intents l) c) (\<lambda>intent.
        bindE (verify_fill_evidence intent x (fills_for_order c l) (order_cumulative_filled_quantity x)
          (order_average_fill_price x) (order_updated_at x)) (\<lambda>_. Inr owners'))))))"

definition verify_projection_history :: "ExecutionLedger \<Rightarrow> unit res" where
  "verify_projection_history l =
     guarded
      [(set (dict_keys (led_orders l)) \<noteq> set (dict_keys (led_intents l)),
         exec_error ''restart intents and order projections differ''),
       (list_ex (\<lambda>e. map_of (led_orders l) (event_client_order_id e) = None) (dict_values (led_order_events l)),
         exec_error ''restart order event references a missing order''),
       (list_ex (\<lambda>f. map_of (led_orders l) (fill_client_order_id f) = None) (dict_values (led_fills l)),
         exec_error ''restart fill references a missing order'')]
     (bindE (foldE (verify_order_history l) (led_orders l) []) (\<lambda>_. Inr ()))"

definition restore_records :: "ExecutionLedgerState \<Rightarrow> ExecutionLedger res" where
  "restore_records s =
     bindE (foldE restore_decision (es_risk_decisions s) empty_ledger) (\<lambda>l.
     bindE (foldE restore_plan (es_plans s) l) (\<lambda>l.
     bindE (foldE restore_intent (es_intents s) l) (\<lambda>l.
     bindE (foldE restore_order (es_orders s) l) (\<lambda>l.
     bindE (foldE restore_order_event (es_order_events s) l) (\<lambda>l.
     bindE (foldE restore_fill (es_fills s) l) (\<lambda>l.
     bindE (unique_by reconciliation_id ''reconciliation'' (es_reconciliations s)) (\<lambda>receipts.
     bindE (unique_by incident_id ''incident'' (es_incidents s)) (\<lambda>incs.
     bindE (unique_by inc_idempotency_key ''incident idempotency key'' (es_incidents s)) (\<lambda>keys.
     bindE (unique_by latch_event_id ''latch event'' (es_latch_events s)) (\<lambda>latches.
       Inr (l\<lparr>led_reconciliations := receipts, led_incidents := incs, led_incident_keys := keys,
              led_latch_events := latches\<rparr>)))))))))))"

definition from_state :: "sha256 \<Rightarrow> ExecutionLedgerState \<Rightarrow> ExecutionLedger res" where
  "from_state sha s =
     bindE (restore_records s) (\<lambda>restored.
     bindE (verify_audit_chain sha (es_audit_events s)) (\<lambda>_.
     let l = restored\<lparr>led_audit_events := es_audit_events s\<rparr> in
     bindE (eachE (verify_authorized_plan sha l) (dict_values (led_plans l))) (\<lambda>_.
     bindE (verify_projection_history l) (\<lambda>_.
     bindE (eachE (\<lambda>receipt. validate_reconciliation_controls sha receipt None
        (map_of (led_incident_keys l) (''reconciliation:'' @ take 32 (rc_content_hash receipt))) l) (reconciliations l)) (\<lambda>_.
       Inr l)))))"

end
