(* ===== verification/Ledger_Invariants.thy ===== *)
theory Ledger_Invariants
  imports Execution_Ledger
begin

text \<open>
  What the ledger of \<open>execution/repository.py\<close> keeps: the writes of its operations as a step
  relation, the invariant that every step preserves, and the check of a restart, which accepts
  only ledgers with the same invariant.
\<close>

section \<open>Operations as writes\<close>

lemma reads_run [simp]: "reads f l = (f l, l)"
  by (simp add: reads_def)

lemma writes_run [simp]: "writes g l = (Inr (), g l)"
  by (simp add: writes_def)

lemma returns_run [simp]: "returns x l = (Inr x, l)"
  by (simp add: returns_def)

lemma bindS_reads [simp]: "bindS (reads f) g l = (case f l of Inl e \<Rightarrow> (Inl e, l) | Inr x \<Rightarrow> g x l)"
  by (simp add: bindS_def split: sum.splits)

lemma bindS_writes [simp]: "bindS (writes h) g l = g () (h l)"
  by (simp add: bindS_def)

lemma bindS_returns [simp]: "bindS (returns x) g l = g x l"
  by (simp add: bindS_def)

lemma bindS_Inr: "bindS m f l = (Inr y, l') \<longleftrightarrow> (\<exists>x k. m l = (Inr x, k) \<and> f x k = (Inr y, l'))"
  by (auto simp: bindS_def split: prod.splits sum.splits)

lemma snd_bindS: "snd (bindS m f l) = (case m l of (Inl e, k) \<Rightarrow> k | (Inr x, k) \<Rightarrow> snd (f x k))"
  by (simp add: bindS_def split: prod.splits sum.splits)

text \<open>An operation either raises and leaves the ledger as it was, or returns.\<close>

definition atomic_at :: "('s, 'a) op \<Rightarrow> 's \<Rightarrow> bool" where
  "atomic_at m l \<longleftrightarrow> (case m l of (Inl e, l') \<Rightarrow> l' = l | (Inr x, l') \<Rightarrow> True)"

text \<open>The writes of an order transition, without its audit event.\<close>

definition with_order :: "BrokerOrder \<Rightarrow> OrderEvent \<Rightarrow> string option \<Rightarrow> ExecutionLedger \<Rightarrow> ExecutionLedger" where
  "with_order current event broker_event_id l =
     l\<lparr>led_orders := AList.update (order_client_order_id current) current (led_orders l),
       led_order_events := AList.update (order_event_id event) event (led_order_events l),
       led_broker_event_ids := (case broker_event_id of
           Some b \<Rightarrow> AList.update b (order_client_order_id current) (led_broker_event_ids l)
         | None \<Rightarrow> led_broker_event_ids l)\<rparr>"

definition fresh_broker_id :: "BrokerOrder \<Rightarrow> BrokerOrder \<Rightarrow> ExecutionLedger \<Rightarrow> bool" where
  "fresh_broker_id previous current l \<longleftrightarrow> order_broker_order_id current = order_broker_order_id previous \<or>
     (\<forall>y \<in> set (dict_values (led_orders l)). order_client_order_id y = order_client_order_id current \<or>
        order_broker_order_id y \<noteq> order_broker_order_id current)"

text \<open>New intents and their committed orders, for client order identifiers without an intent so far.\<close>

definition extends_intents :: "sha256 \<Rightarrow> ExecutionLedger \<Rightarrow> ExecutionLedger \<Rightarrow> bool" where
  "extends_intents sha l l' \<longleftrightarrow>
     (\<forall>c. map_of (led_intents l') c = map_of (led_intents l) c \<or>
        (map_of (led_intents l) c = None \<and> (\<exists>i. map_of (led_intents l') c = Some i \<and>
           intent_client_order_id i = c \<and> map_of (led_plans l') (intent_execution_plan_id i) \<noteq> None))) \<and>
     (\<forall>c. map_of (led_orders l') c = map_of (led_orders l) c \<or>
        (map_of (led_intents l) c = None \<and> map_of (led_intents l') c \<noteq> None \<and>
          (\<exists>i x. committed sha i = Inr x \<and> intent_client_order_id i = c \<and> map_of (led_orders l') c = Some x))) \<and>
     (distinct (map fst (led_orders l)) \<longrightarrow> distinct (map fst (led_orders l'))) \<and>
     (\<forall>k. map_of (led_plans l) k \<noteq> None \<longrightarrow> map_of (led_plans l') k \<noteq> None) \<and>
     led_order_events l' = led_order_events l \<and> led_broker_event_ids l' = led_broker_event_ids l \<and>
     led_audit_events l' = led_audit_events l"

text \<open>Writes to the other tables.\<close>

definition same_history :: "ExecutionLedger \<Rightarrow> ExecutionLedger \<Rightarrow> bool" where
  "same_history l l' \<longleftrightarrow> led_plans l' = led_plans l \<and> led_intents l' = led_intents l \<and> led_orders l' = led_orders l \<and>
     led_order_events l' = led_order_events l \<and> led_broker_event_ids l' = led_broker_event_ids l \<and>
     led_audit_events l' = led_audit_events l"

text \<open>An audit event that the ledger would append next.\<close>

definition next_event :: "sha256 \<Rightarrow> ExecutionLedger \<Rightarrow> AuditEvent \<Rightarrow> bool" where
  "next_event sha l a \<longleftrightarrow> (\<exists>eh ty tm payload. next_audit sha eh ty tm payload l = Inr a)"

lemma next_eventI [intro]: "next_audit sha eh ty tm payload l = Inr a \<Longrightarrow> next_event sha l a"
  by (auto simp: next_event_def)

lemma next_event_frame: "next_event sha l a \<Longrightarrow> led_audit_events l' = led_audit_events l \<Longrightarrow> next_event sha l' a"
  by (simp add: next_event_def next_audit_def)

inductive ledger_step :: "sha256 \<Rightarrow> ExecutionLedger \<Rightarrow> ExecutionLedger \<Rightarrow> bool" for sha where
  moved: "map_of (led_orders l) (order_client_order_id previous) = Some previous \<Longrightarrow>
    evolve sha previous u = Inr current \<Longrightarrow> fresh_broker_id previous current l \<and> to_state u \<noteq> INTENT_COMMITTED \<Longrightarrow>
    event_from_orders sha previous current b = Inr event \<Longrightarrow>
    map_of (led_order_events l) (order_event_id event) = None \<Longrightarrow>
    (case b of Some k \<Rightarrow> map_of (led_broker_event_ids l) k = None | None \<Rightarrow> True) \<Longrightarrow>
    ledger_step sha l (with_order current event b l)"
| audited: "next_event sha l a \<Longrightarrow> ledger_step sha l (append_audit_event a l)"
| planned: "extends_intents sha l l' \<Longrightarrow> ledger_step sha l l'"
| other: "same_history l l' \<Longrightarrow> ledger_step sha l l'"

abbreviation ledger_steps :: "sha256 \<Rightarrow> ExecutionLedger \<Rightarrow> ExecutionLedger \<Rightarrow> bool" where
  "ledger_steps sha \<equiv> (ledger_step sha)\<^sup>*\<^sup>*"

lemma with_order_audit [simp]: "led_audit_events (with_order x e b l) = led_audit_events l"
  by (simp add: with_order_def)

lemma append_order_transition_run:
  "append_order_transition sha previous current b h l = (r, l') \<Longrightarrow>
    (\<exists>e. r = Inl e \<and> l' = l) \<or>
    (\<exists>event audit. r = Inr () \<and> event_from_orders sha previous current b = Inr event \<and>
      map_of (led_order_events l) (order_event_id event) = None \<and>
      (case b of Some k \<Rightarrow> map_of (led_broker_event_ids l) k = None | None \<Rightarrow> True) \<and>
      next_event sha l audit \<and>
      l' = append_audit_event audit (with_order current event b l))"
  unfolding append_order_transition_def with_order_def
  by (auto simp: guarded_eval split: sum.splits option.splits if_splits)

lemma move_order_run:
  assumes "move_order sha previous u b h l = (r, l')"
  shows "(\<exists>e. r = Inl e \<and> l' = l) \<or>
    (\<exists>current event audit. r = Inr current \<and> evolve sha previous u = Inr current \<and>
      event_from_orders sha previous current b = Inr event \<and>
      map_of (led_order_events l) (order_event_id event) = None \<and>
      (case b of Some k \<Rightarrow> map_of (led_broker_event_ids l) k = None | None \<Rightarrow> True) \<and>
      next_event sha l audit \<and>
      l' = append_audit_event audit (with_order current event b l))"
proof (cases "evolve sha previous u")
  case (Inl e)
  then have "r = Inl e \<and> l' = l" using assms by (simp add: move_order_def)
  then show ?thesis by blast
next
  case (Inr current)
  obtain s k where run: "append_order_transition sha previous current b h l = (s, k)" by fastforce
  have r: "r = (case s of Inl e \<Rightarrow> Inl e | Inr _ \<Rightarrow> Inr current)" "l' = k"
    using assms run by (cases s; simp add: move_order_def Inr bindS_def)+
  show ?thesis using append_order_transition_run [OF run] unfolding r by (auto simp: Inr)
qed

lemma append_audit_steps: "next_event sha l a \<Longrightarrow> ledger_steps sha l (append_audit_event a l)"
  by (rule r_into_rtranclp) (rule ledger_step.audited)

lemma same_history_steps: "same_history l l' \<Longrightarrow> ledger_steps sha l l'"
  by (rule r_into_rtranclp) (rule ledger_step.other)

lemma steps_trans: "ledger_steps sha l k \<Longrightarrow> ledger_steps sha k l' \<Longrightarrow> ledger_steps sha l l'"
  by (rule rtranclp_trans)

lemma move_order_steps:
  assumes "map_of (led_orders l) (order_client_order_id previous) = Some previous" and "to_state u \<noteq> INTENT_COMMITTED"
    and "\<And>current. evolve sha previous u = Inr current \<Longrightarrow> fresh_broker_id previous current l"
  shows "ledger_steps sha l (snd (move_order sha previous u b h l))"
proof -
  obtain r l' where run: "move_order sha previous u b h l = (r, l')" by fastforce
  from move_order_run [OF run] have "ledger_steps sha l l'"
  proof (elim disjE exE conjE)
    fix current event audit
    assume m: "evolve sha previous u = Inr current" "event_from_orders sha previous current b = Inr event"
      "map_of (led_order_events l) (order_event_id event) = None"
      "case b of Some k \<Rightarrow> map_of (led_broker_event_ids l) k = None | None \<Rightarrow> True"
      "next_event sha l audit" "l' = append_audit_event audit (with_order current event b l)"
    have "ledger_step sha l (with_order current event b l)"
      using ledger_step.moved [OF assms(1) m(1) conjI [OF assms(3) [OF m(1)] assms(2)] m(2-4)] .
    moreover have "ledger_step sha (with_order current event b l) l'"
      unfolding m(6) by (intro ledger_step.audited next_event_frame [OF m(5)]) simp
    ultimately show ?thesis by (rule converse_rtranclp_into_rtranclp [OF _ r_into_rtranclp])
  qed (simp only: rtranclp.rtrancl_refl)
  then show ?thesis by (simp only: run snd_conv)
qed

lemma unchanged_broker_id:
  "evolve sha previous u = Inr current \<Longrightarrow> new_broker_order_id u = None \<Longrightarrow> fresh_broker_id previous current l"
  by (auto simp: evolve_Inr fresh_broker_id_def evolved_values_def)

lemma state_change_fields [simp]: "new_broker_order_id (state_change s t) = None" "to_state (state_change s t) = s"
  by (simp_all add: state_change_def)

text \<open>Orders are stored under their client order identifier.\<close>

definition keyed_orders :: "ExecutionLedger \<Rightarrow> bool" where
  "keyed_orders l \<longleftrightarrow> (\<forall>c x. map_of (led_orders l) c = Some x \<longrightarrow> order_client_order_id x = c)"

lemma get_order_Inr: "get_order c l = Inr x \<longleftrightarrow> map_of (led_orders l) c = Some x"
  by (auto simp: get_order_def found_def split: option.splits)

lemma get_intent_Inr: "get_intent c l = Inr x \<longleftrightarrow> map_of (led_intents l) c = Some x"
  by (auto simp: get_intent_def found_def split: option.splits)

lemma get_plan_Inr: "get_plan c l = Inr x \<longleftrightarrow> map_of (led_plans l) c = Some x"
  by (auto simp: get_plan_def found_def split: option.splits)

lemma get_order_keyed:
  "keyed_orders l \<Longrightarrow> get_order c l = Inr x \<Longrightarrow> map_of (led_orders l) (order_client_order_id x) = Some x"
  by (auto simp: keyed_orders_def get_order_Inr)

lemma record_state_steps:
  assumes "keyed_orders l"
  shows "ledger_steps sha l (snd (record_submission_started sha c t a l))"
    and "ledger_steps sha l (snd (record_reconciliation_required sha c t code l))"
    and "ledger_steps sha l (snd (record_cancel_requested sha c t l))"
    and "ledger_steps sha l (snd (record_submission_unknown sha c t code l))"
  using assms
  by (auto simp: record_submission_started_def record_reconciliation_required_def record_cancel_requested_def
      record_submission_unknown_def split: sum.splits
      intro!: move_order_steps get_order_keyed unchanged_broker_id)

lemma audit_write_steps:
  assumes "next_event sha l a" and "same_history l k"
  shows "ledger_steps sha l (append_audit_event a k)"
  using assms by (intro steps_trans [OF same_history_steps append_audit_steps] next_event_frame [OF assms(1)])
    (simp_all add: same_history_def)

lemma record_incident_steps: "ledger_steps sha l (snd (record_incident sha i l))"
  by (auto simp: record_incident_def same_history_def intro!: audit_write_steps split: sum.splits option.splits)

lemma record_bundle_steps: "ledger_steps sha l (snd (record_reconciliation_bundle sha receipt q e i l))"
  by (auto simp: record_reconciliation_bundle_def same_history_def intro!: audit_write_steps
      split: sum.splits option.splits)

lemma forS_invariant:
  "I l \<Longrightarrow> (\<And>x k. x \<in> set xs \<Longrightarrow> I k \<Longrightarrow> I (snd (f x k))) \<Longrightarrow> I (snd (forS xs f l))"
proof (induction xs arbitrary: l)
  case Nil
  then show ?case by simp
next
  case (Cons y ys)
  have step: "I (snd (f y l))" using Cons.prems by simp
  show ?case
  proof (cases "f y l")
    case (Pair r k)
    then have k: "I k" using step by simp
    show ?thesis
    proof (cases r)
      case (Inl e)
      then show ?thesis using Pair k by (simp add: snd_bindS)
    next
      case (Inr u)
      then show ?thesis using Pair Cons.IH [OF k] Cons.prems(2) by (simp add: snd_bindS)
    qed
  qed
qed

lemma persist_intent_extends:
  assumes "extends_intents sha l k" and "map_of (led_intents l) (intent_client_order_id i) = None"
    and "map_of (led_plans k) (intent_execution_plan_id i) \<noteq> None"
  shows "extends_intents sha l (snd (persist_intent sha i k)) \<and> led_plans (snd (persist_intent sha i k)) = led_plans k"
proof (cases "committed sha i")
  case (Inl e)
  then show ?thesis using assms by (auto simp: persist_intent_def extends_intents_def)
next
  case (Inr x)
  then show ?thesis using assms by (auto simp: persist_intent_def extends_intents_def distinct_keys_update)
qed

lemma persist_new_plan_steps:
  assumes "\<And>i. i \<in> set intents \<Longrightarrow> intent_execution_plan_id i = execution_plan_id plan"
  shows "ledger_steps sha l (snd (persist_new_plan sha plan intents d l))"
proof -
  let ?l = "l\<lparr>led_plans := AList.update (execution_plan_id plan) plan (led_plans l),
    led_risk_decisions := AList.update (plan_risk_decision_id plan) d (led_risk_decisions l)\<rparr>"
  let ?k = "snd (forS intents (persist_intent sha) ?l)"
  have k: "extends_intents sha l ?k" if new: "\<And>i. i \<in> set intents \<Longrightarrow> map_of (led_intents l) (intent_client_order_id i) = None"
  proof -
    let ?I = "\<lambda>k. extends_intents sha l k \<and> led_plans k = led_plans ?l"
    have "?I ?k"
    proof (rule forS_invariant)
      show "?I ?l" by (simp add: extends_intents_def)
    next
      fix i k
      assume i: "i \<in> set intents" and k: "?I k"
      from k have "map_of (led_plans k) (intent_execution_plan_id i) \<noteq> None" using assms [OF i] by simp
      with persist_intent_extends [OF conjunct1 [OF k] new [OF i]] k
      show "?I (snd (persist_intent sha i k))" by simp
    qed
    then show ?thesis by simp
  qed
  have run: "snd (bindS (forS intents (persist_intent sha)) (\<lambda>_. writes (append_audit_event a)) ?l) \<in> {?k, append_audit_event a ?k}" for a
    by (cases "forS intents (persist_intent sha) ?l"; cases "fst (forS intents (persist_intent sha) ?l)")
      (simp_all add: snd_bindS)
  have "ledger_steps sha l k'" if "extends_intents sha l ?k" "next_event sha l a" "k' \<in> {?k, append_audit_event a ?k}" for a k'
  proof -
    have "ledger_steps sha l ?k" by (rule r_into_rtranclp) (rule ledger_step.planned [OF that(1)])
    moreover have "next_event sha ?k a" using that(1) by (intro next_event_frame [OF that(2)]) (simp add: extends_intents_def)
    then have "ledger_steps sha ?k (append_audit_event a ?k)" by (rule append_audit_steps)
    ultimately show ?thesis using that(3) steps_trans by blast
  qed
  then show ?thesis using k run
    by (auto simp: persist_new_plan_def guarded_eval list_ex_iff split: sum.splits if_splits)
qed

lemma persist_plan_steps: "ledger_steps sha l (snd (persist_plan_and_intents sha plan intents d l))"
proof (cases "check_bundle sha plan intents d")
  case (Inl e)
  then show ?thesis by (simp add: persist_plan_and_intents_def)
next
  case (Inr u)
  then have "\<And>i. i \<in> set intents \<Longrightarrow> intent_execution_plan_id i = execution_plan_id plan"
    by (auto simp: check_bundle_def list_ex_iff)
  then show ?thesis using persist_new_plan_steps [of intents plan sha l d]
    by (auto simp: persist_plan_and_intents_def Inr split: option.splits)
qed

lemma record_fill_steps: "ledger_steps sha l (snd (record_fill sha i f l))"
proof -
  let ?k = "l\<lparr>led_fills := AList.update (fill_broker_execution_id f) f (led_fills l)\<rparr>"
  have "same_history l ?k" by (simp add: same_history_def)
  from same_history_steps [OF this] have k: "ledger_steps sha l ?k" .
  have "ledger_steps sha l (append_audit_event a ?k)" if "next_event sha ?k a" for a
    using k append_audit_steps [OF that] by (rule steps_trans)
  with k show ?thesis by (auto simp: record_fill_def split: sum.splits)
qed

lemma check_broker_update_Inr:
  assumes "check_broker_update u l = Inr (previous, i)"
  shows "map_of (led_orders l) (up_client_order_id u) = Some previous"
    and "map_of (led_intents l) (up_client_order_id u) = Some i" and "order_state previous \<noteq> INTENT_COMMITTED"
    and "guards_ok (update_state_guards u i)" and "guards_ok (update_identity_guards u previous l)"
    and "\<And>f. f \<in> set (up_fills u) \<Longrightarrow> guards_ok (update_fill_guards i l f)"
    and "verify_fill_evidence i previous (candidate_fills u i l) (up_cumulative_filled_quantity u)
      (up_average_fill_price u) (up_occurred_at u) = Inr ()"
  using assms by (auto simp: check_broker_update_def get_order_Inr get_intent_Inr guards_ok_def)

lemma evolve_fields:
  "evolve sha x u = Inr y \<Longrightarrow> order_broker_order_id y = or_else (new_broker_order_id u) (order_broker_order_id x) \<and>
     order_client_order_id y = order_client_order_id x \<and> order_state y = to_state u"
  by (auto simp: evolve_Inr)

lemma evolution_of_update_fields [simp]:
  "to_state (evolution_of_update u x) = up_state u" "new_broker_order_id (evolution_of_update u x) = Some (up_broker_order_id u)"
  by (simp_all add: evolution_of_update_def)

lemma apply_broker_update_steps:
  assumes "keyed_orders l" and "up_state u \<noteq> INTENT_COMMITTED"
  shows "ledger_steps sha l (snd (apply_broker_update sha u l))"
proof (cases "check_broker_update u l")
  case (Inl e)
  then show ?thesis by (simp add: apply_broker_update_def)
next
  case (Inr pi)
  obtain previous i where pi: "pi = (previous, i)" by fastforce
  note c = check_broker_update_Inr [OF Inr [unfolded pi]]
  have client: "order_client_order_id previous = up_client_order_id u" using assms(1) c(1) by (simp add: keyed_orders_def)
  let ?m = "move_order sha previous (evolution_of_update u previous) (Some (up_broker_event_id u)) None l"
  have fresh: "fresh_broker_id previous current l" if "evolve sha previous (evolution_of_update u previous) = Inr current" for current
  proof -
    have "order_broker_order_id current = Some (up_broker_order_id u)" "order_client_order_id current = up_client_order_id u"
      using evolve_fields [OF that] client by simp_all
    then show ?thesis using c(5) by (auto simp: fresh_broker_id_def update_identity_guards_def list_ex_iff)
  qed
  have m: "ledger_steps sha l (snd ?m)" using c(1) client assms(2) by (intro move_order_steps fresh) simp_all
  have f: "ledger_steps sha k (snd (forS (up_fills u) (record_fill sha i) k))" for k
  proof (rule forS_invariant)
    fix f j
    assume "ledger_steps sha k j"
    then show "ledger_steps sha k (snd (record_fill sha i f j))" using record_fill_steps by (rule steps_trans)
  qed (rule rtranclp.rtrancl_refl)
  obtain r k where run: "?m = (r, k)" by fastforce
  have "snd (apply_broker_update sha u l) \<in> {l, k, snd (forS (up_fills u) (record_fill sha i) k)}"
    by (cases r) (simp_all add: apply_broker_update_def Inr pi snd_bindS run split: prod.split sum.split)
  then show ?thesis using m f [of k] unfolding run snd_conv by (auto intro: steps_trans)
qed

section \<open>The invariant\<close>

text \<open>Audit events are sealed, and in their stream numbered without gap and linked by hashes.\<close>

definition audit_linked :: "sha256 \<Rightarrow> AuditEvent list \<Rightarrow> bool" where
  "audit_linked sha es \<longleftrightarrow> (\<forall>i < length es. sealed sha (es ! i) \<and>
     aud_sequence (es ! i) = next_sequence_in (take i es) (aud_stream_id (es ! i)) \<and>
     aud_previous_hash (es ! i) = last_hash_in (take i es) (aud_stream_id (es ! i)))"

text \<open>An order stands at the head of its events.\<close>

definition order_head :: "OrderEvent list \<Rightarrow> BrokerOrder \<Rightarrow> bool" where
  "order_head es x \<longleftrightarrow> map event_sequence es = map int [1..<length es + 1] \<and>
     order_last_event_sequence x = int (length es) \<and> order_version x = int (length es) + 1 \<and>
     state_path INTENT_COMMITTED es = Inr (order_state x)"

definition intents_placed :: "ExecutionLedger \<Rightarrow> bool" where
  "intents_placed l \<longleftrightarrow> (\<forall>c i. map_of (led_intents l) c = Some i \<longrightarrow>
     intent_client_order_id i = c \<and> map_of (led_plans l) (intent_execution_plan_id i) \<noteq> None)"

definition orders_current :: "ExecutionLedger \<Rightarrow> bool" where
  "orders_current l \<longleftrightarrow> distinct (map fst (led_orders l)) \<and> (\<forall>c x. map_of (led_orders l) c = Some x \<longrightarrow>
     order_client_order_id x = c \<and> map_of (led_intents l) c \<noteq> None \<and> order_head (events_of c l) x)"

definition event_placed :: "ExecutionLedger \<Rightarrow> OrderEvent \<Rightarrow> bool" where
  "event_placed l e \<longleftrightarrow> map_of (led_orders l) (event_client_order_id e) \<noteq> None \<and>
     (\<forall>b. event_broker_event_id e = Some b \<longrightarrow> map_of (led_broker_event_ids l) b = Some (event_client_order_id e))"

definition broker_ids_unique :: "ExecutionLedger \<Rightarrow> bool" where
  "broker_ids_unique l \<longleftrightarrow> (\<forall>c d x y. map_of (led_orders l) c = Some x \<longrightarrow> map_of (led_orders l) d = Some y \<longrightarrow>
     order_broker_order_id x \<noteq> None \<longrightarrow> order_broker_order_id x = order_broker_order_id y \<longrightarrow> c = d)"

text \<open>
  Every intent belongs to a stored plan, every order to a stored intent; the events of an order are
  numbered 1, 2, ..., lead from \<open>INTENT_COMMITTED\<close> to the state of the order, and carry broker event identifiers that no other order uses; no two orders share a
  broker order identifier; the audit events are sealed and linked.
\<close>

definition consistent :: "sha256 \<Rightarrow> ExecutionLedger \<Rightarrow> bool" where
  "consistent sha l \<longleftrightarrow> intents_placed l \<and> orders_current l \<and>
     list_all (event_placed l) (dict_values (led_order_events l)) \<and> broker_ids_unique l \<and>
     audit_linked sha (led_audit_events l)"

lemma audit_linked_snoc:
  "audit_linked sha (es @ [e]) \<longleftrightarrow> audit_linked sha es \<and> sealed sha e \<and>
     aud_sequence e = next_sequence_in es (aud_stream_id e) \<and> aud_previous_hash e = last_hash_in es (aud_stream_id e)"
  by (auto simp: audit_linked_def nth_append less_Suc_eq)

lemma chained_linked: "chained sha es \<Longrightarrow> audit_linked sha es"
  by (simp add: chained_def audit_linked_def continues_def)

definition execution_stream :: "string \<Rightarrow> string" where
  "execution_stream eh = ''aqa_execution:'' @ eh"

lemma next_audit_eq:
  "next_audit sha eh ty tm payload l =
     bindE (payload_from_mapping sha (PMap payload)) (\<lambda>p.
       create_audit_event sha (execution_stream eh) (next_sequence_in (led_audit_events l) (execution_stream eh))
         (last_hash_in (led_audit_events l) (execution_stream eh)) ty EXECUTION_WRITER tm p)"
  unfolding next_audit_def Let_def next_sequence_in_def last_hash_in_def stream_events_def execution_stream_def ..

lemma next_event_linked:
  assumes "audit_linked sha (led_audit_events l)" and "next_event sha l a"
  shows "audit_linked sha (led_audit_events (append_audit_event a l))"
proof -
  obtain eh ty tm payload p where p: "payload_from_mapping sha (PMap payload) = Inr p"
    and a: "create_audit_event sha (execution_stream eh) (next_sequence_in (led_audit_events l) (execution_stream eh))
      (last_hash_in (led_audit_events l) (execution_stream eh)) ty EXECUTION_WRITER tm p = Inr a"
    using assms(2) by (auto simp: next_event_def next_audit_eq)
  obtain kvs where "pay_hash p = sha (pay_json p)" using payload_from_mapping_Inr [OF p] by blast
  from create_audit_event_Inr [OF a this] show ?thesis
    using assms(1) by (simp add: append_audit_event_def audit_linked_snoc)
qed

lemma insort_key_snoc: "f x \<le> f e \<Longrightarrow> insort_key f x (ys @ [e]) = insort_key f x ys @ [e]"
  by (induction ys) auto

lemma sort_key_snoc_max:
  assumes "\<And>x. x \<in> set xs \<Longrightarrow> f x \<le> f e"
  shows "sort_key f (xs @ [e]) = sort_key f xs @ [e]"
proof -
  have "foldr (insort_key f) xs ([] @ [e]) = foldr (insort_key f) xs [] @ [e]"
    using assms by (induction xs) (simp_all add: insort_key_snoc)
  then show ?thesis by (simp add: sort_key_def)
qed

lemma state_path_snoc:
  "state_path s (es @ [e]) = bindE (state_path s es) (\<lambda>t. state_path t [e])"
  by (induction es arbitrary: s) auto

lemma events_of_with_order:
  assumes "map_of (led_order_events l) (order_event_id e) = None"
    and "\<And>x. x \<in> set (events_of (event_client_order_id e) l) \<Longrightarrow> event_sequence x \<le> event_sequence e"
  shows "events_of c (with_order current e b l) = events_of c l @ (if event_client_order_id e = c then [e] else [])"
proof -
  have "dict_values (led_order_events (with_order current e b l)) = dict_values (led_order_events l) @ [e]"
    using assms(1) by (simp add: with_order_def dict_values_def update_nonkey map_of_eq_None_iff)
  then show ?thesis using assms(2)
    by (auto simp: events_of_def intro: sort_key_snoc_max)
qed

lemma order_head_bound:
  assumes "order_head es x" and "e \<in> set es"
  shows "event_sequence e \<le> order_last_event_sequence x"
proof -
  have "event_sequence e \<in> set (map int [1..<length es + 1])" using assms unfolding order_head_def by (metis imageI list.set_map)
  then show ?thesis using assms(1) by (auto simp: order_head_def)
qed

lemma order_head_snoc:
  assumes "order_head es x" and "successor x y" and "event_of x y e"
  shows "order_head (es @ [e]) y"
  using assms by (auto simp: order_head_def successor_def event_of_def state_path_snoc)

lemma consistent_keyed: "consistent sha l \<Longrightarrow> keyed_orders l"
  by (simp add: consistent_def keyed_orders_def orders_current_def)

lemma orders_currentD:
  "orders_current l \<Longrightarrow> map_of (led_orders l) c = Some x \<Longrightarrow>
     order_client_order_id x = c \<and> map_of (led_intents l) c \<noteq> None \<and> order_head (events_of c l) x"
  by (simp add: orders_current_def)

lemma consistent_frame:
  assumes "consistent sha l" and "led_intents l' = led_intents l" and "led_plans l' = led_plans l"
    and "led_orders l' = led_orders l" and "led_order_events l' = led_order_events l"
    and "led_broker_event_ids l' = led_broker_event_ids l" and "audit_linked sha (led_audit_events l')"
  shows "consistent sha l'"
proof -
  have evs: "events_of c l' = events_of c l" for c using assms(5) by (simp add: events_of_def)
  have "event_placed l' = event_placed l" using assms(4,6) by (intro ext) (simp add: event_placed_def)
  moreover have "intents_placed l' = intents_placed l" by (simp only: intents_placed_def assms(2,3))
  moreover have "broker_ids_unique l' = broker_ids_unique l" by (simp only: broker_ids_unique_def assms(4))
  moreover have "orders_current l' = orders_current l" by (simp only: orders_current_def assms(2,4) evs)
  ultimately show ?thesis using assms(1,7) by (simp only: consistent_def assms(5))
qed

lemma with_order_tables:
  assumes "map_of (led_order_events l) (order_event_id e) = None" and "order_client_order_id x = c"
  shows "map_of (led_orders (with_order x e b l)) = (map_of (led_orders l))(c \<mapsto> x)"
    and "dict_values (led_order_events (with_order x e b l)) = dict_values (led_order_events l) @ [e]"
    and "led_intents (with_order x e b l) = led_intents l" and "led_plans (with_order x e b l) = led_plans l"
    and "map_of (led_broker_event_ids (with_order x e b l)) k = (if b = Some k then Some c else map_of (led_broker_event_ids l) k)"
  using assms by (auto simp: with_order_def dict_values_def update_nonkey map_of_eq_None_iff split: option.splits)

lemma broker_ids_moved:
  assumes "broker_ids_unique l" and "keyed_orders l" and "map_of (led_orders l) (order_client_order_id p) = Some p"
    and "fresh_broker_id p x l" and "order_client_order_id x = order_client_order_id p"
    and orders: "map_of (led_orders l') = (map_of (led_orders l))(order_client_order_id p \<mapsto> x)"
  shows "broker_ids_unique l'"
proof -
  let ?c = "order_client_order_id p"
  have clash: "d = ?c" if d: "map_of (led_orders l) d = Some z" and some: "order_broker_order_id x \<noteq> None"
    and same: "order_broker_order_id x = order_broker_order_id z" for d z
  proof -
    have "z \<in> set (dict_values (led_orders l))" using d by (force simp: dict_values_def dest: map_of_SomeD)
    moreover have "order_client_order_id z = d" using assms(2) d by (simp add: keyed_orders_def)
    ultimately have "order_broker_order_id x = order_broker_order_id p \<or> d = ?c"
      using assms(4,5) same by (auto simp: fresh_broker_id_def)
    then show ?thesis using assms(1) [unfolded broker_ids_unique_def, rule_format, OF assms(3) d] some same by auto
  qed
  show ?thesis unfolding broker_ids_unique_def orders
  proof (intro allI impI)
    fix c d y z
    assume h: "((map_of (led_orders l))(?c \<mapsto> x)) c = Some y" "((map_of (led_orders l))(?c \<mapsto> x)) d = Some z"
      "order_broker_order_id y \<noteq> None" "order_broker_order_id y = order_broker_order_id z"
    show "c = d"
    proof (cases "c = ?c"; cases "d = ?c")
      assume "c = ?c" "d \<noteq> ?c"
      then show ?thesis using h clash [of d z] by auto
    next
      assume "c \<noteq> ?c" "d = ?c"
      then show ?thesis using h clash [of c y] by auto
    next
      assume "c \<noteq> ?c" "d \<noteq> ?c"
      then show ?thesis using h assms(1) unfolding broker_ids_unique_def by auto
    qed simp
  qed
qed

lemma consistent_moved:
  assumes l: "consistent sha l" and p: "map_of (led_orders l) (order_client_order_id p) = Some p"
    and ev: "evolve sha p u = Inr x" and fresh: "fresh_broker_id p x l" and e: "event_from_orders sha p x b = Inr e"
    and new: "map_of (led_order_events l) (order_event_id e) = None"
    and b: "case b of Some k \<Rightarrow> map_of (led_broker_event_ids l) k = None | None \<Rightarrow> True"
  shows "consistent sha (with_order x e b l)"
proof -
  let ?c = "order_client_order_id p" and ?l = "with_order x e b l"
  have x: "successor p x" "order_client_order_id x = ?c" using evolve_successor [OF ev] by (auto simp: successor_def)
  note eo = event_from_orders_Inr [OF e] and t = with_order_tables [OF new x(2), of b]
  have ec: "event_client_order_id e = ?c" using eo x(2) by (simp add: event_of_def)
  have cur: "orders_current l" and pl: "list_all (event_placed l) (dict_values (led_order_events l))"
    using l by (auto simp: consistent_def)
  have head: "order_head (events_of ?c l) p" using orders_currentD [OF cur p] by blast
  have evs: "events_of d ?l = events_of d l @ (if ?c = d then [e] else [])" for d
    unfolding ec [symmetric]
  proof (rule events_of_with_order [OF new])
    fix y assume "y \<in> set (events_of (event_client_order_id e) l)"
    then have "event_sequence y \<le> order_last_event_sequence p" using order_head_bound [OF head] by (simp add: ec)
    then show "event_sequence y \<le> event_sequence e" using eo x(1) by (simp add: event_of_def successor_def)
  qed
  have "orders_current ?l" unfolding orders_current_def t(1,3)
  proof (intro conjI allI impI)
    show "distinct (map fst (led_orders ?l))" using cur by (simp add: orders_current_def with_order_def distinct_keys_update)
  next
    fix d y
    assume y: "((map_of (led_orders l))(?c \<mapsto> x)) d = Some y"
    have "order_client_order_id y = d \<and> map_of (led_intents l) d \<noteq> None \<and> order_head (events_of d ?l) y"
    proof (cases "d = ?c")
      case True
      then show ?thesis using y x(2) order_head_snoc [OF head x(1)] eo orders_currentD [OF cur p] unfolding evs by simp
    next
      case False
      then show ?thesis using y orders_currentD [OF cur, of d y] unfolding evs by simp
    qed
    then show "order_client_order_id y = d" "map_of (led_intents l) d \<noteq> None" "order_head (events_of d ?l) y" by auto
  qed
  moreover have "list_all (event_placed ?l) (dict_values (led_order_events ?l))"
  proof -
    have "event_broker_event_id e = b" using eo by simp
    then have "event_placed ?l e" unfolding event_placed_def t ec by simp
    moreover have "event_placed ?l y" if "event_placed l y" for y
      using that b unfolding event_placed_def t by (auto split: option.splits)
    ultimately show ?thesis using pl by (auto simp: t list_all_iff)
  qed
  moreover have "broker_ids_unique ?l"
    using broker_ids_moved [OF _ consistent_keyed [OF l] p fresh x(2) t(1)] l by (simp add: consistent_def)
  ultimately show ?thesis using l by (simp add: consistent_def intents_placed_def t)
qed

lemma consistent_planned:
  assumes l: "consistent sha l" and ext: "extends_intents sha l l'"
  shows "consistent sha l'"
proof -
  have cur: "orders_current l" and pl: "list_all (event_placed l) (dict_values (led_order_events l))"
    and int: "intents_placed l" and bro: "broker_ids_unique l"
    using l by (auto simp: consistent_def)
  have same: "led_order_events l' = led_order_events l" "led_broker_event_ids l' = led_broker_event_ids l"
    "led_audit_events l' = led_audit_events l" using ext by (simp_all add: extends_intents_def)
  have evs: "events_of c l' = events_of c l" for c by (simp add: events_of_def same)
  have quiet: "events_of c l = []" "map_of (led_orders l) c = None" if "map_of (led_intents l) c = None" for c
  proof -
    show no: "map_of (led_orders l) c = None" using orders_currentD [OF cur] that
      by (cases "map_of (led_orders l) c") blast+
    have "filter (\<lambda>e. event_client_order_id e = c) (dict_values (led_order_events l)) = []"
      using pl no by (auto simp: list_all_iff event_placed_def filter_empty_conv)
    then show "events_of c l = []" by (simp add: events_of_def)
  qed
  have orders: "map_of (led_orders l') c = map_of (led_orders l) c \<or>
      (map_of (led_intents l) c = None \<and> map_of (led_intents l') c \<noteq> None \<and>
        (\<exists>i x. committed sha i = Inr x \<and> intent_client_order_id i = c \<and> map_of (led_orders l') c = Some x))" for c
    using ext by (simp add: extends_intents_def)
  have kept: "map_of (led_orders l') c = map_of (led_orders l) c" if "map_of (led_orders l) c \<noteq> None" for c
    using orders [of c] quiet(2) that by auto
  have new: "order_head (events_of c l') x \<and> order_broker_order_id x = None \<and> order_client_order_id x = c \<and>
      map_of (led_intents l') c \<noteq> None" if "map_of (led_orders l') c = Some x" "map_of (led_orders l) c \<noteq> Some x" for c x
    using orders [of c] that quiet committed_Inr [of sha _ x] by (auto simp: evs order_head_def)
  have "intents_placed l'"
    using int ext unfolding intents_placed_def extends_intents_def by (metis option.distinct(1) option.inject)
  moreover have "orders_current l'"
    unfolding orders_current_def
  proof (intro conjI allI impI)
    show "distinct (map fst (led_orders l'))" using cur ext by (simp add: orders_current_def extends_intents_def)
  next
    fix c x assume x: "map_of (led_orders l') c = Some x"
    have "order_client_order_id x = c \<and> map_of (led_intents l') c \<noteq> None \<and> order_head (events_of c l') x"
    proof (cases "map_of (led_orders l) c = Some x")
      case True
      then have "map_of (led_intents l') c \<noteq> None"
        using orders_currentD [OF cur True] ext unfolding extends_intents_def by metis
      then show ?thesis using orders_currentD [OF cur True] by (simp add: evs)
    next
      case False
      then show ?thesis using new [OF x] by blast
    qed
    then show "order_client_order_id x = c" "map_of (led_intents l') c \<noteq> None" "order_head (events_of c l') x" by auto
  qed
  moreover have "list_all (event_placed l') (dict_values (led_order_events l'))"
    using pl kept by (auto simp: same list_all_iff event_placed_def)
  moreover have "broker_ids_unique l'"
    using bro new unfolding broker_ids_unique_def by (metis option.distinct(1))
  ultimately show ?thesis using l by (simp add: consistent_def same)
qed

lemma consistent_step:
  assumes "ledger_step sha l l'" and l: "consistent sha l"
  shows "consistent sha l'"
  using assms(1)
proof (cases rule: ledger_step.cases)
  case (moved previous u current b event)
  show ?thesis unfolding moved(1) by (rule consistent_moved [OF l moved(2,3) conjunct1 [OF moved(4)] moved(5-7)])
next
  case (audited a)
  show ?thesis unfolding audited(1) using next_event_linked [OF _ audited(2)] l
    by (intro consistent_frame [OF l]) (simp_all add: append_audit_event_def consistent_def)
next
  case planned
  then show ?thesis using consistent_planned [OF l] by blast
next
  case other
  then show ?thesis using l by (intro consistent_frame [OF l]) (simp_all add: same_history_def consistent_def)
qed

lemma consistent_steps: "ledger_steps sha l l' \<Longrightarrow> consistent sha l \<Longrightarrow> consistent sha l'"
  by (induction rule: rtranclp_induct) (auto intro: consistent_step)

section \<open>Restart\<close>

definition event_owned :: "OrderEvent list \<Rightarrow> ExecutionLedger \<Rightarrow> bool" where
  "event_owned es l \<longleftrightarrow> (\<forall>e \<in> set (dict_values (led_order_events l)). e \<in> set es \<and>
     (\<forall>b. event_broker_event_id e = Some b \<longrightarrow> map_of (led_broker_event_ids l) b = Some (event_client_order_id e)))"

lemma intents_placed_empty [simp]: "led_intents l = [] \<Longrightarrow> intents_placed l"
  by (simp add: intents_placed_def)

lemma restore_order_event_owned:
  assumes "event_owned es l" and "e \<in> set es" and "restore_order_event e l = Inr l'"
  shows "event_owned es l' \<and> led_intents l' = led_intents l \<and> led_plans l' = led_plans l \<and> led_orders l' = led_orders l"
proof -
  let ?owners = "case event_broker_event_id e of
      Some b \<Rightarrow> dict_setdefault b (event_client_order_id e) (led_broker_event_ids l) | None \<Rightarrow> led_broker_event_ids l"
  have l': "l' = l\<lparr>led_order_events := AList.update (order_event_id e) e (led_order_events l), led_broker_event_ids := ?owners\<rparr>"
    and new: "map_of (led_order_events l) (order_event_id e) = None"
    and own: "event_broker_event_id e = Some b \<Longrightarrow> map_of ?owners b = Some (event_client_order_id e)" for b
    using assms(3) by (auto simp: restore_order_event_def Let_def)
  have vals: "dict_values (led_order_events l') = dict_values (led_order_events l) @ [e]"
    using new by (simp add: l' dict_values_def update_nonkey map_of_eq_None_iff)
  have keep: "map_of ?owners b = Some c" if "map_of (led_broker_event_ids l) b = Some c" for b c
    using that by (auto simp: dict_setdefault_def split: option.splits)
  have ids: "led_broker_event_ids l' = ?owners" by (simp add: l')
  have "event_owned es l'"
    unfolding event_owned_def vals ids
  proof (intro ballI)
    fix y assume "y \<in> set (dict_values (led_order_events l) @ [e])"
    then consider "y = e" | "y \<in> set (dict_values (led_order_events l))" by auto
    then show "y \<in> set es \<and> (\<forall>b. event_broker_event_id y = Some b \<longrightarrow> map_of ?owners b = Some (event_client_order_id y))"
    proof cases
      case 1
      then show ?thesis using assms(2) own by blast
    next
      case 2
      then show ?thesis using assms(1) keep unfolding event_owned_def by blast
    qed
  qed
  then show ?thesis by (simp add: l')
qed

text \<open>The tables a restored record may touch, stage by stage.\<close>

definition no_events :: "ExecutionLedger \<Rightarrow> bool" where
  "no_events l \<longleftrightarrow> led_order_events l = [] \<and> led_broker_event_ids l = []"

definition no_intents :: "ExecutionLedger \<Rightarrow> bool" where
  "no_intents l \<longleftrightarrow> led_intents l = [] \<and> led_orders l = [] \<and> no_events l"

definition keyed_records :: "ExecutionLedger \<Rightarrow> bool" where
  "keyed_records l \<longleftrightarrow> intents_placed l \<and> keyed_orders l \<and> distinct (map fst (led_orders l))"

lemma restore_steps:
  "restore_decision d l = Inr l' \<Longrightarrow> no_intents l \<Longrightarrow> no_intents l'"
  "restore_plan p l = Inr l' \<Longrightarrow> no_intents l \<Longrightarrow> no_intents l'"
  "restore_intent i l = Inr l' \<Longrightarrow> intents_placed l \<Longrightarrow> intents_placed l'"
  "restore_intent i l = Inr l' \<Longrightarrow> led_orders l' = led_orders l \<and> (no_events l \<longrightarrow> no_events l')"
  "restore_order x l = Inr l' \<Longrightarrow> keyed_records l \<Longrightarrow> keyed_records l'"
  "restore_order x l = Inr l' \<Longrightarrow> no_events l \<Longrightarrow> no_events l'"
  "restore_fill f l = Inr l' \<Longrightarrow> keyed_records l' = keyed_records l \<and> event_owned es l' = event_owned es l"
  by (auto simp: restore_decision_def restore_plan_def restore_intent_def restore_order_def restore_fill_def
      no_intents_def no_events_def intents_placed_def keyed_orders_def keyed_records_def event_owned_def
      distinct_keys_update split: if_splits)

lemma restore_records_keyed:
  assumes "restore_records s = Inr l"
  shows "intents_placed l" and "keyed_orders l" and "event_owned (es_order_events s) l"
    and "distinct (map fst (led_orders l))"
proof -
  obtain l1 l2 l3 l4 l5 l6 where
    l1: "foldE restore_decision (es_risk_decisions s) empty_ledger = Inr l1" and
    l2: "foldE restore_plan (es_plans s) l1 = Inr l2" and
    l3: "foldE restore_intent (es_intents s) l2 = Inr l3" and
    l4: "foldE restore_order (es_orders s) l3 = Inr l4" and
    l5: "foldE restore_order_event (es_order_events s) l4 = Inr l5" and
    l6: "foldE restore_fill (es_fills s) l5 = Inr l6" and
    l: "led_intents l = led_intents l6 \<and> led_plans l = led_plans l6 \<and> led_orders l = led_orders l6 \<and>
        led_order_events l = led_order_events l6 \<and> led_broker_event_ids l = led_broker_event_ids l6"
    using assms by (auto simp: restore_records_def)
  have "no_intents empty_ledger" by (simp add: no_intents_def no_events_def empty_ledger_def)
  then have "no_intents l1" using foldE_invariant [where I = no_intents, OF l1] restore_steps(1) by blast
  then have "no_intents l2" using foldE_invariant [where I = no_intents, OF l2] restore_steps(2) by blast
  then have "intents_placed l2 \<and> led_orders l2 = [] \<and> no_events l2" by (simp add: no_intents_def)
  then have "intents_placed l3 \<and> led_orders l3 = [] \<and> no_events l3"
    by (rule foldE_invariant [where I = "\<lambda>l. intents_placed l \<and> led_orders l = [] \<and> no_events l", OF l3])
      (use restore_steps(3,4) in auto)
  then have "keyed_records l3 \<and> no_events l3" by (simp add: keyed_records_def keyed_orders_def)
  then have "keyed_records l4 \<and> no_events l4"
    by (rule foldE_invariant [where I = "\<lambda>l. keyed_records l \<and> no_events l", OF l4]) (use restore_steps(5,6) in blast)
  then have "keyed_records l4 \<and> event_owned (es_order_events s) l4"
    by (simp add: event_owned_def dict_values_def no_events_def)
  then have "keyed_records l5 \<and> event_owned (es_order_events s) l5"
  proof (rule foldE_invariant [where I = "\<lambda>l. keyed_records l \<and> event_owned (es_order_events s) l", OF l5])
    fix e k k'
    assume "e \<in> set (es_order_events s)" and "keyed_records k \<and> event_owned (es_order_events s) k"
      and "restore_order_event e k = Inr k'"
    with restore_order_event_owned [of "es_order_events s" k e k']
    show "keyed_records k' \<and> event_owned (es_order_events s) k'"
      by (simp add: keyed_records_def intents_placed_def keyed_orders_def)
  qed
  then have "keyed_records l6 \<and> event_owned (es_order_events s) l6"
    by (rule foldE_invariant [where I = "\<lambda>l. keyed_records l \<and> event_owned (es_order_events s) l", OF l6])
      (use restore_steps(7) in auto)
  then show "intents_placed l" "keyed_orders l" "event_owned (es_order_events s) l" "distinct (map fst (led_orders l))"
    using l by (simp_all add: keyed_records_def intents_placed_def keyed_orders_def event_owned_def)
qed

lemma verify_order_history_Inr:
  assumes "verify_order_history l (c, x) owners = Inr owners'"
  shows "order_head (events_of c l) x" and "order_broker_order_id x = Some b \<Longrightarrow> map_of owners' b = Some c"
    and "map_of owners k = Some d \<Longrightarrow> map_of owners' k = Some d"
  using assms by (auto simp: verify_order_history_def Let_def order_head_def dict_setdefault_def map_add_def split: option.splits)

lemma verify_histories:
  assumes "foldE (verify_order_history l) xs owners = Inr owners'"
  shows "(\<forall>(c, x) \<in> set xs. order_head (events_of c l) x \<and>
      (\<forall>b. order_broker_order_id x = Some b \<longrightarrow> map_of owners' b = Some c)) \<and>
    (\<forall>k d. map_of owners k = Some d \<longrightarrow> map_of owners' k = Some d)"
  using assms
proof (induction xs arbitrary: owners)
  case Nil
  then show ?case by simp
next
  case (Cons cx xs)
  obtain c x where cx: "cx = (c, x)" by fastforce
  obtain o1 where o1: "verify_order_history l (c, x) owners = Inr o1"
    and rest: "foldE (verify_order_history l) xs o1 = Inr owners'"
    using Cons.prems by (auto simp: cx)
  show ?case using Cons.IH [OF rest] verify_order_history_Inr [OF o1] unfolding cx by auto
qed

text \<open>The records of an exported state are immutable objects that were checked when they were made.\<close>

definition stored_values :: "sha256 \<Rightarrow> ExecutionLedgerState \<Rightarrow> bool" where
  "stored_values sha s \<longleftrightarrow> list_all (\<lambda>a. validate_audit_event sha a = Inr a) (es_audit_events s)"

lemma from_state_consistent:
  assumes "from_state sha s = Inr l" and "stored_values sha s"
  shows "consistent sha l"
proof -
  obtain k r owners where k: "restore_records s = Inr k" and r: "verify_audit_chain sha (es_audit_events s) = Inr r"
    and l: "l = k\<lparr>led_audit_events := es_audit_events s\<rparr>"
    and same: "set (dict_keys (led_orders l)) = set (dict_keys (led_intents l))"
    and ev: "\<And>e. e \<in> set (dict_values (led_order_events l)) \<Longrightarrow> map_of (led_orders l) (event_client_order_id e) \<noteq> None"
    and hist: "foldE (verify_order_history l) (led_orders l) [] = Inr owners"
    using assms(1) by (auto simp: from_state_def Let_def verify_projection_history_def list_ex_iff)
  note kr = restore_records_keyed [OF k] and h = verify_histories [OF hist]
  have keyed: "keyed_orders l" and int: "intents_placed l" and own: "event_owned (es_order_events s) l"
    using kr by (simp_all add: l keyed_orders_def intents_placed_def event_owned_def)
  have "orders_current l" unfolding orders_current_def
  proof (intro allI impI conjI)
    show "distinct (map fst (led_orders l))" using kr(4) by (simp add: l)
  next
    fix c x assume x: "map_of (led_orders l) c = Some x"
    have "(c, x) \<in> set (led_orders l)" using map_of_SomeD [OF x] .
    then show "order_head (events_of c l) x" using h by blast
    show "order_client_order_id x = c" using keyed x by (simp add: keyed_orders_def)
    have "c \<in> set (dict_keys (led_intents l))" unfolding same [symmetric] using map_of_SomeD [OF x]
      by (force simp: dict_keys_def)
    then show "map_of (led_intents l) c \<noteq> None" by (simp add: dict_keys_def map_of_eq_None_iff)
  qed
  moreover have "list_all (event_placed l) (dict_values (led_order_events l))"
    using own ev unfolding list_all_iff event_placed_def event_owned_def by blast
  moreover have "broker_ids_unique l" unfolding broker_ids_unique_def
  proof (intro allI impI)
    fix c d x y
    assume xy: "map_of (led_orders l) c = Some x" "map_of (led_orders l) d = Some y"
      "order_broker_order_id x \<noteq> None" "order_broker_order_id x = order_broker_order_id y"
    then obtain b where b: "order_broker_order_id x = Some b" by auto
    have "map_of owners b = Some c" "map_of owners b = Some d"
      using h xy map_of_SomeD [OF xy(1)] map_of_SomeD [OF xy(2)] b by fastforce+
    then show "c = d" by simp
  qed
  moreover have "audit_linked sha (led_audit_events l)"
    using r assms(2) verify_audit_chain_iff [of "es_audit_events s" sha r] by (simp add: l stored_values_def list_all_iff chained_linked)
  ultimately show ?thesis using int by (simp add: consistent_def)
qed

section \<open>Submissions are never taken back\<close>

definition started :: "ExecutionLedger \<Rightarrow> string \<Rightarrow> bool" where
  "started l c \<longleftrightarrow> (case map_of (led_orders l) c of Some x \<Rightarrow> order_state x \<noteq> INTENT_COMMITTED | None \<Rightarrow> False)"

lemma started_step:
  assumes "ledger_step sha l l'" and l: "consistent sha l" and "started l c"
  shows "started l' c"
  using assms(1)
proof (cases rule: ledger_step.cases)
  case (moved previous u current b event)
  have "order_state current \<noteq> INTENT_COMMITTED" using evolve_fields [OF moved(3)] moved(4) by simp
  then show ?thesis using assms(3) by (simp add: moved(1) started_def with_order_def)
next
  case planned
  have "map_of (led_orders l') c = map_of (led_orders l) c"
  proof -
    have "map_of (led_intents l) c \<noteq> None"
      using assms(3) orders_currentD [of l c] l by (auto simp: started_def consistent_def split: option.splits)
    then show ?thesis using planned by (auto simp: extends_intents_def)
  qed
  then show ?thesis using assms(3) by (simp add: started_def)
qed (use assms(3) in \<open>simp_all add: started_def append_audit_event_def same_history_def\<close>)

lemma started_steps: "ledger_steps sha l l' \<Longrightarrow> consistent sha l \<Longrightarrow> started l c \<Longrightarrow> consistent sha l' \<and> started l' c"
  by (induction rule: rtranclp_induct) (auto intro: consistent_step started_step)

lemma restore_orders_append:
  "foldE restore_order xs l = Inr l' \<Longrightarrow> led_orders l' = led_orders l @ map (\<lambda>x. (order_client_order_id x, x)) xs"
proof (induction xs arbitrary: l)
  case (Cons x xs)
  then obtain k where k: "restore_order x l = Inr k" "foldE restore_order xs k = Inr l'" by auto
  have "led_orders k = led_orders l @ [(order_client_order_id x, x)]"
    using k(1) by (auto simp: restore_order_def update_nonkey map_of_eq_None_iff)
  then show ?case using Cons.IH [OF k(2)] by simp
qed simp

lemma map_of_sort_key: "distinct (map fst d) \<Longrightarrow> map_of (sort_key fst d) = map_of d"
  by (simp add: map_of_inject_set distinct_map)

lemma restart_keeps_orders:
  assumes "from_state sha (export_state l) = Inr l'" and "consistent sha l"
  shows "map_of (led_orders l') = map_of (led_orders l)"
proof -
  have d: "distinct (map fst (led_orders l))" and keyed: "keyed_orders l"
    using assms(2) consistent_keyed by (auto simp: consistent_def orders_current_def)
  obtain k where k: "restore_records (export_state l) = Inr k" "led_orders l' = led_orders k"
    using assms(1) by (auto simp: from_state_def Let_def)
  obtain l1 l2 l3 l4 l5 l6 where
    l1: "foldE restore_decision (es_risk_decisions (export_state l)) empty_ledger = Inr l1" and
    l2: "foldE restore_plan (es_plans (export_state l)) l1 = Inr l2" and
    l3: "foldE restore_intent (es_intents (export_state l)) l2 = Inr l3" and
    l4: "foldE restore_order (es_orders (export_state l)) l3 = Inr l4" and
    l5: "foldE restore_order_event (es_order_events (export_state l)) l4 = Inr l5" and
    l6: "foldE restore_fill (es_fills (export_state l)) l5 = Inr l6" and
    l7: "led_orders k = led_orders l6"
    using k(1) by (auto simp: restore_records_def)
  note same = foldE_invariant [where I = "\<lambda>k. led_orders k = c" for c]
  have "led_orders l1 = []" by (rule same [OF l1]) (auto simp: restore_decision_def empty_ledger_def)
  then have "led_orders l2 = []" by (rule same [OF l2]) (auto simp: restore_plan_def)
  then have "led_orders l3 = []" by (rule same [OF l3]) (auto simp: restore_intent_def)
  then have 4: "led_orders l4 = map (\<lambda>x. (order_client_order_id x, x)) (map snd (sort_key fst (led_orders l)))"
    using restore_orders_append [OF l4] by (simp add: export_state_def values_by_key_def)
  have "led_orders l5 = led_orders l4" by (rule same [OF l5]) (auto simp: restore_order_event_def Let_def)
  then have "led_orders l6 = led_orders l4" by (rule same [OF l6]) (auto simp: restore_fill_def)
  moreover have "map (\<lambda>x. (order_client_order_id x, x)) (map snd (sort_key fst (led_orders l))) = sort_key fst (led_orders l)"
  proof -
    have "order_client_order_id (snd cx) = fst cx" if "cx \<in> set (led_orders l)" for cx
      using keyed d that by (cases cx) (simp add: keyed_orders_def)
    then show ?thesis unfolding map_map by (intro map_idI) simp
  qed
  ultimately have "led_orders l' = sort_key fst (led_orders l)" using 4 l7 k(2) by simp
  then show ?thesis using d by (simp add: map_of_sort_key)
qed

section \<open>Commands\<close>

datatype ledger_command =
    Persist_Plan ExecutionPlan "OrderIntent list" RiskDecision
  | Open_Incident Incident
  | Start_Submission string int SubmissionAuthoritySnapshot
  | Require_Reconciliation string int string
  | Request_Cancel string int
  | Mark_Unknown string int string
  | Apply_Update BrokerUpdate
  | Record_Bundle ReconciliationReceipt ReconciliationRequest "RiskLatchEvent option" "Incident option"
  | Restart_Process

text \<open>The ledger after a call, whether it returned or raised. A broker update that fails its own
  validation never reaches the ledger, and a restart that is refused leaves the exported state.\<close>

fun run_command :: "sha256 \<Rightarrow> ledger_command \<Rightarrow> ExecutionLedger \<Rightarrow> ExecutionLedger" where
  "run_command sha (Persist_Plan plan intents d) l = snd (persist_plan_and_intents sha plan intents d l)"
| "run_command sha (Open_Incident i) l = snd (record_incident sha i l)"
| "run_command sha (Start_Submission c t a) l = snd (record_submission_started sha c t a l)"
| "run_command sha (Require_Reconciliation c t r) l = snd (record_reconciliation_required sha c t r l)"
| "run_command sha (Request_Cancel c t) l = snd (record_cancel_requested sha c t l)"
| "run_command sha (Mark_Unknown c t r) l = snd (record_submission_unknown sha c t r l)"
| "run_command sha (Apply_Update u) l =
     (case validate_broker_update u of Inl e \<Rightarrow> l | Inr v \<Rightarrow> snd (apply_broker_update sha v l))"
| "run_command sha (Record_Bundle r q e i) l = snd (record_reconciliation_bundle sha r q e i l)"
| "run_command sha Restart_Process l = (case from_state sha (export_state l) of Inl e \<Rightarrow> l | Inr k \<Rightarrow> k)"

lemma validate_broker_update_state: "validate_broker_update u = Inr v \<Longrightarrow> v = u \<and> up_state u \<in> BROKER_REPORTED_STATES"
  by (auto simp: validate_broker_update_def)

lemma run_command_steps:
  assumes "consistent sha l" and "cmd \<noteq> Restart_Process"
  shows "ledger_steps sha l (run_command sha cmd l)"
proof (cases cmd)
  case (Apply_Update u)
  show ?thesis
  proof (cases "validate_broker_update u")
    case (Inr v)
    then have v: "v = u" "up_state u \<noteq> INTENT_COMMITTED"
      using validate_broker_update_state [OF Inr] by (auto simp: BROKER_REPORTED_STATES_def)
    show ?thesis using apply_broker_update_steps [OF consistent_keyed [OF assms(1)] v(2)] by (simp add: Apply_Update Inr v(1))
  qed (simp add: Apply_Update)
qed (use assms(2) consistent_keyed [OF assms(1)] in
  \<open>simp_all add: persist_plan_steps record_incident_steps record_state_steps record_bundle_steps\<close>)

lemma consistent_command:
  assumes "consistent sha l"
  shows "consistent sha (run_command sha cmd l)"
proof (cases "cmd = Restart_Process")
  case True
  have "list_all (\<lambda>a. validate_audit_event sha a = Inr a) (led_audit_events l)"
    using assms by (auto simp: consistent_def audit_linked_def sealed_def list_all_length)
  then have "stored_values sha (export_state l)" by (simp add: stored_values_def export_state_def)
  then show ?thesis using assms from_state_consistent True by (auto split: sum.splits)
next
  case False
  then show ?thesis using consistent_steps [OF run_command_steps [OF assms]] assms by blast
qed

lemma started_command:
  assumes "consistent sha l" and "started l c"
  shows "started (run_command sha cmd l) c"
proof (cases "cmd = Restart_Process")
  case True
  then show ?thesis using restart_keeps_orders [OF _ assms(1)] assms(2) by (auto simp: started_def split: sum.splits)
next
  case False
  then show ?thesis using started_steps [OF run_command_steps [OF assms(1)] assms(1,2)] by blast
qed

lemma consistent_empty: "consistent sha empty_ledger"
  by (simp add: consistent_def empty_ledger_def intents_placed_def orders_current_def broker_ids_unique_def
      dict_values_def audit_linked_def)

lemma consistent_commands: "consistent sha l \<Longrightarrow> consistent sha (fold (run_command sha) cmds l)"
  by (induction cmds arbitrary: l) (simp_all add: consistent_command)

section \<open>Properties\<close>

text \<open>
  C2. The ledger stays consistent: after any sequence of calls to the repository, returning or
  raising, and of restarts, every order belongs to a stored intent of a stored plan and stands at
  the head of its own gapless event history, no two orders share a broker order identifier, broker
  event identifiers belong to one order, and the audit events of every stream are sealed, numbered
  without gap and linked by their hashes.
\<close>

theorem ledger_stays_consistent: "consistent sha (fold (run_command sha) cmds empty_ledger)"
  by (rule consistent_commands) (rule consistent_empty)

lemma next_audit_key:
  assumes "next_audit sha eh ty tm payload l = Inr a" and "map_of payload ''idempotency_key'' = Some (PStr k)"
    and "pwf (PMap payload)"
  shows "is_audit_id k"
proof -
  obtain p where p: "payload_from_mapping sha (PMap payload) = Inr p" using assms(1) by (auto simp: next_audit_eq)
  obtain kvs where kvs: "canonical_json_bytes (PMap payload) = Inr (pay_json p)" "payload_text (pay_json p) kvs"
    using payload_from_mapping_Inr [OF p] by blast
  have "loads (pay_json p) = Some (jval (PMap payload))" using kvs(1) assms(3) by (rule canonical_json_loads)
  then have "kvs = sort_key fst (map (\<lambda>(k, v). (k, jval v)) payload)" using kvs(2) by (simp add: payload_text_def)
  moreover have "distinct (map fst (map (\<lambda>(k, v). (k, jval v)) payload))"
    using assms(3) by (simp add: comp_def case_prod_beta)
  ultimately have "map_of kvs = map_of (map (\<lambda>(k, v). (k, jval v)) payload)"
    by (simp add: map_of_sort_key)
  then have "map_of kvs ''idempotency_key'' = Some (JStr k)" using assms(2) by (simp add: map_of_map)
  then show ?thesis using payload_text_key [OF kvs(2)] by auto
qed

text \<open>The ledger after the first effect of recording a fill: the fill is stored under its execution id.\<close>

definition fill_stored :: "Fill \<Rightarrow> ExecutionLedger \<Rightarrow> ExecutionLedger" where
  "fill_stored f l = l\<lparr>led_fills := AList.update (fill_broker_execution_id f) f (led_fills l)\<rparr>"

text \<open>
  C39. What recording a fill leaves behind, for every fill and every ledger. An execution that is
  already stored changes nothing. A new one is stored in any case; the call returns, with the audit
  event of the fill appended, only if its broker execution identifier has the form of an audit
  identifier, a content identifier or a UUID. For every other identifier, and fills themselves accept
  all a broker may use, it raises after the fill is stored and leaves it without its event.
\<close>

theorem record_fill_outcome:
  "if map_of (led_fills l) (fill_broker_execution_id f) \<noteq> None then record_fill sha i f l = (Inr (), l)
   else (is_audit_id (fill_broker_execution_id f) \<and>
          (\<exists>plan audit. map_of (led_plans l) (intent_execution_plan_id i) = Some plan \<and>
             next_audit sha (plan_experiment_hash plan) ''fill.recorded'' (fill_occurred_at f) (fill_audit_payload i f) l =
               Inr audit \<and>
             record_fill sha i f l = (Inr (), append_audit_event audit (fill_stored f l)))) \<or>
        (\<exists>e. record_fill sha i f l = (Inl e, fill_stored f l))"
proof -
  have key: "is_audit_id (fill_broker_execution_id f)" if "next_audit sha eh ty tm (fill_audit_payload i f) k = Inr a" for eh ty tm k a
    using that by (rule next_audit_key) (simp_all add: fill_audit_payload_def)
  have frame: "next_audit sha eh ty tm pl (l\<lparr>led_fills := x\<rparr>) = next_audit sha eh ty tm pl l" for eh ty tm pl x
    by (simp add: next_audit_def)
  have plans: "get_plan k (l\<lparr>led_fills := x\<rparr>) = get_plan k l" for k x by (simp add: get_plan_def)
  show ?thesis
  proof (cases "get_plan (intent_execution_plan_id i) l")
    case (Inl e)
    then show ?thesis by (simp add: record_fill_def fill_stored_def plans)
  next
    case (Inr plan)
    then have plan: "map_of (led_plans l) (intent_execution_plan_id i) = Some plan" by (simp add: get_plan_Inr)
    show ?thesis using key
      by (cases "next_audit sha (plan_experiment_hash plan) ''fill.recorded'' (fill_occurred_at f) (fill_audit_payload i f) l")
        (auto simp: record_fill_def fill_stored_def frame plans plan Inr)
  qed
qed

end
