(* ===== verification/Execution_Service.thy ===== *)
theory Execution_Service
  imports Ledger_Invariants
begin

text \<open>
  The execution service (\<open>execution/service.py\<close>) over the ledger and a broker
  (\<open>execution/broker.py\<close>, protocol \<open>Broker\<close>). A broker is a parameter: a record of functions on a
  state of its own, any of which may raise. The state of the service is the pair of the ledger and
  the broker.
\<close>

section \<open>The broker protocol\<close>

datatype broker_kind = DeterministicFakePaperBroker | AlpacaPaperBrokerAdapter | OtherBroker

record 'b Broker =
  br_kind :: broker_kind
  br_paper_only :: bool
  br_factory_created :: bool
  br_submit :: "OrderIntent \<Rightarrow> int \<Rightarrow> ('b, BrokerUpdate) op"
  br_lookup :: "string \<Rightarrow> int \<Rightarrow> ('b, BrokerUpdate option) op"
  br_cancel :: "string \<Rightarrow> int \<Rightarrow> ('b, BrokerUpdate) op"
  br_account :: "int \<Rightarrow> ('b, AccountState) op"
  br_positions :: "('b, Position list) op"
  br_open_client_order_ids :: "('b, string list) op"

definition validate_service :: "'b Broker \<Rightarrow> 'b Broker res" where
  "validate_service br =
     guarded
      [(br_kind br \<notin> {DeterministicFakePaperBroker, AlpacaPaperBrokerAdapter},
         exec_error ''broker adapter is not in the closed allowlist''),
       (\<not> br_paper_only br, exec_error ''broker adapter must be permanently paper-only''),
       (br_kind br = AlpacaPaperBrokerAdapter \<and> \<not> br_factory_created br,
         exec_error ''paper adapter lacks factory-owned authority'')]
     (Inr br)"

type_synonym ('b, 'a) service_op = "(ExecutionLedger \<times> 'b, 'a) op"

definition on_ledger :: "'a ledger_op \<Rightarrow> ('b, 'a) service_op" where
  "on_ledger m s = (case m (fst s) of (r, l) \<Rightarrow> (r, (l, snd s)))"

definition on_broker :: "('b, 'a) op \<Rightarrow> ('b, 'a) service_op" where
  "on_broker m s = (case m (snd s) of (r, b) \<Rightarrow> (r, (fst s, b)))"

text \<open>\<open>try: m except: handler\<close>: the handler sees the exception and the state it left.\<close>

definition tries :: "('s, 'a) op \<Rightarrow> (error + 'a \<Rightarrow> ('s, 'c) op) \<Rightarrow> ('s, 'c) op" where
  "tries m k s = (case m s of (r, s') \<Rightarrow> k r s')"

text \<open>Every update a broker returns is an object that passed its constructor.\<close>

definition constructed :: "('b, BrokerUpdate) op \<Rightarrow> ('b, BrokerUpdate) op" where
  "constructed m = bindS m (\<lambda>u. reads (\<lambda>_. validate_broker_update u))"

definition constructed_option :: "('b, BrokerUpdate option) op \<Rightarrow> ('b, BrokerUpdate option) op" where
  "constructed_option m = bindS m (\<lambda>u. case u of None \<Rightarrow> returns None
     | Some v \<Rightarrow> reads (\<lambda>_. bindE (validate_broker_update v) (\<lambda>w. Inr (Some w))))"

section \<open>Reading the broker and the ledger\<close>

definition broker_positions :: "Position list \<Rightarrow> Position list res" where
  "broker_positions values =
     (let positions = sort_key pos_symbol (filter (\<lambda>p. \<not> deq (pos_quantity p) dzero) values) in
      guarded [(\<not> distinct (map pos_symbol positions), exec_error ''broker positions contain a duplicate symbol'')]
      (Inr positions))"

definition ordered_ids :: "string list \<Rightarrow> string list res" where
  "ordered_ids values =
     guarded [(list_ex (\<lambda>v. v = '''') values \<or> values \<noteq> sorted_set values, exec_error ''broker open-order IDs are invalid'')]
     (Inr values)"

definition quantity_step :: "Fill \<Rightarrow> (string, decimal) dict \<Rightarrow> (string, decimal) dict res" where
  "quantity_step f d =
     (case map_of d (fill_symbol f) of
        None \<Rightarrow> Inl (exec_error ''durable fill does not match plan symbols'')
      | Some q \<Rightarrow> Inr (AList.update (fill_symbol f) (dadd 28 q (fill_delta f)) d))"

definition positions_after_fills :: "Position list \<Rightarrow> Fill list \<Rightarrow> Position list res" where
  "positions_after_fills baseline fs =
     bindE (foldE quantity_step fs (position_dict baseline)) positions_of"

definition cash_after_fills :: "decimal \<Rightarrow> Fill list \<Rightarrow> decimal" where
  "cash_after_fills baseline fs = fold (\<lambda>f cash.
     (let notional = dmul 28 (fill_quantity f) (fill_price f) in
      dsub 28 (dadd 28 cash (if fill_side f = SELL then notional else dneg 28 notional)) (fill_fee f))) fs baseline"

definition minimum_of :: "int list \<Rightarrow> int res" where
  "minimum_of ts = (if ts = [] then Inl (ValueError ''min() iterable argument is empty'') else Inr (Min (set ts)))"

definition marked_value :: "(string, decimal) dict \<Rightarrow> Position list \<Rightarrow> decimal res" where
  "marked_value prices positions =
     bindE (mapE (\<lambda>p. bindE (dict_item prices (pos_symbol p)) (\<lambda>price. Inr (dmul 28 (pos_quantity p) price))) positions)
       (\<lambda>values. Inr (dsum 28 values))"

definition experiment_orders :: "ExecutionPlan \<Rightarrow> ExecutionLedger \<Rightarrow> BrokerOrder list res" where
  "experiment_orders plan l = filterE (\<lambda>x.
     bindE (get_intent (order_client_order_id x) l) (\<lambda>i. Inr (intent_experiment_hash i = plan_experiment_hash plan))) (all_orders l)"

section \<open>The service\<close>

record SubmissionResult =
  sr_client_order_id :: string
  sr_state :: OrderState
  sr_submitted :: bool
  sr_reason_codes :: "string list"

definition submission_result :: "string \<Rightarrow> OrderState \<Rightarrow> bool \<Rightarrow> string list \<Rightarrow> SubmissionResult" where
  "submission_result c st submitted reasons =
     \<lparr>sr_client_order_id = c, sr_state = st, sr_submitted = submitted, sr_reason_codes = reasons\<rparr>"

definition denied :: "string \<Rightarrow> SubmissionAuthorization res" where
  "denied reason = validate_authorization \<lparr>auth_approved = False, auth_reasons = [reason]\<rparr>"

definition service_authorize :: "'b Broker \<Rightarrow> OrderIntent \<Rightarrow> SubmissionSafetySnapshot \<Rightarrow> PaperGateContext option \<Rightarrow>
    SubmissionAuthorization res" where
  "service_authorize br intent safety paper_context =
     (if br_kind br = AlpacaPaperBrokerAdapter then
        (if \<not> br_paper_only br then denied ''broker_not_paper_only''
         else (case paper_context of
             None \<Rightarrow> denied ''paper_gate_context_missing''
           | Some c \<Rightarrow>
               if pg_adapter_paper_only c \<noteq> br_paper_only br then denied ''paper_adapter_identity_mismatch''
               else if pg_safety c \<noteq> safety then denied ''paper_safety_snapshot_mismatch''
               else authorize_paper_intent intent c))
      else if br_kind br \<noteq> DeterministicFakePaperBroker then denied ''broker_adapter_not_allowed''
      else if \<not> br_paper_only br then denied ''broker_not_paper_only''
      else if paper_context \<noteq> None then denied ''paper_context_with_nonpaper_adapter''
      else authorize_intent intent safety)"

text \<open>The facts of the signed decision, the ledger and the broker that have to agree before a
  submission is claimed.\<close>

definition authority_reasons :: "OrderIntent \<Rightarrow> SubmissionSafetySnapshot \<Rightarrow> SubmissionLedgerSnapshot \<Rightarrow>
    ExecutionPlan \<Rightarrow> RiskDecision \<Rightarrow> AccountState \<Rightarrow> string \<Rightarrow> Position list \<Rightarrow> string list \<Rightarrow>
    int \<Rightarrow> int \<Rightarrow> Position list \<Rightarrow> decimal \<Rightarrow> decimal \<Rightarrow> BrokerOrder list \<Rightarrow> string list" where
  "authority_reasons intent safety ledger plan decision account account_hash positions open_orders
     price_time security_time expected_positions expected_cash expected_equity orders =
     (let reconciliation_time = map_of (rev (rd_source_timestamps decision)) ''reconciliation'';
          expected_open = sort (map order_client_order_id
            (filter (\<lambda>x. \<not> terminal (order_state x) \<and> order_broker_order_id x \<noteq> None) orders));
          durable_ambiguous = list_ex (\<lambda>x. ambiguous (order_state x) \<or> order_state x = SUBMISSION_STARTED) orders in
      reason_if (sl_intent_hash ledger \<noteq> intent_content_hash intent \<or> sl_execution_plan_id ledger \<noteq> execution_plan_id plan \<or>
        sl_risk_decision_hash ledger \<noteq> rd_content_hash decision) ''signed_authority_mismatch'' @
      reason_if (sf_account_observed_at safety \<noteq> account_observed_at account) ''account_snapshot_mismatch'' @
      reason_if (sf_price_observed_at safety \<noteq> price_time) ''planning_price_snapshot_mismatch'' @
      reason_if (sf_security_observed_at safety \<noteq> security_time) ''security_snapshot_mismatch'' @
      reason_if (reconciliation_time \<noteq> Some (sf_reconciliation_observed_at safety)) ''reconciliation_snapshot_mismatch'' @
      reason_if (sf_active_symbols safety \<noteq> map fst (rd_final_targets decision)) ''active_symbols_changed'' @
      reason_if (sf_shortable_symbols safety \<noteq> short_eligible decision) ''security_eligibility_changed'' @
      reason_if (sf_ambiguous_order_exists safety \<noteq> durable_ambiguous) ''ambiguous_order_snapshot_mismatch'' @
      reason_if (sf_blocking_latch_exists safety \<noteq> (sl_active_latches ledger \<noteq> [])) ''latch_snapshot_mismatch'' @
      reason_if (account_hash \<noteq> as_account_id_hash (rd_account_snapshot decision)) ''account_id_mismatch'' @
      reason_if (dlt (Dec 1 (- 2)) (dabs 28 (dsub 28 (account_cash account) expected_cash))) ''account_cash_changed'' @
      reason_if (dlt (Dec 1 (- 2)) (dabs 28 (dsub 28 (account_equity account) expected_equity))) ''account_equity_changed'' @
      reason_if (\<not> list_all2 position_eq positions expected_positions) ''positions_changed'' @
      reason_if (open_orders \<noteq> expected_open) ''open_orders_changed'')"

definition read_broker :: "'b Broker \<Rightarrow> SubmissionSafetySnapshot \<Rightarrow> ('b, AccountState \<times> Position list \<times> string list) op" where
  "read_broker br safety =
     bindS (br_account br (sf_evaluated_at safety)) (\<lambda>account.
     bindS (br_positions br) (\<lambda>raw_positions.
     bindS (reads (\<lambda>_. broker_positions raw_positions)) (\<lambda>positions.
     bindS (br_open_client_order_ids br) (\<lambda>raw_ids.
     bindS (reads (\<lambda>_. ordered_ids raw_ids)) (\<lambda>open_orders.
       returns (account, positions, open_orders))))))"

definition evaluate_authority :: "sha256 \<Rightarrow> OrderIntent \<Rightarrow> SubmissionSafetySnapshot \<Rightarrow> SubmissionLedgerSnapshot \<Rightarrow>
    ExecutionPlan \<Rightarrow> RiskDecision \<Rightarrow> AccountState \<times> Position list \<times> string list \<Rightarrow> ExecutionLedger \<Rightarrow>
    (SubmissionAuthoritySnapshot option \<times> string list) res" where
  "evaluate_authority sha intent safety ledger plan decision observed l =
     (case observed of (account, positions, open_orders) \<Rightarrow>
     bindE (minimum_of (map pp_observed_at (rd_planning_prices decision))) (\<lambda>price_time.
     bindE (minimum_of (map sm_observed_at (rd_security_metadata decision))) (\<lambda>security_time.
     let plan_client_ids = map intent_client_order_id (intents_for_plan (execution_plan_id plan) l);
         plan_fills = filter (\<lambda>f. fill_client_order_id f \<in> set plan_client_ids) (ledger_fills l);
         expected_cash = cash_after_fills (as_cash (rd_account_snapshot decision)) plan_fills in
     bindE (positions_after_fills (plan_current_positions plan) plan_fills) (\<lambda>expected_positions.
     bindE (marked_value (dict_of_pairs (plan_reference_prices plan)) expected_positions) (\<lambda>marked.
     bindE (experiment_orders plan l) (\<lambda>orders.
     bindE (account_id_hash sha account) (\<lambda>account_hash.
     let reasons = authority_reasons intent safety ledger plan decision account account_hash positions open_orders
           price_time security_time expected_positions expected_cash (dadd 28 expected_cash marked) orders in
     if reasons \<noteq> [] then Inr (None, sorted_set reasons)
     else bindE (create_authority sha ledger safety account positions open_orders) (\<lambda>a. Inr (Some a, [])))))))))"

definition submission_authority :: "sha256 \<Rightarrow> 'b Broker \<Rightarrow> OrderIntent \<Rightarrow> SubmissionSafetySnapshot \<Rightarrow>
    ('b, SubmissionAuthoritySnapshot option \<times> string list) service_op" where
  "submission_authority sha br intent safety =
     bindS (on_ledger (reads (submission_ledger_snapshot sha (intent_client_order_id intent)))) (\<lambda>ledger.
     bindS (on_ledger (reads (get_plan (intent_execution_plan_id intent)))) (\<lambda>plan.
     bindS (on_ledger (reads (get_risk_decision (plan_risk_decision_id plan)))) (\<lambda>decision.
     tries (on_broker (read_broker br safety)) (\<lambda>r.
       case r of
         Inl e \<Rightarrow> returns (None, [''broker_state_unavailable''])
       | Inr observed \<Rightarrow> on_ledger (reads (evaluate_authority sha intent safety ledger plan decision observed))))))"

definition stale_authority :: error where
  "stale_authority = exec_error ''submission authority became stale''"

text \<open>The calls after the submission is claimed: the broker, then the recorded outcome.\<close>

definition submit_claimed :: "sha256 \<Rightarrow> 'b Broker \<Rightarrow> OrderIntent \<Rightarrow> string \<Rightarrow> SubmissionSafetySnapshot \<Rightarrow>
    ('b, SubmissionResult) service_op" where
  "submit_claimed sha br intent c safety =
     tries (on_broker (constructed (br_submit br intent (sf_evaluated_at safety)))) (\<lambda>r.
       case r of
         Inl e \<Rightarrow>
           bindS (on_ledger (record_submission_unknown sha c (sf_evaluated_at safety)
             (case e of BrokerSubmissionUncertain code _ \<Rightarrow> code | _ \<Rightarrow> ''broker_submission_exception''))) (\<lambda>unknown.
             returns (submission_result c (order_state unknown) True [''submission_unknown'']))
       | Inr u \<Rightarrow>
           bindS (on_ledger (apply_broker_update sha u)) (\<lambda>current.
             returns (submission_result c (order_state current) True [])))"

definition submit_one :: "sha256 \<Rightarrow> 'b Broker \<Rightarrow> string \<Rightarrow> SubmissionSafetySnapshot \<Rightarrow> PaperGateContext option \<Rightarrow>
    ('b, SubmissionResult) service_op" where
  "submit_one sha br c safety paper_context =
     bindS (on_ledger (reads (get_intent c))) (\<lambda>intent.
     bindS (on_ledger (reads (get_order c))) (\<lambda>order.
       let refused = (\<lambda>reasons. returns (submission_result c (order_state order) False reasons)) in
       if terminal (order_state order) then refused [''already_terminal'']
       else if ambiguous (order_state order) \<or> order_state order = SUBMISSION_STARTED then refused [''reconciliation_required'']
       else if order_state order \<noteq> INTENT_COMMITTED then refused [''order_already_submitted'']
       else
         bindS (reads (\<lambda>_. service_authorize br intent safety paper_context)) (\<lambda>authorization.
         if \<not> auth_approved authorization then refused (auth_reasons authorization)
         else
           bindS (submission_authority sha br intent safety) (\<lambda>authority.
           case authority of
             (None, reasons) \<Rightarrow> refused reasons
           | (Some a, _) \<Rightarrow>
               tries (on_ledger (record_submission_started sha c (sf_evaluated_at safety) a)) (\<lambda>r.
                 case r of
                   Inl e \<Rightarrow>
                     if e \<noteq> stale_authority then reads (\<lambda>_. Inl e)
                     else bindS (on_ledger (reads (get_order c))) (\<lambda>now.
                       returns (submission_result c (order_state now) False [''submission_authority_stale'']))
                 | Inr started_order \<Rightarrow> submit_claimed sha br intent c safety)))))"

definition persist_result :: "sha256 \<Rightarrow> ExecutionPlanningResult \<Rightarrow> ('b, unit) service_op" where
  "persist_result sha result =
     on_ledger (persist_plan_and_intents sha (res_plan result) (res_intents result) (res_risk_decision result))"

text \<open>The loop of \<open>submit_plan\<close>: an entry waits until every closing leg before it is filled.\<close>

fun submit_intents :: "sha256 \<Rightarrow> 'b Broker \<Rightarrow> (OrderIntent \<Rightarrow> SubmissionSafetySnapshot) \<Rightarrow>
    (OrderIntent \<Rightarrow> PaperGateContext option) \<Rightarrow> bool \<Rightarrow> OrderIntent list \<Rightarrow> ('b, SubmissionResult list) service_op" where
  "submit_intents sha br safety_of context_of exits_complete [] = returns []"
| "submit_intents sha br safety_of context_of exits_complete (i # is) =
     (if intent_phase i = ENTRY \<and> \<not> exits_complete then
        bindS (on_ledger (reads (get_order (intent_client_order_id i)))) (\<lambda>order.
        bindS (submit_intents sha br safety_of context_of exits_complete is) (\<lambda>outcomes.
          returns (submission_result (intent_client_order_id i) (order_state order) False [''close_phase_incomplete''] # outcomes)))
      else
        bindS (submit_one sha br (intent_client_order_id i) (safety_of i) (context_of i)) (\<lambda>outcome.
        bindS (submit_intents sha br safety_of context_of
          (if intent_phase i \<in> {EXIT, FLATTEN} \<and> sr_state outcome \<noteq> FILLED then False else exits_complete) is) (\<lambda>outcomes.
          returns (outcome # outcomes))))"

definition submit_plan :: "sha256 \<Rightarrow> 'b Broker \<Rightarrow> ExecutionPlanningResult \<Rightarrow> (OrderIntent \<Rightarrow> SubmissionSafetySnapshot) \<Rightarrow>
    (OrderIntent \<Rightarrow> PaperGateContext option) \<Rightarrow> ('b, SubmissionResult list) service_op" where
  "submit_plan sha br result safety_of context_of =
     bindS (persist_result sha result) (\<lambda>_. submit_intents sha br safety_of context_of True (res_intents result))"

definition follow_lookup :: "sha256 \<Rightarrow> 'b Broker \<Rightarrow> string \<Rightarrow> int \<Rightarrow> ('b, BrokerOrder) service_op" where
  "follow_lookup sha br c observed_at =
     bindS (on_broker (constructed_option (br_lookup br c observed_at))) (\<lambda>update.
       case update of
         None \<Rightarrow> on_ledger (record_reconciliation_required sha c observed_at ''broker_order_not_found'')
       | Some u \<Rightarrow> on_ledger (apply_broker_update sha u))"

definition resolve_ambiguous :: "sha256 \<Rightarrow> 'b Broker \<Rightarrow> string \<Rightarrow> int \<Rightarrow> ('b, BrokerOrder) service_op" where
  "resolve_ambiguous sha br c observed_at =
     bindS (on_ledger (reads (get_order c))) (\<lambda>current.
       if order_state current \<notin> {SUBMISSION_STARTED, SUBMISSION_UNKNOWN, RECONCILIATION_REQUIRED}
       then reads (\<lambda>_. Inl (exec_error ''order does not require ambiguous-submission recovery''))
       else follow_lookup sha br c observed_at)"

definition refresh_nonterminal :: "sha256 \<Rightarrow> 'b Broker \<Rightarrow> string \<Rightarrow> int \<Rightarrow> ('b, BrokerOrder) service_op" where
  "refresh_nonterminal sha br c observed_at =
     bindS (on_ledger (reads (get_order c))) (\<lambda>current.
       if terminal (order_state current) then returns current
       else if order_state current \<in> {INTENT_COMMITTED, SUBMISSION_STARTED, SUBMISSION_UNKNOWN, RECONCILIATION_REQUIRED}
       then reads (\<lambda>_. Inl (exec_error ''order requires submission or ambiguity recovery''))
       else follow_lookup sha br c observed_at)"

definition cancel_one :: "sha256 \<Rightarrow> 'b Broker \<Rightarrow> string \<Rightarrow> int \<Rightarrow> ('b, BrokerOrder) service_op" where
  "cancel_one sha br c requested_at =
     bindS (on_ledger (record_cancel_requested sha c requested_at)) (\<lambda>_.
     tries (on_broker (constructed (br_cancel br c requested_at))) (\<lambda>r.
       case r of
         Inl e \<Rightarrow> on_ledger (record_reconciliation_required sha c requested_at ''cancellation_outcome_unknown'')
       | Inr u \<Rightarrow> on_ledger (apply_broker_update sha u)))"

end
