(* ===== verification/Submission_Once.thy ===== *)
theory Submission_Once
  imports Execution_Service
begin

text \<open>
  The service submits every intent at most once, whatever the broker answers and however calls,
  crashes and restarts interleave. The broker is observed through a log of the intents passed to
  its \<open>submit\<close>.
\<close>

section \<open>Claims that are never taken back\<close>

text \<open>
  What the service relies on in the ledger: the steps of the ledger keep it sound and keep every
  claim. A log of actions that are only taken after a claim of their own then has no repetition.
\<close>

locale claim_ledger =
  fixes sound :: "'l \<Rightarrow> bool" and step :: "'l \<Rightarrow> 'l \<Rightarrow> bool" and claimed :: "'l \<Rightarrow> 'c \<Rightarrow> bool"
  assumes sound_step: "step l l' \<Longrightarrow> sound l \<Longrightarrow> sound l'"
    and claimed_step: "step l l' \<Longrightarrow> sound l \<Longrightarrow> claimed l c \<Longrightarrow> claimed l' c"
begin

definition logged_claims :: "'l \<Rightarrow> 'c list \<Rightarrow> bool" where
  "logged_claims l taken \<longleftrightarrow> sound l \<and> distinct taken \<and> (\<forall>c \<in> set taken. claimed l c)"

lemma claims_step: "step l l' \<Longrightarrow> logged_claims l taken \<Longrightarrow> logged_claims l' taken"
  using sound_step claimed_step by (simp add: logged_claims_def)

lemma claims_new:
  assumes "step l l'" and "logged_claims l taken" and "\<not> claimed l c" and "claimed l' c"
  shows "logged_claims l' (taken @ [c])"
  using assms sound_step claimed_step by (auto simp: logged_claims_def)

lemma claims_sound: "logged_claims l taken \<Longrightarrow> sound l"
  by (simp add: logged_claims_def)

lemma claims_distinct: "logged_claims l taken \<Longrightarrow> distinct taken"
  by (simp add: logged_claims_def)

end

text \<open>The moves of the ledger: writes of its operations, and restarts.\<close>

definition ledger_move :: "sha256 \<Rightarrow> ExecutionLedger \<Rightarrow> ExecutionLedger \<Rightarrow> bool" where
  "ledger_move sha l l' \<longleftrightarrow> ledger_steps sha l l' \<or> (\<exists>cmd. l' = run_command sha cmd l)"

interpretation orders: claim_ledger "consistent sha" "ledger_move sha" started for sha
proof
  fix l l' c
  assume m: "ledger_move sha l l'" and l: "consistent sha l"
  show "consistent sha l'"
    using m consistent_steps [OF _ l] consistent_command [OF l] by (auto simp: ledger_move_def)
  assume "started l c"
  then show "started l' c"
    using m l started_steps [of sha l l' c] started_command [OF l] by (auto simp: ledger_move_def)
qed

section \<open>A broker that logs its submissions\<close>

definition unlogged :: "('b, 'a) op \<Rightarrow> ('b \<times> string list, 'a) op" where
  "unlogged m s = (case m (fst s) of (r, b) \<Rightarrow> (r, (b, snd s)))"

definition logged :: "'b Broker \<Rightarrow> ('b \<times> string list) Broker" where
  "logged br = \<lparr>br_kind = br_kind br, br_paper_only = br_paper_only br, br_factory_created = br_factory_created br,
     br_submit = (\<lambda>i t s. case br_submit br i t (fst s) of (r, b) \<Rightarrow> (r, (b, snd s @ [intent_client_order_id i]))),
     br_lookup = (\<lambda>c t. unlogged (br_lookup br c t)), br_cancel = (\<lambda>c t. unlogged (br_cancel br c t)),
     br_account = (\<lambda>t. unlogged (br_account br t)), br_positions = unlogged (br_positions br),
     br_open_client_order_ids = unlogged (br_open_client_order_ids br)\<rparr>"

definition once :: "sha256 \<Rightarrow> ExecutionLedger \<times> 'b \<times> string list \<Rightarrow> bool" where
  "once sha s \<longleftrightarrow> orders.logged_claims sha (fst s) (snd (snd s))"

definition keeps :: "('s \<Rightarrow> bool) \<Rightarrow> ('s, 'a) op \<Rightarrow> bool" where
  "keeps P m \<longleftrightarrow> (\<forall>s. P s \<longrightarrow> P (snd (m s)))"

definition yields :: "('s \<Rightarrow> bool) \<Rightarrow> ('a \<Rightarrow> bool) \<Rightarrow> ('s, 'a) op \<Rightarrow> bool" where
  "yields P Q m \<longleftrightarrow> (\<forall>s x s'. P s \<longrightarrow> m s = (Inr x, s') \<longrightarrow> Q x)"

lemma keepsD: "keeps P m \<Longrightarrow> P s \<Longrightarrow> P (snd (m s))"
  by (simp add: keeps_def)

lemma keeps_bind: "keeps P m \<Longrightarrow> (\<And>x. keeps P (f x)) \<Longrightarrow> keeps P (bindS m f)"
  unfolding keeps_def snd_bindS by (auto split: prod.splits sum.splits)

lemma keeps_tries: "keeps P m \<Longrightarrow> (\<And>r. keeps P (k r)) \<Longrightarrow> keeps P (tries m k)"
  unfolding keeps_def tries_def by (auto split: prod.splits)

lemma keeps_tries_yields:
  assumes "keeps P m" and "yields P Q m" and "\<And>e. keeps P (k (Inl e))" and "\<And>x. Q x \<Longrightarrow> keeps P (k (Inr x))"
  shows "keeps P (tries m k)"
  unfolding keeps_def
proof (intro allI impI)
  fix s assume s: "P s"
  obtain r s' where run: "m s = (r, s')" by fastforce
  have s': "P s'" using assms(1) s run by (metis keepsD snd_conv)
  show "P (snd (tries m k s))"
  proof (cases r)
    case (Inl e)
    then show ?thesis using keepsD [OF assms(3) s'] by (simp add: tries_def run)
  next
    case (Inr x)
    then have "Q x" using assms(2) run s by (auto simp: yields_def)
    then show ?thesis using keepsD [OF assms(4) s'] Inr by (simp add: tries_def run)
  qed
qed

lemma bindS_tries: "bindS m f = tries m (\<lambda>r. case r of Inl e \<Rightarrow> reads (\<lambda>_. Inl e) | Inr x \<Rightarrow> f x)"
  by (rule ext) (simp add: bindS_def tries_def split: prod.splits sum.splits)

lemma keeps_bind_yields:
  assumes "keeps P m" and "yields P Q m" and "\<And>x. Q x \<Longrightarrow> keeps P (f x)"
  shows "keeps P (bindS m f)"
  unfolding bindS_tries using assms(1,2)
  by (rule keeps_tries_yields) (use assms(3) in \<open>simp_all add: keeps_def\<close>)

lemma keeps_reads: "keeps P (reads f)" "keeps P (returns x)"
  by (simp_all add: keeps_def)

lemma keeps_on_ledger:
  assumes "\<And>l. consistent sha l \<Longrightarrow> ledger_steps sha l (snd (m l))"
  shows "keeps (once sha) (on_ledger m)"
  unfolding keeps_def
proof (intro allI impI)
  fix s :: "ExecutionLedger \<times> 'b \<times> string list"
  assume s: "once sha s"
  obtain r l where run: "m (fst s) = (r, l)" by fastforce
  have "ledger_steps sha (fst s) l"
    using assms [OF orders.claims_sound] s run by (metis once_def snd_conv)
  then have "ledger_move sha (fst s) l" by (simp add: ledger_move_def)
  from orders.claims_step [OF this] s show "once sha (snd (on_ledger m s))"
    by (simp add: once_def on_ledger_def run)
qed

lemma keeps_ledger_reads: "keeps P (on_ledger (reads f))"
  by (simp add: keeps_def on_ledger_def)

text \<open>Broker calls that leave the log alone.\<close>

definition quiet :: "('b \<times> string list, 'a) op \<Rightarrow> bool" where
  "quiet m \<longleftrightarrow> (\<forall>s. snd (snd (m s)) = snd s)"

lemma quiet_bind: "quiet m \<Longrightarrow> (\<And>x. quiet (f x)) \<Longrightarrow> quiet (bindS m f)"
  unfolding quiet_def snd_bindS by (auto split: prod.splits sum.splits) (metis snd_conv)+

lemma quiet_reads: "quiet (reads f)" "quiet (returns x)" "quiet (unlogged m)"
  by (simp_all add: quiet_def unlogged_def split: prod.splits)

lemma keeps_on_broker: "quiet m \<Longrightarrow> keeps (once sha) (on_broker m)"
  by (auto simp: keeps_def on_broker_def once_def quiet_def split: prod.splits) (metis snd_conv)

lemma yields_constructed:
  "yields P (\<lambda>u. up_state u \<noteq> INTENT_COMMITTED) (constructed m)"
  "yields P' (\<lambda>r. case r of Some u \<Rightarrow> up_state u \<noteq> INTENT_COMMITTED | None \<Rightarrow> True) (constructed_option k)"
  by (auto simp: yields_def constructed_def constructed_option_def bindS_Inr BROKER_REPORTED_STATES_def
      dest!: validate_broker_update_state split: option.splits)

lemma yields_on_broker: "yields (\<lambda>_. True) Q m \<Longrightarrow> yields P Q (on_broker m)"
  by (auto simp: yields_def on_broker_def split: prod.splits)

lemma quiet_constructed: "quiet m \<Longrightarrow> quiet (constructed m)" "quiet k \<Longrightarrow> quiet (constructed_option k)"
  unfolding constructed_def constructed_option_def
  by (rule quiet_bind; auto simp: quiet_reads split: option.splits)+

lemma quiet_logged:
  "quiet (br_lookup (logged br) c t)" "quiet (br_cancel (logged br) c t)" "quiet (br_account (logged br) t)"
  "quiet (br_positions (logged br))" "quiet (br_open_client_order_ids (logged br))"
  by (simp_all add: logged_def quiet_reads)

section \<open>The operations of the service\<close>

lemma ledger_op_steps:
  "consistent sha l \<Longrightarrow> ledger_steps sha l (snd (record_submission_unknown sha c t code l))"
  "consistent sha l \<Longrightarrow> ledger_steps sha l (snd (record_reconciliation_required sha c t code l))"
  "consistent sha l \<Longrightarrow> ledger_steps sha l (snd (record_cancel_requested sha c t l))"
  "consistent sha l \<Longrightarrow> ledger_steps sha l (snd (record_submission_started sha c t a l))"
  "up_state u \<noteq> INTENT_COMMITTED \<Longrightarrow> consistent sha l \<Longrightarrow> ledger_steps sha l (snd (apply_broker_update sha u l))"
  by (blast intro: record_state_steps apply_broker_update_steps consistent_keyed)+

lemma read_broker_quiet: "quiet (read_broker (logged br) safety)"
  unfolding read_broker_def by (intro quiet_bind quiet_reads quiet_logged)

lemma submission_authority_once: "keeps (once sha) (submission_authority sha (logged br) i safety)"
  unfolding submission_authority_def
  by (intro keeps_bind keeps_ledger_reads keeps_tries keeps_on_broker read_broker_quiet)
    (auto simp: keeps_ledger_reads keeps_reads split: sum.splits)

lemma submit_claimed_once:
  assumes "orders.logged_claims sha l (taken @ [c])" and "intent_client_order_id i = c"
  shows "once sha (snd (submit_claimed sha (logged br) i c safety (l, (b, taken))))"
proof -
  let ?m = "on_broker (constructed (br_submit (logged br) i (sf_evaluated_at safety)))"
  obtain r0 b' where sub: "br_submit br i (sf_evaluated_at safety) b = (r0, b')" by fastforce
  obtain r where run: "?m (l, (b, taken)) = (r, (l, (b', taken @ [c])))"
    using sub assms(2) by (cases r0) (simp_all add: on_broker_def constructed_def bindS_def logged_def)
  have s: "once sha (l, (b', taken @ [c]))" using assms(1) by (simp add: once_def)
  show ?thesis
  proof (cases r)
    case (Inl e)
    let ?k = "bindS (on_ledger (record_submission_unknown sha c (sf_evaluated_at safety)
        (case e of BrokerSubmissionUncertain code _ \<Rightarrow> code | _ \<Rightarrow> ''broker_submission_exception''))) (\<lambda>unknown.
        returns (submission_result c (order_state unknown) True [''submission_unknown'']))"
    have "keeps (once sha) ?k" by (intro keeps_bind keeps_on_ledger keeps_reads ledger_op_steps(1))
    from keepsD [OF this s] show ?thesis unfolding submit_claimed_def tries_def run Inl prod.case sum.case .
  next
    case (Inr u)
    have "up_state u \<noteq> INTENT_COMMITTED"
      using yields_on_broker [OF yields_constructed(1), of "\<lambda>_. True", unfolded yields_def] run Inr by blast
    then have "keeps (once sha) (bindS (on_ledger (apply_broker_update sha u)) (\<lambda>current.
             returns (submission_result c (order_state current) True [])))"
      by (intro keeps_bind keeps_on_ledger keeps_reads ledger_op_steps(5))
    from keepsD [OF this s] show ?thesis unfolding submit_claimed_def tries_def run Inr prod.case sum.case .
  qed
qed

lemma record_submission_started_claims:
  assumes "consistent sha l" and "record_submission_started sha c t a l = (Inr x, l')"
  shows "\<not> started l c" and "started l' c"
proof -
  let ?u = "(state_change SUBMISSION_STARTED t)\<lparr>new_submitted_at := Some t\<rparr>"
  obtain p where p: "map_of (led_orders l) c = Some p" "order_state p = INTENT_COMMITTED"
    and m: "move_order sha p ?u None (Some (sa_content_hash a)) l = (Inr x, l')"
    using assms(2) by (auto simp: record_submission_started_def get_order_Inr guarded_eval split: sum.splits if_splits)
  show "\<not> started l c" using p by (simp add: started_def)
  have client: "order_client_order_id p = c" using consistent_keyed [OF assms(1)] p(1) by (simp add: keyed_orders_def)
  from move_order_run [OF m] obtain e a' where ev: "evolve sha p ?u = Inr x"
    and l': "l' = append_audit_event a' (with_order x e None l)" by auto
  show "started l' c"
    using evolve_fields [OF ev] client by (simp add: started_def l' append_audit_event_def with_order_def)
qed

text \<open>The part of \<open>submit_one\<close> that claims the submission.\<close>

lemma claim_once:
  assumes i: "intent_client_order_id i = c"
  shows "keeps (once sha) (tries (on_ledger (record_submission_started sha c t a)) (\<lambda>r.
     case r of
       Inl e \<Rightarrow>
         if e \<noteq> stale_authority then reads (\<lambda>_. Inl e)
         else bindS (on_ledger (reads (get_order c))) (\<lambda>now.
           returns (submission_result c (order_state now) False [''submission_authority_stale'']))
     | Inr started_order \<Rightarrow> submit_claimed sha (logged br) i c safety))"
  unfolding keeps_def
proof (intro allI impI)
  fix s :: "ExecutionLedger \<times> 'a \<times> string list"
  let ?k = "\<lambda>r. case r of
       Inl e \<Rightarrow>
         if e \<noteq> stale_authority then reads (\<lambda>_. Inl e)
         else bindS (on_ledger (reads (get_order c))) (\<lambda>now.
           returns (submission_result c (order_state now) False [''submission_authority_stale'']))
     | Inr started_order \<Rightarrow> submit_claimed sha (logged br) i c safety"
  assume s: "once sha s"
  obtain l b taken where st: "s = (l, (b, taken))" by (metis prod.exhaust)
  obtain r l' where run: "record_submission_started sha c t a l = (r, l')" by fastforce
  have cl: "orders.logged_claims sha l taken" using s by (simp add: once_def st)
  have l: "consistent sha l" using orders.claims_sound [OF cl] .
  have step: "ledger_move sha l l'" using ledger_op_steps(4) [OF l, of c t a] run by (simp add: ledger_move_def)
  show "once sha (snd (tries (on_ledger (record_submission_started sha c t a)) ?k s))"
  proof (cases r)
    case (Inl e)
    have s': "once sha (l', (b, taken))" using orders.claims_step [OF step cl] by (simp add: once_def)
    have "keeps (once sha) (if e \<noteq> stale_authority then reads (\<lambda>_. Inl e)
         else bindS (on_ledger (reads (get_order c))) (\<lambda>now.
           returns (submission_result c (order_state now) False [''submission_authority_stale''])))"
      by (simp add: keeps_bind keeps_ledger_reads keeps_reads)
    from keepsD [OF this s'] show ?thesis by (simp add: tries_def on_ledger_def st run Inl)
  next
    case (Inr x)
    note claim = record_submission_started_claims [OF l run [unfolded Inr]]
    have "orders.logged_claims sha l' (taken @ [c])" using orders.claims_new [OF step cl claim] .
    from submit_claimed_once [OF this i, of br safety b] show ?thesis
      by (simp add: tries_def on_ledger_def st run Inr)
  qed
qed

lemma get_intent_yields: "yields (once sha) (\<lambda>i. intent_client_order_id i = c) (on_ledger (reads (get_intent c)))"
  using orders.claims_sound
  by (fastforce simp: yields_def on_ledger_def once_def get_intent_Inr consistent_def intents_placed_def)

lemma submit_one_once: "keeps (once sha) (submit_one sha (logged br) c safety ctx)"
  unfolding submit_one_def Let_def
  by (rule keeps_bind_yields [OF keeps_ledger_reads get_intent_yields])
    (auto simp: keeps_reads keeps_ledger_reads submission_authority_once claim_once
      intro!: keeps_bind split: option.splits)

lemma follow_lookup_once: "keeps (once sha) (follow_lookup sha (logged br) c t)"
  unfolding follow_lookup_def
  by (rule keeps_bind_yields [OF keeps_on_broker yields_on_broker [OF yields_constructed(2)]])
    (auto simp: quiet_constructed quiet_logged intro!: keeps_on_ledger ledger_op_steps split: option.splits)

lemma cancel_one_once: "keeps (once sha) (cancel_one sha (logged br) c t)"
proof -
  have "keeps (once sha) (tries (on_broker (constructed (br_cancel (logged br) c t))) (\<lambda>r.
       case r of
         Inl e \<Rightarrow> on_ledger (record_reconciliation_required sha c t ''cancellation_outcome_unknown'')
       | Inr u \<Rightarrow> on_ledger (apply_broker_update sha u)))"
    by (rule keeps_tries_yields [OF keeps_on_broker yields_on_broker [OF yields_constructed(1)]])
      (auto simp: quiet_constructed quiet_logged intro!: keeps_on_ledger ledger_op_steps)
  then show ?thesis unfolding cancel_one_def
    by (intro keeps_bind keeps_on_ledger ledger_op_steps(3))
qed

lemma recovery_once:
  "keeps (once sha) (resolve_ambiguous sha (logged br) c t)" "keeps (once sha) (refresh_nonterminal sha (logged br) c t)"
  unfolding resolve_ambiguous_def refresh_nonterminal_def
  by (auto simp: keeps_reads follow_lookup_once intro!: keeps_bind keeps_ledger_reads)

lemma submit_intents_once: "keeps (once sha) (submit_intents sha (logged br) sf cf e js)"
  by (induction js arbitrary: e)
    (auto simp: keeps_reads submit_one_once intro!: keeps_bind keeps_ledger_reads)

lemma submit_plan_once: "keeps (once sha) (submit_plan sha (logged br) result sf cf)"
  unfolding submit_plan_def persist_result_def
  by (intro keeps_bind keeps_on_ledger persist_plan_steps submit_intents_once)

section \<open>Runs\<close>

datatype service_command =
    Submit_One string SubmissionSafetySnapshot "PaperGateContext option"
  | Submit_Plan ExecutionPlanningResult "OrderIntent \<Rightarrow> SubmissionSafetySnapshot" "OrderIntent \<Rightarrow> PaperGateContext option"
  | Resolve_Ambiguous string int
  | Refresh_Nonterminal string int
  | Cancel_One string int
  | Ledger_Call ledger_command

text \<open>The state after a call, whether it returned or raised. Calls to the repository of any other
  caller, and restarts, are \<open>Ledger_Call\<close>s. A process that dies before the broker call leaves what a
  \<open>Ledger_Call\<close> of \<open>record_submission_started\<close> leaves; one that dies after it leaves the ledger as a
  broker answer does that the ledger refuses.\<close>

fun run_service :: "sha256 \<Rightarrow> 'b Broker \<Rightarrow> service_command \<Rightarrow> ExecutionLedger \<times> 'b \<Rightarrow> ExecutionLedger \<times> 'b" where
  "run_service sha br (Submit_One c safety ctx) s = snd (submit_one sha br c safety ctx s)"
| "run_service sha br (Submit_Plan result sf cf) s = snd (submit_plan sha br result sf cf s)"
| "run_service sha br (Resolve_Ambiguous c t) s = snd (resolve_ambiguous sha br c t s)"
| "run_service sha br (Refresh_Nonterminal c t) s = snd (refresh_nonterminal sha br c t s)"
| "run_service sha br (Cancel_One c t) s = snd (cancel_one sha br c t s)"
| "run_service sha br (Ledger_Call cmd) s = (run_command sha cmd (fst s), snd s)"

lemma run_service_once: "once sha s \<Longrightarrow> once sha (run_service sha (logged br) cmd s)"
proof (cases cmd)
  case (Ledger_Call c)
  assume "once sha s"
  then show ?thesis using orders.claims_step [of sha "fst s" "run_command sha c (fst s)"]
    by (auto simp: Ledger_Call once_def ledger_move_def)
qed (simp_all add: keepsD submit_one_once submit_plan_once recovery_once cancel_one_once)

lemma fold_invariant: "P s \<Longrightarrow> (\<And>x s. P s \<Longrightarrow> P (f x s)) \<Longrightarrow> P (fold f xs s)"
  by (induction xs arbitrary: s) simp_all

section \<open>Properties\<close>

text \<open>
  C1. No intent is submitted twice: in every run of the service, with any broker, any answers and
  exceptions of it, any interleaved calls to the repository and any restarts, the client order
  identifiers passed to the broker's \<open>submit\<close> are pairwise different.
\<close>

theorem submitted_at_most_once:
  "distinct (snd (snd (fold (run_service sha (logged br)) cmds (empty_ledger, (b, [])))))"
proof -
  have "once sha (empty_ledger, (b, []))" by (simp add: once_def orders.logged_claims_def consistent_empty)
  then have "once sha (fold (run_service sha (logged br)) cmds (empty_ledger, (b, [])))"
    by (rule fold_invariant) (rule run_service_once)
  then show ?thesis unfolding once_def by (rule orders.claims_distinct)
qed

section \<open>Closing legs first\<close>

lemma submit_intents_length:
  "submit_intents sha br sf cf e js s = (Inr outcomes, s') \<Longrightarrow> length outcomes = length js"
  by (induction js arbitrary: e s outcomes) (auto simp: bindS_Inr split: if_splits)

lemma entries_refused:
  "submit_intents sha br sf cf False js s = (Inr outcomes, s') \<Longrightarrow> k < length js \<Longrightarrow> intent_phase (js ! k) = ENTRY \<Longrightarrow>
     \<not> sr_submitted (outcomes ! k) \<and> sr_reason_codes (outcomes ! k) = [''close_phase_incomplete'']"
proof (induction js arbitrary: s outcomes k)
  case (Cons j js)
  show ?case
  proof (cases k)
    case 0
    then show ?thesis using Cons.prems by (auto simp: bindS_Inr submission_result_def)
  next
    case (Suc m)
    obtain o1 os s1 where rest: "submit_intents sha br sf cf False js s1 = (Inr os, s')" "outcomes = o1 # os"
      using Cons.prems(1) by (auto simp: bindS_Inr split: if_splits)
    then show ?thesis using Cons.IH [OF rest(1), of m] Cons.prems Suc by simp
  qed
qed simp

text \<open>
  C21. Reductions come before increases: when the closing leg of a batch is not filled, no opening leg
  after it is submitted; its outcome says that the close phase is incomplete. There is one outcome
  per intent.
\<close>

theorem entries_wait_for_exits:
  assumes "submit_intents sha br sf cf e js s = (Inr outcomes, s')" and "m < k" and "k < length js"
    and "intent_phase (js ! m) \<in> {EXIT, FLATTEN}" and "sr_state (outcomes ! m) \<noteq> FILLED"
    and "intent_phase (js ! k) = ENTRY"
  shows "length outcomes = length js \<and> \<not> sr_submitted (outcomes ! k) \<and>
    sr_reason_codes (outcomes ! k) = [''close_phase_incomplete'']"
  using submit_intents_length [OF assms(1)] assms
proof (induction js arbitrary: e s outcomes m k)
  case (Cons j js)
  obtain o1 os s1 e1 where rest: "submit_intents sha br sf cf e1 js s1 = (Inr os, s')" "outcomes = o1 # os"
    and closes: "intent_phase j \<in> {EXIT, FLATTEN} \<longrightarrow> sr_state o1 \<noteq> FILLED \<longrightarrow> \<not> e1"
    using Cons.prems(2) by (auto simp: bindS_Inr split: if_splits)
  obtain k' where k: "k = Suc k'" using Cons.prems(3) by (cases k) auto
  show ?case
  proof (cases m)
    case 0
    then have "\<not> e1" using Cons.prems(5,6) closes rest(2) by simp
    with entries_refused [of sha br sf cf js s1 os s' k'] rest Cons.prems k show ?thesis by simp
  next
    case (Suc m')
    then show ?thesis using Cons.IH [OF _ rest(1), of m' k'] Cons.prems k rest(2) by simp
  qed
qed simp

definition silent_broker :: "unit Broker" where
  "silent_broker = \<lparr>br_kind = DeterministicFakePaperBroker, br_paper_only = True, br_factory_created = False,
     br_submit = (\<lambda>i t. reads (\<lambda>_. Inl (BrokerSubmissionUncertain ''submission_timeout'' True))),
     br_lookup = (\<lambda>c t. returns None), br_cancel = (\<lambda>c t. reads (\<lambda>_. Inl (exec_error ''unknown fake order''))),
     br_account = (\<lambda>t. reads (\<lambda>_. Inl (exec_error ''account unavailable''))),
     br_positions = returns [], br_open_client_order_ids = returns []\<rparr>"

definition sample_leg :: "string \<Rightarrow> IntentPhase \<Rightarrow> OrderIntent" where
  "sample_leg c p = (sample_intent SELL CLOSE_LONG p 0)\<lparr>intent_client_order_id := c\<rparr>"

definition sample_canceled_order :: BrokerOrder where
  "sample_canceled_order = \<lparr>order_client_order_id = ''exit'', order_order_intent_id = '''', order_broker_order_id = None,
     order_state = CANCELED, order_submitted_at = None, order_accepted_at = None, order_updated_at = 0,
     order_cumulative_filled_quantity = dzero, order_average_fill_price = None, order_last_event_sequence = 1,
     order_safe_error_code = None, order_version = 2, order_content_hash = ''''\<rparr>"

definition sample_two_legs :: ExecutionLedger where
  "sample_two_legs = empty_ledger\<lparr>led_intents := [(''exit'', sample_leg ''exit'' EXIT), (''entry'', sample_leg ''entry'' ENTRY)],
     led_orders := [(''exit'', sample_canceled_order),
       (''entry'', sample_canceled_order\<lparr>order_client_order_id := ''entry'', order_state := INTENT_COMMITTED\<rparr>)]\<rparr>"

lemma sample_two_legs_run:
  "submit_intents (\<lambda>_. sample_hash) silent_broker (\<lambda>_. sample_safety) (\<lambda>_. None) True
     [sample_leg ''exit'' EXIT, sample_leg ''entry'' ENTRY] (sample_two_legs, ()) =
   (Inr [submission_result ''exit'' CANCELED False [''already_terminal''],
      submission_result ''entry'' INTENT_COMMITTED False [''close_phase_incomplete'']], (sample_two_legs, ()))"
  by (simp add: submit_one_def on_ledger_def bindS_def get_intent_def get_order_def found_def sample_two_legs_def
      sample_leg_def sample_intent_def sample_canceled_order_def submission_result_def terminal_def)

theorem entries_wait_for_exits_witness:
  "\<exists>outcomes s'. submit_intents (\<lambda>_. sample_hash) silent_broker (\<lambda>_. sample_safety) (\<lambda>_. None) True
     [sample_leg ''exit'' EXIT, sample_leg ''entry'' ENTRY] (sample_two_legs, ()) = (Inr outcomes, s') \<and>
   length outcomes = 2 \<and> \<not> sr_submitted (outcomes ! 1) \<and> sr_reason_codes (outcomes ! 1) = [''close_phase_incomplete'']"
  using entries_wait_for_exits [OF sample_two_legs_run, of 0 1] sample_two_legs_run
  by (simp add: sample_leg_def sample_intent_def submission_result_def)

end
