(* ===== verification/Slot_Repository.thy ===== *)
theory Slot_Repository
  imports Decision_Slots Audit_Chains
begin

text \<open>
  Persistence, claiming and recovery of decision slots (\<open>scheduling/service.py\<close>, class
  \<open>DecisionSlotRepository\<close>, with \<open>AuditSlotTransitionRecorder\<close>). The store is the slot relation and
  the audit streams of the scheduler. Every public operation is one serialized transaction: it
  returns its result with the new store, or raises, in which case the transaction is rolled back and
  the store is the one before. The materialization probe, a query on the signal, risk and plan
  relations, is the argument \<open>probe\<close>. Row locks and \<open>SKIP LOCKED\<close> have no counterpart in a model of
  serialized transactions; database failures are not modelled.
\<close>

section \<open>The store\<close>

record slot_store =
  slot_rows :: "DecisionSlot list"
  slot_streams :: "(string, AuditEvent list) dict"

type_synonym 'a tx = "slot_store \<Rightarrow> ('a \<times> slot_store) res"

definition bindT :: "'a tx \<Rightarrow> ('a \<Rightarrow> 'b tx) \<Rightarrow> 'b tx" where
  "bindT m f = (\<lambda>st. bindE (m st) (\<lambda>(x, st'). f x st'))"

definition returnT :: "'a \<Rightarrow> 'a tx" where
  "returnT x = (\<lambda>st. Inr (x, st))"

definition raiseT :: "error \<Rightarrow> 'a tx" where
  "raiseT e = (\<lambda>st. Inl e)"

definition checkT :: "(bool \<times> error) list \<Rightarrow> 'a tx \<Rightarrow> 'a tx" where
  "checkT gs m = (\<lambda>st. guarded gs (m st))"

datatype ClaimStatus = CLAIMED | RECLAIMED | LEASE_HELD | NOT_READY | NOT_AVAILABLE | DEADLINE_ELAPSED | MATERIALIZED

type_synonym ClaimResult = "ClaimStatus \<times> DecisionSlot"

abbreviation transition_error :: "string \<Rightarrow> error" where
  "transition_error \<equiv> SlotTransitionError"

section \<open>Argument checks\<close>

definition owner_guard :: "string \<Rightarrow> bool \<times> error" where
  "owner_guard owner = (\<not> is_account_id owner, transition_error ''claim owner is invalid'')"

definition reason_guard :: "string \<Rightarrow> bool \<times> error" where
  "reason_guard r = (\<not> is_safe_code r, transition_error ''reason code is invalid'')"

definition slot_id_guards :: "string \<Rightarrow> (bool \<times> error) list" where
  "slot_id_guards s =
     [(\<not> starts_with ''slot_'' s \<or> length s \<noteq> 69, transition_error ''slot ID is invalid''),
      (\<not> is_hash (drop 5 s), transition_error ''hash is invalid'')]"

section \<open>Recording a transition\<close>

definition timestamp_text :: "int \<Rightarrow> string" where
  "timestamp_text t = datetime_text t"

definition transition_payload :: "sha256 \<Rightarrow> DecisionSlot option \<Rightarrow> DecisionSlot \<Rightarrow> pval res" where
  "transition_payload sha previous current =
     bindE (deterministic_id_from sha ''slot_transition''
         (PSeq [PStr ''slot-transition-v1'', PStr (ds_slot_id current), PInt (ds_version current)])) (\<lambda>key.
     Inr (PMap
       ([(''attempt_count'', PInt (ds_attempt_count current)),
         (''from_state'', PStr (case previous of Some p \<Rightarrow> map lower_char (slot_state_value (ds_state p))
            | None \<Rightarrow> ''pending'')),
         (''idempotency_key'', PStr key),
         (''slot_id'', PStr (ds_slot_id current)),
         (''to_state'', PStr (map lower_char (slot_state_value (ds_state current)))),
         (''version'', PInt (ds_version current))] @
        (case ds_reason_code current of None \<Rightarrow> [] | Some r \<Rightarrow> [(''reason_code'', PStr r)]) @
        (case ds_completed_at current of None \<Rightarrow> [] | Some t \<Rightarrow> [(''completed_at'', PStr (timestamp_text t))]))))"

definition record_transition :: "sha256 \<Rightarrow> DecisionSlot option \<Rightarrow> DecisionSlot \<Rightarrow> int \<Rightarrow> unit tx" where
  "record_transition sha previous current occurred_at = (\<lambda>st.
     let stream = ''aqa_scheduler:'' @ ds_slot_id current in
     bindE (transition_payload sha previous current) (\<lambda>values.
     bindE (payload_from_mapping sha values) (\<lambda>payload.
     bindE (append_audit sha SCHEDULER_WRITER (dict_get (slot_streams st) stream []) stream
         (if previous = None then ''slot.created'' else ''slot.transitioned'') occurred_at payload) (\<lambda>(_, rows).
       Inr ((), st\<lparr>slot_streams := AList.update stream rows (slot_streams st)\<rparr>)))))"

section \<open>Transitions\<close>

fun allowed_next_states :: "SlotState \<Rightarrow> SlotState list" where
  "allowed_next_states SLOT_PENDING = [WAITING_FOR_DATA, SLOT_READY, SLOT_SKIPPED, SLOT_EXPIRED]"
| "allowed_next_states WAITING_FOR_DATA = [WAITING_FOR_DATA, SLOT_READY, SLOT_SKIPPED, SLOT_EXPIRED]"
| "allowed_next_states SLOT_READY = [SLOT_CLAIMED, SLOT_SKIPPED, SLOT_EXPIRED]"
| "allowed_next_states FLATTEN_REQUIRED = [SLOT_CLAIMED, SLOT_FAILED]"
| "allowed_next_states SLOT_CLAIMED = [SLOT_CLAIMED, SLOT_COMPLETED, SLOT_EXPIRED, SLOT_FAILED]"
| "allowed_next_states _ = []"

text \<open>The row a transition updates: the slot at the version and hash that was read.\<close>

definition row_matches :: "DecisionSlot \<Rightarrow> DecisionSlot \<Rightarrow> bool" where
  "row_matches previous r \<longleftrightarrow> ds_slot_id r = ds_slot_id previous \<and> ds_version r = ds_version previous \<and>
     ds_content_hash r = ds_content_hash previous"

definition slot_transition :: "sha256 \<Rightarrow> DecisionSlot \<Rightarrow> int \<Rightarrow> slot_change \<Rightarrow> DecisionSlot tx" where
  "slot_transition sha previous t c =
     checkT [(ch_state c \<notin> set (allowed_next_states (ds_state previous)),
         transition_error ''slot state transition is prohibited'')]
     (\<lambda>st. bindE (evolve_slot sha previous c) (\<lambda>current.
       guarded [(length (filter (row_matches previous) (slot_rows st)) \<noteq> 1,
           transition_error ''decision slot changed during transition'')]
       (bindT (record_transition sha (Some previous) current t) (\<lambda>_. returnT current)
         (st\<lparr>slot_rows := map (\<lambda>r. if row_matches previous r then current else r) (slot_rows st)\<rparr>))))"

text \<open>A change that keeps no lease; the attempt count defaults to the previous one.\<close>

definition slot_outcome :: "DecisionSlot \<Rightarrow> SlotState \<Rightarrow> int option \<Rightarrow> string option \<Rightarrow> slot_change" where
  "slot_outcome s state completed reason =
     \<lparr>ch_state = state, ch_claim_owner = None, ch_claimed_at = None, ch_lease_expires_at = None,
      ch_attempt_count = ds_attempt_count s, ch_completed_at = completed, ch_reason_code = reason\<rparr>"

definition lease_change :: "string \<Rightarrow> int \<Rightarrow> int \<Rightarrow> slot_change" where
  "lease_change owner t attempts =
     \<lparr>ch_state = SLOT_CLAIMED, ch_claim_owner = Some owner, ch_claimed_at = Some t,
      ch_lease_expires_at = Some (t + LEASE_DURATION), ch_attempt_count = attempts, ch_completed_at = None,
      ch_reason_code = None\<rparr>"

definition expire_locked :: "sha256 \<Rightarrow> DecisionSlot \<Rightarrow> int \<Rightarrow> string option \<Rightarrow> DecisionSlot tx" where
  "expire_locked sha s t reason =
     slot_transition sha s t (slot_outcome s (if ds_decision_type s = FORCED_FLAT then SLOT_FAILED else SLOT_EXPIRED) (Some t)
       (Some (case reason of Some r \<Rightarrow> r | None \<Rightarrow>
          if ds_decision_type s = FORCED_FLAT then ''forced_flat_submission_deadline_elapsed''
          else ''decision_deadline_elapsed'')))"

definition completion_deadline_missed :: "DecisionSlot \<Rightarrow> int \<Rightarrow> bool" where
  "completion_deadline_missed s t =
     (if ds_decision_type s = FORCED_FLAT then t > ds_required_completion_at s else t \<ge> ds_deadline_at s)"

definition completion_deadline_reason :: "DecisionSlot \<Rightarrow> string option" where
  "completion_deadline_reason s =
     (if ds_decision_type s = FORCED_FLAT then Some ''forced_flat_required_completion_deadline_missed'' else None)"

definition owned_claim_guard :: "DecisionSlot \<Rightarrow> string \<Rightarrow> bool \<times> error" where
  "owned_claim_guard s owner =
     (ds_state s \<noteq> SLOT_CLAIMED \<or> ds_claim_owner s \<noteq> Some owner, transition_error ''slot is not claimed by this worker'')"

text \<open>Only asked of a claimed slot, which has a lease.\<close>

definition live_claim_guard :: "DecisionSlot \<Rightarrow> int \<Rightarrow> bool \<times> error" where
  "live_claim_guard s t =
     (case ds_lease_expires_at s of Some l \<Rightarrow> l \<le> t | None \<Rightarrow> True, transition_error ''slot lease has expired'')"

section \<open>Reading\<close>

text \<open>A row is validated when it is read.\<close>

definition slot_from_row :: "sha256 \<Rightarrow> DecisionSlot \<Rightarrow> DecisionSlot res" where
  "slot_from_row sha r = validate_slot sha r"

definition get_on_connection :: "sha256 \<Rightarrow> string \<Rightarrow> DecisionSlot option tx" where
  "get_on_connection sha slot_id =
     checkT (slot_id_guards slot_id)
     (\<lambda>st. case find (\<lambda>r. ds_slot_id r = slot_id) (slot_rows st) of
        None \<Rightarrow> Inr (None, st)
      | Some r \<Rightarrow> bindE (slot_from_row sha r) (\<lambda>s. Inr (Some s, st)))"

definition require_on_connection :: "sha256 \<Rightarrow> string \<Rightarrow> DecisionSlot tx" where
  "require_on_connection sha slot_id =
     bindT (get_on_connection sha slot_id) (\<lambda>found.
       case found of None \<Rightarrow> raiseT (transition_error ''decision slot does not exist'') | Some s \<Rightarrow> returnT s)"

definition persisted_malformed :: "'a res \<Rightarrow> 'a res" where
  "persisted_malformed m = (case m of
     Inl (SlotValidationError _) \<Rightarrow> Inl (SlotPersistenceError ''persisted decision slot is malformed'') | _ \<Rightarrow> m)"

definition get_slot :: "sha256 \<Rightarrow> string \<Rightarrow> slot_store \<Rightarrow> DecisionSlot option res" where
  "get_slot sha slot_id st =
     guarded (slot_id_guards slot_id)
     (persisted_malformed (bindE (get_on_connection sha slot_id st) (\<lambda>(found, _). Inr found)))"

definition list_for_session :: "sha256 \<Rightarrow> string \<Rightarrow> int \<Rightarrow> slot_store \<Rightarrow> DecisionSlot list res" where
  "list_for_session sha exp_hash day st =
     guarded [(\<not> is_hash exp_hash, transition_error ''hash is invalid'')]
     (persisted_malformed (mapE (slot_from_row sha)
       (sort_key ds_ready_at (sort_key ds_slot_id
         (filter (\<lambda>r. ds_experiment_hash r = exp_hash \<and> ds_session_date r = day) (slot_rows st))))))"

section \<open>Creating a schedule\<close>

definition slot_contract :: "DecisionSlot \<Rightarrow> (string \<times> string \<times> int \<times> string \<times> string \<times> string \<times> int) \<times>
    (int \<times> int \<times> int \<times> int \<times> int \<times> DecisionType \<times> string)" where
  "slot_contract s =
     ((ds_slot_id s, ds_experiment_id s, ds_experiment_version s, ds_experiment_hash s, ds_signal_provider_id s,
       ds_signal_provider_version s, ds_session_date s),
      (ds_source_interval_start s, ds_source_interval_end s, ds_ready_at s, ds_deadline_at s,
       ds_required_completion_at s, ds_decision_type s, ds_correlation_id s))"

fun create_slots :: "sha256 \<Rightarrow> (string, DecisionSlot) dict \<Rightarrow> int \<Rightarrow> DecisionSlot list \<Rightarrow> DecisionSlot list tx" where
  "create_slots sha existing t [] = returnT []"
| "create_slots sha existing t (s # ss) =
     bindT
       (case map_of existing (ds_slot_id s) of
          Some e \<Rightarrow>
            checkT [(slot_contract e \<noteq> slot_contract s,
              SlotPersistenceError ''deterministic slot identity already has different content'')] (returnT e)
        | None \<Rightarrow>
            (\<lambda>st. guarded [(ds_slot_id s \<in> ds_slot_id ` set (slot_rows st),
                SlotPersistenceError ''decision schedule conflicts with durable state'')]
              (bindT (record_transition sha None s t) (\<lambda>_. returnT s) (st\<lparr>slot_rows := slot_rows st @ [s]\<rparr>))))
       (\<lambda>x. bindT (create_slots sha existing t ss) (\<lambda>xs. returnT (x # xs)))"

definition create_schedule :: "sha256 \<Rightarrow> SessionSlotSchedule \<Rightarrow> int \<Rightarrow> DecisionSlot list tx" where
  "create_schedule sha schedule t = (\<lambda>st.
     let slots = schedule_slots schedule in
     bindE (mapE (slot_from_row sha)
         (sort_key ds_slot_id (filter (\<lambda>r. ds_slot_id r \<in> ds_slot_id ` set slots) (slot_rows st)))) (\<lambda>rows.
       create_slots sha (map (\<lambda>r. (ds_slot_id r, r)) rows) t slots st))"

section \<open>Operations on a slot\<close>

definition evaluate_readiness :: "sha256 \<Rightarrow> string \<Rightarrow> int option \<Rightarrow> int \<Rightarrow> DecisionSlot tx" where
  "evaluate_readiness sha slot_id watermark t =
     bindT (require_on_connection sha slot_id) (\<lambda>s.
       if ds_decision_type s = FORCED_FLAT \<or> ds_state s \<in> set TERMINAL_STATES then returnT s
       else if ds_state s = SLOT_CLAIMED
         then raiseT (transition_error ''claimed slot readiness cannot be reevaluated'')
       else if t \<ge> ds_deadline_at s then expire_locked sha s t None
       else if t < ds_ready_at s then returnT s
       else if (case watermark of None \<Rightarrow> False | Some w \<Rightarrow> w \<ge> ds_source_interval_end s) then
         (if ds_state s = SLOT_READY then returnT s
          else slot_transition sha s t (slot_outcome s SLOT_READY None None))
       else if ds_state s = WAITING_FOR_DATA then returnT s
       else slot_transition sha s t (slot_outcome s WAITING_FOR_DATA None (Some ''active_basket_not_ready'')))"

definition with_status :: "ClaimStatus \<Rightarrow> DecisionSlot tx \<Rightarrow> ClaimResult tx" where
  "with_status status m = bindT m (\<lambda>s. returnT (status, s))"

definition completed_before_recovery :: "sha256 \<Rightarrow> DecisionSlot \<Rightarrow> int \<Rightarrow> ClaimResult tx" where
  "completed_before_recovery sha s t =
     with_status MATERIALIZED
       (slot_transition sha s t (slot_outcome s SLOT_COMPLETED (Some t) (Some ''decision_materialized_before_recovery'')))"

definition recover_claimed :: "sha256 \<Rightarrow> (string \<Rightarrow> bool) \<Rightarrow> DecisionSlot \<Rightarrow> string \<Rightarrow> int \<Rightarrow> ClaimResult tx" where
  "recover_claimed sha probe s owner t =
     (if completion_deadline_missed s t
        then with_status DEADLINE_ELAPSED (expire_locked sha s t (completion_deadline_reason s))
      else if (case ds_lease_expires_at s of Some l \<Rightarrow> l > t | None \<Rightarrow> False) then returnT (LEASE_HELD, s)
      else if ds_decision_type s = FORCED_FLAT \<and> t \<ge> ds_deadline_at s
        then with_status DEADLINE_ELAPSED
          (expire_locked sha s t (Some ''forced_flat_lease_expired_after_submission_cutoff''))
      else if ds_decision_type s \<noteq> FORCED_FLAT \<and> t \<ge> ds_deadline_at s then
        (if probe (ds_slot_id s) then completed_before_recovery sha s t
         else with_status DEADLINE_ELAPSED (expire_locked sha s t None))
      else if ds_decision_type s \<noteq> FORCED_FLAT \<and> probe (ds_slot_id s) then completed_before_recovery sha s t
      else with_status RECLAIMED (slot_transition sha s t (lease_change owner t (ds_attempt_count s + 1))))"

definition claim_locked :: "sha256 \<Rightarrow> (string \<Rightarrow> bool) \<Rightarrow> DecisionSlot \<Rightarrow> string \<Rightarrow> int \<Rightarrow> ClaimResult tx" where
  "claim_locked sha probe s owner t =
     (if ds_state s \<in> set TERMINAL_STATES then returnT (NOT_AVAILABLE, s)
      else if ds_state s = SLOT_CLAIMED then recover_claimed sha probe s owner t
      else if t \<ge> ds_deadline_at s then with_status DEADLINE_ELAPSED (expire_locked sha s t None)
      else if ds_state s \<notin> {SLOT_READY, FLATTEN_REQUIRED} \<or> t < ds_ready_at s then returnT (NOT_READY, s)
      else with_status CLAIMED (slot_transition sha s t (lease_change owner t (ds_attempt_count s + 1))))"

definition claim_slot :: "sha256 \<Rightarrow> (string \<Rightarrow> bool) \<Rightarrow> string \<Rightarrow> string \<Rightarrow> int \<Rightarrow> ClaimResult tx" where
  "claim_slot sha probe slot_id owner t =
     checkT [owner_guard owner]
     (bindT (require_on_connection sha slot_id) (\<lambda>s. claim_locked sha probe s owner t))"

text \<open>The first row in the order of \<open>deadline_at\<close> and \<open>slot_id\<close> that the query of \<open>claim_next\<close> selects.\<close>

definition eligible :: "int \<Rightarrow> DecisionSlot \<Rightarrow> bool" where
  "eligible t r \<longleftrightarrow> ds_ready_at r \<le> t \<and>
     (ds_state r \<in> {SLOT_READY, FLATTEN_REQUIRED} \<or>
      ds_state r = SLOT_CLAIMED \<and>
        ((case ds_lease_expires_at r of Some l \<Rightarrow> l \<le> t | None \<Rightarrow> False) \<or> ds_deadline_at r \<le> t))"

definition by_deadline :: "DecisionSlot list \<Rightarrow> DecisionSlot list" where
  "by_deadline rows = sort_key ds_deadline_at (sort_key ds_slot_id rows)"

definition claim_next :: "sha256 \<Rightarrow> (string \<Rightarrow> bool) \<Rightarrow> string \<Rightarrow> int \<Rightarrow> ClaimResult option tx" where
  "claim_next sha probe owner t =
     checkT [owner_guard owner]
     (\<lambda>st. case by_deadline (filter (eligible t) (slot_rows st)) of
        [] \<Rightarrow> Inr (None, st)
      | r # _ \<Rightarrow>
          bindE (slot_from_row sha r) (\<lambda>s.
            if ds_state s = SLOT_CLAIMED \<and> (case ds_lease_expires_at s of Some l \<Rightarrow> l > t | None \<Rightarrow> False) \<and>
               \<not> completion_deadline_missed s t
            then Inr (None, st)
            else bindT (claim_locked sha probe s owner t) (\<lambda>x. returnT (Some x)) st))"

definition renew_lease :: "sha256 \<Rightarrow> string \<Rightarrow> string \<Rightarrow> int \<Rightarrow> DecisionSlot tx" where
  "renew_lease sha slot_id owner t =
     checkT [owner_guard owner]
     (bindT (require_on_connection sha slot_id) (\<lambda>s.
       checkT [owned_claim_guard s owner]
       (if completion_deadline_missed s t then expire_locked sha s t (completion_deadline_reason s)
        else checkT [live_claim_guard s t] (slot_transition sha s t (lease_change owner t (ds_attempt_count s))))))"

definition complete_slot :: "sha256 \<Rightarrow> (string \<Rightarrow> bool) \<Rightarrow> string \<Rightarrow> string \<Rightarrow> int \<Rightarrow> DecisionSlot tx" where
  "complete_slot sha probe slot_id owner t =
     checkT [owner_guard owner]
     (bindT (require_on_connection sha slot_id) (\<lambda>s.
       checkT [owned_claim_guard s owner]
       (if completion_deadline_missed s t then expire_locked sha s t (completion_deadline_reason s)
        else checkT [owned_claim_guard s owner, live_claim_guard s t]
         (if \<not> probe (ds_slot_id s) then
            (if t \<ge> ds_deadline_at s then expire_locked sha s t None
             else raiseT (transition_error ''slot cannot complete before decision materialization''))
          else slot_transition sha s t (slot_outcome s SLOT_COMPLETED (Some t) (Some ''decision_materialized''))))))"

definition skip_slot :: "sha256 \<Rightarrow> (string \<Rightarrow> bool) \<Rightarrow> string \<Rightarrow> string \<Rightarrow> int \<Rightarrow> DecisionSlot tx" where
  "skip_slot sha probe slot_id reason t =
     checkT [reason_guard reason]
     (bindT (require_on_connection sha slot_id) (\<lambda>s.
       checkT
         [(ds_state s \<notin> {SLOT_PENDING, WAITING_FOR_DATA, SLOT_READY}, transition_error ''slot is not eligible to be skipped''),
          (probe (ds_slot_id s), transition_error ''materialized decision cannot be skipped'')]
       (slot_transition sha s t (slot_outcome s SLOT_SKIPPED (Some t) (Some reason)))))"

definition fail_slot :: "sha256 \<Rightarrow> string \<Rightarrow> string \<Rightarrow> string \<Rightarrow> int \<Rightarrow> DecisionSlot tx" where
  "fail_slot sha slot_id owner reason t =
     checkT [owner_guard owner, reason_guard reason]
     (bindT (require_on_connection sha slot_id) (\<lambda>s.
       checkT ([owned_claim_guard s owner] @
         (if ds_decision_type s = FORCED_FLAT \<and> t > ds_required_completion_at s then [] else [live_claim_guard s t]))
       (slot_transition sha s t (slot_outcome s SLOT_FAILED (Some t) (Some reason)))))"

definition recoverable :: "int \<Rightarrow> DecisionSlot \<Rightarrow> bool" where
  "recoverable t r \<longleftrightarrow> ds_state r = SLOT_CLAIMED \<and>
     ((case ds_lease_expires_at r of Some l \<Rightarrow> l \<le> t | None \<Rightarrow> False) \<or>
      ds_decision_type r \<noteq> FORCED_FLAT \<and> ds_deadline_at r \<le> t \<or>
      ds_decision_type r = FORCED_FLAT \<and> ds_required_completion_at r < t)"

fun recover_rows :: "sha256 \<Rightarrow> (string \<Rightarrow> bool) \<Rightarrow> string \<Rightarrow> int \<Rightarrow> DecisionSlot list \<Rightarrow> ClaimResult list tx" where
  "recover_rows sha probe owner t [] = returnT []"
| "recover_rows sha probe owner t (r # rs) =
     bindT (\<lambda>st. bindE (slot_from_row sha r) (\<lambda>s. claim_locked sha probe s owner t st)) (\<lambda>x.
     bindT (recover_rows sha probe owner t rs) (\<lambda>xs. returnT (x # xs)))"

definition recover_expired_claims :: "sha256 \<Rightarrow> (string \<Rightarrow> bool) \<Rightarrow> string \<Rightarrow> int \<Rightarrow> ClaimResult list tx" where
  "recover_expired_claims sha probe owner t =
     checkT [owner_guard owner]
     (\<lambda>st. recover_rows sha probe owner t (by_deadline (filter (recoverable t) (slot_rows st))) st)"

end
