(* ===== verification/Slot_Leases.thy ===== *)
theory Slot_Leases
  imports Slot_Repository
begin

text \<open>
  What the slot repository guarantees. The transitions of a slot are an inductive step relation with
  the conditions under which the code takes them; every public operation is a sequence of such steps
  on the rows of the relation, preserves the validity of the rows and the chains of the audit
  streams, and the guarantees follow from the step relation: a live lease is not taken over,
  completion needs a materialized decision, terminal slots and slot contracts never change.
\<close>

section \<open>Valid slots\<close>

lemma validate_slot_Inr:
  "validate_slot sha s = Inr e \<longleftrightarrow> e = s \<and> guards_ok (slot_guards s) \<and>
     deterministic_id_from sha ''slot'' (slot_identity_payload s) = Inr (ds_slot_id s) \<and>
     slot_correlation sha (ds_slot_id s) = Inr (ds_correlation_id s) \<and>
     sha256_hex sha (slot_content_payload s) = Inr (ds_content_hash s)"
  by (auto simp: validate_slot_def)

definition valid_slot :: "sha256 \<Rightarrow> DecisionSlot \<Rightarrow> bool" where
  "valid_slot sha s \<longleftrightarrow> validate_slot sha s = Inr s"

lemma slot_from_row_Inr: "slot_from_row sha r = Inr s \<Longrightarrow> s = r \<and> valid_slot sha r"
  by (auto simp: slot_from_row_def valid_slot_def validate_slot_Inr)

lemma evolve_slot_Inr:
  assumes "evolve_slot sha s c = Inr s'"
  obtains h where "s' = (evolved_slot s c)\<lparr>ds_content_hash := h\<rparr>" "valid_slot sha s'"
  using assms by (auto simp: evolve_slot_def valid_slot_def validate_slot_Inr)

lemma create_slot_Inr:
  assumes "create_slot sha s = Inr s'"
  shows "valid_slot sha s'" "ds_version s' = 1" "ds_state s' = ds_state s"
  using assms by (auto simp: create_slot_def valid_slot_def validate_slot_Inr Let_def)

lemma claimed_slot:
  assumes "valid_slot sha s" "ds_state s = SLOT_CLAIMED"
  obtains w c l where "ds_claim_owner s = Some w" "ds_claimed_at s = Some c" "ds_lease_expires_at s = Some l"
    "l - c = LEASE_DURATION"
  using assms that by (auto simp: valid_slot_def validate_slot_Inr slot_guards_def slot_claim_guards_def
      split: option.splits if_splits prod.splits)

lemma valid_slot_times:
  assumes "valid_slot sha s"
  shows "ds_ready_at s < ds_deadline_at s" "ds_deadline_at s \<le> ds_required_completion_at s"
  using assms by (auto simp: valid_slot_def validate_slot_Inr slot_guards_def)

section \<open>Steps of a slot\<close>

text \<open>
  A claimed slot runs out of time when its completion deadline is missed, when its lease is over, or
  at the hands of its owner.
\<close>

definition may_expire :: "string option \<Rightarrow> int \<Rightarrow> DecisionSlot \<Rightarrow> bool" where
  "may_expire worker t s \<longleftrightarrow> completion_deadline_missed s t \<or> ds_claim_owner s = worker \<or>
     (\<exists>l. ds_lease_expires_at s = Some l \<and> l \<le> t)"

text \<open>One transition at the instant \<open>t\<close>, on behalf of a worker or of no one.\<close>

inductive slot_step :: "sha256 \<Rightarrow> (string \<Rightarrow> bool) \<Rightarrow> string option \<Rightarrow> int \<Rightarrow> DecisionSlot \<Rightarrow> DecisionSlot \<Rightarrow> bool"
  for sha probe worker t where
  becomes_ready: "evolve_slot sha s (slot_outcome s SLOT_READY None None) = Inr s' \<Longrightarrow>
    ds_state s \<in> {SLOT_PENDING, WAITING_FOR_DATA} \<Longrightarrow> ds_ready_at s \<le> t \<Longrightarrow> t < ds_deadline_at s \<Longrightarrow>
    slot_step sha probe worker t s s'"
| waits: "evolve_slot sha s (slot_outcome s WAITING_FOR_DATA None (Some r)) = Inr s' \<Longrightarrow>
    ds_state s = SLOT_PENDING \<Longrightarrow> ds_ready_at s \<le> t \<Longrightarrow> t < ds_deadline_at s \<Longrightarrow>
    slot_step sha probe worker t s s'"
| claims: "evolve_slot sha s (lease_change w t (ds_attempt_count s + 1)) = Inr s' \<Longrightarrow> worker = Some w \<Longrightarrow>
    ds_state s \<in> {SLOT_READY, FLATTEN_REQUIRED} \<Longrightarrow> ds_ready_at s \<le> t \<Longrightarrow> t < ds_deadline_at s \<Longrightarrow>
    slot_step sha probe worker t s s'"
| reclaims: "evolve_slot sha s (lease_change w t (ds_attempt_count s + 1)) = Inr s' \<Longrightarrow> worker = Some w \<Longrightarrow>
    ds_state s = SLOT_CLAIMED \<Longrightarrow> ds_lease_expires_at s = Some l \<Longrightarrow> l \<le> t \<Longrightarrow> t < ds_deadline_at s \<Longrightarrow>
    (ds_decision_type s = STRATEGY \<Longrightarrow> \<not> probe (ds_slot_id s)) \<Longrightarrow> slot_step sha probe worker t s s'"
| renews: "evolve_slot sha s (lease_change w t (ds_attempt_count s)) = Inr s' \<Longrightarrow> worker = Some w \<Longrightarrow>
    ds_state s = SLOT_CLAIMED \<Longrightarrow> ds_claim_owner s = Some w \<Longrightarrow> ds_lease_expires_at s = Some l \<Longrightarrow> t < l \<Longrightarrow>
    \<not> completion_deadline_missed s t \<Longrightarrow> slot_step sha probe worker t s s'"
| completes: "evolve_slot sha s (slot_outcome s SLOT_COMPLETED (Some t) (Some r)) = Inr s' \<Longrightarrow>
    ds_state s = SLOT_CLAIMED \<Longrightarrow> ds_lease_expires_at s = Some l \<Longrightarrow> ds_claim_owner s = worker \<or> l \<le> t \<Longrightarrow>
    probe (ds_slot_id s) \<Longrightarrow> \<not> completion_deadline_missed s t \<Longrightarrow> slot_step sha probe worker t s s'"
| expires: "evolve_slot sha s (slot_outcome s (if ds_decision_type s = FORCED_FLAT then SLOT_FAILED else SLOT_EXPIRED)
      (Some t) (Some r)) = Inr s' \<Longrightarrow>
    (if ds_decision_type s = FORCED_FLAT then SLOT_FAILED else SLOT_EXPIRED) \<in> set (allowed_next_states (ds_state s)) \<Longrightarrow>
    ds_deadline_at s \<le> t \<Longrightarrow> (ds_state s = SLOT_CLAIMED \<Longrightarrow> may_expire worker t s) \<Longrightarrow> slot_step sha probe worker t s s'"
| skips: "evolve_slot sha s (slot_outcome s SLOT_SKIPPED (Some t) (Some r)) = Inr s' \<Longrightarrow>
    ds_state s \<in> {SLOT_PENDING, WAITING_FOR_DATA, SLOT_READY} \<Longrightarrow> \<not> probe (ds_slot_id s) \<Longrightarrow>
    slot_step sha probe worker t s s'"
| fails: "evolve_slot sha s (slot_outcome s SLOT_FAILED (Some t) (Some r)) = Inr s' \<Longrightarrow>
    ds_state s = SLOT_CLAIMED \<Longrightarrow> worker = Some w \<Longrightarrow> ds_claim_owner s = Some w \<Longrightarrow>
    slot_step sha probe worker t s s'"

lemma TERMINAL_STATES_iff [simp]:
  "x \<in> set TERMINAL_STATES \<longleftrightarrow> x = SLOT_COMPLETED \<or> x = SLOT_SKIPPED \<or> x = SLOT_EXPIRED \<or> x = SLOT_FAILED"
  by (simp add: TERMINAL_STATES_def)

lemma allowed_not_terminal: "x \<in> set (allowed_next_states y) \<Longrightarrow> y \<notin> set TERMINAL_STATES"
  by (cases y) auto

lemma slot_step_evolves:
  assumes "slot_step sha probe worker t s s'"
  shows "\<exists>c. evolve_slot sha s c = Inr s' \<and> ch_state c \<in> set (allowed_next_states (ds_state s))"
  using assms
proof cases
  case (expires r)
  then show ?thesis by (intro exI conjI) (assumption, simp add: slot_outcome_def)
qed (intro exI conjI, assumption, auto simp: slot_outcome_def lease_change_def)+

lemma slot_step_valid:
  assumes "slot_step sha probe worker t s s'"
  shows "valid_slot sha s'" "slot_contract s' = slot_contract s" "ds_version s' = ds_version s + 1"
    "ds_slot_id s' = ds_slot_id s" "ds_state s' \<in> set (allowed_next_states (ds_state s))"
proof -
  obtain c h where s': "s' = (evolved_slot s c)\<lparr>ds_content_hash := h\<rparr>" "valid_slot sha s'"
    "ch_state c \<in> set (allowed_next_states (ds_state s))"
    using slot_step_evolves [OF assms] evolve_slot_Inr by metis
  show "valid_slot sha s'" by (fact s')
  show "slot_contract s' = slot_contract s" "ds_version s' = ds_version s + 1" "ds_slot_id s' = ds_slot_id s"
    "ds_state s' \<in> set (allowed_next_states (ds_state s))"
    using s'(3) by (simp_all add: s'(1) slot_contract_def evolved_slot_def)
qed

text \<open>A claimed slot with a live lease of another worker can only miss its completion deadline.\<close>

lemma slot_step_live_lease:
  assumes "slot_step sha probe worker t s s'" and "ds_state s = SLOT_CLAIMED" and "ds_lease_expires_at s = Some l"
    and "t < l" and "ds_claim_owner s \<noteq> worker"
  shows "ds_state s' \<in> {SLOT_EXPIRED, SLOT_FAILED} \<and> completion_deadline_missed s t"
  using assms by (cases; elim evolve_slot_Inr) (auto simp: evolved_slot_def slot_outcome_def may_expire_def)

lemma slot_step_completed:
  assumes "slot_step sha probe worker t s s'" and "ds_state s' = SLOT_COMPLETED"
  shows "probe (ds_slot_id s) \<and> ds_state s = SLOT_CLAIMED \<and> \<not> completion_deadline_missed s t"
  using assms by (cases; elim evolve_slot_Inr) (auto simp: evolved_slot_def slot_outcome_def lease_change_def split: if_splits)

section \<open>Steps of the store\<close>

definition streams_ok :: "sha256 \<Rightarrow> slot_store \<Rightarrow> bool" where
  "streams_ok sha st \<longleftrightarrow> (\<forall>k rows. map_of (slot_streams st) k = Some rows \<longrightarrow> stored_stream sha k rows)"

definition store_ok :: "sha256 \<Rightarrow> slot_store \<Rightarrow> bool" where
  "store_ok sha st \<longleftrightarrow> distinct (map ds_slot_id (slot_rows st)) \<and> (\<forall>r \<in> set (slot_rows st). valid_slot sha r) \<and>
     streams_ok sha st"

definition replaced :: "DecisionSlot \<Rightarrow> DecisionSlot \<Rightarrow> DecisionSlot list \<Rightarrow> DecisionSlot list" where
  "replaced s s' rows = map (\<lambda>r. if r = s then s' else r) rows"

inductive rows_step :: "sha256 \<Rightarrow> (string \<Rightarrow> bool) \<Rightarrow> string option \<Rightarrow> int \<Rightarrow> DecisionSlot list \<Rightarrow> DecisionSlot list \<Rightarrow> bool"
  for sha probe worker t where
  moved: "s \<in> set rows \<Longrightarrow> slot_step sha probe worker t s s' \<Longrightarrow> rows_step sha probe worker t rows (replaced s s' rows)"
| created: "valid_slot sha s \<Longrightarrow> ds_slot_id s \<notin> ds_slot_id ` set rows \<Longrightarrow> ds_version s = 1 \<Longrightarrow>
    rows_step sha probe worker t rows (rows @ [s])"

abbreviation rows_steps :: "sha256 \<Rightarrow> (string \<Rightarrow> bool) \<Rightarrow> string option \<Rightarrow> int \<Rightarrow> DecisionSlot list \<Rightarrow> DecisionSlot list \<Rightarrow> bool" where
  "rows_steps sha probe worker t \<equiv> (rows_step sha probe worker t)\<^sup>*\<^sup>*"

text \<open>An operation that succeeds is a sequence of steps and keeps the store in order.\<close>

definition steps_of :: "sha256 \<Rightarrow> (string \<Rightarrow> bool) \<Rightarrow> string option \<Rightarrow> int \<Rightarrow> slot_store \<Rightarrow> slot_store \<Rightarrow> bool" where
  "steps_of sha probe worker t st st' \<longleftrightarrow>
     store_ok sha st' \<and> rows_steps sha probe worker t (slot_rows st) (slot_rows st')"

lemma bindT_Inr [simp]: "bindT m f st = Inr y \<longleftrightarrow> (\<exists>x st'. m st = Inr (x, st') \<and> f x st' = Inr y)"
  by (auto simp: bindT_def split: prod.splits)

lemma returnT_Inr [simp]: "returnT x st = Inr y \<longleftrightarrow> y = (x, st)"
  by (auto simp: returnT_def)

lemma raiseT_Inr [simp]: "raiseT e st \<noteq> Inr y"
  by (simp add: raiseT_def)

lemma checkT_Inr [simp]: "checkT gs m st = Inr y \<longleftrightarrow> guards_ok gs \<and> m st = Inr y"
  by (simp add: checkT_def)

lemma record_transition_Inr:
  assumes "record_transition sha p c t st = Inr (u, st')" and "streams_ok sha st"
  shows "slot_rows st' = slot_rows st" "streams_ok sha st'"
proof -
  define k where "k = ''aqa_scheduler:'' @ ds_slot_id c"
  obtain vals payload e rows where
    payload: "payload_from_mapping sha vals = Inr payload"
    and app: "append_audit sha SCHEDULER_WRITER (dict_get (slot_streams st) k []) k
      (if p = None then ''slot.created'' else ''slot.transitioned'') t payload = Inr (e, rows)"
    and st': "st' = st\<lparr>slot_streams := AList.update k rows (slot_streams st)\<rparr>"
    using assms(1) by (auto simp: record_transition_def Let_def k_def split: prod.splits)
  have stored: "stored_stream sha k (dict_get (slot_streams st) k [])"
    using assms(2) by (cases "map_of (slot_streams st) k") (auto simp: streams_ok_def dict_get_def stored_stream_def)
  have "validate_payload sha payload = Inr payload" using payload by (auto simp: payload_from_mapping_def validate_payload_iff)
  from append_cases [OF stored this app] have "stored_stream sha k rows" by metis
  then show "streams_ok sha st'" using assms(2) by (simp add: streams_ok_def st')
  show "slot_rows st' = slot_rows st" by (simp add: st')
qed

lemma replaced_same_id:
  assumes "distinct (map ds_slot_id rows)" "s \<in> set rows"
  shows "map (\<lambda>r. if row_matches s r then s' else r) rows = replaced s s' rows"
proof -
  have "row_matches s r \<longleftrightarrow> r = s" if "r \<in> set rows" for r
    using assms that by (auto simp: row_matches_def distinct_map inj_on_def)
  then show ?thesis by (simp add: replaced_def)
qed

lemma replaced_ids: "ds_slot_id s' = ds_slot_id s \<Longrightarrow> map ds_slot_id (replaced s s' rows) = map ds_slot_id rows"
  by (auto simp: replaced_def)

lemma set_replaced: "r \<in> set (replaced s s' rows) \<Longrightarrow> r = s' \<or> r \<in> set rows"
  by (auto simp: replaced_def)

lemma slot_transition_Inr:
  assumes "slot_transition sha s t c st = Inr (x, st')"
  shows "evolve_slot sha s c = Inr x \<and> ch_state c \<in> set (allowed_next_states (ds_state s)) \<and>
    (\<exists>u. record_transition sha (Some s) x t
      (st\<lparr>slot_rows := map (\<lambda>r. if row_matches s r then x else r) (slot_rows st)\<rparr>) = Inr (u, st'))"
  using assms unfolding slot_transition_def checkT_Inr bindE_Inr_iff guarded_Inr_iff bindT_Inr returnT_Inr
  by (simp del: bindT_Inr)

lemma slot_transition_steps:
  assumes ok: "store_ok sha st" and s: "s \<in> set (slot_rows st)"
    and run: "slot_transition sha s t c st = Inr (x, st')"
    and step: "ch_state c \<in> set (allowed_next_states (ds_state s)) \<Longrightarrow> evolve_slot sha s c = Inr x \<Longrightarrow> slot_step sha probe worker t s x"
  shows "store_ok sha st'" "slot_step sha probe worker t s x" "slot_rows st' = replaced s x (slot_rows st)"
proof -
  define st1 where "st1 = st\<lparr>slot_rows := map (\<lambda>r. if row_matches s r then x else r) (slot_rows st)\<rparr>"
  obtain u where ev: "evolve_slot sha s c = Inr x" and allowed: "ch_state c \<in> set (allowed_next_states (ds_state s))"
    and rec: "record_transition sha (Some s) x t st1 = Inr (u, st')"
    using slot_transition_Inr [OF run] unfolding st1_def by blast
  show step': "slot_step sha probe worker t s x" by (fact step [OF allowed ev])
  note x = slot_step_valid [OF step']
  have rows: "slot_rows st1 = replaced s x (slot_rows st)"
    using ok s by (simp add: st1_def store_ok_def replaced_same_id)
  have "streams_ok sha st1" using ok by (simp add: store_ok_def streams_ok_def st1_def)
  with rec have st': "slot_rows st' = replaced s x (slot_rows st)" "streams_ok sha st'"
    using record_transition_Inr [OF rec] rows by simp_all
  then show "store_ok sha st'" using ok x by (auto simp: store_ok_def replaced_ids dest!: set_replaced)
  show "slot_rows st' = replaced s x (slot_rows st)" by (fact st')
qed

lemma steps_of_refl: "store_ok sha st \<Longrightarrow> steps_of sha probe worker t st st"
  by (simp add: steps_of_def)

lemma steps_of_trans:
  "steps_of sha probe worker t st st' \<Longrightarrow> steps_of sha probe worker t st' st'' \<Longrightarrow> steps_of sha probe worker t st st''"
  by (auto simp: steps_of_def)


section \<open>Operations are steps\<close>

lemma require_on_connection_Inr:
  assumes "require_on_connection sha i st = Inr (s, st')"
  shows "st' = st" "s \<in> set (slot_rows st)" "ds_slot_id s = i" "valid_slot sha s"
proof -
  obtain r where "find (\<lambda>r. ds_slot_id r = i) (slot_rows st) = Some r" "slot_from_row sha r = Inr s" "st' = st"
    using assms by (auto simp: require_on_connection_def get_on_connection_def split: option.splits)
  then show "st' = st" "s \<in> set (slot_rows st)" "ds_slot_id s = i" "valid_slot sha s"
    using slot_from_row_Inr [of sha r s] by (auto simp: find_Some_iff)
qed

text \<open>The effect of an operation on one slot: nothing, or one step.\<close>

definition acts :: "sha256 \<Rightarrow> (string \<Rightarrow> bool) \<Rightarrow> string option \<Rightarrow> int \<Rightarrow> DecisionSlot \<Rightarrow> DecisionSlot tx \<Rightarrow> bool" where
  "acts sha probe worker t s m \<longleftrightarrow> (\<forall>st x st'. store_ok sha st \<longrightarrow> s \<in> set (slot_rows st) \<longrightarrow> m st = Inr (x, st') \<longrightarrow>
     store_ok sha st' \<and> (x = s \<and> slot_rows st' = slot_rows st \<or>
       slot_step sha probe worker t s x \<and> slot_rows st' = replaced s x (slot_rows st)))"

lemma actsD:
  assumes "acts sha probe worker t s m" "store_ok sha st" "s \<in> set (slot_rows st)" "m st = Inr (x, st')"
  shows "steps_of sha probe worker t st st'" "x \<in> set (slot_rows st')" "x = s \<or> slot_step sha probe worker t s x"
    "r \<in> set (slot_rows st) \<Longrightarrow> r \<noteq> s \<Longrightarrow> r \<in> set (slot_rows st')"
proof -
  have *: "store_ok sha st' \<and> (x = s \<and> slot_rows st' = slot_rows st \<or>
       slot_step sha probe worker t s x \<and> slot_rows st' = replaced s x (slot_rows st))"
    using assms unfolding acts_def by blast
  then show "x = s \<or> slot_step sha probe worker t s x" by blast
  have "rows_steps sha probe worker t (slot_rows st) (replaced s x (slot_rows st))" if "slot_step sha probe worker t s x"
    by (rule r_into_rtranclp) (rule rows_step.moved [OF assms(3) that])
  with * show "steps_of sha probe worker t st st'" by (auto simp: steps_of_def)
  show "x \<in> set (slot_rows st')" "r \<in> set (slot_rows st) \<Longrightarrow> r \<noteq> s \<Longrightarrow> r \<in> set (slot_rows st')"
    using * assms(3) by (auto simp: replaced_def)
qed

lemma actsI_step:
  assumes "\<And>x. ch_state c \<in> set (allowed_next_states (ds_state s)) \<Longrightarrow> evolve_slot sha s c = Inr x \<Longrightarrow>
    slot_step sha probe worker t s x"
  shows "acts sha probe worker t s (slot_transition sha s t c)"
  unfolding acts_def using slot_transition_steps [OF _ _ _ assms] by blast

lemma acts_return [simp]: "acts sha probe worker t s (returnT s)"
  by (auto simp: acts_def)

lemma acts_raise [simp]: "acts sha probe worker t s (raiseT e)"
  by (simp add: acts_def)

lemma acts_check: "(guards_ok gs \<Longrightarrow> acts sha probe worker t s m) \<Longrightarrow> acts sha probe worker t s (checkT gs m)"
  unfolding acts_def checkT_Inr by blast

lemma acts_if:
  "(b \<Longrightarrow> acts sha probe worker t s m) \<Longrightarrow> (\<not> b \<Longrightarrow> acts sha probe worker t s n) \<Longrightarrow>
    acts sha probe worker t s (if b then m else n)"
  by simp

lemma acts_expire:
  assumes "ds_deadline_at s \<le> t" and "ds_state s = SLOT_CLAIMED \<Longrightarrow> may_expire worker t s"
  shows "acts sha probe worker t s (expire_locked sha s t reason)"
  unfolding expire_locked_def
proof (rule actsI_step, goal_cases)
  case (1 x)
  from 1(2) show ?case by (rule slot_step.expires) (use 1(1) assms in \<open>simp_all add: slot_outcome_def\<close>)
qed

lemma missed_deadline: "valid_slot sha s \<Longrightarrow> completion_deadline_missed s t \<Longrightarrow> ds_deadline_at s \<le> t"
  using valid_slot_times(2) [of sha s] by (auto simp: completion_deadline_missed_def split: if_splits)

text \<open>An operation on the slot of an identifier.\<close>

lemma on_slot_steps:
  assumes "store_ok sha st" and "bindT (require_on_connection sha i) f st = Inr (x, st')"
    and "\<And>s. valid_slot sha s \<Longrightarrow> acts sha probe worker t s (f s)"
  obtains s where "s \<in> set (slot_rows st)" "ds_slot_id s = i" "valid_slot sha s" "f s st = Inr (x, st')"
    "steps_of sha probe worker t st st'" "x \<in> set (slot_rows st')" "x = s \<or> slot_step sha probe worker t s x"
proof -
  obtain s st1 where s1: "require_on_connection sha i st = Inr (s, st1)" "f s st1 = Inr (x, st')"
    using assms(2) unfolding bindT_Inr by blast
  then have s: "require_on_connection sha i st = Inr (s, st)" "f s st = Inr (x, st')"
    using require_on_connection_Inr(1) [OF s1(1)] by simp_all
  note r = require_on_connection_Inr [OF s(1)]
  note d = actsD [OF assms(3) [OF r(4)] assms(1) r(2) s(2)]
  show ?thesis by (rule that [OF r(2,3,4) s(2) d(1,2,3)])
qed

lemma acts_ready:
  assumes "ds_state s \<noteq> SLOT_READY" "\<not> t < ds_ready_at s" "\<not> ds_deadline_at s \<le> t"
  shows "acts sha probe worker t s (slot_transition sha s t (slot_outcome s SLOT_READY None None))"
proof (rule actsI_step, goal_cases)
  case (1 x)
  have "ds_state s \<in> {SLOT_PENDING, WAITING_FOR_DATA}" using 1(1) assms(1) by (cases "ds_state s") (auto simp: slot_outcome_def)
  with 1(2) show ?case by (rule slot_step.becomes_ready) (use assms in auto)
qed

lemma acts_wait:
  assumes "ds_state s \<noteq> WAITING_FOR_DATA" "\<not> t < ds_ready_at s" "\<not> ds_deadline_at s \<le> t"
  shows "acts sha probe worker t s (slot_transition sha s t (slot_outcome s WAITING_FOR_DATA None (Some r)))"
proof (rule actsI_step, goal_cases)
  case (1 x)
  have "ds_state s = SLOT_PENDING" using 1(1) assms(1) by (cases "ds_state s") (auto simp: slot_outcome_def)
  with 1(2) show ?case by (rule slot_step.waits) (use assms in auto)
qed

lemma acts_complete:
  assumes "valid_slot sha s" "ds_state s = SLOT_CLAIMED" "probe (ds_slot_id s)" "\<not> completion_deadline_missed s t"
    and "ds_claim_owner s = worker \<or> (case ds_lease_expires_at s of Some l \<Rightarrow> l \<le> t | None \<Rightarrow> False)"
  shows "acts sha probe worker t s (slot_transition sha s t (slot_outcome s SLOT_COMPLETED (Some t) (Some r)))"
proof (rule actsI_step, goal_cases)
  case (1 x)
  from assms(1,2) obtain l where l: "ds_lease_expires_at s = Some l" by (rule claimed_slot)
  from 1(2) assms(2) l show ?case by (rule slot_step.completes) (use assms(3-5) l in auto)
qed

lemma evaluate_readiness_steps:
  assumes "store_ok sha st" "evaluate_readiness sha i watermark t st = Inr (x, st')"
  shows "steps_of sha probe None t st st'"
  using assms(1) assms(2) [unfolded evaluate_readiness_def]
proof (rule on_slot_steps)
  fix s
  show "acts sha probe None t s
    (if ds_decision_type s = FORCED_FLAT \<or> ds_state s \<in> set TERMINAL_STATES then returnT s
     else if ds_state s = SLOT_CLAIMED
       then raiseT (transition_error ''claimed slot readiness cannot be reevaluated'')
     else if t \<ge> ds_deadline_at s then expire_locked sha s t None
     else if t < ds_ready_at s then returnT s
     else if (case watermark of None \<Rightarrow> False | Some w \<Rightarrow> w \<ge> ds_source_interval_end s) then
       (if ds_state s = SLOT_READY then returnT s
        else slot_transition sha s t (slot_outcome s SLOT_READY None None))
     else if ds_state s = WAITING_FOR_DATA then returnT s
     else slot_transition sha s t (slot_outcome s WAITING_FOR_DATA None (Some ''active_basket_not_ready'')))"
    by (intro acts_if acts_return acts_raise acts_expire acts_ready acts_wait) simp_all
qed


definition acts_claim :: "sha256 \<Rightarrow> (string \<Rightarrow> bool) \<Rightarrow> string option \<Rightarrow> int \<Rightarrow> DecisionSlot \<Rightarrow> ClaimResult tx \<Rightarrow> bool" where
  "acts_claim sha probe worker t s m = acts sha probe worker t s (bindT m (\<lambda>r. returnT (snd r)))"

lemma acts_claim_status: "acts sha probe worker t s m \<Longrightarrow> acts_claim sha probe worker t s (with_status k m)"
  unfolding acts_claim_def acts_def by (auto simp: with_status_def)

lemma acts_claim_return: "acts_claim sha probe worker t s (returnT (k, s))"
  by (auto simp: acts_claim_def acts_def)

lemma acts_claim_if:
  "(b \<Longrightarrow> acts_claim sha probe worker t s m) \<Longrightarrow> (\<not> b \<Longrightarrow> acts_claim sha probe worker t s n) \<Longrightarrow>
    acts_claim sha probe worker t s (if b then m else n)"
  by simp

lemma actsD_claim:
  assumes "acts_claim sha probe worker t s m" "store_ok sha st" "s \<in> set (slot_rows st)" "m st = Inr (r, st')"
  shows "steps_of sha probe worker t st st'" "snd r \<in> set (slot_rows st')" "snd r = s \<or> slot_step sha probe worker t s (snd r)"
    "q \<in> set (slot_rows st) \<Longrightarrow> q \<noteq> s \<Longrightarrow> q \<in> set (slot_rows st')"
proof -
  have "bindT m (\<lambda>r. returnT (snd r)) st = Inr (snd r, st')" using assms(4) by auto
  note d = actsD [OF assms(1) [unfolded acts_claim_def] assms(2,3) this]
  show "steps_of sha probe worker t st st'" "snd r \<in> set (slot_rows st')" "snd r = s \<or> slot_step sha probe worker t s (snd r)"
    "q \<in> set (slot_rows st) \<Longrightarrow> q \<noteq> s \<Longrightarrow> q \<in> set (slot_rows st')"
    by (fact d)+
qed

lemma acts_reclaim:
  assumes "ds_state s = SLOT_CLAIMED" "ds_lease_expires_at s = Some l" "l \<le> t" "t < ds_deadline_at s"
    and "ds_decision_type s = STRATEGY \<Longrightarrow> \<not> probe (ds_slot_id s)"
  shows "acts sha probe (Some owner) t s (slot_transition sha s t (lease_change owner t (ds_attempt_count s + 1)))"
proof (rule actsI_step, goal_cases)
  case (1 x)
  from 1(2) refl assms(1-4) show ?case by (rule slot_step.reclaims) (rule assms(5))
qed

lemma acts_first_claim:
  assumes "ds_state s \<in> {SLOT_READY, FLATTEN_REQUIRED}" "ds_ready_at s \<le> t" "t < ds_deadline_at s"
  shows "acts sha probe (Some owner) t s (slot_transition sha s t (lease_change owner t (ds_attempt_count s + 1)))"
proof (rule actsI_step, goal_cases)
  case (1 x)
  from 1(2) refl assms show ?case by (rule slot_step.claims)
qed

lemma recover_claimed_acts:
  assumes "valid_slot sha s" "ds_state s = SLOT_CLAIMED"
  shows "acts_claim sha probe (Some owner) t s (recover_claimed sha probe s owner t)"
proof -
  obtain l where l: "ds_lease_expires_at s = Some l" using assms by (rule claimed_slot)
  have kind: "ds_decision_type s \<noteq> FORCED_FLAT \<longleftrightarrow> ds_decision_type s = STRATEGY" by (cases "ds_decision_type s") auto
  show ?thesis unfolding recover_claimed_def completed_before_recovery_def
    by (intro acts_claim_if acts_claim_status acts_claim_return acts_expire acts_complete acts_reclaim [OF assms(2) l] assms)
      (use l kind missed_deadline [OF assms(1)] in \<open>auto simp: not_less not_le may_expire_def\<close>)
qed

lemma claim_locked_acts:
  assumes "valid_slot sha s"
  shows "acts_claim sha probe (Some owner) t s (claim_locked sha probe s owner t)"
  unfolding claim_locked_def
  by (intro acts_claim_if acts_claim_status acts_claim_return acts_expire acts_first_claim recover_claimed_acts assms) auto


lemma claim_slot_steps:
  assumes "store_ok sha st" "claim_slot sha probe i owner t st = Inr (r, st')"
  obtains s where "s \<in> set (slot_rows st)" "ds_slot_id s = i" "valid_slot sha s" "claim_locked sha probe s owner t st = Inr (r, st')"
    "steps_of sha probe (Some owner) t st st'" "snd r \<in> set (slot_rows st')"
    "snd r = s \<or> slot_step sha probe (Some owner) t s (snd r)"
proof -
  obtain s where s: "require_on_connection sha i st = Inr (s, st)" "claim_locked sha probe s owner t st = Inr (r, st')"
    using assms(2) require_on_connection_Inr(1) [of sha i st] unfolding claim_slot_def checkT_Inr bindT_Inr by metis
  note v = require_on_connection_Inr [OF s(1)]
  note d = actsD_claim [OF claim_locked_acts [OF v(4)] assms(1) v(2) s(2)]
  show ?thesis by (rule that [OF v(2,3,4) s(2) d(1,2,3)])
qed

lemma set_by_deadline [simp]: "set (by_deadline rows) = set rows"
  by (simp add: by_deadline_def)

lemma claim_next_steps:
  assumes "store_ok sha st" "claim_next sha probe owner t st = Inr (r, st')"
  shows "steps_of sha probe (Some owner) t st st'"
proof (cases "by_deadline (filter (eligible t) (slot_rows st))")
  case Nil
  then show ?thesis using assms by (auto simp: claim_next_def steps_of_refl)
next
  case (Cons q qs)
  then have "q \<in> set (by_deadline (filter (eligible t) (slot_rows st)))" by simp
  then have q: "q \<in> set (slot_rows st)" by simp
  consider "st' = st" | x where "slot_from_row sha q = Inr q" "claim_locked sha probe q owner t st = Inr (x, st')"
    using assms(2) Cons slot_from_row_Inr [of sha q] unfolding claim_next_def
    by (auto split: if_splits)
  then show ?thesis
  proof cases
    case 1
    then show ?thesis using assms(1) by (simp add: steps_of_refl)
  next
    case 2
    then show ?thesis using actsD_claim(1) [OF claim_locked_acts _ q 2(2)] slot_from_row_Inr [OF 2(1)] assms(1) by blast
  qed
qed

lemma renew_lease_steps:
  assumes "store_ok sha st" "renew_lease sha i owner t st = Inr (x, st')"
  shows "steps_of sha probe (Some owner) t st st'"
proof -
  have run: "bindT (require_on_connection sha i) (\<lambda>s. checkT [owned_claim_guard s owner]
       (if completion_deadline_missed s t then expire_locked sha s t (completion_deadline_reason s)
        else checkT [live_claim_guard s t] (slot_transition sha s t (lease_change owner t (ds_attempt_count s))))) st = Inr (x, st')"
    using assms(2) unfolding renew_lease_def checkT_Inr by blast
  show ?thesis using assms(1) run
  proof (rule on_slot_steps)
    fix s assume v: "valid_slot sha s"
    have renew: "acts sha probe (Some owner) t s (slot_transition sha s t (lease_change owner t (ds_attempt_count s)))"
      if "guards_ok [owned_claim_guard s owner]" "guards_ok [live_claim_guard s t]" "\<not> completion_deadline_missed s t"
    proof (rule actsI_step, goal_cases)
      case (1 y)
      have c: "ds_state s = SLOT_CLAIMED" "ds_claim_owner s = Some owner" using that(1) by (simp_all add: owned_claim_guard_def)
      obtain l where l: "ds_lease_expires_at s = Some l" using v c(1) by (rule claimed_slot)
      from 1(2) refl c l show ?case by (rule slot_step.renews) (use that l in \<open>simp_all add: live_claim_guard_def\<close>)
    qed
    show "acts sha probe (Some owner) t s (checkT [owned_claim_guard s owner]
       (if completion_deadline_missed s t then expire_locked sha s t (completion_deadline_reason s)
        else checkT [live_claim_guard s t] (slot_transition sha s t (lease_change owner t (ds_attempt_count s)))))"
      by (intro acts_check acts_if acts_expire renew missed_deadline [OF v]) (simp_all add: may_expire_def)
  qed
qed

lemma complete_slot_steps:
  assumes "store_ok sha st" "complete_slot sha probe i owner t st = Inr (x, st')"
  shows "steps_of sha probe (Some owner) t st st'"
proof -
  let ?f = "\<lambda>s. checkT [owned_claim_guard s owner]
       (if completion_deadline_missed s t then expire_locked sha s t (completion_deadline_reason s)
        else checkT [owned_claim_guard s owner, live_claim_guard s t]
         (if \<not> probe (ds_slot_id s) then
            (if t \<ge> ds_deadline_at s then expire_locked sha s t None
             else raiseT (transition_error ''slot cannot complete before decision materialization''))
          else slot_transition sha s t (slot_outcome s SLOT_COMPLETED (Some t) (Some ''decision_materialized''))))"
  have run: "bindT (require_on_connection sha i) ?f st = Inr (x, st')"
    using assms(2) unfolding complete_slot_def checkT_Inr by blast
  show ?thesis using assms(1) run
  proof (rule on_slot_steps)
    fix s assume v: "valid_slot sha s"
    show "acts sha probe (Some owner) t s (?f s)"
      by (intro acts_check acts_if acts_expire acts_raise acts_complete [OF v])
        (auto simp: owned_claim_guard_def may_expire_def dest: missed_deadline [OF v])
  qed
qed

lemma skip_slot_steps:
  assumes "store_ok sha st" "skip_slot sha probe i reason t st = Inr (x, st')"
  shows "steps_of sha probe None t st st'"
proof -
  let ?gs = "\<lambda>s. [(ds_state s \<notin> {SLOT_PENDING, WAITING_FOR_DATA, SLOT_READY}, transition_error ''slot is not eligible to be skipped''),
          (probe (ds_slot_id s), transition_error ''materialized decision cannot be skipped'')]"
  have run: "bindT (require_on_connection sha i) (\<lambda>s. checkT (?gs s)
      (slot_transition sha s t (slot_outcome s SLOT_SKIPPED (Some t) (Some reason)))) st = Inr (x, st')"
    using assms(2) unfolding skip_slot_def checkT_Inr by blast
  show ?thesis using assms(1) run
  proof (rule on_slot_steps)
    fix s
    show "acts sha probe None t s (checkT (?gs s) (slot_transition sha s t (slot_outcome s SLOT_SKIPPED (Some t) (Some reason))))"
    proof (rule acts_check, rule actsI_step, goal_cases)
      case (1 y)
      from 1(3) show ?case by (rule slot_step.skips) (use 1(1) in auto)
    qed
  qed
qed

lemma fail_slot_steps:
  assumes "store_ok sha st" "fail_slot sha i owner reason t st = Inr (x, st')"
  shows "steps_of sha probe (Some owner) t st st'"
proof -
  let ?gs = "\<lambda>s. [owned_claim_guard s owner] @
         (if ds_decision_type s = FORCED_FLAT \<and> t > ds_required_completion_at s then [] else [live_claim_guard s t])"
  have run: "bindT (require_on_connection sha i) (\<lambda>s. checkT (?gs s)
      (slot_transition sha s t (slot_outcome s SLOT_FAILED (Some t) (Some reason)))) st = Inr (x, st')"
    using assms(2) unfolding fail_slot_def checkT_Inr by blast
  show ?thesis using assms(1) run
  proof (rule on_slot_steps)
    fix s
    show "acts sha probe (Some owner) t s (checkT (?gs s) (slot_transition sha s t (slot_outcome s SLOT_FAILED (Some t) (Some reason))))"
    proof (rule acts_check, rule actsI_step, goal_cases)
      case (1 y)
      from 1(3) show ?case by (rule slot_step.fails [where w = owner]) (use 1(1) in \<open>auto simp: owned_claim_guard_def\<close>)
    qed
  qed
qed

lemma recover_rows_steps:
  assumes "store_ok sha st" "recover_rows sha probe owner t rs st = Inr (xs, st')"
    and "set rs \<subseteq> set (slot_rows st)" "distinct rs"
  shows "steps_of sha probe (Some owner) t st st'"
  using assms
proof (induction rs arbitrary: st xs)
  case Nil
  then show ?case by (auto simp: steps_of_refl)
next
  case (Cons r rs)
  obtain x st1 ys where x: "slot_from_row sha r = Inr r" "claim_locked sha probe r owner t st = Inr (x, st1)"
    and rest: "recover_rows sha probe owner t rs st1 = Inr (ys, st')"
    using Cons.prems(2) slot_from_row_Inr [of sha r] by auto
  have r: "valid_slot sha r" "r \<in> set (slot_rows st)" using slot_from_row_Inr [OF x(1)] Cons.prems(3) by auto
  note d = actsD_claim [OF claim_locked_acts [OF r(1)] Cons.prems(1) r(2) x(2)]
  have "set rs \<subseteq> set (slot_rows st1)" using Cons.prems(3,4) d(4) by auto
  then have "steps_of sha probe (Some owner) t st1 st'"
    using Cons.IH [OF _ rest] d(1) Cons.prems(4) by (simp add: steps_of_def)
  with d(1) show ?case by (rule steps_of_trans)
qed

lemma recover_expired_claims_steps:
  assumes "store_ok sha st" "recover_expired_claims sha probe owner t st = Inr (xs, st')"
  shows "steps_of sha probe (Some owner) t st st'"
proof -
  have run: "recover_rows sha probe owner t (by_deadline (filter (recoverable t) (slot_rows st))) st = Inr (xs, st')"
    using assms(2) unfolding recover_expired_claims_def checkT_Inr by blast
  have "distinct (slot_rows st)" using assms(1) by (simp add: store_ok_def distinct_map)
  then have "distinct (by_deadline (filter (recoverable t) (slot_rows st)))" by (simp add: by_deadline_def)
  then show ?thesis using recover_rows_steps [OF assms(1) run] by auto
qed


section \<open>Schedules\<close>

lemma create_slots_steps:
  assumes "store_ok sha st" "create_slots sha existing t ss st = Inr (xs, st')"
    and "\<And>s. s \<in> set ss \<Longrightarrow> valid_slot sha s \<and> ds_version s = 1"
  shows "steps_of sha probe worker t st st'"
  using assms
proof (induction ss arbitrary: st xs)
  case Nil
  then show ?case by (auto simp: steps_of_refl)
next
  case (Cons s ss)
  have s: "valid_slot sha s" "ds_version s = 1" using Cons.prems(3) [of s] by auto
  let ?m = "case map_of existing (ds_slot_id s) of
          Some e \<Rightarrow> checkT [(slot_contract e \<noteq> slot_contract s,
              SlotPersistenceError ''deterministic slot identity already has different content'')] (returnT e)
        | None \<Rightarrow> (\<lambda>st. guarded [(ds_slot_id s \<in> ds_slot_id ` set (slot_rows st),
                SlotPersistenceError ''decision schedule conflicts with durable state'')]
              (bindT (record_transition sha None s t) (\<lambda>_. returnT s) (st\<lparr>slot_rows := slot_rows st @ [s]\<rparr>)))"
  obtain x st1 ys where m: "?m st = Inr (x, st1)" and rest: "create_slots sha existing t ss st1 = Inr (ys, st')"
    using Cons.prems(2) unfolding create_slots.simps bindT_Inr returnT_Inr by fast
  have "steps_of sha probe worker t st st1"
  proof (cases "map_of existing (ds_slot_id s)")
    case (Some e)
    then show ?thesis using m Cons.prems(1) by (auto simp: steps_of_refl)
  next
    case None
    define st0 where "st0 = st\<lparr>slot_rows := slot_rows st @ [s]\<rparr>"
    obtain u where new: "ds_slot_id s \<notin> ds_slot_id ` set (slot_rows st)"
      and rec: "record_transition sha None s t st0 = Inr (u, st1)"
      using m None by (auto simp: st0_def)
    have "streams_ok sha st0" using Cons.prems(1) by (simp add: store_ok_def streams_ok_def st0_def)
    note r = record_transition_Inr [OF rec this]
    have rows: "slot_rows st1 = slot_rows st @ [s]" by (simp add: r(1) st0_def)
    then have "store_ok sha st1" using Cons.prems(1) s new r(2) by (auto simp: store_ok_def)
    moreover have "rows_step sha probe worker t (slot_rows st) (slot_rows st1)"
      unfolding rows using s new by (intro rows_step.created)
    ultimately show ?thesis by (auto simp: steps_of_def)
  qed
  moreover have "steps_of sha probe worker t st1 st'"
    by (rule Cons.IH [OF _ rest Cons.prems(3)]) (use \<open>steps_of sha probe worker t st st1\<close> in \<open>simp_all add: steps_of_def\<close>)
  ultimately show ?case by (rule steps_of_trans)
qed

lemma validate_schedule_Inr: "validate_schedule x = Inr y \<Longrightarrow> y = x"
  by (auto simp: validate_schedule_def)

lemma built_slots:
  assumes "build_session_schedule sha market_instant x provider ver day calendar = Inr sch" and "s \<in> set (schedule_slots sch)"
  shows "valid_slot sha s \<and> ds_version s = 1"
proof -
  consider "schedule_slots sch = []"
    | strategy flat where "mapE (strategy_slot sha market_instant x provider ver day) STRATEGY_CLOSE_TIMES = Inr strategy"
      "flat_slot sha market_instant x provider ver day = Inr flat" "schedule_slots sch = strategy @ [flat]"
    using assms(1) by (auto simp: build_session_schedule_def schedule_slots_def dest!: validate_schedule_Inr
        split: option.splits if_splits)
  then show ?thesis
  proof cases
    case 1
    then show ?thesis using assms(2) by simp
  next
    case 2
    have "\<exists>r. create_slot sha r = Inr s" if "s \<in> set strategy"
      using 2(1) that by (rule mapE_in_set) (auto simp: strategy_slot_def Let_def)
    moreover have "\<exists>r. create_slot sha r = Inr flat" using 2(2) by (auto simp: flat_slot_def Let_def)
    ultimately show ?thesis using assms(2) 2(3) create_slot_Inr(1,2) [of sha] by auto
  qed
qed

lemma create_schedule_steps:
  assumes "store_ok sha st" "create_schedule sha sch t st = Inr (xs, st')"
    and "build_session_schedule sha market_instant x provider ver day calendar = Inr sch"
  shows "steps_of sha probe worker t st st'"
proof -
  obtain existing where "create_slots sha existing t (schedule_slots sch) st = Inr (xs, st')"
    using assms(2) by (auto simp: create_schedule_def Let_def)
  then show ?thesis by (rule create_slots_steps [OF assms(1)]) (rule built_slots [OF assms(3)])
qed

section \<open>Commands\<close>

datatype slot_command =
    CreateSchedule "int \<Rightarrow> int \<Rightarrow> int" ExperimentDefinition string string int ExchangeCalendar int
  | EvaluateReadiness string "int option" int
  | ClaimSlot string string int
  | ClaimNext string int
  | RenewLease string string int
  | CompleteSlot string string int
  | SkipSlot string string int
  | FailSlot string string string int
  | RecoverClaims string int

fun command_time :: "slot_command \<Rightarrow> int" where
  "command_time (CreateSchedule m x provider ver day calendar t) = t"
| "command_time (EvaluateReadiness i w t) = t"
| "command_time (ClaimSlot i owner t) = t"
| "command_time (ClaimNext owner t) = t"
| "command_time (RenewLease i owner t) = t"
| "command_time (CompleteSlot i owner t) = t"
| "command_time (SkipSlot i reason t) = t"
| "command_time (FailSlot i owner reason t) = t"
| "command_time (RecoverClaims owner t) = t"

fun command_worker :: "slot_command \<Rightarrow> string option" where
  "command_worker (ClaimSlot i owner t) = Some owner"
| "command_worker (ClaimNext owner t) = Some owner"
| "command_worker (RenewLease i owner t) = Some owner"
| "command_worker (CompleteSlot i owner t) = Some owner"
| "command_worker (FailSlot i owner reason t) = Some owner"
| "command_worker (RecoverClaims owner t) = Some owner"
| "command_worker _ = None"

text \<open>The store after a transaction, which is the one before if it raised.\<close>

definition commits :: "'a tx \<Rightarrow> slot_store \<Rightarrow> slot_store" where
  "commits m st = (case m st of Inl _ \<Rightarrow> st | Inr (_, st') \<Rightarrow> st')"

fun run_slot_command :: "sha256 \<Rightarrow> (string \<Rightarrow> bool) \<Rightarrow> slot_command \<Rightarrow> slot_store \<Rightarrow> slot_store" where
  "run_slot_command sha probe (CreateSchedule m x provider ver day calendar t) =
     commits (\<lambda>st. bindE (build_session_schedule sha m x provider ver day calendar) (\<lambda>sch. create_schedule sha sch t st))"
| "run_slot_command sha probe (EvaluateReadiness i w t) = commits (evaluate_readiness sha i w t)"
| "run_slot_command sha probe (ClaimSlot i owner t) = commits (claim_slot sha probe i owner t)"
| "run_slot_command sha probe (ClaimNext owner t) = commits (claim_next sha probe owner t)"
| "run_slot_command sha probe (RenewLease i owner t) = commits (renew_lease sha i owner t)"
| "run_slot_command sha probe (CompleteSlot i owner t) = commits (complete_slot sha probe i owner t)"
| "run_slot_command sha probe (SkipSlot i reason t) = commits (skip_slot sha probe i reason t)"
| "run_slot_command sha probe (FailSlot i owner reason t) = commits (fail_slot sha i owner reason t)"
| "run_slot_command sha probe (RecoverClaims owner t) = commits (recover_expired_claims sha probe owner t)"

lemma commits_steps:
  assumes "store_ok sha st" and "\<And>x st'. m st = Inr (x, st') \<Longrightarrow> steps_of sha probe worker t st st'"
  shows "steps_of sha probe worker t st (commits m st)"
  using assms by (cases "m st") (auto simp: commits_def steps_of_refl split: prod.splits)

lemma run_slot_command_steps:
  assumes "store_ok sha st"
  shows "steps_of sha probe (command_worker c) (command_time c) st (run_slot_command sha probe c st)"
proof (cases c)
  case (CreateSchedule m x provider ver day calendar t)
  have "steps_of sha probe None t st
      (commits (\<lambda>st. bindE (build_session_schedule sha m x provider ver day calendar) (\<lambda>sch. create_schedule sha sch t st)) st)"
    using assms by (rule commits_steps) (use create_schedule_steps [OF assms] in \<open>unfold bindE_Inr_iff, blast\<close>)
  with CreateSchedule show ?thesis by simp
next
  case (ClaimSlot i owner t)
  then show ?thesis using assms by (auto intro!: commits_steps elim: claim_slot_steps)
qed (simp_all add: commits_steps [OF assms evaluate_readiness_steps [OF assms]] commits_steps [OF assms claim_next_steps [OF assms]]
    commits_steps [OF assms renew_lease_steps [OF assms]] commits_steps [OF assms complete_slot_steps [OF assms]]
    commits_steps [OF assms skip_slot_steps [OF assms]] commits_steps [OF assms fail_slot_steps [OF assms]]
    commits_steps [OF assms recover_expired_claims_steps [OF assms]])

lemma rows_steps_row:
  assumes "rows_steps sha probe worker t rows rows'" "s \<in> set rows"
  shows "\<exists>s' \<in> set rows'. (slot_step sha probe worker t)\<^sup>*\<^sup>* s s'"
  using assms
proof induction
  case base
  then show ?case by blast
next
  case (step rows' rows'')
  then obtain s' where s': "s' \<in> set rows'" "(slot_step sha probe worker t)\<^sup>*\<^sup>* s s'" by blast
  from step.hyps(2) show ?case
  proof cases
    case (moved q q')
    show ?thesis
    proof (cases "s' = q")
      case True
      then have "q' \<in> set rows''" "(slot_step sha probe worker t)\<^sup>*\<^sup>* s q'" using moved s' by (auto simp: replaced_def)
      then show ?thesis by blast
    next
      case False
      then show ?thesis using moved s' by (auto simp: replaced_def)
    qed
  next
    case (created q)
    then show ?thesis using s' by auto
  qed
qed


lemma no_step_from_terminal: "ds_state s \<in> set TERMINAL_STATES \<Longrightarrow> \<not> slot_step sha probe worker t s s'"
  using slot_step_valid(5) allowed_not_terminal by blast

lemma steps_live_lease:
  assumes "(slot_step sha probe worker t)\<^sup>*\<^sup>* s s'" and "ds_state s = SLOT_CLAIMED" and "ds_lease_expires_at s = Some l"
    and "t < l" and "ds_claim_owner s \<noteq> worker"
  shows "s' = s \<or> ds_state s' \<in> {SLOT_EXPIRED, SLOT_FAILED} \<and> completion_deadline_missed s t"
  using assms(1)
proof induction
  case base
  then show ?case by simp
next
  case (step x y)
  from step.IH show ?case
  proof
    assume "x = s"
    then show ?thesis using slot_step_live_lease [OF step.hyps(2) [unfolded \<open>x = s\<close>] assms(2-5)] by blast
  next
    assume "ds_state x \<in> {SLOT_EXPIRED, SLOT_FAILED} \<and> completion_deadline_missed s t"
    then have "ds_state x \<in> set TERMINAL_STATES" by auto
    then show ?thesis using no_step_from_terminal step.hyps(2) by blast
  qed
qed

text \<open>One entry of the transition table, recorded as the next version.\<close>

definition advances :: "DecisionSlot \<Rightarrow> DecisionSlot \<Rightarrow> bool" where
  "advances s s' \<longleftrightarrow> ds_state s' \<in> set (allowed_next_states (ds_state s)) \<and> ds_version s' = ds_version s + 1"

lemma steps_advance: "(slot_step sha probe worker t)\<^sup>*\<^sup>* s s' \<Longrightarrow> advances\<^sup>*\<^sup>* s s'"
  by (induction rule: rtranclp_induct) (auto simp: advances_def dest: slot_step_valid(3,5) intro: rtranclp.rtrancl_into_rtrancl)

lemma steps_contract:
  assumes "(slot_step sha probe worker t)\<^sup>*\<^sup>* s s'"
  shows "slot_contract s' = slot_contract s \<and> (s' = s \<or> ds_version s < ds_version s') \<and>
    (ds_state s \<in> set TERMINAL_STATES \<longrightarrow> s' = s) \<and>
    (ds_state s' = SLOT_COMPLETED \<longrightarrow> s' = s \<or> probe (ds_slot_id s))"
  using assms
proof induction
  case base
  then show ?case by simp
next
  case (step x y)
  note v = slot_step_valid [OF step.hyps(2)]
  have "ds_slot_id x = ds_slot_id s" using step.IH by (simp add: slot_contract_def)
  then have "ds_state y = SLOT_COMPLETED \<longrightarrow> probe (ds_slot_id s)" using slot_step_completed [OF step.hyps(2)] by simp
  moreover have "ds_state s \<notin> set TERMINAL_STATES"
    using step.IH no_step_from_terminal [of s] step.hyps(2) by blast
  moreover have "ds_version s < ds_version y" using step.IH v(3) by auto
  ultimately show ?case using step.IH v(2) by simp
qed

lemma store_ok_empty: "store_ok sha \<lparr>slot_rows = [], slot_streams = []\<rparr>"
  by (simp add: store_ok_def streams_ok_def)

lemma expired_slot:
  assumes "ds_decision_type s = STRATEGY" "expire_locked sha s t reason st = Inr (x, st')"
  shows "ds_state x = SLOT_EXPIRED"
  using slot_transition_Inr [OF assms(2) [unfolded expire_locked_def]] assms(1)
  by (auto elim!: evolve_slot_Inr simp: evolved_slot_def slot_outcome_def)

lemma late_claim_locked:
  assumes "ds_decision_type s = STRATEGY" "ds_state s \<notin> set TERMINAL_STATES" "ds_deadline_at s \<le> t"
    and "claim_locked sha probe s owner t st = Inr (r, st')"
  shows "fst r = DEADLINE_ELAPSED \<and> ds_state (snd r) = SLOT_EXPIRED"
proof -
  have "completion_deadline_missed s t" using assms(1,3) by (simp add: completion_deadline_missed_def)
  then obtain reason where "with_status DEADLINE_ELAPSED (expire_locked sha s t reason) st = Inr (r, st')"
    using assms(2-4) unfolding claim_locked_def recover_claimed_def by (cases "ds_state s = SLOT_CLAIMED") auto
  then show ?thesis using expired_slot [OF assms(1)] by (auto simp: with_status_def)
qed

section \<open>A claimed slot\<close>

definition sample_slot :: DecisionSlot where
  "sample_slot =
     \<lparr>ds_slot_id = ''slot_'' @ sample_hash, ds_experiment_id = ''signed_baseline'', ds_experiment_version = 1,
      ds_experiment_hash = sample_hash, ds_signal_provider_id = ''flat_baseline'', ds_signal_provider_version = ''1.0.0'',
      ds_session_date = 20000, ds_source_interval_start = 1000000, ds_source_interval_end = 2000000,
      ds_ready_at = 60000000, ds_deadline_at = 120000000, ds_required_completion_at = 120000000,
      ds_decision_type = STRATEGY, ds_state = SLOT_CLAIMED, ds_claim_owner = Some ''worker-1'',
      ds_claimed_at = Some 70000000, ds_lease_expires_at = Some 100000000, ds_attempt_count = 1,
      ds_completed_at = None, ds_reason_code = None, ds_correlation_id = ''correlation_'' @ sample_hash,
      ds_version = 3, ds_content_hash = sample_hash\<rparr>"

definition sample_store :: slot_store where
  "sample_store = \<lparr>slot_rows = [sample_slot], slot_streams = []\<rparr>"

lemma sample_slot_valid: "valid_slot (\<lambda>_. sample_hash) sample_slot"
proof -
  have "case validate_slot (\<lambda>_. sample_hash) sample_slot of Inr _ \<Rightarrow> True | Inl _ \<Rightarrow> False" by code_simp
  from res_evaluates [OF this] show ?thesis by (auto simp: valid_slot_def validate_slot_Inr)
qed

lemma sample_store_ok: "store_ok (\<lambda>_. sample_hash) sample_store"
  using sample_slot_valid by (simp add: store_ok_def streams_ok_def sample_store_def)

text \<open>The same slot after its deadline, and the evidence of its expiry.\<close>

definition sample_expiry :: slot_change where
  "sample_expiry = slot_outcome sample_slot SLOT_EXPIRED (Some 130000000) (Some ''decision_deadline_elapsed'')"

definition sample_expired :: DecisionSlot where
  "sample_expired = (evolved_slot sample_slot sample_expiry)\<lparr>ds_content_hash := sample_hash\<rparr>"

lemma sample_expired_evolves: "evolve_slot (\<lambda>_. sample_hash) sample_slot sample_expiry = Inr sample_expired"
proof -
  have "case evolve_slot (\<lambda>_. sample_hash) sample_slot sample_expiry of Inr x \<Rightarrow> ds_content_hash x = sample_hash | Inl _ \<Rightarrow> False"
    by code_simp
  then obtain x where x: "evolve_slot (\<lambda>_. sample_hash) sample_slot sample_expiry = Inr x" "ds_content_hash x = sample_hash"
    using res_evaluates by blast
  from x(1) obtain h where "x = (evolved_slot sample_slot sample_expiry)\<lparr>ds_content_hash := h\<rparr>" by (rule evolve_slot_Inr)
  with x show ?thesis by (simp add: sample_expired_def)
qed

definition sample_evidence :: "(string \<times> pval) list" where
  "sample_evidence = [(''attempt_count'', PInt 1), (''from_state'', PStr ''claimed''),
     (''idempotency_key'', PStr (''slot_transition_'' @ sample_hash)), (''slot_id'', PStr (''slot_'' @ sample_hash)),
     (''to_state'', PStr ''expired''), (''version'', PInt 4), (''reason_code'', PStr ''decision_deadline_elapsed''),
     (''completed_at'', PStr ''1970-01-01T00:02:10.000000Z'')]"

lemma sample_transition_payload:
  "transition_payload (\<lambda>_. sample_hash) (Some sample_slot) sample_expired = Inr (PMap sample_evidence)"
proof -
  have "deterministic_id_from (\<lambda>_. sample_hash) ''slot_transition''
      (PSeq [PStr ''slot-transition-v1'', PStr (''slot_'' @ sample_hash), PInt 4]) = Inr (''slot_transition_'' @ sample_hash)"
    by code_simp
  moreover have "timestamp_text 130000000 = ''1970-01-01T00:02:10.000000Z''" by code_simp
  moreover have "map lower_char ''CLAIMED'' = ''claimed''" "map lower_char ''EXPIRED'' = ''expired''" by code_simp+
  ultimately show ?thesis
    by (simp add: transition_payload_def sample_expired_def sample_expiry_def evolved_slot_def slot_outcome_def
        sample_slot_def sample_evidence_def del: list.map)
qed

lemma sample_evidence_payload:
  obtains p where "payload_from_mapping (\<lambda>_. sample_hash) (PMap sample_evidence) = Inr p" "pay_hash p = sample_hash"
    "validate_payload (\<lambda>_. sample_hash) p = Inr p"
proof -
  obtain kvs where j: "jval (PMap sample_evidence) = JObj kvs" by auto
  have "payload_from_mapping (\<lambda>_. sample_hash) (PMap sample_evidence) =
      Inr \<lparr>pay_json = dumps (JObj kvs), pay_hash = sample_hash\<rparr>"
  proof (rule payload_from_mapping_eval [OF _ _ j])
    show "within_limits (PMap sample_evidence)" "pwf (PMap sample_evidence)" by code_simp+
    have "case jval (PMap sample_evidence) of JObj kvs \<Rightarrow> guards_ok (audit_object_guards kvs True) | _ \<Rightarrow> False"
      by code_simp
    then show "guards_ok (audit_object_guards kvs True)" by (simp only: j json.case)
    have "within_limits (pval_of_json (jval (PMap sample_evidence)))" by code_simp
    then show "within_limits (pval_of_json (JObj kvs))" by (simp only: j)
    show "6 * ptext (PMap sample_evidence) + 28 * pnodes (PMap sample_evidence) \<le> 65540" by code_simp
  qed (rule sample_hash_is_hash)
  then show ?thesis using that payload_from_mapping_Inr by (auto simp: payload_from_mapping_def validate_payload_iff)
qed

lemma sample_record:
  "\<exists>st'. record_transition (\<lambda>_. sample_hash) (Some sample_slot) sample_expired 130000000
    \<lparr>slot_rows = rows, slot_streams = []\<rparr> = Inr ((), st')"
proof -
  obtain p where p: "payload_from_mapping (\<lambda>_. sample_hash) (PMap sample_evidence) = Inr p" "pay_hash p = sample_hash"
    "validate_payload (\<lambda>_. sample_hash) p = Inr p"
    by (rule sample_evidence_payload)
  define e where "e json = \<lparr>aud_event_id = ''audit_'' @ sample_hash, aud_stream_id = ''aqa_scheduler:slot_'' @ sample_hash, aud_sequence = 1,
     aud_previous_hash = AUDIT_GENESIS_HASH, aud_event_type = ''slot.transitioned'', aud_actor = SCHEDULER_WRITER,
     aud_occurred_at = 130000000, aud_payload_hash = sample_hash, aud_event_hash = sample_hash,
     aud_content_hash = sample_hash, aud_payload_json = json\<rparr>" for json
  have "create_audit_event (\<lambda>_. sample_hash) (''aqa_scheduler:slot_'' @ sample_hash) 1 AUDIT_GENESIS_HASH ''slot.transitioned''
      SCHEDULER_WRITER 130000000 p = Inr (e (pay_json p))"
  proof (rule create_audit_event_eval [OF p(3)])
    show "validate_audit_authority (''aqa_scheduler:slot_'' @ sample_hash) ''slot.transitioned'' SCHEDULER_WRITER = Inr SCHEDULER_WRITER"
      by code_simp
    show "is_hash AUDIT_GENESIS_HASH" by code_simp
    have "within_limits (audit_event_values (e []))" unfolding e_def by code_simp
    then have "within_limits (audit_event_values (e (pay_json p)))" by (simp add: audit_event_values_def e_def)
    then show "sha256_hex (\<lambda>_. sample_hash) (audit_event_values (e (pay_json p))) = Inr sample_hash" by (simp add: sha256_hex_code)
  qed (simp_all add: e_def MAX_SIGNED_64_BIT_INTEGER_def p(2))
  moreover have "ds_slot_id sample_expired = ''slot_'' @ sample_hash"
    by (simp add: sample_expired_def sample_expiry_def evolved_slot_def sample_slot_def)
  ultimately show ?thesis
    by (simp add: record_transition_def Let_def sample_transition_payload p(1) append_audit_def append_on_connection_def dict_get_def)
qed

lemma sample_late_claim:
  "\<exists>y. claim_slot (\<lambda>_. sample_hash) (\<lambda>_. True) (''slot_'' @ sample_hash) ''worker-2'' 130000000 sample_store = Inr y"
proof -
  have i: "ds_slot_id sample_slot = ''slot_'' @ sample_hash" by (simp add: sample_slot_def)
  have l: "length sample_hash = 64" by (simp add: sample_hash_def)
  have get: "require_on_connection (\<lambda>_. sample_hash) (''slot_'' @ sample_hash) sample_store = Inr (sample_slot, sample_store)"
    using sample_slot_valid
    by (simp add: require_on_connection_def get_on_connection_def bindT_def checkT_def returnT_def sample_store_def slot_from_row_def
        valid_slot_def slot_id_guards_def starts_with_def i l)
  obtain st' where rec: "record_transition (\<lambda>_. sample_hash) (Some sample_slot) sample_expired 130000000
      \<lparr>slot_rows = [sample_expired], slot_streams = []\<rparr> = Inr ((), st')" using sample_record by blast
  have "expire_locked (\<lambda>_. sample_hash) sample_slot 130000000 None sample_store = Inr (sample_expired, st')"
  proof -
    have "slot_transition (\<lambda>_. sample_hash) sample_slot 130000000 sample_expiry sample_store = Inr (sample_expired, st')"
      using rec by (simp add: slot_transition_def checkT_def bindT_def returnT_def sample_expired_evolves row_matches_def sample_store_def)
        (simp add: sample_expiry_def slot_outcome_def sample_slot_def)
    then show ?thesis by (simp add: expire_locked_def sample_expiry_def) (simp add: sample_slot_def)
  qed
  then have "claim_locked (\<lambda>_. sample_hash) (\<lambda>_. True) sample_slot ''worker-2'' 130000000 sample_store = Inr ((DEADLINE_ELAPSED, sample_expired), st')"
    by (simp add: claim_locked_def recover_claimed_def completion_deadline_missed_def completion_deadline_reason_def
        with_status_def bindT_def returnT_def) (simp add: sample_slot_def)
  moreover have "guards_ok [owner_guard ''worker-2'']" by code_simp
  ultimately show ?thesis using get by (simp add: claim_slot_def bindT_def checkT_def)
qed

section \<open>Properties\<close>

text \<open>
  C5. From the empty store, every sequence of repository operations, each with its own
  view of the materialized decisions, leaves the slots with distinct identifiers, every row a valid
  slot whose hashes match, and every audit stream of the scheduler a verified hash chain.
\<close>

theorem slot_store_stays_consistent:
  "store_ok sha (fold (\<lambda>(probe, c). run_slot_command sha probe c) cs \<lparr>slot_rows = [], slot_streams = []\<rparr>)"
proof -
  have "store_ok sha st \<Longrightarrow> store_ok sha (fold (\<lambda>(probe, c). run_slot_command sha probe c) cs st)" for st
    by (induction cs arbitrary: st) (use run_slot_command_steps in \<open>auto simp: steps_of_def\<close>)
  then show ?thesis using store_ok_empty by blast
qed

text \<open>
  C4. While a worker holds a live lease, no operation of another worker or of the scheduler
  takes the slot over or ends it before its completion deadline: the row is unchanged, or that
  deadline has passed (the decision deadline of a strategy slot, the required completion of a
  forced-flat slot) and the slot is expired or failed.
\<close>

theorem live_lease_not_taken:
  assumes "store_ok sha st" and "s \<in> set (slot_rows st)" and "ds_state s = SLOT_CLAIMED"
    and "ds_lease_expires_at s = Some l" and "command_time c < l" and "command_worker c \<noteq> ds_claim_owner s"
  shows "\<exists>s' \<in> set (slot_rows (run_slot_command sha probe c st)). ds_slot_id s' = ds_slot_id s \<and>
    (s' = s \<or> ds_state s' \<in> {SLOT_EXPIRED, SLOT_FAILED} \<and>
       (if ds_decision_type s = FORCED_FLAT then ds_required_completion_at s < command_time c
        else ds_deadline_at s \<le> command_time c))"
proof -
  obtain s' where s': "s' \<in> set (slot_rows (run_slot_command sha probe c st))"
    "(slot_step sha probe (command_worker c) (command_time c))\<^sup>*\<^sup>* s s'"
    using run_slot_command_steps [OF assms(1)] rows_steps_row [OF _ assms(2)] unfolding steps_of_def by blast
  have "ds_slot_id s' = ds_slot_id s" using steps_contract [OF s'(2)] by (simp add: slot_contract_def)
  then show ?thesis
    using steps_live_lease [OF s'(2) assms(3-5)] assms(6) s'(1) unfolding completion_deadline_missed_def by metis
qed

theorem live_lease_not_taken_witness:
  "\<exists>s' \<in> set (slot_rows (run_slot_command (\<lambda>_. sample_hash) (\<lambda>_. False)
      (ClaimSlot (''slot_'' @ sample_hash) ''worker-2'' 90000000) sample_store)).
    ds_slot_id s' = ''slot_'' @ sample_hash \<and> s' = sample_slot"
  using live_lease_not_taken [OF sample_store_ok, of sample_slot 100000000
      "ClaimSlot (''slot_'' @ sample_hash) ''worker-2'' 90000000" "\<lambda>_. False"]
  by (simp add: sample_store_def sample_slot_def)

text \<open>
  C17. An operation never changes what a slot is for: its identity and instants stay. Its state moves
  along the transition table, one version for every entry; a terminal slot is never touched again,
  and a slot is completed only when its decision is materialized.
\<close>

theorem slot_row_contract:
  assumes "store_ok sha st" and "s \<in> set (slot_rows st)"
  shows "\<exists>s' \<in> set (slot_rows (run_slot_command sha probe c st)). slot_contract s' = slot_contract s \<and>
    advances\<^sup>*\<^sup>* s s' \<and> (s' = s \<or> ds_version s < ds_version s') \<and> (ds_state s \<in> set TERMINAL_STATES \<longrightarrow> s' = s) \<and>
    (ds_state s' = SLOT_COMPLETED \<longrightarrow> s' = s \<or> probe (ds_slot_id s))"
proof -
  obtain s' where "s' \<in> set (slot_rows (run_slot_command sha probe c st))"
    "(slot_step sha probe (command_worker c) (command_time c))\<^sup>*\<^sup>* s s'"
    using run_slot_command_steps [OF assms(1)] rows_steps_row [OF _ assms(2)] unfolding steps_of_def by blast
  then show ?thesis using steps_contract steps_advance by blast
qed

theorem slot_row_contract_witness:
  "\<exists>s' \<in> set (slot_rows (run_slot_command (\<lambda>_. sample_hash) (\<lambda>_. False)
      (CompleteSlot (''slot_'' @ sample_hash) ''worker-1'' 90000000) sample_store)).
    slot_contract s' = slot_contract sample_slot \<and> (ds_state s' = SLOT_COMPLETED \<longrightarrow> s' = sample_slot)"
  using slot_row_contract [OF sample_store_ok, of sample_slot "\<lambda>_. False"
      "CompleteSlot (''slot_'' @ sample_hash) ''worker-1'' 90000000"]
  by (auto simp: sample_store_def)

text \<open>
  C35. Claiming or recovering an open strategy slot at or after its deadline ends it as
  expired, even if its decision is materialized: the branch of \<open>_claim_locked\<close> that completes a
  materialized slot after the deadline is never reached.
\<close>

theorem late_claim_expires:
  assumes "store_ok sha st" and "s \<in> set (slot_rows st)" and "ds_decision_type s = STRATEGY"
    and "ds_state s \<notin> set TERMINAL_STATES" and "ds_deadline_at s \<le> t"
    and "claim_slot sha probe (ds_slot_id s) owner t st = Inr (r, st')"
  shows "fst r = DEADLINE_ELAPSED \<and> ds_state (snd r) = SLOT_EXPIRED \<and> snd r \<in> set (slot_rows st')"
proof -
  from assms(1,6) obtain q where q: "q \<in> set (slot_rows st)" "ds_slot_id q = ds_slot_id s"
    "claim_locked sha probe q owner t st = Inr (r, st')" "snd r \<in> set (slot_rows st')"
    by (rule claim_slot_steps)
  have "q = s" using assms(1,2) q(1,2) by (auto simp: store_ok_def distinct_map inj_on_def)
  then show ?thesis using late_claim_locked [OF assms(3-5)] q by blast
qed

theorem late_claim_expires_witness:
  "\<exists>r st'. claim_slot (\<lambda>_. sample_hash) (\<lambda>_. True) (''slot_'' @ sample_hash) ''worker-2'' 130000000 sample_store = Inr (r, st') \<and>
     fst r = DEADLINE_ELAPSED \<and> ds_state (snd r) = SLOT_EXPIRED"
proof -
  obtain y where "claim_slot (\<lambda>_. sample_hash) (\<lambda>_. True) (''slot_'' @ sample_hash) ''worker-2'' 130000000 sample_store = Inr y"
    using sample_late_claim by blast
  then obtain r st' where run: "claim_slot (\<lambda>_. sample_hash) (\<lambda>_. True) (''slot_'' @ sample_hash) ''worker-2'' 130000000 sample_store = Inr (r, st')"
    by (cases y) auto
  have "fst r = DEADLINE_ELAPSED \<and> ds_state (snd r) = SLOT_EXPIRED \<and> snd r \<in> set (slot_rows st')"
    by (rule late_claim_expires [OF sample_store_ok, of sample_slot 130000000 "\<lambda>_. True" "''worker-2''"])
      (use run in \<open>simp_all add: sample_store_def sample_slot_def\<close>)
  with run show ?thesis by blast
qed

end
