(* ===== verification/Risk_Sizing.thy ===== *)
theory Risk_Sizing
  imports Experiments
begin

text \<open>
  Statistics and initial sizing: \<open>Decimal.sqrt\<close> of the standard library (Newton iteration on
  integers), the consistency rules of \<open>RiskStatistics\<close> (\<open>risk/statistics.py\<close>), and the scores and
  volatility-scaled targets of \<open>risk/policy.py\<close>. Whether a covariance matrix respects the eigenvalue
  floor is decided by NumPy; that test is the argument \<open>respects_floor\<close>.
\<close>

section \<open>Square roots\<close>

function newton_sqrt :: "int \<Rightarrow> int \<Rightarrow> int" where
  "newton_sqrt c n = (if n \<le> 0 \<or> n \<le> c div n then n else newton_sqrt c ((n + c div n) div 2))"
  by auto
termination by (relation "measure (\<lambda>(c, n). nat n)") auto

declare newton_sqrt.simps [simp del]

text \<open>Started above the root, the iteration ends at the integer square root.\<close>

lemma newton_sqrt_correct:
  assumes "0 < c" "0 < n" "c < (n + 1) ^ 2"
  shows "newton_sqrt c n ^ 2 \<le> c \<and> c < (newton_sqrt c n + 1) ^ 2"
  using assms
proof (induction c n rule: newton_sqrt.induct)
  case (1 c n)
  define q where "q = c div n"
  have r: "c = q * n + c mod n" "0 \<le> c mod n" "c mod n < n" using "1.prems" by (simp_all add: q_def)
  have q: "0 \<le> q" using "1.prems" by (simp add: q_def pos_imp_zdiv_nonneg_iff)
  have q2: "q * n \<le> c" using r by linarith
  have q3: "c < (q + 1) * n" using r by (metis add_strict_left_mono distrib_right mult_1)
  show ?case
  proof (cases "n \<le> q")
    case True
    then have "n * n \<le> q * n" using "1.prems" by (simp add: mult_right_mono)
    then have "n ^ 2 \<le> c" using q2 by (simp add: power2_eq_square)
    then show ?thesis using True "1.prems" by (subst (1 2) newton_sqrt.simps) (simp add: q_def)
  next
    case False
    define m where "m = (n + q) div 2"
    have "n + q + 1 \<le> 2 * (m + 1)" unfolding m_def by presburger
    then have "(n + q + 1) ^ 2 \<le> (2 * (m + 1)) ^ 2" using "1.prems"(2) q by (intro power_mono) auto
    moreover have "4 * ((q + 1) * n) \<le> (n + q + 1) ^ 2"
    proof -
      have "0 \<le> (n - (q + 1)) ^ 2" by simp
      then show ?thesis by (simp add: power2_eq_square algebra_simps)
    qed
    ultimately have "4 * c < (2 * (m + 1)) ^ 2" using q3 by linarith
    then have bound: "c < (m + 1) ^ 2" by (simp add: power2_eq_square algebra_simps)
    have "m \<noteq> 0"
    proof
      assume "m = 0"
      then have "c < 1" using bound by simp
      with "1.prems"(1) show False by simp
    qed
    moreover have "0 \<le> m" using "1.prems"(2) q unfolding m_def by (intro pos_imp_zdiv_nonneg_iff [THEN iffD2]) simp_all
    ultimately have "0 < m" by simp
    moreover have "\<not> (n \<le> 0 \<or> n \<le> c div n)" using False "1.prems"(2) by (simp add: q_def)
    ultimately have "newton_sqrt c m ^ 2 \<le> c \<and> c < (newton_sqrt c m + 1) ^ 2"
      using "1.IH" "1.prems"(1) bound by (simp add: m_def q_def)
    moreover have "newton_sqrt c n = newton_sqrt c m"
      using \<open>\<not> (n \<le> 0 \<or> n \<le> c div n)\<close> by (subst newton_sqrt.simps) (simp add: m_def q_def)
    ultimately show ?thesis by simp
  qed
qed

fun dsqrt :: "int \<Rightarrow> decimal \<Rightarrow> decimal option" where
  "dsqrt p (Dec c e) =
     (if c = 0 then Some (dfix p (Dec 0 (e div 2)))
      else if c < 0 then None
      else
        (let prec = p + 1;
             (c1, l) = (if odd e then (c * 10, ndigits c div 2 + 1) else (c, (ndigits c + 1) div 2));
             shift = prec - l;
             (c2, exact) = (if 0 \<le> shift then (c1 * p10 (2 * shift), True)
               else (c1 div p10 (- 2 * shift), c1 mod p10 (- 2 * shift) = 0));
             n = newton_sqrt c2 (p10 prec)
         in Some (dfix p
              (if exact \<and> n * n = c2 then Dec (if 0 \<le> shift then n div p10 shift else n * p10 (- shift)) (e div 2)
               else Dec (if n mod 5 = 0 then n + 1 else n) (e div 2 - shift)))))"

section \<open>Statistics\<close>

abbreviation statistics_error :: "string \<Rightarrow> error" where
  "statistics_error \<equiv> RiskStatisticsError"

definition RETURNS_PER_SYMBOL :: int where "RETURNS_PER_SYMBOL = 20 * 25"

definition ANNUALIZATION_FACTOR :: decimal where "ANNUALIZATION_FACTOR = Dec 6552 0"

definition sigma_for :: "RiskStatistics \<Rightarrow> string \<Rightarrow> decimal res" where
  "sigma_for st s =
     (case index_of s (stat_symbols st) of
        Some i \<Rightarrow> Inr (annualized_sigma st ! i)
      | None \<Rightarrow> Inl (statistics_error ''sigma requested for an unknown symbol''))"

definition covariance_for :: "RiskStatistics \<Rightarrow> string \<Rightarrow> string \<Rightarrow> decimal res" where
  "covariance_for st left right =
     (case (index_of left (stat_symbols st), index_of right (stat_symbols st)) of
        (Some i, Some j) \<Rightarrow> Inr (annualized_covariance st ! i ! j)
      | _ \<Rightarrow> Inl (statistics_error ''covariance requested for an unknown symbol''))"

definition normalize_symbols :: "string list \<Rightarrow> string list res" where
  "normalize_symbols ss =
     guarded
      [(ss = [] \<or> list_ex (\<lambda>s. \<not> is_policy_symbol s) ss, statistics_error ''active symbols are invalid''),
       (\<not> distinct ss, statistics_error ''active symbols must be unique'')]
     (Inr (sort ss))"

definition positive_guards :: "decimal \<Rightarrow> string \<Rightarrow> (bool \<times> error) list" where
  "positive_guards d field =
     [(\<not> domain_decimal d, statistics_error (field @ '' must be a finite exact decimal'')),
      (dle d dzero, statistics_error (field @ '' must be positive''))]"

definition decimal_sqrt :: "decimal \<Rightarrow> decimal res" where
  "decimal_sqrt v =
     (if dle v dzero then Inl (statistics_error ''floored covariance diagonal must be positive'')
      else case dsqrt 50 v of
        None \<Rightarrow> Inl (statistics_error ''annualized sigma could not be calculated'')
      | Some r \<Rightarrow> require_finite_decimal r)"

text \<open>The off-diagonal entries are computed at 50 digits and made symmetric at the default 28.\<close>

definition raw_correlation :: "decimal list list \<Rightarrow> decimal list \<Rightarrow> nat \<Rightarrow> nat \<Rightarrow> decimal res" where
  "raw_correlation cov sigma i j =
     (if i = j then Inr dunit
      else bindE (quotient (cov ! i ! j) (dmul 50 (sigma ! i) (sigma ! j))) (\<lambda>q.
        Inr (dmax (Dec (- 1) 0) (dmin dunit q))))"

definition correlation_matrix :: "decimal list list \<Rightarrow> decimal list \<Rightarrow> decimal list list res" where
  "correlation_matrix cov sigma =
     (let is = [0..<length cov] in
      bindE (mapE (\<lambda>i. mapE (raw_correlation cov sigma i) [0..<length (cov ! i)]) is) (\<lambda>m.
        mapE (\<lambda>row. mapE (\<lambda>column.
          if row = column then Inr dunit
          else (case ddiv 28 (dadd 28 (m ! row ! column) (m ! column ! row)) (Dec 2 0) of
                  None \<Rightarrow> Inl (DecimalException ''DivisionByZero'') | Some q \<Rightarrow> Inr q)) is) is))"

text \<open>\<open>int(value, 16)\<close> of ASCII text does not raise.\<close>

definition is_hex_any :: "char \<Rightarrow> bool" where
  "is_hex_any c \<longleftrightarrow> is_hex c \<or> CHR ''A'' \<le> c \<and> c \<le> CHR ''F''"

definition is_space :: "char \<Rightarrow> bool" where
  "is_space c \<longleftrightarrow> (of_char c :: nat) \<in> {9, 10, 11, 12, 13, 28, 29, 30, 31, 32}"

definition hex_literal :: "string \<Rightarrow> bool" where
  "hex_literal s =
     (let t = rev (dropWhile is_space (rev (dropWhile is_space s)));
          u = (case t of [] \<Rightarrow> [] | c # cs \<Rightarrow> if c \<in> set ''+-'' then cs else t);
          v = (if starts_with ''0x'' u \<or> starts_with ''0X'' u
               then (case drop 2 u of [] \<Rightarrow> [] | c # cs \<Rightarrow> if c = CHR ''_'' then cs else drop 2 u) else u)
      in list_all (\<lambda>f. f \<noteq> [] \<and> list_all is_hex_any f) (split_on CHR ''_'' v))"

definition statistics_hash_guards :: "string \<Rightarrow> (bool \<times> error) list" where
  "statistics_hash_guards h =
     [(length h \<noteq> 64 \<or> \<not> hex_literal h \<or> list_ex is_upper h, statistics_error ''statistics hashes must be lowercase SHA-256'')]"

definition statistics_payload :: "RiskStatistics \<Rightarrow> pval" where
  "statistics_payload st = PMap
     [(''annualization_factor'', PDec (annualization_factor st)),
      (''annualized_covariance'', PSeq (map (\<lambda>r. PSeq (map PDec r)) (annualized_covariance st))),
      (''annualized_sigma'', PSeq (map PDec (annualized_sigma st))),
      (''eigenvalue_floor'', PDec (eigenvalue_floor st)),
      (''input_hash'', PStr (stat_input_hash st)),
      (''observation_count'', PInt (observation_count st)),
      (''prior_correlation'', PSeq (map (\<lambda>r. PSeq (map PDec r)) (prior_correlation st))),
      (''schema'', PStr ''signed-risk-statistics-output-v1''),
      (''symbols'', PSeq (map PStr (stat_symbols st)))]"

definition matrix_size :: "nat \<Rightarrow> 'a list list \<Rightarrow> bool" where
  "matrix_size n m \<longleftrightarrow> length m = n \<and> list_all (\<lambda>r. length r = n) m"

definition entry_checks :: "RiskStatistics \<Rightarrow> nat \<Rightarrow> nat \<Rightarrow> (bool \<times> error) list" where
  "entry_checks st i j =
     (let cov = annualized_covariance st; cor = prior_correlation st in
      [(\<not> domain_decimal (cov ! i ! j), DomainValidationError ''annualized_covariance''),
       (\<not> domain_decimal (cor ! i ! j), DomainValidationError ''prior_correlation''),
       (\<not> deq (cov ! i ! j) (cov ! j ! i), statistics_error ''annualized covariance must be symmetric''),
       (\<not> deq (cor ! i ! j) (cor ! j ! i), statistics_error ''prior correlation must be symmetric''),
       (\<not> (dle (Dec (- 1) 0) (cor ! i ! j) \<and> dle (cor ! i ! j) dunit),
         statistics_error ''prior correlation must be in [-1, 1]'')])"

definition row_check :: "RiskStatistics \<Rightarrow> nat \<Rightarrow> decimal list \<Rightarrow> decimal list res" where
  "row_check st i expected =
     guarded (positive_guards (annualized_sigma st ! i) ''annualized_sigma'')
     (bindE (decimal_sqrt (annualized_covariance st ! i ! i)) (\<lambda>root.
      guarded (concat (map (entry_checks st i) [0..<length (stat_symbols st)]) @
        [(\<not> deq (prior_correlation st ! i ! i) dunit, statistics_error ''prior correlation diagonal must equal one'')])
      (Inr (expected @ [root]))))"

definition validate_statistics :: "sha256 \<Rightarrow> (decimal list list \<Rightarrow> decimal \<Rightarrow> bool) \<Rightarrow> RiskStatistics \<Rightarrow> RiskStatistics res" where
  "validate_statistics sha respects_floor st =
     bindE (normalize_symbols (stat_symbols st)) (\<lambda>symbols.
     let size = length symbols in
     guarded
      ([(symbols \<noteq> stat_symbols st, statistics_error ''statistics symbols must be alphabetically ordered''),
        (observation_count st \<noteq> RETURNS_PER_SYMBOL,
          statistics_error ''statistics must contain exactly 500 observations per symbol''),
        (\<not> deq (annualization_factor st) ANNUALIZATION_FACTOR, statistics_error ''statistics annualization factor is invalid'')] @
       positive_guards (eigenvalue_floor st) ''eigenvalue_floor'' @
       [(\<not> matrix_size size (annualized_covariance st) \<or> \<not> matrix_size size (prior_correlation st),
          statistics_error ''statistics matrix dimensions are invalid''),
        (length (annualized_sigma st) \<noteq> size, statistics_error ''statistics sigma dimensions are invalid'')])
     (bindE (foldE (row_check st) [0..<size] []) (\<lambda>expected_sigma.
      guarded [(\<not> list_all2 deq (annualized_sigma st) expected_sigma, statistics_error ''annualized sigma does not match covariance'')]
     (bindE (correlation_matrix (annualized_covariance st) (annualized_sigma st)) (\<lambda>expected_correlation.
      guarded
       ([(\<not> list_all2 (list_all2 deq) (prior_correlation st) expected_correlation,
           statistics_error ''prior correlation does not match covariance''),
         (\<not> respects_floor (annualized_covariance st) (eigenvalue_floor st),
           statistics_error ''annualized covariance violates the eigenvalue floor'')] @
        statistics_hash_guards (stat_input_hash st) @ statistics_hash_guards (stat_output_hash st))
     (bindE (sha256_hex sha (statistics_payload st)) (\<lambda>h.
      guarded [(stat_output_hash st \<noteq> h, statistics_error ''statistics output hash is invalid'')] (Inr st))))))))"

section \<open>Initial targets\<close>

datatype SignalDirection = FLAT_DIRECTION | LONG_DIRECTION | SHORT_DIRECTION

record SymbolSignal =
  ss_symbol :: string
  ss_direction :: SignalDirection
  ss_expected_edge_bps :: "decimal option"

definition symbol_signal_guards :: "SymbolSignal \<Rightarrow> (bool \<times> error) list" where
  "symbol_signal_guards x =
     (\<not> is_policy_symbol (ss_symbol x), policy_error ''symbol is invalid'') #
     (case ss_expected_edge_bps x of
        Some edge \<Rightarrow>
          [policy_guard_decimal edge ''expected_edge_bps'',
           (dlt (Dec 1000000 0) (dabs 28 edge), policy_error ''expected edge exceeds the bounded policy range''),
           (ss_direction x = LONG_DIRECTION \<and> dle edge dzero, policy_error ''long expected edge must be positive''),
           (ss_direction x = SHORT_DIRECTION \<and> dle dzero edge, policy_error ''short expected edge must be negative''),
           (ss_direction x = FLAT_DIRECTION \<and> \<not> deq edge dzero, policy_error ''flat expected edge must be zero when supplied'')]
      | None \<Rightarrow> [(ss_direction x \<noteq> FLAT_DIRECTION, policy_error ''non-flat signals require expected edge'')])"

definition validate_symbol_signal :: "SymbolSignal \<Rightarrow> SymbolSignal res" where
  "validate_symbol_signal x = guarded (symbol_signal_guards x) (Inr x)"

record InitialTargetResult =
  raw_scores :: weights
  forecast_volatility :: "decimal option"
  it_multiplier :: "decimal option"
  it_targets :: weights
  it_reason_code :: "string option"
  it_content_hash :: string

definition initial_target_hash :: "sha256 \<Rightarrow> InitialTargetResult \<Rightarrow> string res" where
  "initial_target_hash sha r = sha256_hex sha (PMap
     [(''forecast_volatility'', optional_pval PDec (forecast_volatility r)),
      (''multiplier'', optional_pval PDec (it_multiplier r)),
      (''raw_scores'', pval_weights (raw_scores r)),
      (''reason_code'', optional_pval PStr (it_reason_code r)),
      (''schema'', PStr ''signed-risk-initial-target-v1''),
      (''targets'', pval_weights (it_targets r))])"

definition optional_decimal_guards :: "decimal option \<Rightarrow> string \<Rightarrow> (bool \<times> error) list" where
  "optional_decimal_guards d field = (case d of None \<Rightarrow> [] | Some v \<Rightarrow> [policy_guard_decimal v field])"

definition validate_initial :: "sha256 \<Rightarrow> InitialTargetResult \<Rightarrow> InitialTargetResult res" where
  "validate_initial sha r =
     guarded
      (weight_guards (raw_scores r) @ weight_guards (it_targets r) @
       [(map fst (raw_scores r) \<noteq> map fst (it_targets r), policy_error ''score and target symbols do not match'')] @
       optional_decimal_guards (forecast_volatility r) ''forecast_volatility'' @
       optional_decimal_guards (it_multiplier r) ''multiplier'' @
       [(it_reason_code r = Some '''', policy_error ''initial target reason is invalid'')])
     (bindE (initial_target_hash sha r) (\<lambda>h.
       guarded [(it_content_hash r \<noteq> h, policy_error ''initial target result hash is invalid'')] (Inr r)))"

definition initial_target_result :: "sha256 \<Rightarrow> weights \<Rightarrow> decimal option \<Rightarrow> decimal option \<Rightarrow> weights \<Rightarrow> string option \<Rightarrow>
    InitialTargetResult res" where
  "initial_target_result sha scores volatility m targets reason =
     (let r = \<lparr>raw_scores = scores, forecast_volatility = volatility, it_multiplier = m, it_targets = targets,
        it_reason_code = reason, it_content_hash = ''''\<rparr>
      in bindE (initial_target_hash sha r) (\<lambda>h. validate_initial sha (r\<lparr>it_content_hash := h\<rparr>)))"

fun direction_sign :: "SignalDirection \<Rightarrow> decimal" where
  "direction_sign FLAT_DIRECTION = dzero"
| "direction_sign LONG_DIRECTION = dunit"
| "direction_sign SHORT_DIRECTION = dneg 50 dunit"

definition raw_score :: "RiskStatistics \<Rightarrow> RiskPolicySpec \<Rightarrow> SymbolSignal \<Rightarrow> (string \<times> decimal) res" where
  "raw_score st p x =
     (let edge = (case ss_expected_edge_bps x of None \<Rightarrow> dzero | Some v \<Rightarrow> v) in
      bindE (quotient (dabs 50 edge) (edge_saturation_bps p)) (\<lambda>q.
      bindE (sigma_for st (ss_symbol x)) (\<lambda>sigma.
      bindE (quotient (dmul 50 (direction_sign (ss_direction x)) (dmin q dunit)) (dmax sigma (sigma_floor p))) (\<lambda>score.
        Inr (ss_symbol x, score)))))"

definition forecast_variance :: "RiskStatistics \<Rightarrow> weights \<Rightarrow> decimal res" where
  "forecast_variance st scores =
     bindE (mapE (\<lambda>((l, ls), (r, rs)). bindE (covariance_for st l r) (\<lambda>c. Inr (dmul 50 (dmul 50 ls c) rs)))
       (List.product scores scores)) (\<lambda>xs. Inr (dsum 50 xs))"

text \<open>The arithmetic of the \<open>try\<close> block; a trapped decimal condition becomes a policy error.\<close>

definition scaled_targets :: "RiskStatistics \<Rightarrow> RiskPolicySpec \<Rightarrow> weights \<Rightarrow> (decimal \<times> decimal \<times> weights) res" where
  "scaled_targets st p scores =
     bindE (forecast_variance st scores) (\<lambda>variance.
     if dle variance dzero then Inl (policy_error ''forecast volatility is nonpositive or nonfinite'')
     else case dsqrt 50 variance of
       None \<Rightarrow> Inl (policy_error ''forecast volatility could not be calculated'')
     | Some volatility \<Rightarrow>
         if dle volatility dzero then Inl (policy_error ''forecast volatility is nonpositive or nonfinite'')
         else case ddiv 50 (target_annualized_volatility p) volatility of
           None \<Rightarrow> Inl (policy_error ''forecast volatility could not be calculated'')
         | Some m \<Rightarrow>
             if dle m dzero then Inl (policy_error ''initial multiplier is nonpositive or nonfinite'')
             else Inr (volatility, m, map (\<lambda>(s, score). (s, dmul 50 score m)) scores))"

definition calculate_initial_targets :: "sha256 \<Rightarrow> SymbolSignal list \<Rightarrow> RiskStatistics \<Rightarrow> RiskPolicySpec \<Rightarrow>
    InitialTargetResult res" where
  "calculate_initial_targets sha signals st p =
     (let symbols = map ss_symbol signals in
      guarded ([(signals = [], policy_error ''signals must be a nonempty bounded sequence''),
         (symbols \<noteq> sort symbols \<or> \<not> distinct symbols, policy_error ''signals must be unique and alphabetically ordered'')] @
        policy_guards p @ [(symbols \<noteq> stat_symbols st, policy_error ''signal and statistics symbols do not match'')])
      (bindE (mapE (raw_score st p) signals) (\<lambda>scores.
       if \<forall>(s, v) \<in> set scores. deq v dzero then
         initial_target_result sha scores None None (map (\<lambda>s. (s, dzero)) symbols) (Some ''all_scores_zero'')
       else bindE (scaled_targets st p scores) (\<lambda>(volatility, m, targets).
         initial_target_result sha scores (Some volatility) (Some m) targets None))))"

end
