(* ===== verification/Risk_Engine.thy ===== *)
theory Risk_Engine
  imports Risk_Decisions Risk_Sizing Signals
begin

text \<open>
  The signed-risk engine (\<open>risk/engine.py\<close>) and its input (\<open>RiskEvaluationRequest\<close> and
  \<open>risk_input_hash\<close> of \<open>risk/models.py\<close>). The gates collect reason codes; a reason marked \<open>True\<close> is one
  of the source's \<open>no_execution_reasons\<close>. Any reason blocks the proposal; without one the signal is
  sized, constrained and held within the rebalance band. Instants and durations are microseconds.
\<close>

section \<open>Requests\<close>

record RiskEvaluationRequest =
  re_signal :: SignalEnvelope
  re_decision_context :: DecisionContext
  re_positions :: "SignedPosition list"
  re_open_orders :: OpenOrderSnapshot
  re_account :: AccountSnapshot
  re_prices :: "PlanningPrice list"
  re_security_metadata :: "SecurityMetadataSnapshot list"
  re_reconciliation :: ReconciliationSnapshot
  re_market_integrity :: MarketIntegritySnapshot
  re_session_start_equity :: decimal
  re_deployment_high_water_equity :: decimal
  re_statistics :: RiskStatistics
  re_latch_state :: RiskLatchState
  re_operator_halt :: bool
  re_evaluated_at :: int

definition risk_guards_positive :: "decimal \<Rightarrow> string \<Rightarrow> (bool \<times> error) list" where
  "risk_guards_positive d field =
     [risk_guard_decimal d field, (dle d dzero, risk_error (field @ '' must be positive''))]"

definition request_guards :: "RiskEvaluationRequest \<Rightarrow> (bool \<times> error) list" where
  "request_guards r =
     (let active = sg_active_symbols (re_signal r) in
      [record_guard (map sp_symbol (re_positions r)) active ''positions'',
       record_guard (map pp_symbol (re_prices r)) active ''prices'',
       record_guard (map sm_symbol (re_security_metadata r)) active ''security metadata'',
       (map fst (oo_reserved_signed_notional (re_open_orders r)) \<noteq> active,
         risk_error ''open orders must contain exactly active symbols'')] @
      risk_guards_positive (re_session_start_equity r) ''session_start_equity'' @
      risk_guards_positive (re_deployment_high_water_equity r) ''deployment_high_water_equity'')"

definition validate_evaluation_request :: "RiskEvaluationRequest \<Rightarrow> RiskEvaluationRequest res" where
  "validate_evaluation_request r = guarded (request_guards r) (Inr r)"

definition risk_input_hash :: "sha256 \<Rightarrow> RiskEvaluationRequest \<Rightarrow> string \<Rightarrow> string res" where
  "risk_input_hash sha r pol =
     guarded [risk_guard_hash pol ''policy_hash'']
     (sha256_hex sha (PMap
       [(''account'', PMap
           [(''account_id_hash'', PStr (as_account_id_hash (re_account r))),
            (''buying_power'', PDec (as_buying_power (re_account r))),
            (''cash'', PDec (as_cash (re_account r))),
            (''equity'', PDec (as_equity (re_account r))),
            (''observed_at'', PTime (as_observed_at (re_account r)))]),
        (''decision_context'', PMap
           [(''data_contract_hash'', PStr (cx_data_contract_hash (re_decision_context r))),
            (''policy_hash'', PStr (cx_policy_hash (re_decision_context r))),
            (''slot_hash'', PStr (ds_content_hash (cx_slot (re_decision_context r))))]),
        (''deployment_high_water_equity'', PDec (re_deployment_high_water_equity r)),
        (''evaluated_at'', PTime (re_evaluated_at r)),
        (''latch_state_hash'', PStr (st_content_hash (re_latch_state r))),
        (''market_integrity_hash'', PStr (mi_content_hash (re_market_integrity r))),
        (''open_orders_hash'', PStr (oo_content_hash (re_open_orders r))),
        (''operator_halt'', PBool (re_operator_halt r)),
        (''policy_hash'', PStr pol),
        (''positions'', PSeq (map (\<lambda>p. PSeq [PStr (sp_symbol p), PDec (sp_quantity p)]) (re_positions r))),
        (''prices'', PSeq (map (\<lambda>p. PSeq [PStr (pp_symbol p), PDec (pp_price p), PTime (pp_observed_at p),
           PBool (pp_validated p)]) (re_prices r))),
        (''reconciliation_hash'', PStr (rs_content_hash (re_reconciliation r))),
        (''schema'', PStr ''signed-risk-input-v1''),
        (''security_metadata'', PSeq (map pval_metadata (re_security_metadata r))),
        (''session_start_equity'', PDec (re_session_start_equity r)),
        (''signal_hash'', PStr (sg_content_hash (re_signal r))),
        (''statistics_hash'', PStr (stat_output_hash (re_statistics r)))]))"

section \<open>Gates\<close>

type_synonym gate = "string \<times> bool"

definition blocks :: "bool \<Rightarrow> string \<Rightarrow> gate list" where
  "blocks b r = (if b then [(r, False)] else [])"

definition halts :: "bool \<Rightarrow> string \<Rightarrow> gate list" where
  "halts b r = (if b then [(r, True)] else [])"

definition RISK_ACCOUNT_FRESHNESS :: int where "RISK_ACCOUNT_FRESHNESS = 30 * 1000000"

definition RISK_SECURITY_FRESHNESS :: int where "RISK_SECURITY_FRESHNESS = 300 * 1000000"

definition RISK_RECONCILIATION_FRESHNESS :: int where "RISK_RECONCILIATION_FRESHNESS = 60 * 1000000"

definition RISK_PRICE_FRESHNESS :: int where "RISK_PRICE_FRESHNESS = 120 * 1000000"

definition fresh :: "int \<Rightarrow> int \<Rightarrow> int \<Rightarrow> bool" where
  "fresh observed t maximum_age \<longleftrightarrow> 0 \<le> t - observed \<and> t - observed \<le> maximum_age"

definition lower_symbol :: "string \<Rightarrow> string" where
  "lower_symbol s = map lower_char s"

definition identity_gates :: "RiskEvaluationRequest \<Rightarrow> ExperimentDefinition \<Rightarrow> string \<Rightarrow> string \<Rightarrow> gate list" where
  "identity_gates r x h pol =
     (let g = re_signal r; c = re_decision_context r in
      blocks (case validate_for g c of Inl _ \<Rightarrow> True | Inr _ \<Rightarrow> False) ''signal_context_mismatch'' @
      blocks (sg_experiment_id g \<noteq> experiment_id x \<or> sg_experiment_version g \<noteq> experiment_version x \<or>
        sg_experiment_hash g \<noteq> h \<or> ds_experiment_hash (cx_slot c) \<noteq> h) ''experiment_identity_mismatch'' @
      blocks (sg_active_symbols g \<noteq> active_tradable x) ''active_symbol_set_mismatch'' @
      blocks (sg_policy_hash g \<noteq> pol \<or> cx_policy_hash c \<noteq> pol) ''policy_hash_mismatch'' @
      blocks (stat_symbols (re_statistics r) \<noteq> sg_active_symbols g) ''statistics_symbol_mismatch'' @
      blocks (\<not> deq (eigenvalue_floor (re_statistics r)) (covariance_eigenvalue_floor (risk_policy x)))
        ''statistics_policy_mismatch'' @
      blocks (st_experiment_hash (re_latch_state r) \<noteq> h) ''latch_experiment_mismatch'' @
      blocks (re_evaluated_at r \<ge> sg_expires_at g) ''signal_expired'' @
      blocks (re_evaluated_at r \<ge> ds_deadline_at (cx_slot c)) ''slot_deadline_passed'')"

definition price_gates :: "int \<Rightarrow> PlanningPrice \<Rightarrow> gate list" where
  "price_gates t p =
     halts (\<not> pp_validated p) (''planning_price_unvalidated_'' @ lower_symbol (pp_symbol p)) @
     halts (\<not> fresh (pp_observed_at p) t RISK_PRICE_FRESHNESS) (''planning_price_stale_'' @ lower_symbol (pp_symbol p))"

definition freshness_gates :: "RiskEvaluationRequest \<Rightarrow> gate list" where
  "freshness_gates r =
     (let t = re_evaluated_at r in
      halts (\<not> fresh (as_observed_at (re_account r)) t RISK_ACCOUNT_FRESHNESS) ''account_stale'' @
      halts (\<not> fresh (rs_observed_at (re_reconciliation r)) t RISK_RECONCILIATION_FRESHNESS) ''reconciliation_stale'' @
      halts (\<not> fresh (oo_observed_at (re_open_orders r)) t RISK_RECONCILIATION_FRESHNESS) ''open_order_state_stale'' @
      concat (map (price_gates t) (re_prices r)) @
      concat (map (\<lambda>m. halts (\<not> fresh (sm_observed_at m) t RISK_SECURITY_FRESHNESS)
        (''security_metadata_stale_'' @ lower_symbol (sm_symbol m))) (re_security_metadata r)))"

definition integrity_gates :: "RiskEvaluationRequest \<Rightarrow> gate list" where
  "integrity_gates r =
     (let m = re_market_integrity r in
      blocks (\<not> mi_active_basket_complete m \<or> \<not> list_all id (sg_availability_mask (re_signal r))) ''active_basket_incomplete'' @
      blocks (mi_unresolved_gap m) ''unresolved_data_gap'' @
      blocks (mi_correction_uncertainty m) ''correction_uncertainty'' @
      blocks (\<not> mi_supported_session m) ''unsupported_session'')"

definition security_gates :: "SecurityMetadataSnapshot \<Rightarrow> SignalAction \<Rightarrow> gate list" where
  "security_gates m action =
     (if action = FLAT_ACTION then []
      else
        (let s = lower_symbol (sm_symbol m) in
         blocks (\<not> sm_asset_active m) (''asset_inactive_'' @ s) @
         blocks (\<not> sm_tradable m) (''asset_not_tradable_'' @ s) @
         blocks (\<not> sm_primary_listing_eligible m) (''primary_listing_ineligible_'' @ s) @
         blocks (\<not> sm_broker_capability_known m) (''broker_capability_unknown_'' @ s) @
         blocks (action = SHORT_ACTION \<and> \<not> (sm_shortable m \<and> sm_easy_to_borrow m)) (''short_not_eligible_'' @ s)))"

definition eligibility_gates :: "RiskEvaluationRequest \<Rightarrow> gate list res" where
  "eligibility_gates r =
     bindE (mapE (\<lambda>m. bindE (action_for (re_signal r) (sm_symbol m)) (\<lambda>a. Inr (security_gates m a))) (re_security_metadata r)) (\<lambda>gs.
     Inr (halts (dle (as_equity (re_account r)) dzero) ''account_equity_nonpositive'' @
       halts (oo_ambiguous_order_exists (re_open_orders r) \<or> rs_ambiguous_order_exists (re_reconciliation r))
         ''ambiguous_order_exists'' @
       halts (oo_conflicting_symbols (re_open_orders r) \<noteq> []) ''open_order_conflict'' @
       halts (\<not> rs_reconciled (re_reconciliation r)) ''reconciliation_not_clean'' @
       blocks (list_ex (\<lambda>a. a \<noteq> FLAT_ACTION) (sg_actions (re_signal r)) \<and> dle (as_buying_power (re_account r)) dzero)
         ''buying_power_unavailable'' @
       concat gs))"

section \<open>Latches\<close>

definition latch_key :: "RiskEvaluationRequest \<Rightarrow> string \<Rightarrow> string" where
  "latch_key r suffix = ''risk_'' @ take 32 (sg_content_hash (re_signal r)) @ ''_'' @ suffix"

definition engine_engagement :: "sha256 \<Rightarrow> RiskEvaluationRequest \<Rightarrow> RiskLatchKind \<Rightarrow> string \<Rightarrow> string \<Rightarrow> RiskLatchEvent res" where
  "engine_engagement sha r k reason suffix =
     create_latch_engagement sha (re_latch_state r) k
       \<lparr>rq_reason_code = reason, rq_actor = ''aqa_execution'', rq_occurred_at = re_evaluated_at r,
        rq_correlation_id = sg_correlation_id (re_signal r), rq_idempotency_key = latch_key r suffix\<rparr>"

definition required_latch_events :: "sha256 \<Rightarrow> RiskEvaluationRequest \<Rightarrow> ExperimentDefinition \<Rightarrow> string \<Rightarrow> bool \<Rightarrow> bool \<Rightarrow>
    RiskLatchEvent list res" where
  "required_latch_events sha r x h account_is_fresh reconciliation_is_fresh =
     (if st_experiment_hash (re_latch_state r) \<noteq> h then Inr []
      else
        bindE (if account_is_fresh then
            bindE (assess_financial_latches sha (as_equity (re_account r)) (re_session_start_equity r)
              (re_deployment_high_water_equity r) (re_latch_state r) (session_loss_trigger (risk_policy x))
              (deployment_drawdown_trigger (risk_policy x))) (\<lambda>a.
            mapE (\<lambda>k. engine_engagement sha r k (kind_value k) (take 16 (kind_value k))) (fa_engage a))
          else Inr []) (\<lambda>financial.
        bindE (if reconciliation_is_fresh \<and> \<not> rs_reconciled (re_reconciliation r) \<and>
              \<not> latch_is_active (re_latch_state r) RECONCILIATION
          then bindE (engine_engagement sha r RECONCILIATION ''reconciliation_not_clean'' ''reconciliation'') (\<lambda>e. Inr [e])
          else Inr []) (\<lambda>reconciliation.
        Inr (sort_key (\<lambda>e. kind_value (ev_latch_type e)) (financial @ reconciliation)))))"

definition effective_latches :: "RiskEvaluationRequest \<Rightarrow> RiskLatchEvent list \<Rightarrow> RiskLatchKind list" where
  "effective_latches r events =
     sort_key kind_value (remdups (st_active (re_latch_state r) @ map ev_latch_type events))"

definition latch_gates :: "RiskEvaluationRequest \<Rightarrow> RiskLatchKind list \<Rightarrow> gate list" where
  "latch_gates r latches =
     map (\<lambda>k. (kind_value k @ ''_latch_active'', False)) latches @
     blocks (re_operator_halt r \<and> OPERATOR_HALT \<notin> set latches) ''operator_halt_control_active'' @
     blocks (\<not> re_operator_halt r \<and> OPERATOR_HALT \<in> set latches) ''operator_halt_state_mismatch''"

section \<open>Decisions\<close>

text \<open>What the engine has established before it decides.\<close>

record evaluation =
  el_request :: RiskEvaluationRequest
  el_experiment :: ExperimentDefinition
  el_experiment_hash :: string
  el_policy_digest :: string
  el_input_hash :: string
  el_proposal :: "(string \<times> string \<times> decimal option \<times> decimal option) list"
  el_zero_exposure :: ExposureSnapshot
  el_events :: "RiskLatchEvent list"
  el_latches :: "RiskLatchKind list"
  el_gates :: "gate list"

definition source_timestamps :: "RiskEvaluationRequest \<Rightarrow> (string \<times> int) list" where
  "source_timestamps r =
     sort_key fst
      ([(''account'', as_observed_at (re_account r)), (''open_orders'', oo_observed_at (re_open_orders r)),
        (''reconciliation'', rs_observed_at (re_reconciliation r)), (''signal_created'', sg_created_at (re_signal r)),
        (''signal_source_bar_end'', sg_source_bar_end (re_signal r))] @
       map (\<lambda>p. (''price.'' @ pp_symbol p, pp_observed_at p)) (re_prices r) @
       map (\<lambda>m. (''security.'' @ sm_symbol m, sm_observed_at m)) (re_security_metadata r))"

definition engine_decision :: "sha256 \<Rightarrow> evaluation \<Rightarrow> weights \<Rightarrow> weights \<Rightarrow> ExposureSnapshot \<Rightarrow> ExposureSnapshot \<Rightarrow>
    AppliedRiskControl list \<Rightarrow> string list \<Rightarrow> string list \<Rightarrow> RiskExecutionScope \<Rightarrow> RiskDecision res" where
  "engine_decision sha v proposed final before after ctls block_reasons flatten_reasons execution =
     (let r = el_request v; x = el_experiment v in
      create_risk_decision sha
       \<lparr>risk_decision_id = '''', rd_slot_id = sg_slot_id (re_signal r), rd_signal_id = sg_signal_id (re_signal r),
        rd_signal_hash = sg_content_hash (re_signal r), rd_experiment_hash = el_experiment_hash v,
        rd_policy_id = policy_name (risk_policy x), rd_policy_version = policy_version (risk_policy x),
        rd_policy_hash = el_policy_digest v, rd_correlation_id = sg_correlation_id (re_signal r),
        rd_decided_at = re_evaluated_at r, rd_input_hash = el_input_hash v,
        rd_statistics_hash = stat_output_hash (re_statistics r), rd_account_snapshot = re_account r,
        rd_planning_positions = re_positions r, rd_planning_prices = re_prices r,
        rd_security_metadata = re_security_metadata r, rd_original_proposal = el_proposal v,
        rd_proposed_targets = proposed, rd_final_targets = final, rd_before_exposure = before,
        rd_after_exposure = after, rd_ordered_controls = ctls, rd_block_reasons = block_reasons,
        rd_flatten_reasons = flatten_reasons, rd_source_timestamps = source_timestamps r,
        rd_latch_state_hash = st_content_hash (re_latch_state r), rd_active_latches = el_latches v,
        rd_required_latch_events = el_events v, rd_execution_scope = execution, rd_content_hash = ''''\<rparr>)"

definition zero_targets :: "ExperimentDefinition \<Rightarrow> weights" where
  "zero_targets x = map (\<lambda>s. (s, dzero)) (active_tradable x)"

definition blocked_flat_decision :: "sha256 \<Rightarrow> evaluation \<Rightarrow> string \<Rightarrow> weights option \<Rightarrow> ExposureSnapshot option \<Rightarrow>
    AppliedRiskControl list \<Rightarrow> RiskDecision res" where
  "blocked_flat_decision sha v reason proposed before ctls =
     engine_decision sha v
       (case proposed of None \<Rightarrow> zero_targets (el_experiment v) | Some w \<Rightarrow> if w = [] then zero_targets (el_experiment v) else w)
       (zero_targets (el_experiment v)) (case before of None \<Rightarrow> el_zero_exposure v | Some b \<Rightarrow> b) (el_zero_exposure v)
       ctls [reason] [reason] RISK_REDUCING_ONLY"

definition deduplicate :: "'a list \<Rightarrow> 'a list" where
  "deduplicate xs = rev (remdups (rev xs))"

definition safe_components :: "RiskEvaluationRequest \<Rightarrow> ExperimentDefinition \<Rightarrow> string list list res" where
  "safe_components r x =
     (let singletons = map (\<lambda>s. [s]) (active_tradable x) in
      if stat_symbols (re_statistics r) \<noteq> active_tradable x then Inr singletons
      else case correlation_components 28 (re_statistics r) (correlation_edge_threshold (risk_policy x)) of
        Inl (SignedRiskPolicyError _) \<Rightarrow> Inr singletons
      | m \<Rightarrow> m)"

definition proposal_of :: "SignalEnvelope \<Rightarrow> string \<Rightarrow> (string \<times> string \<times> decimal option \<times> decimal option) res" where
  "proposal_of g s =
     bindE (action_for g s) (\<lambda>a. bindE (edge_for g s) (\<lambda>edge. bindE (target_input_for g s) (\<lambda>target.
       Inr (s, signal_action_value a, edge, target))))"

text \<open>The part of \<open>evaluate_signed_risk\<close> up to the collected reasons.\<close>

definition prepare :: "sha256 \<Rightarrow> RiskEvaluationRequest \<Rightarrow> ExperimentDefinition \<Rightarrow> evaluation res" where
  "prepare sha r x =
     bindE (policy_hash sha (risk_policy x) (risk_groups x)) (\<lambda>pol.
     bindE (risk_input_hash sha r pol) (\<lambda>input.
     bindE (safe_components r x) (\<lambda>cs.
     bindE (exposure_snapshot (zero_targets x) (risk_groups x) cs) (\<lambda>zero_exposure.
     bindE (mapE (proposal_of (re_signal r)) (active_tradable x)) (\<lambda>proposal.
     bindE (experiment_hash sha x) (\<lambda>h.
     bindE (eligibility_gates r) (\<lambda>eligibility.
     let gates = identity_gates r x h pol @ freshness_gates r @ integrity_gates r @ eligibility in
     bindE (required_latch_events sha r x h (''account_stale'' \<notin> fst ` set gates)
       (''reconciliation_stale'' \<notin> fst ` set gates)) (\<lambda>events.
     let latches = effective_latches r events in
     Inr \<lparr>el_request = r, el_experiment = x, el_experiment_hash = h, el_policy_digest = pol, el_input_hash = input,
       el_proposal = proposal, el_zero_exposure = zero_exposure, el_events = events, el_latches = latches,
       el_gates = gates @ latch_gates r latches\<rparr>))))))))"

section \<open>Sizing\<close>

text \<open>The exceptions an \<open>except DomainValidationError\<close> catches.\<close>

fun is_domain_error :: "error \<Rightarrow> bool" where
  "is_domain_error (DomainValidationError _) = True"
| "is_domain_error (ExecutionValidationError _) = True"
| "is_domain_error (RiskLatchError _) = True"
| "is_domain_error (RiskStatisticsError _) = True"
| "is_domain_error (SignedRiskValidationError _) = True"
| "is_domain_error (SignedRiskPolicyError _) = True"
| "is_domain_error (SignalValidationError _) = True"
| "is_domain_error (SlotValidationError _) = True"
| "is_domain_error _ = False"

fun is_decimal_exception :: "error \<Rightarrow> bool" where
  "is_decimal_exception (DecimalException _) = True"
| "is_decimal_exception _ = False"

fun action_direction :: "SignalAction \<Rightarrow> SignalDirection" where
  "action_direction LONG_ACTION = LONG_DIRECTION"
| "action_direction SHORT_ACTION = SHORT_DIRECTION"
| "action_direction FLAT_ACTION = FLAT_DIRECTION"

definition normalized_signals :: "RiskEvaluationRequest \<Rightarrow> SymbolSignal list res" where
  "normalized_signals r =
     mapE (\<lambda>s. bindE (action_for (re_signal r) s) (\<lambda>a. bindE (edge_for (re_signal r) s) (\<lambda>edge.
         validate_symbol_signal \<lparr>ss_symbol = s, ss_direction = action_direction a,
           ss_expected_edge_bps = (if a = FLAT_ACTION \<and> edge = None then Some dzero else edge)\<rparr>)))
       (sg_active_symbols (re_signal r))"

definition planning_prices_dict :: "RiskEvaluationRequest \<Rightarrow> (string, decimal) dict" where
  "planning_prices_dict r = map (\<lambda>p. (pp_symbol p, pp_price p)) (re_prices r)"

definition projected_quantities :: "RiskEvaluationRequest \<Rightarrow> (string, decimal) dict res" where
  "projected_quantities r =
     (let positions = map (\<lambda>p. (sp_symbol p, sp_quantity p)) (re_positions r);
          reserved = oo_reserved_signed_notional (re_open_orders r) in
      mapE (\<lambda>s. bindE (quotient (dict_get reserved s dzero) (dict_get (planning_prices_dict r) s dzero)) (\<lambda>q.
          Inr (s, dadd 50 (dict_get positions s dzero) q)))
        (sg_active_symbols (re_signal r)))"

definition append_controls :: "AppliedRiskControl list \<Rightarrow> AppliedRiskControl list \<Rightarrow> AppliedRiskControl list res" where
  "append_controls hard band =
     (if band = [] then Inr hard
      else bindE (mapE (\<lambda>(i, c). validate_control (c\<lparr>ordinal := int (length hard) + int i\<rparr>)) (List.enumerate 1 band))
        (\<lambda>cs. Inr (hard @ cs)))"

definition sized_signal :: "sha256 \<Rightarrow> evaluation \<Rightarrow> (InitialTargetResult \<times> ConstraintResult) res" where
  "sized_signal sha v =
     (let r = el_request v; x = el_experiment v in
      bindE (normalized_signals r) (\<lambda>signals.
      bindE (calculate_initial_targets sha signals (re_statistics r) (risk_policy x)) (\<lambda>initial.
      bindE (apply_signed_constraints sha (it_targets initial) (re_statistics r) (risk_policy x) (risk_groups x)) (\<lambda>constrained.
        Inr (initial, constrained)))))"

definition banded_targets :: "evaluation \<Rightarrow> ConstraintResult \<Rightarrow> shrink_state res" where
  "banded_targets v constrained =
     (let r = el_request v; x = el_experiment v in
      bindE (projected_quantities r) (\<lambda>quantities.
        apply_rebalance_band (final_targets constrained) quantities (planning_prices_dict r) (as_equity (re_account r))
          (re_statistics r) (risk_policy x) (risk_groups x) False))"

definition full_decision :: "sha256 \<Rightarrow> evaluation \<Rightarrow> InitialTargetResult \<Rightarrow> ConstraintResult \<Rightarrow> weights \<Rightarrow>
    AppliedRiskControl list \<Rightarrow> RiskDecision res" where
  "full_decision sha v initial constrained final band =
     bindE (exposure_snapshot final (risk_groups (el_experiment v)) (result_components constrained)) (\<lambda>final_exposure.
     bindE (append_controls (controls constrained) band) (\<lambda>ordered.
       engine_decision sha v (it_targets initial) final (before_exposure constrained) final_exposure ordered []
         (if it_reason_code initial = Some ''all_scores_zero'' then [''all_scores_zero''] else []) FULL))"

definition sized_decision :: "sha256 \<Rightarrow> evaluation \<Rightarrow> RiskDecision res" where
  "sized_decision sha v =
     (case sized_signal sha v of
        Inl e \<Rightarrow> if is_domain_error e then blocked_flat_decision sha v ''signal_or_statistics_invalid'' None None [] else Inl e
      | Inr (initial, constrained) \<Rightarrow>
          if \<not> converged constrained then
            blocked_flat_decision sha v
              (case reason_code constrained of None \<Rightarrow> ''risk_constraints_not_converged'' | Some c \<Rightarrow> c)
              (Some (it_targets initial)) (Some (before_exposure constrained)) (controls constrained)
          else (case banded_targets v constrained of
            Inl e \<Rightarrow> if is_domain_error e \<or> is_decimal_exception e
              then blocked_flat_decision sha v ''rebalance_inputs_invalid'' (Some (it_targets initial))
                (Some (before_exposure constrained)) (controls constrained)
              else Inl e
          | Inr (final, band) \<Rightarrow> full_decision sha v initial constrained final band))"

definition gated_decision :: "sha256 \<Rightarrow> evaluation \<Rightarrow> RiskDecision res" where
  "gated_decision sha v =
     (let reasons = deduplicate (map fst (el_gates v));
          execution = (if list_ex snd (el_gates v) then NONE_SCOPE else RISK_REDUCING_ONLY);
          zeros = zero_targets (el_experiment v) in
      engine_decision sha v zeros zeros (el_zero_exposure v) (el_zero_exposure v) [] reasons
        (if execution = RISK_REDUCING_ONLY then reasons else []) execution)"

definition evaluate_signed_risk :: "sha256 \<Rightarrow> RiskEvaluationRequest \<Rightarrow> ExperimentDefinition \<Rightarrow> RiskDecision res" where
  "evaluate_signed_risk sha r x =
     bindE (prepare sha r x) (\<lambda>v. if el_gates v \<noteq> [] then gated_decision sha v else sized_decision sha v)"

end
