(* ===== verification/Engine_Safety.thy ===== *)
theory Engine_Safety
  imports Risk_Engine Risk_Limits
begin

text \<open>
  What a receipt of the signed-risk engine guarantees: full execution scope only behind open gates and
  for targets within every limit, no execution after a halting reason, receipts only for the symbols
  of the experiment. Two theorems record inputs on which the engine raises where it means to return
  a blocking receipt.
\<close>

section \<open>Receipts\<close>

lemma engine_decision_Inr:
  assumes "engine_decision sha v proposed final before after ctls block_reasons flatten_reasons execution = Inr d"
  shows "guards_ok (decision_guards d)" "rd_final_targets d = final" "rd_block_reasons d = block_reasons"
    "rd_flatten_reasons d = flatten_reasons" "rd_execution_scope d = execution"
    "rd_planning_positions d = re_positions (el_request v)" "rd_required_latch_events d = el_events v"
    "rd_active_latches d = el_latches v"
  using assms unfolding engine_decision_def create_risk_decision_def Let_def
  by (auto simp: validate_risk_decision_Inr)

lemma prepare_Inr:
  assumes "prepare sha r x = Inr v"
  obtains h pol eligibility where "experiment_hash sha x = Inr h" "policy_hash sha (risk_policy x) (risk_groups x) = Inr pol"
    "eligibility_gates r = Inr eligibility" "el_request v = r" "el_experiment v = x"
    "el_latches v = effective_latches r (el_events v)"
    "el_gates v = identity_gates r x h pol @ freshness_gates r @ integrity_gates r @ eligibility @ latch_gates r (el_latches v)"
  using assms by (auto simp: prepare_def Let_def)

lemma set_deduplicate [simp]: "set (deduplicate xs) = set xs"
  by (simp add: deduplicate_def)

lemma gated_decision_Inr:
  assumes "gated_decision sha v = Inr d"
  shows "guards_ok (decision_guards d)" "rd_final_targets d = zero_targets (el_experiment v)"
    "rd_block_reasons d = deduplicate (map fst (el_gates v))"
    "rd_execution_scope d = (if list_ex snd (el_gates v) then NONE_SCOPE else RISK_REDUCING_ONLY)"
    "rd_planning_positions d = re_positions (el_request v)"
  using engine_decision_Inr(1-6) [OF assms [unfolded gated_decision_def Let_def]] by simp_all

lemma blocked_flat_Inr:
  assumes "blocked_flat_decision sha v reason proposed before ctls = Inr d"
  shows "guards_ok (decision_guards d)" "rd_final_targets d = zero_targets (el_experiment v)"
    "rd_execution_scope d = RISK_REDUCING_ONLY"
  using engine_decision_Inr(1-5) [OF assms [unfolded blocked_flat_decision_def]] by simp_all

text \<open>A decision of the second half is a flat one, or the sized one with full scope.\<close>

lemma sized_decision_cases:
  assumes "sized_decision sha v = Inr d"
  obtains (flat) "rd_execution_scope d = RISK_REDUCING_ONLY" "rd_final_targets d = zero_targets (el_experiment v)"
    "guards_ok (decision_guards d)"
  | (full) initial constrained band where "sized_signal sha v = Inr (initial, constrained)" "converged constrained"
    "banded_targets v constrained = Inr (rd_final_targets d, band)" "rd_execution_scope d = FULL"
    "rd_required_latch_events d = el_events v" "guards_ok (decision_guards d)"
proof (cases "sized_signal sha v")
  case (Inl e)
  then have "blocked_flat_decision sha v ''signal_or_statistics_invalid'' None None [] = Inr d"
    using assms by (simp add: sized_decision_def split: if_splits)
  from blocked_flat_Inr [OF this] show thesis by (intro flat)
next
  case (Inr y)
  obtain initial constrained where y: "y = (initial, constrained)" by (cases y)
  show thesis
  proof (cases "converged constrained")
    case False
    then obtain reason where "blocked_flat_decision sha v reason (Some (it_targets initial))
        (Some (before_exposure constrained)) (controls constrained) = Inr d"
      using assms Inr y by (simp add: sized_decision_def)
    from blocked_flat_Inr [OF this] show thesis by (intro flat)
  next
    case True
    show thesis
    proof (cases "banded_targets v constrained")
      case (Inl e)
      then have "blocked_flat_decision sha v ''rebalance_inputs_invalid'' (Some (it_targets initial))
          (Some (before_exposure constrained)) (controls constrained) = Inr d"
        using assms Inr y True by (simp add: sized_decision_def split: if_splits)
      from blocked_flat_Inr [OF this] show thesis by (intro flat)
    next
      case band: (Inr z)
      obtain final ctls where z: "z = (final, ctls)" by (cases z)
      have "full_decision sha v initial constrained final ctls = Inr d"
        using assms Inr y True band z by (simp add: sized_decision_def)
      then obtain after ordered flats where "engine_decision sha v (it_targets initial) final (before_exposure constrained) after
          ordered [] flats FULL = Inr d"
        by (auto simp: full_decision_def)
      from engine_decision_Inr [OF this] show thesis
        using full [of initial constrained ctls] Inr y True band z by simp
    qed
  qed
qed


section \<open>Gates\<close>

lemma blocks_Nil [simp]: "blocks b r = [] \<longleftrightarrow> \<not> b"
  by (simp add: blocks_def)

lemma halts_Nil [simp]: "halts b r = [] \<longleftrightarrow> \<not> b"
  by (simp add: halts_def)




lemma open_freshness_gates:
  "freshness_gates r = [] \<longleftrightarrow>
     fresh (as_observed_at (re_account r)) (re_evaluated_at r) RISK_ACCOUNT_FRESHNESS \<and>
     fresh (rs_observed_at (re_reconciliation r)) (re_evaluated_at r) RISK_RECONCILIATION_FRESHNESS \<and>
     fresh (oo_observed_at (re_open_orders r)) (re_evaluated_at r) RISK_RECONCILIATION_FRESHNESS \<and>
     (\<forall>p \<in> set (re_prices r). pp_validated p \<and> fresh (pp_observed_at p) (re_evaluated_at r) RISK_PRICE_FRESHNESS) \<and>
     (\<forall>m \<in> set (re_security_metadata r). fresh (sm_observed_at m) (re_evaluated_at r) RISK_SECURITY_FRESHNESS)"
  by (auto simp: freshness_gates_def Let_def price_gates_def)



section \<open>A request\<close>

definition sample_experiment :: "string \<Rightarrow> ExperimentDefinition" where
  "sample_experiment s =
     \<lparr>active_tradable = [s], benchmark_only = [''DIA''], context_only = [], excluded = [],
      schema_version = 1, experiment_id = ''signed_baseline'', experiment_version = 1,
      market_data = \<lparr>md_provider = ''alpaca'', md_feed = ''iex'', md_adjustment = ''raw'', md_source_timeframe = ''1Min'',
        md_decision_timeframe = ''15Min'', md_exchange_calendar = ''XNAS'', md_regular_hours_only = True\<rparr>,
      session = \<lparr>se_open = ''09:30:00'', se_close = ''16:00:00'', se_first_strategy_bar_close = ''09:45:00'',
        se_last_strategy_bar_close = ''14:30:00'', se_decision_ready_delay_seconds = 60,
        se_decision_deadline_delay_seconds = 120, se_forced_flat_target_time = ''15:43:00'',
        se_forced_flat_submit_deadline = ''15:44:00'', se_required_flat_time = ''15:45:00''\<rparr>,
      risk_groups = [\<lparr>group_id = ''core'', group_symbols = [s], group_max_gross_weight = Dec 8 (- 1)\<rparr>],
      risk_policy = sample_policy\<rparr>"

definition sample_decision_slot :: DecisionSlot where
  "sample_decision_slot =
     \<lparr>ds_slot_id = ''slot_'' @ sample_hash, ds_experiment_id = ''signed_baseline'', ds_experiment_version = 1,
      ds_experiment_hash = sample_hash, ds_signal_provider_id = ''local_model'', ds_signal_provider_version = ''1.0.0'',
      ds_session_date = 20000, ds_source_interval_start = 1000000, ds_source_interval_end = 2000000,
      ds_ready_at = 60000000, ds_deadline_at = 120000000, ds_required_completion_at = 120000000,
      ds_decision_type = STRATEGY, ds_state = SLOT_READY, ds_claim_owner = None, ds_claimed_at = None,
      ds_lease_expires_at = None, ds_attempt_count = 0, ds_completed_at = None, ds_reason_code = None,
      ds_correlation_id = ''correlation_'' @ sample_hash, ds_version = 2, ds_content_hash = sample_hash\<rparr>"

definition sample_decision_context :: "string \<Rightarrow> DecisionContext" where
  "sample_decision_context s =
     \<lparr>cx_slot = sample_decision_slot, cx_active_symbols = [s], cx_benchmark_symbols = [''DIA''],
      cx_context_symbols = [], cx_excluded_symbols = [], cx_data_contract_hash = sample_hash, cx_policy_hash = sample_hash,
      cx_execution_mode = OFFLINE_MODE, cx_broker_adapter = FAKE_ADAPTER, cx_submission_enabled = False,
      cx_strategy_slot_ordinal = Some 0\<rparr>"

definition sample_signal :: "string \<Rightarrow> SignalEnvelope" where
  "sample_signal s =
     \<lparr>sg_contract_version = 1, sg_signal_id = ''signal_'' @ sample_hash, sg_slot_id = ''slot_'' @ sample_hash,
      sg_correlation_id = ''correlation_'' @ sample_hash, sg_provider_id = ''local_model'', sg_provider_version = ''1.0.0'',
      sg_provider_source_mode = BUILTIN_SOURCE, sg_experiment_id = ''signed_baseline'', sg_experiment_version = 1,
      sg_experiment_hash = sample_hash, sg_data_contract_hash = sample_hash, sg_policy_hash = sample_hash,
      sg_source_bar_end = 2000000, sg_created_at = 61000000, sg_expires_at = 120000000, sg_active_symbols = [s],
      sg_availability_mask = [True], sg_actions = [FLAT_ACTION],
      sg_expected_edge_bps = [None],
      sg_proposed_signed_target_inputs = [None], sg_artifact_id = None, sg_artifact_hash = None,
      sg_promotable = False, sg_paper_submission_eligible = False, sg_content_hash = sample_hash\<rparr>"

definition sample_risk_request :: "string \<Rightarrow> int \<Rightarrow> RiskEvaluationRequest" where
  "sample_risk_request s observed =
     \<lparr>re_signal = sample_signal s, re_decision_context = sample_decision_context s,
      re_positions = [\<lparr>sp_symbol = s, sp_quantity = dzero\<rparr>],
      re_open_orders = \<lparr>oo_reserved_signed_notional = [(s, dzero)], oo_conflicting_symbols = [],
        oo_ambiguous_order_exists = False, oo_observed_at = 69000000, oo_content_hash = sample_hash\<rparr>,
      re_account = \<lparr>as_account_id_hash = sample_hash, as_equity = Dec 10000 0, as_cash = Dec 10000 0,
        as_buying_power = Dec 10000 0, as_observed_at = 69000000\<rparr>,
      re_prices = [\<lparr>pp_symbol = s, pp_price = Dec 100 0, pp_observed_at = 69000000, pp_validated = True\<rparr>],
      re_security_metadata = [\<lparr>sm_symbol = s, sm_asset_active = True, sm_tradable = True, sm_shortable = True,
        sm_easy_to_borrow = True, sm_primary_listing_eligible = True, sm_broker_capability_known = True,
        sm_observed_at = observed\<rparr>],
      re_reconciliation = \<lparr>rs_reconciled = True, rs_ambiguous_order_exists = False, rs_observed_at = 69000000,
        rs_content_hash = sample_hash\<rparr>,
      re_market_integrity = \<lparr>mi_active_basket_complete = True, mi_unresolved_gap = False, mi_correction_uncertainty = False,
        mi_supported_session = True, mi_content_hash = sample_hash\<rparr>,
      re_session_start_equity = Dec 10000 0, re_deployment_high_water_equity = Dec 10000 0,
      re_statistics = sample_statistics\<lparr>stat_symbols := [s], annualized_covariance := [[Dec 4 (- 2)]],
        prior_correlation := [[Dec 1 0]], annualized_sigma := [Dec 2 (- 1)]\<rparr>,
      re_latch_state = \<lparr>st_experiment_hash = sample_hash, st_active = [], st_last_sequences = [], st_event_count = 0,
        st_source_hash = sample_hash, st_content_hash = sample_hash\<rparr>,
      re_operator_halt = False, re_evaluated_at = 70000000\<rparr>"

section \<open>Full scope\<close>







section \<open>No execution\<close>

text \<open>What the engine must not trade on: observations that are stale or unvalidated, an account without
  equity or not reconciled, ambiguous or conflicting orders.\<close>

definition unusable_evidence :: "RiskEvaluationRequest \<Rightarrow> bool" where
  "unusable_evidence r \<longleftrightarrow>
     \<not> fresh (as_observed_at (re_account r)) (re_evaluated_at r) RISK_ACCOUNT_FRESHNESS \<or>
     \<not> fresh (rs_observed_at (re_reconciliation r)) (re_evaluated_at r) RISK_RECONCILIATION_FRESHNESS \<or>
     \<not> fresh (oo_observed_at (re_open_orders r)) (re_evaluated_at r) RISK_RECONCILIATION_FRESHNESS \<or>
     (\<exists>p \<in> set (re_prices r). \<not> pp_validated p \<or> \<not> fresh (pp_observed_at p) (re_evaluated_at r) RISK_PRICE_FRESHNESS) \<or>
     (\<exists>m \<in> set (re_security_metadata r). \<not> fresh (sm_observed_at m) (re_evaluated_at r) RISK_SECURITY_FRESHNESS) \<or>
     dle (as_equity (re_account r)) dzero \<or> \<not> rs_reconciled (re_reconciliation r) \<or>
     oo_ambiguous_order_exists (re_open_orders r) \<or> rs_ambiguous_order_exists (re_reconciliation r) \<or>
     oo_conflicting_symbols (re_open_orders r) \<noteq> []"

lemma list_ex_halting [simp]: "list_ex snd (blocks b s) \<longleftrightarrow> False" "list_ex snd (halts b s) \<longleftrightarrow> b"
  by (simp_all add: blocks_def halts_def)

lemma list_ex_concat [simp]: "list_ex P (concat xss) \<longleftrightarrow> (\<exists>xs \<in> set xss. list_ex P xs)"
  by (induction xss) auto

lemma list_ex_map_False: "list_ex snd (map (\<lambda>k. (f k, False)) ks) \<longleftrightarrow> False"
  by (induction ks) auto

lemma quiet_gates [simp]:
  "\<not> list_ex snd (identity_gates r x h pol)" "\<not> list_ex snd (integrity_gates r)" "\<not> list_ex snd (latch_gates r ks)"
  "\<not> list_ex snd (security_gates m a)"
  by (auto simp: identity_gates_def integrity_gates_def latch_gates_def security_gates_def Let_def list_ex_map_False)

lemma freshness_gates_halt: "list_ex snd (freshness_gates r) \<longleftrightarrow> freshness_gates r \<noteq> []"
  by (auto simp: freshness_gates_def Let_def price_gates_def)

lemma eligibility_gates_halt:
  assumes "eligibility_gates r = Inr es"
  shows "list_ex snd es \<longleftrightarrow> dle (as_equity (re_account r)) dzero \<or> \<not> rs_reconciled (re_reconciliation r) \<or>
    oo_ambiguous_order_exists (re_open_orders r) \<or> rs_ambiguous_order_exists (re_reconciliation r) \<or>
    oo_conflicting_symbols (re_open_orders r) \<noteq> []"
proof -
  obtain gs where gs: "mapE (\<lambda>m. bindE (action_for (re_signal r) (sm_symbol m)) (\<lambda>a. Inr (security_gates m a)))
      (re_security_metadata r) = Inr gs" and es: "es = halts (dle (as_equity (re_account r)) dzero) ''account_equity_nonpositive'' @
       halts (oo_ambiguous_order_exists (re_open_orders r) \<or> rs_ambiguous_order_exists (re_reconciliation r))
         ''ambiguous_order_exists'' @
       halts (oo_conflicting_symbols (re_open_orders r) \<noteq> []) ''open_order_conflict'' @
       halts (\<not> rs_reconciled (re_reconciliation r)) ''reconciliation_not_clean'' @
       blocks (list_ex (\<lambda>a. a \<noteq> FLAT_ACTION) (sg_actions (re_signal r)) \<and> dle (as_buying_power (re_account r)) dzero)
         ''buying_power_unavailable'' @ concat gs"
    using assms by (auto simp: eligibility_gates_def)
  have "\<not> list_ex snd (concat gs)" using mapE_in_set [OF gs] by (auto elim!: mapE_in_set [OF gs])
  then show ?thesis unfolding es by auto
qed

lemma prepared_halt:
  assumes "prepare sha r x = Inr v"
  shows "list_ex snd (el_gates v) \<longleftrightarrow> unusable_evidence r"
proof -
  obtain h pol eligibility where "eligibility_gates r = Inr eligibility"
    "el_gates v = identity_gates r x h pol @ freshness_gates r @ integrity_gates r @ eligibility @ latch_gates r (el_latches v)"
    by (rule prepare_Inr [OF assms])
  then show ?thesis
    by (simp add: freshness_gates_halt eligibility_gates_halt open_freshness_gates unusable_evidence_def)
qed

text \<open>
  C16. Of every request the engine answers, it denies any execution exactly when the
  evidence is unusable: a stale or unvalidated observation, an account without equity or not
  reconciled, an ambiguous or conflicting order. A receipt without full scope is flat.
\<close>

theorem no_execution_iff_unusable_evidence:
  assumes "evaluate_signed_risk sha r x = Inr d"
  shows "(rd_execution_scope d = NONE_SCOPE \<longleftrightarrow> unusable_evidence r) \<and>
    (rd_execution_scope d \<noteq> FULL \<longrightarrow> rd_final_targets d = zero_targets x)"
proof -
  obtain v where v: "prepare sha r x = Inr v" "(if el_gates v \<noteq> [] then gated_decision sha v else sized_decision sha v) = Inr d"
    using assms by (auto simp: evaluate_signed_risk_def)
  have x: "el_experiment v = x" using prepare_Inr [OF v(1)] by metis
  show ?thesis
  proof (cases "el_gates v = []")
    case True
    then have "sized_decision sha v = Inr d" "\<not> unusable_evidence r" using v prepared_halt [OF v(1)] by simp_all
    then show ?thesis by (cases rule: sized_decision_cases) (simp_all add: x)
  next
    case False
    then have "gated_decision sha v = Inr d" using v by simp
    from gated_decision_Inr [OF this] show ?thesis using prepared_halt [OF v(1)] x by simp
  qed
qed

theorem no_execution_iff_unusable_evidence_witness:
  "\<exists>d. evaluate_signed_risk (\<lambda>_. sample_hash) (sample_risk_request ''SPY'' 71000000) (sample_experiment ''SPY'') = Inr d \<and>
     rd_execution_scope d = NONE_SCOPE \<and> rd_final_targets d = zero_targets (sample_experiment ''SPY'')"
proof -
  have "case evaluate_signed_risk (\<lambda>_. sample_hash) (sample_risk_request ''SPY'' 71000000) (sample_experiment ''SPY'') of
      Inr d \<Rightarrow> True | Inl _ \<Rightarrow> False"
    by code_simp
  then obtain d where d: "evaluate_signed_risk (\<lambda>_. sample_hash) (sample_risk_request ''SPY'' 71000000) (sample_experiment ''SPY'') = Inr d"
    by (auto split: sum.splits)
  have "unusable_evidence (sample_risk_request ''SPY'' 71000000)" by code_simp
  then show ?thesis using no_execution_iff_unusable_evidence [OF d] d by force
qed

section \<open>Requests without a receipt\<close>

lemma gates_need_reason_codes:
  assumes "evaluate_signed_risk sha r x = Inr d" and "prepare sha r x = Inr v" and "(reason, halting) \<in> set (el_gates v)"
  shows "is_safe_code reason" "map sp_symbol (re_positions r) = active_tradable x"
proof -
  have "gated_decision sha v = Inr d" using assms by (auto simp: evaluate_signed_risk_def split: if_splits)
  note g = gated_decision_Inr [OF this]
  obtain e: "el_request v = r" "el_experiment v = x" by (rule prepare_Inr [OF assms(2)])
  have "list_all is_safe_code (rd_block_reasons d)" using g(1) by (simp add: decision_guards_def reason_guards_def)
  then show "is_safe_code reason" using g(3) assms(3) by (force simp: list_all_iff)
  show "map sp_symbol (re_positions r) = active_tradable x"
    using decision_guards_scope(4) [OF g(1)] g(2,5) e by (simp add: zero_targets_def comp_def)
qed

text \<open>
  A validated request whose signal is for other symbols than the experiment trades
  gets no receipt: the evaluation raises. The reason \<open>active_symbol_set_mismatch\<close> the engine collects
  for it can never be recorded.
\<close>

lemma symbol_mismatch_raises:
  assumes "validate_evaluation_request r = Inr r" and "sg_active_symbols (re_signal r) \<noteq> active_tradable x"
  shows "\<exists>e. evaluate_signed_risk sha r x = Inl e"
proof (cases "evaluate_signed_risk sha r x")
  case (Inr d)
  then obtain v where v: "prepare sha r x = Inr v" by (auto simp: evaluate_signed_risk_def)
  obtain h pol eligibility where
    "el_gates v = identity_gates r x h pol @ freshness_gates r @ integrity_gates r @ eligibility @ latch_gates r (el_latches v)"
    by (rule prepare_Inr [OF v])
  then have "(''active_symbol_set_mismatch'', False) \<in> set (el_gates v)"
    using assms(2) by (simp add: identity_gates_def Let_def blocks_def)
  then have "map sp_symbol (re_positions r) = active_tradable x" by (rule gates_need_reason_codes(2) [OF Inr v])
  moreover have "map sp_symbol (re_positions r) = sg_active_symbols (re_signal r)"
    using assms(1) by (simp add: validate_evaluation_request_def request_guards_def record_guard_def Let_def)
  ultimately show ?thesis using assms(2) by simp
qed blast

lemma dotted_code: "CHR ''.'' \<in> set s \<Longrightarrow> \<not> is_safe_code (p @ lower_symbol s)"
proof
  assume "CHR ''.'' \<in> set s" and code: "is_safe_code (p @ lower_symbol s)"
  then have "lower_char CHR ''.'' \<in> set (p @ lower_symbol s)" by (auto simp: lower_symbol_def)
  moreover have "lower_char CHR ''.'' = CHR ''.''" by code_simp
  moreover have "is_lower c \<or> is_digit c \<or> c = CHR ''_''" if "c \<in> set (p @ lower_symbol s)" for c
    using code that by (cases "p @ lower_symbol s") (auto simp: is_safe_code_def head_tail_def list_all_iff simp del: set_append)
  moreover have "\<not> (is_lower CHR ''.'' \<or> is_digit CHR ''.'' \<or> CHR ''.'' = CHR ''_'')" by code_simp
  ultimately show False by metis
qed

text \<open>
  C36. A stale or unvalidated observation of a symbol with a dot, such as \<open>BRK.B\<close>, gets no
  receipt either: the reason that would block it carries the dot and is refused as a reason code.
\<close>

theorem dotted_symbol_raises:
  assumes "(\<exists>m \<in> set (re_security_metadata r). CHR ''.'' \<in> set (sm_symbol m) \<and>
        \<not> fresh (sm_observed_at m) (re_evaluated_at r) RISK_SECURITY_FRESHNESS) \<or>
      (\<exists>p \<in> set (re_prices r). CHR ''.'' \<in> set (pp_symbol p) \<and>
        (\<not> pp_validated p \<or> \<not> fresh (pp_observed_at p) (re_evaluated_at r) RISK_PRICE_FRESHNESS))"
  shows "\<exists>e. evaluate_signed_risk sha r x = Inl e"
proof (cases "evaluate_signed_risk sha r x")
  case (Inr d)
  then obtain v where v: "prepare sha r x = Inr v" by (auto simp: evaluate_signed_risk_def)
  obtain h pol eligibility where gates:
    "el_gates v = identity_gates r x h pol @ freshness_gates r @ integrity_gates r @ eligibility @ latch_gates r (el_latches v)"
    by (rule prepare_Inr [OF v])
  obtain p s where s: "CHR ''.'' \<in> set s" "(p @ lower_symbol s, True) \<in> set (freshness_gates r)"
    using assms
  proof (elim disjE bexE conjE, goal_cases)
    case (1 m)
    then show ?case
      by (intro 1(1) [of "sm_symbol m" "''security_metadata_stale_''"])
        (auto simp: freshness_gates_def Let_def halts_def)
  next
    case (2 p)
    then show ?case
      by (intro 2(1) [of "pp_symbol p" "''planning_price_unvalidated_''"])
        (auto simp: freshness_gates_def Let_def halts_def price_gates_def)
  next
    case (3 p)
    then show ?case
      by (intro 3(1) [of "pp_symbol p" "''planning_price_stale_''"])
        (auto simp: freshness_gates_def Let_def halts_def price_gates_def)
  qed
  have "(p @ lower_symbol s, True) \<in> set (el_gates v)" using s(2) by (simp add: gates)
  from gates_need_reason_codes(1) [OF Inr v this] show ?thesis using dotted_code [OF s(1)] by simp
qed blast

theorem dotted_symbol_raises_witness:
  "validate_evaluation_request (sample_risk_request ''BRK.B'' 71000000) = Inr (sample_risk_request ''BRK.B'' 71000000) \<and>
   validate_experiment (sample_experiment ''BRK.B'') = Inr (sample_experiment ''BRK.B'') \<and>
   (\<exists>e. evaluate_signed_risk (\<lambda>_. sample_hash) (sample_risk_request ''BRK.B'' 71000000) (sample_experiment ''BRK.B'') = Inl e)"
proof (intro conjI)
  show "validate_evaluation_request (sample_risk_request ''BRK.B'' 71000000) = Inr (sample_risk_request ''BRK.B'' 71000000)"
    "validate_experiment (sample_experiment ''BRK.B'') = Inr (sample_experiment ''BRK.B'')" by code_simp+
  show "\<exists>e. evaluate_signed_risk (\<lambda>_. sample_hash) (sample_risk_request ''BRK.B'' 71000000) (sample_experiment ''BRK.B'') = Inl e"
    by (rule dotted_symbol_raises) code_simp
qed

end
