(* ===== verification/Spec2Isabelle.thy ===== *)
theory Spec2Isabelle
  imports Risk_Limits Correlation_Clusters Plan_Batches Clean_Receipts Audit_Chains Submission_Once Slot_Leases Engine_Safety
begin

text \<open>
  A model of the execution and risk core of the trading platform
  (\<open>src/src/adaptive_trader/platform\<close>): the path from a scheduled decision and its signal over the
  risk engine to orders, fills and reconciliation.

  \<^bold>\<open>How the program is put together.\<close> The scheduler (\<open>scheduling/\<close>) creates the decision slots of a
  session; a worker claims a slot under a lease and a provider makes a signal proposal for it
  (\<open>signals/models.py\<close>). The risk engine (\<open>risk/engine.py\<close>) evaluates the proposal behind ordered
  gates and issues a risk decision, a receipt with bounded target weights (\<open>risk/\<close>). The planner
  (\<open>execution/planner.py\<close>) turns it into an execution plan and at most sixteen order intents. The
  execution service (\<open>execution/service.py\<close>) submits the intents a submission authority approves
  (\<open>execution/authorization.py\<close>); every intent becomes a broker order that moves through a fixed state
  graph (\<open>execution/state_machine.py\<close>) in the execution ledger (\<open>execution/repository.py\<close>), which
  records orders, events, fills and audit events. Reconciliation (\<open>execution/reconciliation.py\<close>)
  compares what was recorded with what the broker reports; a difference opens an incident and engages
  a latch (\<open>risk/latches.py\<close>) that blocks new exposure until an operator clears it. All records are
  immutable and carry a content hash over canonical JSON (\<open>canonical.py\<close>, \<open>hashing.py\<close>); audit events
  (\<open>domain.py\<close>, \<open>storage/repositories.py\<close>) are chained by their hashes.

  \<^bold>\<open>Theories and sources.\<close>
  \<^item> \<open>Prelude\<close>: results with errors, guard lists, dictionaries as association lists, character
    classes of the regular expressions.
  \<^item> \<open>Decimals\<close>: Python's \<open>decimal.Decimal\<close> at a context precision (28 digits by default, 50 in the
    risk policy), with the locales \<open>decimal_context\<close> and \<open>accurate_context\<close> for the facts that hold
    at every precision; \<open>domain.require_finite_decimal\<close>, \<open>domain.quantize_decimal\<close>.
  \<^item> \<open>Canonical\<close>: \<open>canonical.py\<close>, \<open>hashing.py\<close>, \<open>domain.DeterministicId\<close>. \<open>Json_Text\<close>: \<open>json.loads\<close> as a
    parser, inverse to the canonical rendering. \<open>Instants\<close>: the texts of instants.
  \<^item> \<open>Audit_Payloads\<close>, \<open>Audit_Events\<close>, \<open>Audit_Chains\<close>: the payload vocabulary, sealed events and append
    protocol of \<open>domain.py\<close> and \<open>storage/repositories.py\<close>, and what a verified chain pins down.
  \<^item> \<open>Experiments\<close>: \<open>universe.py\<close> and the experiment definition of \<open>config.py\<close>. \<open>Decision_Slots\<close>:
    \<open>scheduling/models.py\<close>. \<open>Slot_Repository\<close>: \<open>DecisionSlotRepository\<close> of \<open>scheduling/service.py\<close>;
    \<open>Slot_Leases\<close> proves its invariant, the lease protocol and the slot contract over every sequence
    of operations. \<open>Signals\<close>: \<open>signals/models.py\<close>.
  \<^item> \<open>Risk_Latches\<close>: \<open>risk/latches.py\<close>. \<open>Risk_Policy\<close>, \<open>Risk_Sizing\<close>, \<open>Risk_Limits\<close>,
    \<open>Correlation_Clusters\<close>: \<open>risk/policy.py\<close> and \<open>risk/statistics.py\<close>. \<open>Risk_Decisions\<close>:
    \<open>risk/models.py\<close>. \<open>Risk_Engine\<close>: \<open>risk/engine.py\<close>; \<open>Engine_Safety\<close> shows when a receipt grants
    execution and which requests get none.
  \<^item> \<open>Order_State\<close>: \<open>execution/state_machine.py\<close> and the enumerations of \<open>execution/models.py\<close>.
    \<open>Execution_Models\<close>, \<open>Broker_Orders\<close>, \<open>Receipts\<close>: the records of \<open>execution/models.py\<close>.
  \<^item> \<open>Quantity_Grid\<close>, \<open>Planner\<close>, \<open>Plan_Batches\<close>: \<open>execution/planner.py\<close>.
  \<^item> \<open>Submission_Authority\<close>: \<open>execution/authorization.py\<close>. \<open>Execution_Ledger\<close>, \<open>Ledger_Invariants\<close>:
    \<open>execution/repository.py\<close> and its invariant. \<open>Execution_Service\<close>, \<open>Submission_Once\<close>:
    \<open>execution/service.py\<close>, with any broker, and its runs with exceptions and restarts.
  \<^item> \<open>Reconciliation\<close>, \<open>Clean_Receipts\<close>: \<open>execution/reconciliation.py\<close>.

  \<^bold>\<open>Conventions.\<close> A dataclass is a record, its \<open>__post_init__\<close> a \<open>validate_*\<close> function, its \<open>create\<close> a
  \<open>create_*\<close> function. A function that may raise returns \<open>Inl\<close> of the exception with its message or
  \<open>Inr\<close> of the result. An operation of the in-memory ledger returns its result together with the state
  it leaves behind, also when it raises. An operation of the slot repository is a transaction: it
  returns its result with the new store or raises, and is then rolled back. Static types discharge
  the dynamic type tests of the source. Instants are microseconds since 1970 in UTC; strings are
  their UTF-8 bytes.

  \<^bold>\<open>Parameters.\<close> \<open>sha\<close> is \<open>hashlib.sha256(...).hexdigest()\<close>; every definition that hashes takes it as
  an argument, and a theorem that needs its results to be digests says so. \<open>record_bundle\<close> is the
  repository call of \<open>reconcile_and_persist\<close>. The broker of the service is a record of functions with
  any behaviour. \<open>probe\<close> is the materialization query of the slot repository, \<open>market_instant\<close> the time
  zone database, \<open>calendar\<close> the exchange calendar, \<open>respects_floor\<close> the eigenvalue test of NumPy.

  \<^bold>\<open>Bounds and fuel.\<close> A split stops after sixteen parts and a plan holds at most sixteen intents, as
  in the source. The constraint loop runs the eight passes of the source. Union-find takes as fuel
  the number of symbols, which the forest's depth never exceeds. The JSON parser takes twice the
  length of the text and two as fuel; \<open>Json_Text\<close> shows that more changes nothing. The
  Newton iteration of \<open>Decimal.sqrt\<close> terminates because its argument decreases. Quantities below
  \<open>10^22\<close> on the millionth grid are exact at 28 digits; the theorems on the planner and on positions
  rest on it.

  \<^bold>\<open>Not modelled.\<close> The SQL storage (\<open>storage/\<close> beside the append protocol) and the job repository are
  statements for a database; the Alpaca adapter and the market data pipeline (\<open>data/\<close>) are network
  clients over third-party types; \<open>compute_risk_statistics\<close> estimates on binary floating point with
  NumPy; the signal providers, the scheduled flatten loop, the scripted fake broker, the
  configuration files, runtime, dashboard, control plane and command line are glue around the modelled
  core; the legacy trader and the research code work on pandas data frames.
\<close>

end
